(* ===== verification/Prelude.thy ===== *)
theory Prelude
  imports Main "HOL-Library.List_Lexorder" "HOL-Library.Char_ord" "HOL-Library.Product_Lexorder"
    "HOL-Library.Code_Target_Nat"
begin

text \<open>
  Shared vocabulary of the development: the collections of simplification rules, the type
  of fallible results, and the generic lemmas about keyed lists, first-match search and
  de-duplication that the component theories use. Strings are byte lists (Go strings are
  byte sequences), ordered bytewise as Go orders them.
\<close>

named_theorems frame_simps \<open>what an operation leaves unchanged\<close>
named_theorems inv_intros \<open>an operation keeps the invariant of its component\<close>

type_synonym ('e, 'a) res = "'e + 'a"

abbreviation ok :: "'a \<Rightarrow> ('e, 'a) res" where "ok \<equiv> Inr"
abbreviation fail :: "'e \<Rightarrow> ('e, 'a) res" where "fail \<equiv> Inl"

definition is_ok :: "('e, 'a) res \<Rightarrow> bool" where
  "is_ok r = (case r of Inl _ \<Rightarrow> False | Inr _ \<Rightarrow> True)"

lemma is_ok_simps [simp]: "\<not> is_ok (Inl e)" "is_ok (Inr a)"
  by (simp_all add: is_ok_def)

text \<open>Sequencing of fallible loop bodies: the first error ends the loop.\<close>

fun fold_res :: "('s \<Rightarrow> 'a \<Rightarrow> ('e, 's) res) \<Rightarrow> 's \<Rightarrow> 'a list \<Rightarrow> ('e, 's) res" where
  "fold_res f s [] = Inr s"
| "fold_res f s (x # xs) = (case f s x of Inl e \<Rightarrow> Inl e | Inr s' \<Rightarrow> fold_res f s' xs)"

lemma fold_res_append:
  "fold_res f s (xs @ ys) = (case fold_res f s xs of Inl e \<Rightarrow> Inl e | Inr s' \<Rightarrow> fold_res f s' ys)"
  by (induction xs arbitrary: s) (auto split: sum.splits)

text \<open>The first error a check reports over a list; None when every element passes.\<close>

fun first_some :: "('a \<Rightarrow> 'e option) \<Rightarrow> 'a list \<Rightarrow> 'e option" where
  "first_some f [] = None"
| "first_some f (x # xs) = (case f x of Some e \<Rightarrow> Some e | None \<Rightarrow> first_some f xs)"

lemma first_some_None [simp]: "first_some f xs = None \<longleftrightarrow> (\<forall>x \<in> set xs. f x = None)"
  by (induction xs) (auto split: option.splits)

text \<open>Replace the first element with the key of the new one, or append: the loop shared by
  every upsert of the store.\<close>

fun upsert_by :: "('a \<Rightarrow> 'k) \<Rightarrow> 'a \<Rightarrow> 'a list \<Rightarrow> 'a list" where
  "upsert_by key x [] = [x]"
| "upsert_by key x (y # ys) = (if key y = key x then x # ys else y # upsert_by key x ys)"

definition delete_by :: "('a \<Rightarrow> 'k) \<Rightarrow> 'k \<Rightarrow> 'a list \<Rightarrow> 'a list" where
  "delete_by key k xs = filter (\<lambda>y. key y \<noteq> k) xs"

definition lookup_by :: "('a \<Rightarrow> 'k) \<Rightarrow> 'k \<Rightarrow> 'a list \<Rightarrow> 'a option" where
  "lookup_by key k xs = find (\<lambda>y. key y = k) xs"

lemma lookup_by_simps [simp]:
  "lookup_by key k [] = None"
  "lookup_by key k (y # ys) = (if key y = k then Some y else lookup_by key k ys)"
  by (simp_all add: lookup_by_def)

lemma delete_by_simps [simp]:
  "delete_by key k [] = []"
  "delete_by key k (y # ys) = (if key y = k then delete_by key k ys else y # delete_by key k ys)"
  by (simp_all add: delete_by_def)

lemma set_delete_by [simp]: "set (delete_by key k xs) = {x \<in> set xs. key x \<noteq> k}"
  by (auto simp: delete_by_def)

lemma lookup_by_Some_in: "lookup_by key k xs = Some x \<Longrightarrow> x \<in> set xs \<and> key x = k"
  by (induction xs) (auto split: if_splits)

lemma lookup_by_None: "lookup_by key k xs = None \<longleftrightarrow> k \<notin> key ` set xs"
  by (induction xs) auto

lemma lookup_by_distinct:
  "distinct (map key xs) \<Longrightarrow> x \<in> set xs \<Longrightarrow> lookup_by key (key x) xs = Some x"
  by (induction xs) (auto simp: rev_image_eqI)

lemma lookup_upsert_by [simp]:
  "lookup_by key k (upsert_by key x xs) = (if k = key x then Some x else lookup_by key k xs)"
  by (induction xs) auto

lemma lookup_delete_by [simp]:
  "lookup_by key k (delete_by key k' xs) = (if k = k' then None else lookup_by key k xs)"
  by (induction xs) auto

lemma keys_upsert_by: "key ` set (upsert_by key x xs) = insert (key x) (key ` set xs)"
  by (induction xs) auto

lemma distinct_upsert_by:
  "distinct (map key xs) \<Longrightarrow> distinct (map key (upsert_by key x xs))"
proof (induction xs)
  case Nil
  then show ?case by simp
next
  case (Cons y ys)
  have "key y \<noteq> key x \<Longrightarrow> key y \<notin> key ` set (upsert_by key x ys)"
    using Cons.prems by (simp add: keys_upsert_by)
  with Cons show ?case by auto
qed

lemma distinct_delete_by: "distinct (map key xs) \<Longrightarrow> distinct (map key (delete_by key k xs))"
  by (simp add: delete_by_def distinct_map_filter)

text \<open>De-duplication in first-seen order, with the elements already seen: the
  \<^verbatim>\<open>seen\<close> map of the Go loops.\<close>

fun dedup_seen :: "('a \<Rightarrow> 'k) \<Rightarrow> 'k list \<Rightarrow> 'a list \<Rightarrow> 'a list" where
  "dedup_seen key seen [] = []"
| "dedup_seen key seen (x # xs) =
     (if List.member seen (key x) then dedup_seen key seen xs
      else x # dedup_seen key (key x # seen) xs)"

lemma keys_dedup_seen: "key ` set (dedup_seen key seen xs) = key ` set xs - set seen"
  by (induction xs arbitrary: seen) auto

lemma set_dedup_seen_subset: "set (dedup_seen key seen xs) \<subseteq> set xs"
  by (induction xs arbitrary: seen) auto

lemma distinct_dedup_seen: "distinct (map key (dedup_seen key seen xs))"
proof (induction xs arbitrary: seen)
  case Nil
  then show ?case by simp
next
  case (Cons x xs)
  have "key x \<notin> key ` set (dedup_seen key (key x # seen) xs)"
    by (simp add: keys_dedup_seen)
  with Cons show ?case by simp
qed

lemma set_dedup_seen_inj:
  assumes "inj_on key (set xs)" and "seen = []"
  shows "set (dedup_seen key seen xs) = set xs"
proof
  show "set (dedup_seen key seen xs) \<subseteq> set xs"
    by (rule set_dedup_seen_subset)
  have "key ` set (dedup_seen key seen xs) = key ` set xs"
    using assms by (simp add: keys_dedup_seen)
  then show "set xs \<subseteq> set (dedup_seen key seen xs)"
    using assms set_dedup_seen_subset [of key seen xs]
    by (metis inj_on_image_eq_iff order_refl)
qed

end
