(* ===== verification/Go_Strings.thy ===== *)
theory Go_Strings
  imports Prelude
begin

text \<open>
  The parts of Go's \<^verbatim>\<open>strings\<close>, \<^verbatim>\<open>strconv\<close>, \<^verbatim>\<open>fmt\<close>, \<^verbatim>\<open>hash/fnv\<close> and
  \<^verbatim>\<open>encoding/base64\<close> packages that the modelled code calls, over byte strings.
  Case mapping acts on the ASCII letters and on the four non-ASCII runes whose simple case
  mapping is an ASCII letter, so comparisons with ASCII literals are exact; other non-ASCII
  runes are left as they are.
\<close>

subsection \<open>Prefixes, suffixes, search\<close>

fun has_prefix :: "string \<Rightarrow> string \<Rightarrow> bool" where
  "has_prefix s [] = True"
| "has_prefix [] (p # ps) = False"
| "has_prefix (c # s) (p # ps) = (c = p \<and> has_prefix s ps)"

definition has_suffix :: "string \<Rightarrow> string \<Rightarrow> bool" where
  "has_suffix s p = has_prefix (rev s) (rev p)"

definition trim_prefix :: "string \<Rightarrow> string \<Rightarrow> string" where
  "trim_prefix s p = (if has_prefix s p then drop (length p) s else s)"

fun contains_str :: "string \<Rightarrow> string \<Rightarrow> bool" where
  "contains_str [] p = (p = [])"
| "contains_str (c # s) p = (has_prefix (c # s) p \<or> contains_str s p)"

fun split_on :: "char \<Rightarrow> string \<Rightarrow> string list" where
  "split_on sep [] = [[]]"
| "split_on sep (c # s) =
     (if c = sep then [] # split_on sep s
      else (case split_on sep s of [] \<Rightarrow> [[c]] | w # ws \<Rightarrow> (c # w) # ws))"

fun join_with :: "string \<Rightarrow> string list \<Rightarrow> string" where
  "join_with sep [] = []"
| "join_with sep [w] = w"
| "join_with sep (w # ws) = w @ sep @ join_with sep ws"

lemma split_on_nonempty [simp]: "split_on sep s \<noteq> []"
  by (cases s) (auto split: list.splits)

lemma split_on_no_sep: "sep \<notin> set w \<Longrightarrow> split_on sep w = [w]"
  by (induction w) auto

lemma split_on_append:
  "sep \<notin> set w \<Longrightarrow> split_on sep (w @ sep # s) = w # split_on sep s"
  by (induction w) auto

lemma split_join:
  assumes "ws \<noteq> []" and "\<forall>w \<in> set ws. sep \<notin> set w"
  shows "split_on sep (join_with [sep] ws) = ws"
  using assms
proof (induction "[sep]" ws rule: join_with.induct)
  case (3 w v vs)
  then show ?case by (simp add: split_on_append)
qed (auto simp: split_on_no_sep)

subsection \<open>White space\<close>

text \<open>The UTF-8 encodings of the runes for which \<^verbatim>\<open>unicode.IsSpace\<close> holds.\<close>

definition ascii_spaces :: "char list" where
  "ascii_spaces = [CHR 0x09, CHR 0x0A, CHR 0x0B, CHR 0x0C, CHR 0x0D, CHR 0x20]"

definition wide_spaces :: "string list" where
  "wide_spaces =
     [[CHR 0xC2, CHR 0x85], [CHR 0xC2, CHR 0xA0], [CHR 0xE1, CHR 0x9A, CHR 0x80]] @
     map (\<lambda>c. [CHR 0xE2, CHR 0x80, c])
       [CHR 0x80, CHR 0x81, CHR 0x82, CHR 0x83, CHR 0x84, CHR 0x85, CHR 0x86, CHR 0x87,
        CHR 0x88, CHR 0x89, CHR 0x8A, CHR 0xA8, CHR 0xA9, CHR 0xAF] @
     [[CHR 0xE2, CHR 0x81, CHR 0x9F], [CHR 0xE3, CHR 0x80, CHR 0x80]]"

text \<open>The number of bytes of the white-space rune the string starts with, 0 if none; the
  runes are given as a list of encodings so that the same search, on reversed bytes, finds
  a trailing one.\<close>

fun space_len :: "string list \<Rightarrow> string \<Rightarrow> nat" where
  "space_len [] s = 0"
| "space_len (w # ws) s = (if has_prefix s w then length w else space_len ws s)"

definition spaces :: "string list" where
  "spaces = map (\<lambda>c. [c]) ascii_spaces @ wide_spaces"

function strip_left :: "string list \<Rightarrow> string \<Rightarrow> string" where
  "strip_left ws s = (if s = [] \<or> space_len ws s = 0 then s
     else strip_left ws (drop (space_len ws s) s))"
  by pat_completeness auto
termination
  by (relation "measure (\<lambda>(ws, s). length s)") auto

declare strip_left.simps [simp del]

definition trim_left :: "string \<Rightarrow> string" where
  "trim_left s = strip_left spaces s"

definition trim_right :: "string \<Rightarrow> string" where
  "trim_right s = rev (strip_left (map rev spaces) (rev s))"

definition trim_space :: "string \<Rightarrow> string" where
  "trim_space s = trim_right (trim_left s)"

lemma strip_left_Nil [simp]: "strip_left ws [] = []"
  by (subst strip_left.simps) simp

lemma strip_left_no_space: "space_len ws s = 0 \<Longrightarrow> strip_left ws s = s"
  by (subst strip_left.simps) simp

lemma trim_space_Nil [simp]: "trim_space [] = []"
  by (simp add: trim_space_def trim_left_def trim_right_def)

text \<open>A string of printable ASCII bytes at both ends is left alone.\<close>

definition plain_char :: "char \<Rightarrow> bool" where
  "plain_char c = (33 \<le> (of_char c :: nat) \<and> (of_char c :: nat) < 127)"

lemma space_len_cons_plain:
  assumes "\<forall>w \<in> set ws. w \<noteq> [] \<and> \<not> plain_char (hd w)" and "plain_char c"
  shows "space_len ws (c # s) = 0"
  using assms(1)
proof (induction ws)
  case (Cons w ws)
  then show ?case using assms(2) by (cases w) auto
qed simp

lemma spaces_not_plain: "\<forall>w \<in> set spaces. w \<noteq> [] \<and> \<not> plain_char (hd w)"
  by code_simp

lemma rev_spaces_not_plain: "\<forall>w \<in> set (map rev spaces). w \<noteq> [] \<and> \<not> plain_char (hd w)"
  by code_simp

lemma trim_space_plain:
  assumes "s \<noteq> []" and "plain_char (hd s)" and "plain_char (last s)"
  shows "trim_space s = s"
proof -
  obtain c t where s: "s = c # t" using assms(1) by (cases s) auto
  have l: "trim_left s = s"
    using assms(2) unfolding s trim_left_def
    by (intro strip_left_no_space space_len_cons_plain spaces_not_plain) simp
  obtain d u where r: "rev s = d # u" using assms(1) by (cases "rev s") auto
  then have "d = last s" by (metis hd_rev list.sel(1))
  then have "strip_left (map rev spaces) (rev s) = rev s"
    using assms(3) unfolding r
    by (intro strip_left_no_space space_len_cons_plain rev_spaces_not_plain) simp
  then show ?thesis by (simp add: trim_space_def trim_right_def l)
qed

subsection \<open>Letter case\<close>

fun to_lower :: "string \<Rightarrow> string" where
  "to_lower [] = []"
| "to_lower (c # s) =
     (if has_prefix (c # s) [CHR 0xE2, CHR 0x84, CHR 0xAA] then CHR ''k'' # to_lower (drop 2 s)
      else if has_prefix (c # s) [CHR 0xC4, CHR 0xB0] then CHR ''i'' # to_lower (drop 1 s)
      else (if CHR ''A'' \<le> c \<and> c \<le> CHR ''Z'' then char_of ((of_char c :: nat) + 32) else c)
             # to_lower s)"

fun to_upper :: "string \<Rightarrow> string" where
  "to_upper [] = []"
| "to_upper (c # s) =
     (if has_prefix (c # s) [CHR 0xC5, CHR 0xBF] then CHR ''S'' # to_upper (drop 1 s)
      else if has_prefix (c # s) [CHR 0xC4, CHR 0xB1] then CHR ''I'' # to_upper (drop 1 s)
      else (if CHR ''a'' \<le> c \<and> c \<le> CHR ''z'' then char_of ((of_char c :: nat) - 32) else c)
             # to_upper s)"

subsection \<open>Numbers\<close>

definition in_range :: "char \<Rightarrow> char \<Rightarrow> char \<Rightarrow> bool" where
  "in_range lo hi c = (lo \<le> c \<and> c \<le> hi)"

definition is_digit :: "char \<Rightarrow> bool" where
  "is_digit c = (CHR ''0'' \<le> c \<and> c \<le> CHR ''9'')"

definition digit_val :: "char \<Rightarrow> nat" where
  "digit_val c = of_char c - 48"

definition digit_char :: "nat \<Rightarrow> char" where
  "digit_char d = char_of (48 + d)"

fun dec_of_nat :: "nat \<Rightarrow> string" where
  "dec_of_nat n = (if n < 10 then [digit_char n] else dec_of_nat (n div 10) @ [digit_char (n mod 10)])"

declare dec_of_nat.simps [simp del]

definition itoa :: "int \<Rightarrow> string" where
  "itoa i = (if i < 0 then ''-'' @ dec_of_nat (nat (- i)) else dec_of_nat (nat i))"

definition nat_of_dec :: "string \<Rightarrow> nat" where
  "nat_of_dec s = foldl (\<lambda>n c. n * 10 + digit_val c) 0 s"

lemma of_char_digit_char: "d < 10 \<Longrightarrow> (of_char (digit_char d) :: nat) = 48 + d"
  by (simp add: digit_char_def of_char_of)

lemma digit_val_char [simp]: "d < 10 \<Longrightarrow> digit_val (digit_char d) = d"
  by (simp add: digit_val_def of_char_digit_char)

lemma is_digit_char [simp]: "d < 10 \<Longrightarrow> is_digit (digit_char d)"
  by (simp add: is_digit_def less_eq_char_def of_char_digit_char)

lemma digit_char_0_iff: "d < 10 \<Longrightarrow> digit_char d = CHR ''0'' \<longleftrightarrow> d = 0"
proof -
  assume "d < 10"
  then have "(of_char (digit_char d) :: nat) = of_char (CHR ''0'') \<longleftrightarrow> d = 0"
    by (simp add: of_char_digit_char)
  then show ?thesis by (simp only: of_char_eq_iff)
qed

lemma dec_of_nat_digits: "\<forall>c \<in> set (dec_of_nat n). is_digit c"
proof (induction n rule: dec_of_nat.induct)
  case (1 n)
  then show ?case by (subst dec_of_nat.simps) auto
qed

lemma dec_of_nat_nonempty [simp]: "dec_of_nat n \<noteq> []"
  by (subst dec_of_nat.simps) simp

lemma nat_of_dec_of_nat [simp]: "nat_of_dec (dec_of_nat n) = n"
proof (induction n rule: dec_of_nat.induct)
  case (1 n)
  show ?case
  proof (cases "n < 10")
    case True
    then show ?thesis by (subst dec_of_nat.simps) (simp add: nat_of_dec_def)
  next
    case False
    with 1 have "nat_of_dec (dec_of_nat (n div 10)) = n div 10" by simp
    then have "nat_of_dec (dec_of_nat (n div 10) @ [digit_char (n mod 10)]) = n div 10 * 10 + n mod 10"
      by (simp add: nat_of_dec_def)
    with False show ?thesis by (subst dec_of_nat.simps) simp
  qed
qed

lemma hd_dec_of_nat: "0 < n \<Longrightarrow> hd (dec_of_nat n) \<noteq> CHR ''0''"
proof (induction n rule: dec_of_nat.induct)
  case (1 n)
  show ?case
  proof (cases "n < 10")
    case True
    with 1 show ?thesis by (subst dec_of_nat.simps) (simp add: digit_char_0_iff)
  next
    case False
    then have "hd (dec_of_nat (n div 10)) \<noteq> CHR ''0''"
      using 1 by simp
    with False show ?thesis by (subst dec_of_nat.simps) simp
  qed
qed

text \<open>Hexadecimal digits.\<close>

definition is_hex :: "char \<Rightarrow> bool" where
  "is_hex c = (is_digit c \<or> (CHR ''a'' \<le> c \<and> c \<le> CHR ''f'') \<or> (CHR ''A'' \<le> c \<and> c \<le> CHR ''F''))"

definition hex_val :: "char \<Rightarrow> nat" where
  "hex_val c = (if is_digit c then of_char c - 48
     else if CHR ''a'' \<le> c \<and> c \<le> CHR ''f'' then of_char c - 87 else of_char c - 55)"

definition hex_char :: "nat \<Rightarrow> char" where
  "hex_char d = (if d < 10 then char_of (48 + d) else char_of (87 + d))"

fun hex_of_nat :: "nat \<Rightarrow> string" where
  "hex_of_nat n = (if n < 16 then [hex_char n] else hex_of_nat (n div 16) @ [hex_char (n mod 16)])"

declare hex_of_nat.simps [simp del]

text \<open>\<^verbatim>\<open>%08x\<close>: at least eight hexadecimal digits, padded with zeros on the left.\<close>

definition hex8 :: "nat \<Rightarrow> string" where
  "hex8 n = (let h = hex_of_nat n in replicate (8 - length h) (CHR ''0'') @ h)"

lemma length_hex_of_nat: "0 < k \<Longrightarrow> n < 16 ^ k \<Longrightarrow> length (hex_of_nat n) \<le> k"
proof (induction n arbitrary: k rule: hex_of_nat.induct)
  case (1 n)
  show ?case
  proof (cases "n < 16")
    case True
    with 1 show ?thesis by (subst hex_of_nat.simps) simp
  next
    case False
    obtain j where k: "k = Suc j" using "1.prems"(1) by (cases k) auto
    with False "1.prems" have "0 < j" by (cases j) auto
    moreover from k "1.prems" have "n div 16 < 16 ^ j"
      by (simp add: less_mult_imp_div_less mult.commute)
    ultimately have "length (hex_of_nat (n div 16)) \<le> j"
      using "1.IH" False by blast
    with False k show ?thesis by (subst hex_of_nat.simps) simp
  qed
qed

lemma length_hex8: "n < 2 ^ 32 \<Longrightarrow> length (hex8 n) = 8"
  using length_hex_of_nat [of 8 n] by (simp add: hex8_def Let_def)

subsection \<open>Hashing\<close>

text \<open>FNV-1a, 32 bits: \<^verbatim>\<open>hash/fnv\<close>'s \<^verbatim>\<open>New32a\<close> over the bytes of the string.\<close>

definition fnv32a :: "string \<Rightarrow> nat" where
  "fnv32a s = foldl (\<lambda>h c. (Bit_Operations.xor h (of_char c)) * 16777619 mod 2 ^ 32) 2166136261 s"

lemma fnv32a_bound: "fnv32a s < 2 ^ 32"
  by (induction s rule: rev_induct) (simp_all add: fnv32a_def)

subsection \<open>Base64\<close>

definition b64_common :: "char \<Rightarrow> bool" where
  "b64_common c = ((CHR ''A'' \<le> c \<and> c \<le> CHR ''Z'') \<or> (CHR ''a'' \<le> c \<and> c \<le> CHR ''z'') \<or> is_digit c)"

definition b64_std :: "char \<Rightarrow> bool" where
  "b64_std c = (b64_common c \<or> c = CHR ''+'' \<or> c = CHR ''/'')"

definition b64_url :: "char \<Rightarrow> bool" where
  "b64_url c = (b64_common c \<or> c = CHR ''-'' \<or> c = CHR ''_'')"

text \<open>The decoded length of \<^verbatim>\<open>DecodeString\<close> (non-strict): line breaks are skipped; a padded
  encoding wants whole quanta, with at most two \<^verbatim>\<open>=\<close> at the end; a raw one has no padding
  and may end in a quantum of two or three digits.\<close>

definition b64_decode_len :: "(char \<Rightarrow> bool) \<Rightarrow> bool \<Rightarrow> string \<Rightarrow> nat option" where
  "b64_decode_len alpha padded s =
     (let t = filter (\<lambda>c. c \<noteq> CHR 0x0A \<and> c \<noteq> CHR 0x0D) s;
          pad = length (takeWhile (\<lambda>c. c = CHR ''='') (take 2 (rev t)));
          body = take (length t - pad) t
      in if padded
         then (if length t mod 4 = 0 \<and> list_all alpha body then Some (3 * (length t div 4) - pad) else None)
         else (if length t mod 4 \<noteq> 1 \<and> list_all alpha t then Some (length t * 6 div 8) else None))"

end
