(* ===== verification/Netip.thy ===== *)
theory Netip
  imports Go_Strings
begin

text \<open>
  Go's \<^verbatim>\<open>net/netip\<close> and \<^verbatim>\<open>net\<close> address parsing, printing and prefix arithmetic, as far
  as the profile validator, the CIDR feeds and the kernel-routing compiler use them.
  An address is its number with its family; a prefix is an address without a zone and a
  number of leading bits.
\<close>

subsection \<open>Addresses and prefixes\<close>

datatype addr = V4 nat | V6 nat string

fun is6 :: "addr \<Rightarrow> bool" where
  "is6 (V4 _) = False"
| "is6 (V6 _ _) = True"

fun zone :: "addr \<Rightarrow> string" where
  "zone (V4 _) = []"
| "zone (V6 _ z) = z"

fun addr_num :: "addr \<Rightarrow> nat" where
  "addr_num (V4 n) = n"
| "addr_num (V6 n _) = n"

fun bit_len :: "addr \<Rightarrow> nat" where
  "bit_len (V4 _) = 32"
| "bit_len (V6 _ _) = 128"

definition addr_wf :: "addr \<Rightarrow> bool" where
  "addr_wf a = (addr_num a < 2 ^ bit_len a)"

datatype prefix = Prefix (pfx_addr: addr) (pfx_bits: nat)

definition prefix_wf :: "prefix \<Rightarrow> bool" where
  "prefix_wf p = (addr_wf (pfx_addr p) \<and> zone (pfx_addr p) = [] \<and> pfx_bits p \<le> bit_len (pfx_addr p))"

fun without_zone :: "addr \<Rightarrow> addr" where
  "without_zone (V4 n) = V4 n"
| "without_zone (V6 n z) = V6 n []"

text \<open>\<^verbatim>\<open>PrefixFrom\<close> drops the zone.\<close>

definition prefix_from :: "addr \<Rightarrow> nat \<Rightarrow> prefix" where
  "prefix_from a b = Prefix (without_zone a) b"

definition host_bits :: "prefix \<Rightarrow> nat" where
  "host_bits p = bit_len (pfx_addr p) - pfx_bits p"

fun set_num :: "nat \<Rightarrow> addr \<Rightarrow> addr" where
  "set_num n (V4 _) = V4 n"
| "set_num n (V6 _ z) = V6 n z"

definition masked :: "prefix \<Rightarrow> prefix" where
  "masked p = (let k = host_bits p in
     Prefix (set_num (addr_num (pfx_addr p) div 2 ^ k * 2 ^ k) (pfx_addr p)) (pfx_bits p))"

definition prefix_contains :: "prefix \<Rightarrow> addr \<Rightarrow> bool" where
  "prefix_contains p a = (zone a = [] \<and> is6 (pfx_addr p) = is6 a \<and>
     addr_num a div 2 ^ host_bits p = addr_num (pfx_addr p) div 2 ^ host_bits p)"

text \<open>\<^verbatim>\<open>Addr.Less\<close> compares the bit length, the number, the zone, in this order.\<close>

definition addr_key :: "addr \<Rightarrow> nat \<times> nat \<times> string" where
  "addr_key a = (bit_len a, addr_num a, zone a)"

lemma addr_key_inj: "addr_key a = addr_key b \<longleftrightarrow> a = b"
  by (cases a; cases b) (auto simp: addr_key_def)

subsection \<open>Parsing\<close>

definition parse_octet :: "string \<Rightarrow> nat option" where
  "parse_octet s =
     (if s \<noteq> [] \<and> list_all is_digit s \<and> (length s = 1 \<or> hd s \<noteq> CHR ''0'') \<and> nat_of_dec s \<le> 255
      then Some (nat_of_dec s) else None)"

definition parse_ipv4 :: "string \<Rightarrow> nat option" where
  "parse_ipv4 s =
     (case map parse_octet (split_on (CHR ''.'') s) of
        [Some a, Some b, Some c, Some d] \<Rightarrow> Some (((a * 256 + b) * 256 + c) * 256 + d)
      | _ \<Rightarrow> None)"

definition hex_num :: "string \<Rightarrow> nat" where
  "hex_num s = foldl (\<lambda>n c. n * 16 + hex_val c) 0 s"

text \<open>The loop of \<^verbatim>\<open>parseIPv6\<close> over at most eight groups: the rest of the string, the groups
  read so far, and the position of the ellipsis.\<close>

fun v6_loop :: "nat \<Rightarrow> string \<Rightarrow> nat list \<Rightarrow> nat option \<Rightarrow> (string \<times> nat list \<times> nat option) option" where
  "v6_loop 0 s gs ell = Some (s, gs, ell)"
| "v6_loop (Suc r) s gs ell =
     (let h = takeWhile is_hex s; t = dropWhile is_hex s in
      if h = [] \<or> length h > 4 then None
      else if t \<noteq> [] \<and> hd t = CHR ''.'' then
        (if ell = None \<and> length gs \<noteq> 6 then None
         else if length gs + 2 > 8 then None
         else (case parse_ipv4 s of
             None \<Rightarrow> None
           | Some a \<Rightarrow> Some ([], gs @ [a div 65536, a mod 65536], ell)))
      else
        (let gs' = gs @ [hex_num h] in
         case t of
           [] \<Rightarrow> Some ([], gs', ell)
         | c # u \<Rightarrow>
             if c \<noteq> CHR '':'' then None
             else (case u of
                 [] \<Rightarrow> None
               | d # v \<Rightarrow>
                   if d = CHR '':'' then
                     (if ell \<noteq> None then None
                      else if v = [] then Some ([], gs', Some (length gs'))
                      else v6_loop r v gs' (Some (length gs')))
                   else v6_loop r u gs' ell)))"

definition groups_num :: "nat list \<Rightarrow> nat" where
  "groups_num gs = foldl (\<lambda>n g. n * 65536 + g) 0 gs"

definition expand_groups :: "nat list \<Rightarrow> nat option \<Rightarrow> nat list option" where
  "expand_groups gs ell =
     (if length gs < 8 then
        (case ell of None \<Rightarrow> None
         | Some e \<Rightarrow> Some (take e gs @ replicate (8 - length gs) 0 @ drop e gs))
      else if ell \<noteq> None then None else Some gs)"

definition parse_ipv6_body :: "string \<Rightarrow> nat option" where
  "parse_ipv6_body s =
     (let lead = has_prefix s ''::''; s' = (if lead then drop 2 s else s) in
      if lead \<and> s' = [] then Some 0
      else (case v6_loop 8 s' [] (if lead then Some 0 else None) of
          None \<Rightarrow> None
        | Some (rest, gs, ell) \<Rightarrow>
            if rest \<noteq> [] then None else map_option groups_num (expand_groups gs ell)))"

definition parse_ipv6 :: "string \<Rightarrow> addr option" where
  "parse_ipv6 s =
     (let body = takeWhile (\<lambda>c. c \<noteq> CHR ''%'') s; rest = dropWhile (\<lambda>c. c \<noteq> CHR ''%'') s in
      if rest \<noteq> [] \<and> tl rest = [] then None
      else map_option (\<lambda>n. V6 n (if rest = [] then [] else tl rest)) (parse_ipv6_body body))"

definition parse_addr :: "string \<Rightarrow> addr option" where
  "parse_addr s =
     (case find (\<lambda>c. c = CHR ''.'' \<or> c = CHR '':'' \<or> c = CHR ''%'') s of
        None \<Rightarrow> None
      | Some c \<Rightarrow> if c = CHR ''.'' then map_option V4 (parse_ipv4 s)
                  else if c = CHR '':'' then parse_ipv6 s else None)"

text \<open>\<^verbatim>\<open>netip.ParsePrefix\<close>: split at the last slash, no zone, no sign and no leading zero in
  the bit count.\<close>

definition last_slash_split :: "string \<Rightarrow> (string \<times> string) option" where
  "last_slash_split s =
     (let r = rev s; tailr = takeWhile (\<lambda>c. c \<noteq> CHR ''/'') r in
      if length tailr = length r then None
      else Some (rev (drop (Suc (length tailr)) r), rev tailr))"

definition parse_bits :: "string \<Rightarrow> nat option" where
  "parse_bits s =
     (if s \<noteq> [] \<and> list_all is_digit s \<and> (length s = 1 \<or> hd s \<noteq> CHR ''0'')
      then Some (nat_of_dec s) else None)"

definition parse_prefix :: "string \<Rightarrow> prefix option" where
  "parse_prefix s =
     (case last_slash_split s of
        None \<Rightarrow> None
      | Some (a, b) \<Rightarrow>
          (case parse_addr a of
             None \<Rightarrow> None
           | Some ip \<Rightarrow>
               if zone ip \<noteq> [] then None
               else (case parse_bits b of
                   None \<Rightarrow> None
                 | Some n \<Rightarrow> if n > bit_len ip then None else Some (prefix_from ip n))))"

text \<open>The older \<^verbatim>\<open>net.ParseCIDR\<close> splits at the first slash and reads the bit count with
  \<^verbatim>\<open>dtoi\<close>, which accepts leading zeros and gives up at 0xFFFFFF; \<^verbatim>\<open>net.ParseIP\<close> refuses a zone.
  Both are used only for success or failure.\<close>

definition dtoi_full :: "string \<Rightarrow> nat option" where
  "dtoi_full s =
     (if s \<noteq> [] \<and> list_all is_digit s \<and> nat_of_dec s < 16777215 then Some (nat_of_dec s) else None)"

definition net_parse_cidr :: "string \<Rightarrow> bool" where
  "net_parse_cidr s =
     (let a = takeWhile (\<lambda>c. c \<noteq> CHR ''/'') s; rest = dropWhile (\<lambda>c. c \<noteq> CHR ''/'') s in
      rest \<noteq> [] \<and>
      (case parse_addr a of
         None \<Rightarrow> False
       | Some ip \<Rightarrow> zone ip = [] \<and>
           (case dtoi_full (tl rest) of None \<Rightarrow> False | Some n \<Rightarrow> n \<le> bit_len ip)))"

definition net_parse_ip :: "string \<Rightarrow> bool" where
  "net_parse_ip s = (case parse_addr s of None \<Rightarrow> False | Some ip \<Rightarrow> zone ip = [])"

text \<open>\<^verbatim>\<open>net.ParseMAC\<close>, for success or failure: six, eight or twenty octets, written with
  colons or dashes per octet or with dots per two octets.\<close>

definition xtoi2 :: "string \<Rightarrow> char \<Rightarrow> bool" where
  "xtoi2 s e = (\<not> (length s > 2 \<and> s ! 2 \<noteq> e) \<and> length (takeWhile is_hex (take 2 s)) = 2)"

definition net_parse_mac :: "string \<Rightarrow> bool" where
  "net_parse_mac s =
     (if length s < 14 then False
      else if s ! 2 = CHR '':'' \<or> s ! 2 = CHR ''-'' then
        (length s + 1) mod 3 = 0 \<and>
        (let n = (length s + 1) div 3 in
         (n = 6 \<or> n = 8 \<or> n = 20) \<and> list_all (\<lambda>i. xtoi2 (drop (3 * i) s) (s ! 2)) [0..<n])
      else if s ! 4 = CHR ''.'' then
        (length s + 1) mod 5 = 0 \<and>
        (let n = 2 * (length s + 1) div 5 in
         (n = 6 \<or> n = 8 \<or> n = 20) \<and>
         list_all (\<lambda>i. xtoi2 (take 2 (drop (5 * i) s)) (CHR 0x00) \<and> xtoi2 (drop (5 * i + 2) s) (s ! 4))
           [0..<n div 2])
      else False)"

subsection \<open>Printing\<close>

definition show_ipv4 :: "nat \<Rightarrow> string" where
  "show_ipv4 n = join_with ''.'' (map dec_of_nat
     [n div 16777216 mod 256, n div 65536 mod 256, n div 256 mod 256, n mod 256])"

definition v6_groups :: "nat \<Rightarrow> nat list" where
  "v6_groups n = map (\<lambda>i. n div 65536 ^ i mod 65536) (rev [0..<8])"

text \<open>The first longest run of at least two zero groups, as start and end.\<close>

fun zero_run :: "nat list \<Rightarrow> nat \<Rightarrow> nat \<times> nat \<Rightarrow> nat \<times> nat" where
  "zero_run [] i best = best"
| "zero_run (g # gs) i best =
     (let l = length (takeWhile (\<lambda>x. x = 0) (g # gs)) in
      zero_run gs (Suc i) (if l \<ge> 2 \<and> l > snd best - fst best then (i, i + l) else best))"

definition show_ipv6 :: "nat \<Rightarrow> string" where
  "show_ipv6 n =
     (let gs = v6_groups n; (a, b) = zero_run gs 0 (8, 8) in
      if a = 8 then join_with '':'' (map hex_of_nat gs)
      else join_with '':'' (map hex_of_nat (take a gs)) @ ''::'' @ join_with '':'' (map hex_of_nat (drop b gs)))"

text \<open>For evaluation: the groups and the run are computed once.\<close>

fun shown_groups :: "nat list \<Rightarrow> nat \<times> nat \<Rightarrow> string" where
  "shown_groups gs (a, b) =
     (if a = 8 then join_with '':'' (map hex_of_nat gs)
      else join_with '':'' (map hex_of_nat (take a gs)) @ ''::'' @ join_with '':'' (map hex_of_nat (drop b gs)))"

definition shown_v6 :: "nat list \<Rightarrow> string" where
  "shown_v6 gs = shown_groups gs (zero_run gs 0 (8, 8))"

lemma show_ipv6_code [code]: "show_ipv6 n = shown_v6 (v6_groups n)"
  by (simp add: show_ipv6_def shown_v6_def Let_def split: prod.split)

fun show_addr :: "addr \<Rightarrow> string" where
  "show_addr (V4 n) = show_ipv4 n"
| "show_addr (V6 n z) =
     (if n div 2 ^ 32 = 65535 then ''::ffff:'' @ show_ipv4 (n mod 2 ^ 32) else show_ipv6 n) @
     (if z = [] then [] else ''%'' @ z)"

definition show_prefix :: "prefix \<Rightarrow> string" where
  "show_prefix p = show_addr (pfx_addr p) @ ''/'' @ dec_of_nat (pfx_bits p)"

subsection \<open>Geometry of prefixes\<close>

lemma is6_simps [simp]: "is6 (set_num n a) = is6 a" "is6 (without_zone a) = is6 a"
  by (cases a; simp)+

lemma num_simps [simp]:
  "addr_num (set_num n a) = n" "addr_num (without_zone a) = addr_num a"
  "bit_len (set_num n a) = bit_len a" "bit_len (without_zone a) = bit_len a"
  "zone (set_num n a) = zone a" "zone (without_zone a) = []"
  by (cases a; simp)+

lemma bit_len_eq: "bit_len a = (if is6 a then 128 else 32)"
  by (cases a) auto

lemma addr_eqI: "is6 a = is6 b \<Longrightarrow> addr_num a = addr_num b \<Longrightarrow> zone a = zone b \<Longrightarrow> a = b"
  by (cases a; cases b) auto

lemma host_bits_masked [simp]: "host_bits (masked p) = host_bits p"
  by (simp add: host_bits_def masked_def Let_def)

lemma pfx_bits_masked [simp]: "pfx_bits (masked p) = pfx_bits p"
  by (simp add: masked_def Let_def)

lemma is6_masked [simp]: "is6 (pfx_addr (masked p)) = is6 (pfx_addr p)"
  by (simp add: masked_def Let_def)

lemma masked_contains [simp]: "prefix_contains (masked p) a = prefix_contains p a"
  by (simp add: prefix_contains_def masked_def Let_def host_bits_def)

lemma masked_wf: "prefix_wf p \<Longrightarrow> prefix_wf (masked p)"
  by (auto simp: prefix_wf_def masked_def Let_def addr_wf_def
      intro: le_less_trans [OF div_times_less_eq_dividend])

lemma masked_idem: "masked (masked p) = masked p"
  by (simp add: masked_def Let_def host_bits_def) (cases p; cases "pfx_addr p"; simp)

definition is_masked :: "prefix \<Rightarrow> bool" where
  "is_masked p = (masked p = p)"

lemma is_masked_masked [simp]: "is_masked (masked p)"
  by (simp add: is_masked_def masked_idem)

lemma contains_own_addr: "prefix_wf p \<Longrightarrow> prefix_contains p (pfx_addr p)"
  by (simp add: prefix_contains_def prefix_wf_def)

lemma div_pow_mono:
  fixes x y :: nat
  assumes "x div 2 ^ i = y div 2 ^ i" and "i \<le> j"
  shows "x div 2 ^ j = y div 2 ^ j"
proof -
  have "x div 2 ^ j = x div 2 ^ i div 2 ^ (j - i)" for x :: nat
    using assms(2) by (simp add: div_mult2_eq [symmetric] power_add [symmetric])
  then show ?thesis using assms(1) by metis
qed

lemma contains_mono:
  assumes "prefix_contains q (pfx_addr p)" and "pfx_bits q \<le> pfx_bits p" and "prefix_contains p a"
  shows "prefix_contains q a"
proof -
  have fam: "is6 (pfx_addr q) = is6 (pfx_addr p)" "is6 (pfx_addr p) = is6 a"
    using assms(1,3) by (auto simp: prefix_contains_def)
  then have "host_bits p \<le> host_bits q"
    using assms(2) by (simp add: host_bits_def bit_len_eq)
  moreover have "addr_num a div 2 ^ host_bits p = addr_num (pfx_addr p) div 2 ^ host_bits p"
    using assms(3) by (simp add: prefix_contains_def)
  ultimately have "addr_num a div 2 ^ host_bits q = addr_num (pfx_addr p) div 2 ^ host_bits q"
    by (rule div_pow_mono [rotated])
  with assms fam show ?thesis by (simp add: prefix_contains_def)
qed

text \<open>Two prefixes that share an address are nested, the broader one around the narrower.\<close>

lemma share_nested:
  assumes "prefix_contains p a" and "prefix_contains q a" and "pfx_bits q \<le> pfx_bits p"
    and "zone (pfx_addr p) = []"
  shows "prefix_contains q (pfx_addr p)"
proof -
  have fam: "is6 (pfx_addr q) = is6 (pfx_addr p)" "is6 (pfx_addr p) = is6 a"
    using assms(1,2) by (auto simp: prefix_contains_def)
  then have "host_bits p \<le> host_bits q"
    using assms(3) by (simp add: host_bits_def bit_len_eq)
  moreover have "addr_num a div 2 ^ host_bits p = addr_num (pfx_addr p) div 2 ^ host_bits p"
    using assms(1) by (simp add: prefix_contains_def)
  ultimately have "addr_num a div 2 ^ host_bits q = addr_num (pfx_addr p) div 2 ^ host_bits q"
    by (rule div_pow_mono [rotated])
  with assms fam show ?thesis by (simp add: prefix_contains_def)
qed

subsection \<open>Printing and parsing agree on IPv4\<close>

lemma parse_octet_dec [simp]: "n < 256 \<Longrightarrow> parse_octet (dec_of_nat n) = Some n"
proof -
  assume n: "n < 256"
  have "length (dec_of_nat n) = 1 \<or> hd (dec_of_nat n) \<noteq> CHR ''0''"
    using hd_dec_of_nat [of n] by (cases "n = 0") (simp_all add: dec_of_nat.simps)
  moreover have "list_all is_digit (dec_of_nat n)"
    using dec_of_nat_digits [of n] by (simp add: list_all_iff)
  ultimately show ?thesis using n by (simp add: parse_octet_def)
qed

lemma parse_bits_dec [simp]: "parse_bits (dec_of_nat n) = Some n"
proof -
  have "length (dec_of_nat n) = 1 \<or> hd (dec_of_nat n) \<noteq> CHR ''0''"
    using hd_dec_of_nat [of n] by (cases "n = 0") (simp_all add: dec_of_nat.simps)
  moreover have "list_all is_digit (dec_of_nat n)"
    using dec_of_nat_digits [of n] by (simp add: list_all_iff)
  ultimately show ?thesis by (simp add: parse_bits_def)
qed

lemma dec_chars: "c \<in> set (dec_of_nat n) \<Longrightarrow> is_digit c"
  using dec_of_nat_digits by blast

lemma not_digit [simp]:
  "\<not> is_digit (CHR ''.'')" "\<not> is_digit (CHR '':'')" "\<not> is_digit (CHR ''%'')" "\<not> is_digit (CHR ''/'')"
  by (simp_all add: is_digit_def less_eq_char_def)

lemma nat_octets:
  assumes "n < 2 ^ 32"
  shows "((n div 16777216 * 256 + n div 65536 mod 256) * 256 + n div 256 mod 256) * 256 + n mod 256 = (n::nat)"
proof -
  have "n div 16777216 = n div 65536 div 256" "n div 65536 = n div 256 div 256"
    by (simp_all add: div_mult2_eq [symmetric])
  then have "n div 16777216 * 256 + n div 65536 mod 256 = n div 65536"
    "n div 65536 * 256 + n div 256 mod 256 = n div 256"
    by simp_all
  then show ?thesis by simp
qed

lemma parse_show_ipv4: "n < 2 ^ 32 \<Longrightarrow> parse_ipv4 (show_ipv4 n) = Some n"
proof -
  assume n: "n < 2 ^ 32"
  have "split_on (CHR ''.'') (show_ipv4 n) = map dec_of_nat
     [n div 16777216 mod 256, n div 65536 mod 256, n div 256 mod 256, n mod 256]"
    unfolding show_ipv4_def by (rule split_join) (auto dest: dec_chars)
  moreover have "n div 16777216 < 256" using n by (simp add: less_mult_imp_div_less)
  ultimately show ?thesis using nat_octets [OF n] by (simp add: parse_ipv4_def)
qed

lemma show_ipv4_chars: "c \<in> set (show_ipv4 n) \<Longrightarrow> is_digit c \<or> c = CHR ''.''"
  by (auto simp: show_ipv4_def dest: dec_chars)

lemma find_dot_show_ipv4:
  "find (\<lambda>c. c = CHR ''.'' \<or> c = CHR '':'' \<or> c = CHR ''%'') (show_ipv4 n) = Some (CHR ''.'')"
proof -
  let ?P = "\<lambda>c. c = CHR ''.'' \<or> c = CHR '':'' \<or> c = CHR ''%''"
  have "CHR ''.'' \<in> set (show_ipv4 n)" by (simp add: show_ipv4_def)
  then have "find ?P (show_ipv4 n) \<noteq> None" by (auto simp: find_None_iff)
  then obtain c where c: "find ?P (show_ipv4 n) = Some c" by blast
  then have "?P c" "c \<in> set (show_ipv4 n)" by (auto simp: find_Some_iff intro: nth_mem)
  then have "c = CHR ''.''" using show_ipv4_chars by fastforce
  with c show ?thesis by simp
qed

lemma parse_addr_show_v4: "n < 2 ^ 32 \<Longrightarrow> parse_addr (show_ipv4 n) = Some (V4 n)"
  by (simp add: parse_addr_def find_dot_show_ipv4 parse_show_ipv4)

lemma last_slash_split_append:
  assumes "CHR ''/'' \<notin> set b"
  shows "last_slash_split (a @ ''/'' @ b) = Some (a, b)"
proof -
  have "takeWhile (\<lambda>c. c \<noteq> CHR ''/'') (rev b @ CHR ''/'' # rev a) = rev b"
    using assms by (induction b rule: rev_induct) auto
  then show ?thesis by (simp add: last_slash_split_def Let_def)
qed

lemma parse_show_prefix_v4:
  assumes "prefix_wf p" and "\<not> is6 (pfx_addr p)"
  shows "parse_prefix (show_prefix p) = Some p"
proof -
  obtain n b where p: "p = Prefix (V4 n) b"
    using assms(2) by (cases p; cases "pfx_addr p") auto
  with assms(1) have "n < 2 ^ 32" "b \<le> 32" by (auto simp: prefix_wf_def addr_wf_def)
  moreover have "last_slash_split (show_prefix p) = Some (show_ipv4 n, dec_of_nat b)"
    unfolding show_prefix_def p prefix.sel show_addr.simps
    by (rule last_slash_split_append) (auto dest: dec_chars)
  ultimately show ?thesis
    using p by (simp add: parse_prefix_def parse_addr_show_v4 prefix_from_def)
qed

lemma show_prefix_v4_inj:
  assumes "prefix_wf p" "\<not> is6 (pfx_addr p)" "prefix_wf q" "\<not> is6 (pfx_addr q)"
    and "show_prefix p = show_prefix q"
  shows "p = q"
  using assms parse_show_prefix_v4 by (metis option.inject)

text \<open>A parsed address or prefix is well formed.\<close>

lemma parse_octet_bound: "parse_octet s = Some n \<Longrightarrow> n < 256"
  by (auto simp: parse_octet_def split: if_splits)

lemma parse_ipv4_bound: "parse_ipv4 s = Some n \<Longrightarrow> n < 2 ^ 32"
  unfolding parse_ipv4_def
  by (auto split: list.splits option.splits dest!: parse_octet_bound)

end
