(* ===== verification/Model_Types.thy ===== *)
theory Model_Types
  imports Netip Complex_Main
begin

text \<open>
  The protocol-agnostic configuration model of \<^verbatim>\<open>internal/model/model.go\<close>: endpoints, groups,
  rules, routing lists and the profile that holds them, with the lookups by id, and the
  interface-name and address helpers of \<^verbatim>\<open>internal/util\<close>. Engines and protocols are open string
  types in the code (any JSON string can be stored), so they are strings here, with the named
  constants as abbreviations.
\<close>

subsection \<open>Engines, protocols, group types\<close>

type_synonym engine = string
type_synonym protocol = string
type_synonym group_type = string

abbreviation EngineSingBox :: engine where "EngineSingBox \<equiv> ''singbox''"
abbreviation EngineAmneziaWG :: engine where "EngineAmneziaWG \<equiv> ''amneziawg''"
abbreviation EngineExternal :: engine where "EngineExternal \<equiv> ''external''"
abbreviation ProtoVLESS :: protocol where "ProtoVLESS \<equiv> ''vless''"
abbreviation ProtoShadowsocks :: protocol where "ProtoShadowsocks \<equiv> ''shadowsocks''"
abbreviation ProtoTUIC :: protocol where "ProtoTUIC \<equiv> ''tuic''"
abbreviation ProtoVMess :: protocol where "ProtoVMess \<equiv> ''vmess''"
abbreviation ProtoTrojan :: protocol where "ProtoTrojan \<equiv> ''trojan''"
abbreviation ProtoHysteria2 :: protocol where "ProtoHysteria2 \<equiv> ''hysteria2''"
abbreviation ProtoAnyTLS :: protocol where "ProtoAnyTLS \<equiv> ''anytls''"
abbreviation ProtoSOCKS :: protocol where "ProtoSOCKS \<equiv> ''socks''"
abbreviation ProtoHTTP :: protocol where "ProtoHTTP \<equiv> ''http''"
abbreviation ProtoWireGuard :: protocol where "ProtoWireGuard \<equiv> ''wireguard''"
abbreviation ProtoAmneziaWG :: protocol where "ProtoAmneziaWG \<equiv> ''amneziawg''"
abbreviation GroupURLTest :: group_type where "GroupURLTest \<equiv> ''urltest''"
abbreviation GroupFallback :: group_type where "GroupFallback \<equiv> ''fallback''"

abbreviation OutboundDirect :: string where "OutboundDirect \<equiv> ''direct''"
abbreviation OutboundBlock :: string where "OutboundBlock \<equiv> ''block''"

subsection \<open>Parameter values\<close>

text \<open>A value of \<^verbatim>\<open>map[string]any\<close>, with the dynamic types the code puts there or tells apart: the
  importers store \<^verbatim>\<open>[]string\<close> and \<^verbatim>\<open>[]map[string]any\<close>, a decoded JSON document has \<^verbatim>\<open>[]any\<close> and
  \<^verbatim>\<open>map[string]any\<close>. Numbers are rational: an \<^verbatim>\<open>int\<close> and the \<^verbatim>\<open>float64\<close> of the same value are read alike.\<close>

datatype pval =
    PNil | PStr string | PBool bool | PNum rat
  | PStrs "string list" | PList "pval list"
  | PMap "(string \<times> pval) list" | PMaps "(string \<times> pval) list list"

type_synonym params = "string \<rightharpoonup> pval"

text \<open>The type assertion \<^verbatim>\<open>s, _ := v.(string)\<close>: the empty string unless the value is a string.\<close>

definition str_param :: "params \<Rightarrow> string \<Rightarrow> string" where
  "str_param ps k = (case ps k of Some (PStr s) \<Rightarrow> s | _ \<Rightarrow> [])"

fun any_strings :: "pval list \<Rightarrow> string list" where
  "any_strings [] = []"
| "any_strings (PStr s # vs) = s # any_strings vs"
| "any_strings (_ # vs) = any_strings vs"

subsection \<open>Records\<close>

record tls =
  tls_enabled :: bool
  tls_type :: string
  tls_sni :: string
  tls_alpn :: "string list"
  tls_insecure :: bool
  tls_fingerprint :: string
  tls_public_key :: string
  tls_short_id :: string
  tls_fragment :: bool
  tls_record_fragment :: bool

record transport =
  tr_type :: string
  tr_path :: string
  tr_host :: string
  tr_service_name :: string
  tr_headers :: "string \<rightharpoonup> string"

record health =
  h_url :: string
  h_interval :: int
  h_tolerance :: int

record endpoint =
  ep_id :: string
  ep_name :: string
  ep_engine :: engine
  ep_protocol :: protocol
  ep_server :: string
  ep_port :: int
  ep_params :: params
  ep_transport :: "transport option"
  ep_tls :: "tls option"
  ep_health :: "health option"
  ep_enabled :: bool
  ep_mtu :: int
  ep_keepalive :: int

record group =
  gr_id :: string
  gr_name :: string
  gr_type :: group_type
  gr_members :: "string list"
  gr_test :: "health option"
  gr_kill_switch :: bool
  gr_interrupt :: bool

record rule =
  ru_id :: string
  ru_domain_suffix :: "string list"
  ru_domain :: "string list"
  ru_geosite :: "string list"
  ru_geoip :: "string list"
  ru_ip_cidr :: "string list"
  ru_port :: "int list"
  ru_source_ip_cidr :: "string list"
  ru_source_mac :: "string list"
  ru_source_iface :: "string list"
  ru_source_port :: "int list"
  ru_default :: bool
  ru_disabled :: bool
  ru_outbound :: string

record routing_list =
  rl_id :: string
  rl_name :: string
  rl_source :: string
  rl_format :: string
  rl_manual :: "string list"
  rl_outbound :: string
  rl_download_via :: string
  rl_refresh_hours :: int
  rl_enabled :: bool
  rl_cidr_source :: string
  rl_cidr_cache :: "string list"

record profile =
  endpoints :: "endpoint list"
  groups :: "group list"
  rules :: "rule list"
  routing_lists :: "routing_list list"

definition empty_profile :: profile where
  "empty_profile = \<lparr>endpoints = [], groups = [], rules = [], routing_lists = []\<rparr>"

subsection \<open>Lookups\<close>

definition EndpointByID :: "profile \<Rightarrow> string \<Rightarrow> endpoint option" where
  "EndpointByID p i = lookup_by ep_id i (endpoints p)"

definition GroupByID :: "profile \<Rightarrow> string \<Rightarrow> group option" where
  "GroupByID p i = lookup_by gr_id i (groups p)"

definition RoutingListByID :: "profile \<Rightarrow> string \<Rightarrow> routing_list option" where
  "RoutingListByID p i = lookup_by rl_id i (routing_lists p)"

subsection \<open>Helpers of internal/util\<close>

fun FirstNonEmpty :: "string list \<Rightarrow> string" where
  "FirstNonEmpty [] = []"
| "FirstNonEmpty (v # vs) = (if v \<noteq> [] then v else FirstNonEmpty vs)"

definition AWGIface :: "string \<Rightarrow> string" where
  "AWGIface i = ''wr-'' @ hex8 (fnv32a i)"

definition LocalAddr :: "params \<Rightarrow> string" where
  "LocalAddr ps =
     (case ps ''local_address'' of
        Some (PStrs ss) \<Rightarrow> join_with '', '' ss
      | Some (PList vs) \<Rightarrow> join_with '', '' (any_strings vs)
      | Some (PStr s) \<Rightarrow> s
      | _ \<Rightarrow> [])"

definition clean_addrs :: "string list \<Rightarrow> string list" where
  "clean_addrs ss = filter (\<lambda>s. s \<noteq> []) (map trim_space ss)"

definition LocalAddrs :: "params \<Rightarrow> string list" where
  "LocalAddrs ps =
     (case ps ''local_address'' of
        Some (PStrs ss) \<Rightarrow> clean_addrs ss
      | Some (PList vs) \<Rightarrow> clean_addrs (any_strings vs)
      | Some (PStr s) \<Rightarrow> clean_addrs (split_on (CHR '','') s)
      | _ \<Rightarrow> [])"

text \<open>The interface name derived from an endpoint id always fits the kernel limit of 15
  characters, carries the \<^verbatim>\<open>wr-\<close> prefix, and is exactly eleven characters long.\<close>

theorem AWGIface_fits_kernel_limit:
  "length (AWGIface i) = 11 \<and> length (AWGIface i) \<le> 15 \<and> has_prefix (AWGIface i) ''wr-''"
  by (simp add: AWGIface_def length_hex8 [OF fnv32a_bound])

lemma AWGIface_nonempty [simp]: "AWGIface i \<noteq> []"
  by (simp add: AWGIface_def)

lemma FirstNonEmpty_spec:
  "FirstNonEmpty vs = (case find (\<lambda>v. v \<noteq> []) vs of None \<Rightarrow> [] | Some v \<Rightarrow> v)"
  by (induction vs) auto

end
