(* ===== verification/Group_Cycle.thy ===== *)
theory Group_Cycle
  imports Model_Types
begin

text \<open>
  The nested-group cycle check of \<^verbatim>\<open>Profile.Validate\<close> (\<^verbatim>\<open>internal/model/validate.go\<close>): a depth-first
  search that colours groups visiting/done, as a function with its termination proof, and the
  theorem that it accepts exactly the acyclic group graphs.
\<close>

subsection \<open>The search\<close>

datatype color = White | Visiting | Done

type_synonym coloring = "string \<Rightarrow> color"
type_synonym adjacency = "(string \<times> string list) list"

definition nexts :: "adjacency \<Rightarrow> string \<Rightarrow> string list" where
  "nexts adj g = (case map_of adj g of None \<Rightarrow> [] | Some ms \<Rightarrow> ms)"

definition nodes_of :: "adjacency \<Rightarrow> string set" where
  "nodes_of adj = (\<Union>(g, ms) \<in> set adj. set ms)"

definition colored :: "coloring \<Rightarrow> string set" where
  "colored c = {x. c x \<noteq> White}"

definition set_color :: "coloring \<Rightarrow> string \<Rightarrow> color \<Rightarrow> coloring" where
  "set_color c x k = c(x := k)"

lemma set_color_apply: "set_color c x k y = (if y = x then k else c y)"
  by (simp add: set_color_def)

text \<open>The error names the group whose member closes the cycle, and that member.\<close>

type_synonym cycle = "string \<times> string"

text \<open>\<^verbatim>\<open>visit adj g ms c\<close> is the rest \<^verbatim>\<open>ms\<close> of the loop of \<^verbatim>\<open>dfs(g)\<close> over the members of \<^verbatim>\<open>g\<close>; at its
  end \<^verbatim>\<open>g\<close> is coloured done. The call \<^verbatim>\<open>dfs(g)\<close> is \<^verbatim>\<open>visit\<close> on all members, with \<^verbatim>\<open>g\<close> coloured visiting.\<close>

function visit :: "adjacency \<Rightarrow> string \<Rightarrow> string list \<Rightarrow> coloring \<Rightarrow> (cycle, coloring) res" where
  "visit adj g [] c = Inr (set_color c g Done)"
| "visit adj g (m # ms) c =
     (case c m of
        Visiting \<Rightarrow> Inl (g, m)
      | Done \<Rightarrow> visit adj g ms c
      | White \<Rightarrow>
          (case visit adj m (nexts adj m) (set_color c m Visiting) of
             Inl e \<Rightarrow> Inl e
           | Inr c' \<Rightarrow> visit adj g ms c'))"
  by pat_completeness auto

lemma colored_upd [simp]:
  "colored (set_color c x k) = (if k = White then colored c - {x} else insert x (colored c))"
  by (auto simp: colored_def set_color_apply)

lemma colored_white: "c x = White \<Longrightarrow> x \<notin> colored c"
  by (simp add: colored_def)

lemma nodes_of_finite [simp]: "finite (nodes_of adj)"
  by (auto simp: nodes_of_def)

lemma nexts_subset: "set (nexts adj g) \<subseteq> nodes_of adj"
  by (auto simp: nexts_def nodes_of_def split: option.splits) (metis case_prod_conv map_of_SomeD)

lemma visit_colored_dom:
  "visit_dom (adj, g, ms, c) \<Longrightarrow> visit adj g ms c = Inr c' \<Longrightarrow> colored c \<subseteq> colored c'"
proof (induction arbitrary: c' rule: visit.pinduct)
  case (1 adj g c)
  then show ?case by (auto simp: visit.psimps)
next
  case (2 adj g m ms c)
  show ?case
  proof (cases "c m")
    case White
    with 2 obtain d where d: "visit adj m (nexts adj m) (set_color c m Visiting) = Inr d"
      "visit adj g ms d = Inr c'"
      by (auto simp: visit.psimps split: sum.splits)
    have "colored (set_color c m Visiting) \<subseteq> colored d" using 2 White d(1) by blast
    moreover have "colored d \<subseteq> colored c'" using 2 White d by blast
    ultimately show ?thesis by auto
  qed (use 2 in \<open>auto simp: visit.psimps\<close>)
qed

definition universe :: "adjacency \<Rightarrow> string list \<Rightarrow> coloring \<Rightarrow> string set" where
  "universe adj ms c = (nodes_of adj \<union> set ms) - colored c"

termination visit
proof (relation "inv_image (finite_psubset <*lex*> less_than)
    (\<lambda>(adj, g, ms, c). (universe adj ms c, length ms))", goal_cases)
  case 1
  then show ?case by auto
next
  case (2 adj g m ms c)
  have "universe adj (nexts adj m) (set_color c m Visiting) \<subset> universe adj (m # ms) c"
    using 2 nexts_subset [of adj m] colored_white [of c m] by (auto simp: universe_def)
  then show ?case by (auto simp: finite_psubset_def universe_def)
next
  case (3 adj g m ms c d)
  from 3 have "colored (set_color c m Visiting) \<subseteq> colored d"
    using visit_colored_dom by blast
  then have "universe adj ms d \<subset> universe adj (m # ms) c"
    using colored_white [of c m] 3(1) by (auto simp: universe_def)
  then show ?case by (auto simp: finite_psubset_def universe_def)
next
  case (4 adj g m ms c)
  have "universe adj ms c \<subseteq> universe adj (m # ms) c" by (auto simp: universe_def)
  then show ?case by (auto simp: finite_psubset_def universe_def)
qed

definition dfs :: "adjacency \<Rightarrow> string \<Rightarrow> coloring \<Rightarrow> (cycle, coloring) res" where
  "dfs adj g c = visit adj g (nexts adj g) (set_color c g Visiting)"

text \<open>The outer loop starts a search at every group that is still uncoloured.\<close>

definition dfs_start :: "adjacency \<Rightarrow> coloring \<Rightarrow> string \<Rightarrow> (cycle, coloring) res" where
  "dfs_start adj c g = (if c g = White then dfs adj g c else Inr c)"

definition cycle_check :: "adjacency \<Rightarrow> string list \<Rightarrow> cycle option" where
  "cycle_check adj gs =
     (case fold_res (dfs_start adj) (\<lambda>_. White) gs of Inl e \<Rightarrow> Some e | Inr _ \<Rightarrow> None)"

subsection \<open>Correctness\<close>

definition edges :: "adjacency \<Rightarrow> (string \<times> string) set" where
  "edges adj = {(g, m). m \<in> set (nexts adj g)}"

definition dones :: "coloring \<Rightarrow> string set" where
  "dones c = {x. c x = Done}"

definition visitings :: "coloring \<Rightarrow> string set" where
  "visitings c = {x. c x = Visiting}"

lemma color_set_simps [simp]:
  "dones (set_color c x Done) = insert x (dones c)" "visitings (set_color c x Done) = visitings c - {x}"
  "dones (set_color c x Visiting) = dones c - {x}" "visitings (set_color c x Visiting) = insert x (visitings c)"
  by (auto simp: dones_def visitings_def set_color_apply)

lemma color_sets: "x \<in> dones c \<longleftrightarrow> c x = Done" "x \<in> visitings c \<longleftrightarrow> c x = Visiting"
  by (simp_all add: dones_def visitings_def)

text \<open>What the finished part of the search knows: it is closed under edges and acyclic.\<close>

definition search_inv :: "adjacency \<Rightarrow> coloring \<Rightarrow> bool" where
  "search_inv adj c = (edges adj `` dones c \<subseteq> dones c \<and> acyclic (edges adj \<inter> dones c \<times> UNIV))"

lemma acyclic_insert_source:
  assumes "acyclic (r \<inter> D \<times> UNIV)" and "r `` D \<subseteq> D" and "x \<notin> D" and "r `` {x} \<subseteq> D"
  shows "acyclic (r \<inter> insert x D \<times> UNIV)"
proof -
  let ?r = "r \<inter> D \<times> UNIV" and ?s = "r \<inter> insert x D \<times> UNIV"
  have into: "(a, b) \<in> ?s\<^sup>+ \<Longrightarrow> b \<in> D" for a b
    by (induction rule: trancl_induct) (use assms(2,4) in blast)+
  have from_D: "(a, b) \<in> ?s\<^sup>+ \<Longrightarrow> a \<in> D \<Longrightarrow> (a, b) \<in> ?r\<^sup>+" for a b
  proof (induction rule: trancl_induct)
    case (base y)
    then show ?case by blast
  next
    case (step y z)
    then have "y \<in> D" using into by blast
    with step show ?case by (meson IntI SigmaI UNIV_I IntD1 trancl.trancl_into_trancl)
  qed
  show ?thesis
  proof (rule acyclicI, intro allI notI)
    fix a assume "(a, a) \<in> ?s\<^sup>+"
    then have "(a, a) \<in> ?r\<^sup>+" using into from_D by blast
    then show False using assms(1) by (simp add: acyclic_def)
  qed
qed

lemma visit_sound:
  "visit adj g ms c = Inr c' \<Longrightarrow> search_inv adj c \<Longrightarrow> g \<in> visitings c \<Longrightarrow>
   edges adj `` {g} \<subseteq> dones c \<union> set ms \<Longrightarrow>
   search_inv adj c' \<and> insert g (dones c) \<subseteq> dones c' \<and> visitings c' = visitings c - {g}"
proof (induction adj g ms c arbitrary: c' rule: visit.induct)
  case (1 adj g c)
  then have "g \<notin> dones c" by (auto simp: dones_def visitings_def)
  with 1 have "acyclic (edges adj \<inter> insert g (dones c) \<times> UNIV)"
    by (intro acyclic_insert_source) (auto simp: search_inv_def)
  moreover from 1 have "c' = set_color c g Done" by simp
  ultimately show ?case using 1 by (auto simp: search_inv_def)
next
  case (2 adj g m ms c)
  show ?case
  proof (cases "c m")
    case White
    then obtain d where d: "visit adj m (nexts adj m) (set_color c m Visiting) = Inr d"
      and rest: "visit adj g ms d = Inr c'"
      using 2 by (auto split: sum.splits)
    have m: "m \<notin> dones c" "m \<notin> visitings c" "m \<noteq> g"
      using White "2.prems" by (auto simp: dones_def visitings_def)
    have inner: "search_inv adj d \<and> insert m (dones c) \<subseteq> dones d \<and>
        visitings d = visitings c"
      using "2.IH"(1) [OF White d] m "2.prems" by (auto simp: search_inv_def edges_def)
    then have "g \<in> visitings d" "edges adj `` {g} \<subseteq> dones d \<union> set ms"
      using "2.prems" by auto
    from "2.IH"(2) [OF White d rest] inner this show ?thesis by auto
  next
    case Visiting
    with "2.prems" show ?thesis by simp
  next
    case Done
    with "2.prems" have "visit adj g ms c = Inr c'" "edges adj `` {g} \<subseteq> dones c \<union> set ms"
      by (auto simp: color_sets)
    from "2.IH"(3) [OF Done this(1)] this(2) "2.prems" show ?thesis by blast
  qed
qed

lemma visit_visitings:
  "visit adj g ms c = Inr c' \<Longrightarrow> visitings c' \<subseteq> visitings c - {g}"
proof (induction adj g ms c arbitrary: c' rule: visit.induct)
  case (1 adj g c)
  then show ?case by auto
next
  case (2 adj g m ms c)
  show ?case
  proof (cases "c m")
    case White
    then obtain d where d: "visit adj m (nexts adj m) (set_color c m Visiting) = Inr d"
      and rest: "visit adj g ms d = Inr c'"
      using 2 by (auto split: sum.splits)
    from "2.IH"(1) [OF White d] have "visitings d \<subseteq> visitings c" by auto
    with "2.IH"(2) [OF White d rest] show ?thesis by auto
  qed (use 2 in \<open>auto simp: color_sets\<close>)
qed

lemma visit_complete:
  "visit adj g ms c = Inl e \<Longrightarrow> set ms \<subseteq> edges adj `` {g} \<Longrightarrow>
   \<forall>v \<in> visitings c. (v, g) \<in> (edges adj)\<^sup>* \<Longrightarrow> \<not> acyclic (edges adj)"
proof (induction adj g ms c rule: visit.induct)
  case (1 adj g c)
  then show ?case by simp
next
  case (2 adj g m ms c)
  have gm: "(g, m) \<in> edges adj" using "2.prems" by auto
  show ?case
  proof (cases "c m")
    case White
    show ?thesis
    proof (cases "visit adj m (nexts adj m) (set_color c m Visiting)")
      case (Inl e')
      have "\<forall>v \<in> visitings (set_color c m Visiting). (v, m) \<in> (edges adj)\<^sup>*"
        using "2.prems"(3) gm by (auto intro: rtrancl_into_rtrancl)
      with "2.IH"(1) [OF White] Inl "2.prems"(1) White show ?thesis
        by (auto simp: edges_def)
    next
      case (Inr d)
      then have sub: "visitings d \<subseteq> visitings c"
        using visit_visitings [of adj m "nexts adj m" "set_color c m Visiting" d] by auto
      with "2.IH"(2) [OF White Inr] "2.prems" White Inr show ?thesis by auto
    qed
  next
    case Visiting
    then have "(m, g) \<in> (edges adj)\<^sup>*" using "2.prems"(3) by (simp add: color_sets)
    with gm show ?thesis by (auto simp: acyclic_def dest: rtrancl_into_trancl1)
  next
    case Done
    with "2.IH"(3) [OF Done] "2.prems" show ?thesis by auto
  qed
qed

lemma dfs_sound:
  assumes "dfs adj g c = Inr c'" and "search_inv adj c" and "visitings c = {}" and "c g = White"
  shows "search_inv adj c' \<and> insert g (dones c) \<subseteq> dones c' \<and> visitings c' = {}"
proof -
  have g: "g \<notin> dones c" using assms(4) by (simp add: color_sets)
  have inv: "search_inv adj (set_color c g Visiting)"
    using assms(2) g by (simp add: search_inv_def)
  have "search_inv adj c' \<and> insert g (dones (set_color c g Visiting)) \<subseteq> dones c' \<and>
      visitings c' = visitings (set_color c g Visiting) - {g}"
    by (rule visit_sound [OF assms(1) [unfolded dfs_def] inv]) (auto simp: edges_def)
  with g assms(3) show ?thesis by auto
qed

lemma fold_dfs_sound:
  "fold_res (dfs_start adj) c gs = Inr c' \<Longrightarrow> search_inv adj c \<Longrightarrow> visitings c = {} \<Longrightarrow>
   search_inv adj c' \<and> set gs \<union> dones c \<subseteq> dones c'"
proof (induction gs arbitrary: c)
  case (Cons g gs)
  then obtain d where d: "dfs_start adj c g = Inr d" and rest: "fold_res (dfs_start adj) d gs = Inr c'"
    by (auto split: sum.splits)
  have "search_inv adj d \<and> insert g (dones c) \<subseteq> dones d \<and> visitings d = {}"
  proof (cases "c g = White")
    case True
    with d Cons.prems show ?thesis using dfs_sound by (simp add: dfs_start_def)
  next
    case False
    moreover have "g \<notin> visitings c" using Cons.prems by simp
    ultimately have "g \<in> dones c" by (cases "c g") (auto simp: color_sets)
    with False d Cons.prems show ?thesis by (auto simp: dfs_start_def)
  qed
  with Cons.IH [OF rest] show ?case by auto
qed simp

lemma fold_dfs_complete:
  "fold_res (dfs_start adj) c gs = Inl e \<Longrightarrow> visitings c = {} \<Longrightarrow> \<not> acyclic (edges adj)"
proof (induction gs arbitrary: c)
  case (Cons g gs)
  show ?case
  proof (cases "dfs_start adj c g")
    case (Inl e')
    then have "visit adj g (nexts adj g) (set_color c g Visiting) = Inl e'"
      by (auto simp: dfs_start_def dfs_def split: if_splits)
    then show ?thesis
      by (rule visit_complete) (use Cons.prems in \<open>auto simp: edges_def\<close>)
  next
    case (Inr d)
    then have "visitings d \<subseteq> visitings c"
      using visit_visitings [of adj g "nexts adj g" "set_color c g Visiting" d]
      by (auto simp: dfs_start_def dfs_def split: if_splits)
    with Cons Inr show ?thesis by auto
  qed
qed simp

lemma dones_white [simp]: "dones (\<lambda>_. White) = {}" "visitings (\<lambda>_. White) = {}"
  by (simp_all add: dones_def visitings_def)

lemma cycle_check_iff:
  assumes "fst ` set adj \<subseteq> set gs"
  shows "cycle_check adj gs = None \<longleftrightarrow> acyclic (edges adj)"
proof
  assume "cycle_check adj gs = None"
  then obtain c where "fold_res (dfs_start adj) (\<lambda>_. White) gs = Inr c"
    by (auto simp: cycle_check_def split: sum.splits)
  moreover have "search_inv adj (\<lambda>_. White)" by (simp add: search_inv_def acyclic_def)
  ultimately have inv: "search_inv adj c" and "set gs \<subseteq> dones c"
    using fold_dfs_sound [of adj "\<lambda>_. White" gs c] by auto
  moreover have "edges adj \<subseteq> fst ` set adj \<times> UNIV"
    by (auto simp: edges_def nexts_def split: option.splits) (metis fst_conv image_eqI map_of_SomeD)
  ultimately have "edges adj \<inter> dones c \<times> UNIV = edges adj" using assms by blast
  with inv show "acyclic (edges adj)" by (simp add: search_inv_def)
next
  assume "acyclic (edges adj)"
  then show "cycle_check adj gs = None"
    using fold_dfs_complete [of adj "\<lambda>_. White" gs]
    by (auto simp: cycle_check_def split: sum.splits)
qed

text \<open>C15. The cycle check of the validator is exact: started at every group that has an outgoing
  edge, it reports no cycle if and only if the group graph is acyclic (for any number of groups
  and any nesting depth; the search always terminates).\<close>

theorem cycle_check_exact:
  assumes "fst ` set adj \<subseteq> set gs"
  shows "cycle_check adj gs = None \<longleftrightarrow> acyclic (edges adj)"
  using assms by (rule cycle_check_iff)

definition example_adj :: adjacency where
  "example_adj = [(''g1'', [''g2'', ''g3'']), (''g2'', [''g3'']), (''g3'', [''g1''])]"

theorem cycle_check_exact_witness:
  "fst ` set example_adj \<subseteq> set [''g1'', ''g2'', ''g3''] \<and> \<not> acyclic (edges example_adj)"
proof -
  have h: "fst ` set example_adj \<subseteq> set [''g1'', ''g2'', ''g3'']"
    by (simp add: example_adj_def)
  have "cycle_check example_adj [''g1'', ''g2'', ''g3''] = Some (''g3'', ''g1'')"
    by code_simp
  with h cycle_check_exact [OF h] show ?thesis by simp
qed

end
