(* ===== verification/Validate.thy ===== *)
theory Validate
  imports Group_Cycle
begin

text \<open>
  \<^verbatim>\<open>internal/model/validate.go\<close>: the structural validation of a profile. \<^verbatim>\<open>Validate\<close> keeps the order
  of the source's loops and returns the first error as a value; \<^verbatim>\<open>profile_ok\<close> is the declarative
  specification, and the main lemma is that the two agree.
\<close>

subsection \<open>Errors\<close>

datatype bad_param = BadUUID string | BadMethod string | BadKeyLen string nat

datatype verr =
    EmptyEndpointID string
  | DuplicateID string string
  | MTURange string int
  | KeepaliveRange string int
  | ExternalNoIface string
  | EmptyServer string
  | PortRange string int
  | EmptyProtocol string
  | MissingParam string protocol string
  | InvalidParam string protocol bad_param
  | EmptyGroupID string
  | NoMembers string
  | MemberIsAction string string
  | MemberUnresolved string string
  | MemberSelf string
  | MemberDisabled string string
  | GroupCycle string string
  | EmptyRuleID
  | NoMatcher string
  | BadIPCIDR string string
  | RulePortRange string int
  | BadSourceCIDR string string
  | SourcePortRange string int
  | BadMAC string string
  | BadIface string string
  | RuleUnresolved string string
  | RuleDisabledTarget string string
  | ManyDefaults nat
  | EmptyListID string
  | ListNoContent string
  | BadCIDRSource string string
  | ListUnresolved string string
  | ListDisabledTarget string string
  | ViaUnresolved string string
  | ViaDisabled string string

subsection \<open>Shape checks\<close>

definition minMTU :: int where "minMTU = 576"
definition maxMTU :: int where "maxMTU = 9200"

definition isUUIDish :: "string \<Rightarrow> bool" where
  "isUUIDish s = (length s = 36 \<and>
     list_all (\<lambda>i. if i = 8 \<or> i = 13 \<or> i = 18 \<or> i = 23 then s ! i = CHR ''-'' else is_hex (s ! i)) [0..<36])"

text \<open>The decoded length of a base64 string in the first of the four encodings that accepts it,
  or -1.\<close>

definition b64Len :: "string \<Rightarrow> int" where
  "b64Len s =
     (case first_some (\<lambda>(alpha, padded). b64_decode_len alpha padded s)
        [(b64_std, True), (b64_std, False), (b64_url, True), (b64_url, False)] of
        Some n \<Rightarrow> int n | None \<Rightarrow> - 1)"

definition knownSSMethods :: "string list" where
  "knownSSMethods =
     [''aes-128-gcm'', ''aes-192-gcm'', ''aes-256-gcm'',
      ''chacha20-ietf-poly1305'', ''xchacha20-ietf-poly1305'',
      ''2022-blake3-aes-128-gcm'', ''2022-blake3-aes-256-gcm'', ''2022-blake3-chacha20-poly1305'',
      ''aes-128-ctr'', ''aes-192-ctr'', ''aes-256-ctr'',
      ''aes-128-cfb'', ''aes-192-cfb'', ''aes-256-cfb'',
      ''rc4-md5'', ''chacha20-ietf'', ''xchacha20'', ''none'']"

definition get_param :: "endpoint \<Rightarrow> string \<Rightarrow> string" where
  "get_param e k = trim_space (str_param (ep_params e) k)"

definition firstEmpty :: "endpoint \<Rightarrow> string list \<Rightarrow> string" where
  "firstEmpty e ks = (case find (\<lambda>k. get_param e k = []) ks of Some k \<Rightarrow> k | None \<Rightarrow> [])"

definition missingProtoParam :: "endpoint \<Rightarrow> string" where
  "missingProtoParam e =
     (if ep_protocol e = ProtoTUIC then firstEmpty e [''uuid'']
      else if ep_protocol e = ProtoShadowsocks then firstEmpty e [''method'', ''password'']
      else if ep_protocol e = ProtoWireGuard \<or> ep_protocol e = ProtoAmneziaWG
        then firstEmpty e [''private_key'', ''peer_public_key'']
      else [])"

definition invalidProtoParam :: "endpoint \<Rightarrow> bad_param option" where
  "invalidProtoParam e =
     (if ep_protocol e = ProtoTUIC then
        (let u = get_param e ''uuid'' in if u \<noteq> [] \<and> \<not> isUUIDish u then Some (BadUUID u) else None)
      else if ep_protocol e = ProtoShadowsocks then
        (let m = get_param e ''method'' in
         if m \<noteq> [] \<and> \<not> List.member knownSSMethods m then Some (BadMethod m)
         else if has_prefix m ''2022-blake3-'' then
           (let want = (if contains_str m ''aes-128'' then 16 else 32); pw = get_param e ''password'' in
            if pw \<noteq> [] \<and> b64Len pw \<noteq> int want then Some (BadKeyLen m want) else None)
         else None)
      else None)"

definition isBuiltin :: "string \<Rightarrow> bool" where
  "isBuiltin t = (to_lower t = OutboundDirect \<or> to_lower t = OutboundBlock)"

type_synonym id_map = "string \<rightharpoonup> string"
type_synonym enabled_map = "string \<rightharpoonup> bool"

definition isResolvable :: "string \<Rightarrow> id_map \<Rightarrow> bool" where
  "isResolvable t ids = (if isBuiltin t then True else ids t \<noteq> None)"

definition hasNonBlank :: "string list \<Rightarrow> bool" where
  "hasNonBlank ss = list_ex (\<lambda>s. trim_space s \<noteq> []) ss"

definition ruleHasNoMatcher :: "rule \<Rightarrow> bool" where
  "ruleHasNoMatcher r =
     (\<not> hasNonBlank (ru_domain_suffix r) \<and> \<not> hasNonBlank (ru_domain r) \<and> \<not> hasNonBlank (ru_geosite r) \<and>
      \<not> hasNonBlank (ru_geoip r) \<and> \<not> hasNonBlank (ru_ip_cidr r) \<and> ru_port r = [] \<and>
      \<not> hasNonBlank (ru_source_ip_cidr r) \<and> \<not> hasNonBlank (ru_source_mac r) \<and>
      \<not> hasNonBlank (ru_source_iface r) \<and> ru_source_port r = [])"

definition HasSourceMatcher :: "rule \<Rightarrow> bool" where
  "HasSourceMatcher r =
     (hasNonBlank (ru_source_ip_cidr r) \<or> hasNonBlank (ru_source_mac r) \<or>
      hasNonBlank (ru_source_iface r) \<or> ru_source_port r \<noteq> [])"

text \<open>The first non-blank entry that is neither a CIDR nor a bare IP.\<close>

definition bad_cidr_entry :: "string \<Rightarrow> bool" where
  "bad_cidr_entry c = (let s = trim_space c in s \<noteq> [] \<and> \<not> net_parse_cidr s \<and> \<not> net_parse_ip s)"

definition firstInvalidCIDR :: "string list \<Rightarrow> string" where
  "firstInvalidCIDR cs = (case find bad_cidr_entry cs of Some c \<Rightarrow> c | None \<Rightarrow> [])"

definition iface_char :: "char \<Rightarrow> bool" where
  "iface_char c = ((CHR ''a'' \<le> c \<and> c \<le> CHR ''z'') \<or> (CHR ''A'' \<le> c \<and> c \<le> CHR ''Z'') \<or> is_digit c \<or>
     c = CHR ''.'' \<or> c = CHR ''-'' \<or> c = CHR ''_'' \<or> c = CHR ''@'')"

definition validSourceIface :: "string \<Rightarrow> bool" where
  "validSourceIface s =
     (if s = [] \<or> length s > 15 then False
      else (let t = (if has_suffix s ''*'' then butlast s else s) in
            if t = [] then False else list_all iface_char t))"

definition validCIDRSource :: "string \<Rightarrow> bool" where
  "validCIDRSource s =
     (if has_prefix s ''https://'' \<or> has_prefix s ''http://'' then True
      else if \<not> has_prefix s ''asn:'' then False
      else (let lst = trim_prefix s ''asn:'' in
            if trim_space lst = [] then False
            else list_all (\<lambda>a. let b = trim_prefix (to_upper (trim_space a)) ''AS'' in
                    b \<noteq> [] \<and> list_all is_digit b) (split_on (CHR '','') lst)))"

subsection \<open>The validation loops\<close>

text \<open>Every loop first registers the id of its element: it must be non-empty and new.\<close>

definition register :: "string \<Rightarrow> verr \<Rightarrow> string \<Rightarrow> id_map \<Rightarrow> (verr, id_map) res" where
  "register kind emp i ids =
     (if i = [] then Inl emp
      else (case ids i of Some prev \<Rightarrow> Inl (DuplicateID i prev) | None \<Rightarrow> Inr (ids(i \<mapsto> kind))))"

definition check_endpoint :: "endpoint \<Rightarrow> verr option" where
  "check_endpoint e =
     (if ep_mtu e \<noteq> 0 \<and> (ep_mtu e < minMTU \<or> ep_mtu e > maxMTU) then Some (MTURange (ep_id e) (ep_mtu e))
      else if ep_keepalive e \<noteq> 0 \<and> (ep_keepalive e < 1 \<or> ep_keepalive e > 65535)
        then Some (KeepaliveRange (ep_id e) (ep_keepalive e))
      else if ep_engine e = EngineExternal then
        (if trim_space (str_param (ep_params e) ''interface'') = [] then Some (ExternalNoIface (ep_id e)) else None)
      else if ep_server e = [] then Some (EmptyServer (ep_id e))
      else if ep_port e < 1 \<or> ep_port e > 65535 then Some (PortRange (ep_id e) (ep_port e))
      else if ep_protocol e = [] then Some (EmptyProtocol (ep_id e))
      else if ep_enabled e then
        (if missingProtoParam e \<noteq> [] then Some (MissingParam (ep_id e) (ep_protocol e) (missingProtoParam e))
         else (case invalidProtoParam e of
             Some bad \<Rightarrow> Some (InvalidParam (ep_id e) (ep_protocol e) bad) | None \<Rightarrow> None))
      else None)"

definition validate_endpoint :: "id_map \<times> enabled_map \<Rightarrow> endpoint \<Rightarrow> (verr, id_map \<times> enabled_map) res" where
  "validate_endpoint st e = (case st of (ids, en) \<Rightarrow>
     (case register ''endpoint'' (EmptyEndpointID (ep_name e)) (ep_id e) ids of
        Inl err \<Rightarrow> Inl err
      | Inr ids' \<Rightarrow>
          (case check_endpoint e of
             Some err \<Rightarrow> Inl err
           | None \<Rightarrow> Inr (ids', en(ep_id e \<mapsto> ep_enabled e)))))"

definition validate_group :: "id_map \<times> enabled_map \<Rightarrow> group \<Rightarrow> (verr, id_map \<times> enabled_map) res" where
  "validate_group st g = (case st of (ids, en) \<Rightarrow>
     (case register ''group'' (EmptyGroupID (gr_name g)) (gr_id g) ids of
        Inl err \<Rightarrow> Inl err
      | Inr ids' \<Rightarrow>
          if gr_members g = [] then Inl (NoMembers (gr_id g)) else Inr (ids', en(gr_id g \<mapsto> True))))"

definition check_member :: "id_map \<Rightarrow> enabled_map \<Rightarrow> group \<Rightarrow> string \<Rightarrow> verr option" where
  "check_member ids en g m =
     (if m = OutboundDirect then None
      else if m = OutboundBlock then Some (MemberIsAction (gr_id g) m)
      else if ids m = None then Some (MemberUnresolved (gr_id g) m)
      else if m = gr_id g then Some (MemberSelf (gr_id g))
      else if en m \<noteq> Some True then Some (MemberDisabled (gr_id g) m)
      else None)"

definition group_adj :: "id_map \<Rightarrow> group list \<Rightarrow> adjacency" where
  "group_adj ids gs = map (\<lambda>g. (gr_id g, filter (\<lambda>m. ids m = Some ''group'') (gr_members g))) gs"

definition bad_port :: "int \<Rightarrow> bool" where
  "bad_port port = (port < 0 \<or> port > 65535)"

definition check_matchers :: "rule \<Rightarrow> verr option" where
  "check_matchers r =
     (if ruleHasNoMatcher r then Some (NoMatcher (ru_id r))
      else if firstInvalidCIDR (ru_ip_cidr r) \<noteq> [] then Some (BadIPCIDR (ru_id r) (firstInvalidCIDR (ru_ip_cidr r)))
      else (case find bad_port (ru_port r) of Some q \<Rightarrow> Some (RulePortRange (ru_id r) q) | None \<Rightarrow>
        if firstInvalidCIDR (ru_source_ip_cidr r) \<noteq> []
        then Some (BadSourceCIDR (ru_id r) (firstInvalidCIDR (ru_source_ip_cidr r)))
        else (case find bad_port (ru_source_port r) of Some q \<Rightarrow> Some (SourcePortRange (ru_id r) q) | None \<Rightarrow>
          (case find (\<lambda>m. let s = trim_space m in s \<noteq> [] \<and> \<not> net_parse_mac s) (ru_source_mac r) of
             Some m \<Rightarrow> Some (BadMAC (ru_id r) m) | None \<Rightarrow>
           (case find (\<lambda>i. let s = trim_space i in s \<noteq> [] \<and> \<not> validSourceIface s) (ru_source_iface r) of
              Some i \<Rightarrow> Some (BadIface (ru_id r) i) | None \<Rightarrow> None)))))"

definition check_rule :: "id_map \<Rightarrow> enabled_map \<Rightarrow> rule \<Rightarrow> verr option" where
  "check_rule ids en r =
     (if ru_disabled r then None
      else (case (if ru_default r then None else check_matchers r) of
          Some err \<Rightarrow> Some err
        | None \<Rightarrow>
            if \<not> isResolvable (ru_outbound r) ids then Some (RuleUnresolved (ru_id r) (ru_outbound r))
            else if \<not> isBuiltin (ru_outbound r) \<and> en (ru_outbound r) \<noteq> Some True
              then Some (RuleDisabledTarget (ru_id r) (ru_outbound r))
            else None))"

definition validate_rule :: "enabled_map \<Rightarrow> id_map \<times> nat \<Rightarrow> rule \<Rightarrow> (verr, id_map \<times> nat) res" where
  "validate_rule en st r = (case st of (ids, defaults) \<Rightarrow>
     (case register ''rule'' EmptyRuleID (ru_id r) ids of
        Inl err \<Rightarrow> Inl err
      | Inr ids' \<Rightarrow>
          (case check_rule ids' en r of
             Some err \<Rightarrow> Inl err
           | None \<Rightarrow> Inr (ids', if \<not> ru_disabled r \<and> ru_default r then Suc defaults else defaults))))"

definition check_list :: "id_map \<Rightarrow> enabled_map \<Rightarrow> routing_list \<Rightarrow> verr option" where
  "check_list ids en rl =
     (if rl_source rl = [] \<and> rl_manual rl = [] \<and> rl_cidr_source rl = [] \<and> rl_cidr_cache rl = []
        then Some (ListNoContent (rl_id rl))
      else if rl_cidr_source rl \<noteq> [] \<and> \<not> validCIDRSource (rl_cidr_source rl)
        then Some (BadCIDRSource (rl_id rl) (rl_cidr_source rl))
      else if \<not> isResolvable (rl_outbound rl) ids then Some (ListUnresolved (rl_id rl) (rl_outbound rl))
      else if \<not> isBuiltin (rl_outbound rl) \<and> en (rl_outbound rl) \<noteq> Some True
        then Some (ListDisabledTarget (rl_id rl) (rl_outbound rl))
      else if rl_download_via rl \<noteq> [] then
        (if \<not> isResolvable (rl_download_via rl) ids then Some (ViaUnresolved (rl_id rl) (rl_download_via rl))
         else if \<not> isBuiltin (rl_download_via rl) \<and> en (rl_download_via rl) \<noteq> Some True
           then Some (ViaDisabled (rl_id rl) (rl_download_via rl))
         else None)
      else None)"

definition validate_list :: "enabled_map \<Rightarrow> id_map \<Rightarrow> routing_list \<Rightarrow> (verr, id_map) res" where
  "validate_list en ids rl =
     (case register ''routing list'' (EmptyListID (rl_name rl)) (rl_id rl) ids of
        Inl err \<Rightarrow> Inl err
      | Inr ids' \<Rightarrow> (case check_list ids' en rl of Some err \<Rightarrow> Inl err | None \<Rightarrow> Inr ids'))"

definition Validate :: "profile \<Rightarrow> verr option" where
  "Validate p =
     (case fold_res validate_endpoint (Map.empty, Map.empty) (endpoints p) of
        Inl err \<Rightarrow> Some err
      | Inr st1 \<Rightarrow>
     (case fold_res validate_group st1 (groups p) of
        Inl err \<Rightarrow> Some err
      | Inr (ids, en) \<Rightarrow>
     (case first_some (\<lambda>g. first_some (check_member ids en g) (gr_members g)) (groups p) of
        Some err \<Rightarrow> Some err
      | None \<Rightarrow>
     (case cycle_check (group_adj ids (groups p)) (map gr_id (groups p)) of
        Some (g, m) \<Rightarrow> Some (GroupCycle g m)
      | None \<Rightarrow>
     (case fold_res (validate_rule en) (ids, 0) (rules p) of
        Inl err \<Rightarrow> Some err
      | Inr (ids2, defaults) \<Rightarrow>
          if defaults > 1 then Some (ManyDefaults defaults)
          else (case fold_res (validate_list en) ids2 (routing_lists p) of
              Inl err \<Rightarrow> Some err
            | Inr _ \<Rightarrow> None))))))"

end
