(* ===== verification/Validate_Spec.thy ===== *)
theory Validate_Spec
  imports Validate
begin

text \<open>
  The declarative specification \<^verbatim>\<open>profile_ok\<close> of a structurally sound profile, and the proof
  that \<^verbatim>\<open>Validate\<close> accepts exactly the profiles that satisfy it.
\<close>

subsection \<open>The specification\<close>

text \<open>The ids that traffic can be routed to besides the builtins: the enabled endpoints and all
  groups.\<close>

definition targets :: "profile \<Rightarrow> string set" where
  "targets p = ep_id ` {e \<in> set (endpoints p). ep_enabled e} \<union> gr_id ` set (groups p)"

definition target_ok :: "profile \<Rightarrow> string \<Rightarrow> bool" where
  "target_ok p t = (isBuiltin t \<or> t \<in> targets p)"

definition all_ids :: "profile \<Rightarrow> string list" where
  "all_ids p = map ep_id (endpoints p) @ map gr_id (groups p) @ map ru_id (rules p) @ map rl_id (routing_lists p)"

definition group_edges :: "group list \<Rightarrow> (string \<times> string) set" where
  "group_edges gs = {(gr_id g, m) | g m. g \<in> set gs \<and> m \<in> set (gr_members g) \<and> m \<in> gr_id ` set gs}"

definition member_ok :: "profile \<Rightarrow> group \<Rightarrow> string \<Rightarrow> bool" where
  "member_ok p g m = (m = OutboundDirect \<or> (m \<noteq> OutboundBlock \<and> m \<noteq> gr_id g \<and> m \<in> targets p))"

definition group_ok :: "profile \<Rightarrow> group \<Rightarrow> bool" where
  "group_ok p g = (gr_members g \<noteq> [] \<and> (\<forall>m \<in> set (gr_members g). member_ok p g m))"

definition active_default :: "rule \<Rightarrow> bool" where
  "active_default r = (\<not> ru_disabled r \<and> ru_default r)"

definition rule_ok :: "profile \<Rightarrow> rule \<Rightarrow> bool" where
  "rule_ok p r = (ru_disabled r \<or>
     (ru_default r \<or> check_matchers r = None) \<and> target_ok p (ru_outbound r))"

definition list_ok :: "profile \<Rightarrow> routing_list \<Rightarrow> bool" where
  "list_ok p rl =
     (\<not> (rl_source rl = [] \<and> rl_manual rl = [] \<and> rl_cidr_source rl = [] \<and> rl_cidr_cache rl = []) \<and>
      (rl_cidr_source rl = [] \<or> validCIDRSource (rl_cidr_source rl)) \<and>
      target_ok p (rl_outbound rl) \<and>
      (rl_download_via rl = [] \<or> target_ok p (rl_download_via rl)))"

definition profile_ok :: "profile \<Rightarrow> bool" where
  "profile_ok p =
     (distinct (all_ids p) \<and> [] \<notin> set (all_ids p) \<and>
      (\<forall>e \<in> set (endpoints p). check_endpoint e = None) \<and>
      (\<forall>g \<in> set (groups p). group_ok p g) \<and>
      acyclic (group_edges (groups p)) \<and>
      (\<forall>r \<in> set (rules p). rule_ok p r) \<and> length (filter active_default (rules p)) \<le> 1 \<and>
      (\<forall>rl \<in> set (routing_lists p). list_ok p rl))"

subsection \<open>What each loop establishes\<close>

lemma register_ok:
  "register kind emp i ids = Inr ids' \<longleftrightarrow> i \<noteq> [] \<and> ids i = None \<and> ids' = ids(i \<mapsto> kind)"
  by (auto simp: register_def split: option.splits)

lemma dom_if_in [simp]: "dom (\<lambda>i. if i \<in> S then Some k else None) = S"
  by (auto simp: dom_def)

lemma fold_endpoints:
  "fold_res validate_endpoint (ids, en) es = Inr (ids', en') \<longleftrightarrow>
     [] \<notin> ep_id ` set es \<and> distinct (map ep_id es) \<and> ep_id ` set es \<inter> dom ids = {} \<and>
     (\<forall>e \<in> set es. check_endpoint e = None) \<and>
     ids' = ids ++ (\<lambda>i. if i \<in> ep_id ` set es then Some ''endpoint'' else None) \<and>
     en' = foldl (\<lambda>m e. m(ep_id e \<mapsto> ep_enabled e)) en es"
proof (induction es arbitrary: ids en)
  case Nil
  then show ?case by (auto simp: map_add_def)
next
  case (Cons e es)
  let ?k = "\<lambda>es i. if i \<in> ep_id ` set es then Some ''endpoint'' else None"
  show ?case
  proof (cases "ep_id e \<noteq> [] \<and> ids (ep_id e) = None \<and> check_endpoint e = None")
    case True
    then have step: "validate_endpoint (ids, en) e =
        Inr (ids(ep_id e \<mapsto> ''endpoint''), en(ep_id e \<mapsto> ep_enabled e))"
      by (simp add: validate_endpoint_def register_def)
    have eq: "ids(ep_id e \<mapsto> ''endpoint'') ++ ?k es = ids ++ ?k (e # es)"
      by (auto simp: map_add_def fun_eq_iff)
    show ?thesis using True by (simp add: step Cons.IH eq del: fun_upd_apply) (auto simp del: fun_upd_apply)
  next
    case False
    then have "\<not> (\<exists>s. validate_endpoint (ids, en) e = Inr s)"
      by (auto simp: validate_endpoint_def register_def split: option.splits)
    with False show ?thesis by (auto simp: domIff split: sum.splits)
  qed
qed

lemma fold_groups:
  "fold_res validate_group (ids, en) gs = Inr (ids', en') \<longleftrightarrow>
     [] \<notin> gr_id ` set gs \<and> distinct (map gr_id gs) \<and> gr_id ` set gs \<inter> dom ids = {} \<and>
     (\<forall>g \<in> set gs. gr_members g \<noteq> []) \<and>
     ids' = ids ++ (\<lambda>i. if i \<in> gr_id ` set gs then Some ''group'' else None) \<and>
     en' = en ++ (\<lambda>i. if i \<in> gr_id ` set gs then Some True else None)"
proof (induction gs arbitrary: ids en)
  case Nil
  then show ?case by (auto simp: map_add_def)
next
  case (Cons g gs)
  let ?k = "\<lambda>k gs i. if i \<in> gr_id ` set gs then Some k else None"
  show ?case
  proof (cases "gr_id g \<noteq> [] \<and> ids (gr_id g) = None \<and> gr_members g \<noteq> []")
    case True
    then have step: "validate_group (ids, en) g = Inr (ids(gr_id g \<mapsto> ''group''), en(gr_id g \<mapsto> True))"
      by (simp add: validate_group_def register_def)
    have eq: "ids(gr_id g \<mapsto> ''group'') ++ ?k ''group'' gs = ids ++ ?k ''group'' (g # gs)"
      "en(gr_id g \<mapsto> True) ++ ?k True gs = en ++ ?k True (g # gs)"
      by (auto simp: map_add_def fun_eq_iff)
    show ?thesis using True by (simp add: step Cons.IH eq del: fun_upd_apply) (auto simp del: fun_upd_apply)
  next
    case False
    then have "\<not> (\<exists>s. validate_group (ids, en) g = Inr s)"
      by (auto simp: validate_group_def register_def split: option.splits)
    with False show ?thesis by (auto simp: domIff split: sum.splits)
  qed
qed

text \<open>The verdict on a rule or list depends on the id map only through the enabled targets, which
  are always registered.\<close>

lemma resolve_enabled:
  assumes "\<forall>i. en i = Some True \<longrightarrow> ids i \<noteq> None"
  shows "(isResolvable t ids \<and> (isBuiltin t \<or> en t = Some True)) \<longleftrightarrow> isBuiltin t \<or> en t = Some True"
  using assms by (auto simp: isResolvable_def)

lemma check_rule_ok:
  assumes "\<forall>i. en i = Some True \<longrightarrow> ids i \<noteq> None"
  shows "check_rule ids en r = None \<longleftrightarrow> ru_disabled r \<or>
    (ru_default r \<or> check_matchers r = None) \<and> (isBuiltin (ru_outbound r) \<or> en (ru_outbound r) = Some True)"
  using resolve_enabled [OF assms, of "ru_outbound r"]
  by (auto simp: check_rule_def split: option.splits)

lemma check_list_ok:
  assumes "\<forall>i. en i = Some True \<longrightarrow> ids i \<noteq> None"
  shows "check_list ids en rl = None \<longleftrightarrow>
     \<not> (rl_source rl = [] \<and> rl_manual rl = [] \<and> rl_cidr_source rl = [] \<and> rl_cidr_cache rl = []) \<and>
      (rl_cidr_source rl = [] \<or> validCIDRSource (rl_cidr_source rl)) \<and>
      (isBuiltin (rl_outbound rl) \<or> en (rl_outbound rl) = Some True) \<and>
      (rl_download_via rl = [] \<or> isBuiltin (rl_download_via rl) \<or> en (rl_download_via rl) = Some True)"
  using resolve_enabled [OF assms, of "rl_outbound rl"] resolve_enabled [OF assms, of "rl_download_via rl"]
  by (auto simp: check_list_def)

lemma fold_rules:
  assumes "\<forall>i. en i = Some True \<longrightarrow> ids i \<noteq> None"
  shows "fold_res (validate_rule en) (ids, n) rs = Inr (ids', n') \<longleftrightarrow>
     [] \<notin> ru_id ` set rs \<and> distinct (map ru_id rs) \<and> ru_id ` set rs \<inter> dom ids = {} \<and>
     (\<forall>r \<in> set rs. check_rule ids en r = None) \<and>
     ids' = ids ++ (\<lambda>i. if i \<in> ru_id ` set rs then Some ''rule'' else None) \<and>
     n' = n + length (filter active_default rs)"
  using assms
proof (induction rs arbitrary: ids n)
  case Nil
  then show ?case by (auto simp: map_add_def)
next
  case (Cons r rs)
  let ?k = "\<lambda>rs i. if i \<in> ru_id ` set rs then Some ''rule'' else None"
  let ?ids = "ids(ru_id r \<mapsto> ''rule'')"
  have en': "\<forall>i. en i = Some True \<longrightarrow> ?ids i \<noteq> None" using Cons.prems by auto
  have same: "check_rule ?ids en q = None \<longleftrightarrow> check_rule ids en q = None" for q
    by (simp only: check_rule_ok [OF en'] check_rule_ok [OF Cons.prems])
  show ?case
  proof (cases "ru_id r \<noteq> [] \<and> ids (ru_id r) = None \<and> check_rule ids en r = None")
    case True
    then have step: "validate_rule en (ids, n) r =
        Inr (?ids, if active_default r then Suc n else n)"
      by (simp add: validate_rule_def register_def same [THEN iffD2] active_default_def)
    have eq: "?ids ++ ?k rs = ids ++ ?k (r # rs)"
      by (auto simp: map_add_def fun_eq_iff)
    show ?thesis using True by (simp add: step Cons.IH [OF en'] same eq del: fun_upd_apply) (auto simp del: fun_upd_apply)
  next
    case False
    then have "\<not> (\<exists>s. validate_rule en (ids, n) r = Inr s)"
      using same [of r] by (auto simp: validate_rule_def register_def split: option.splits)
    with False show ?thesis by (auto simp: domIff split: sum.splits)
  qed
qed

lemma fold_lists:
  assumes "\<forall>i. en i = Some True \<longrightarrow> ids i \<noteq> None"
  shows "(\<exists>ids'. fold_res (validate_list en) ids rls = Inr ids') \<longleftrightarrow>
     [] \<notin> rl_id ` set rls \<and> distinct (map rl_id rls) \<and> rl_id ` set rls \<inter> dom ids = {} \<and>
     (\<forall>rl \<in> set rls. check_list ids en rl = None)"
  using assms
proof (induction rls arbitrary: ids)
  case Nil
  then show ?case by auto
next
  case (Cons rl rls)
  let ?ids = "ids(rl_id rl \<mapsto> ''routing list'')"
  have en': "\<forall>i. en i = Some True \<longrightarrow> ?ids i \<noteq> None" using Cons.prems by auto
  have same: "check_list ?ids en q = None \<longleftrightarrow> check_list ids en q = None" for q
    by (simp only: check_list_ok [OF en'] check_list_ok [OF Cons.prems])
  show ?case
  proof (cases "rl_id rl \<noteq> [] \<and> ids (rl_id rl) = None \<and> check_list ids en rl = None")
    case True
    then have step: "validate_list en ids rl = Inr ?ids"
      by (simp add: validate_list_def register_def same [THEN iffD2])
    show ?thesis using True by (simp add: step Cons.IH [OF en'] same del: fun_upd_apply) (auto simp del: fun_upd_apply)
  next
    case False
    then have "\<not> (\<exists>s. validate_list en ids rl = Inr s)"
      using same [of rl] by (auto simp: validate_list_def register_def split: option.splits)
    with False show ?thesis by (auto simp: domIff split: sum.splits)
  qed
qed

subsection \<open>Validate implements the specification\<close>

definition ids_of :: "profile \<Rightarrow> id_map" where
  "ids_of p = (Map.empty ++ (\<lambda>i. if i \<in> ep_id ` set (endpoints p) then Some ''endpoint'' else None)) ++
     (\<lambda>i. if i \<in> gr_id ` set (groups p) then Some ''group'' else None)"

definition enabled_of :: "profile \<Rightarrow> enabled_map" where
  "enabled_of p = foldl (\<lambda>m e. m(ep_id e \<mapsto> ep_enabled e)) Map.empty (endpoints p) ++
     (\<lambda>i. if i \<in> gr_id ` set (groups p) then Some True else None)"

lemma dom_ids_of: "dom (ids_of p) = ep_id ` set (endpoints p) \<union> gr_id ` set (groups p)"
  by (auto simp: ids_of_def map_add_def split: if_splits)

lemma ids_of_group: "ids_of p m = Some ''group'' \<longleftrightarrow> m \<in> gr_id ` set (groups p)"
  by (auto simp: ids_of_def map_add_def)

lemma foldl_enabled:
  "distinct (map ep_id es) \<Longrightarrow> foldl (\<lambda>m e. m(ep_id e \<mapsto> ep_enabled e)) en es i =
     (case lookup_by ep_id i es of Some e \<Rightarrow> Some (ep_enabled e) | None \<Rightarrow> en i)"
proof (induction es arbitrary: en)
  case (Cons e es)
  then have "ep_id e = i \<Longrightarrow> lookup_by ep_id i es = None"
    by (auto simp: lookup_by_None)
  with Cons show ?case by (auto split: option.splits)
qed simp

lemma enabled_of_targets:
  assumes "distinct (map ep_id (endpoints p))"
  shows "enabled_of p i = Some True \<longleftrightarrow> i \<in> targets p"
proof -
  have "(\<exists>e. lookup_by ep_id i (endpoints p) = Some e \<and> ep_enabled e)
      \<longleftrightarrow> i \<in> ep_id ` {e \<in> set (endpoints p). ep_enabled e}" (is "?A \<longleftrightarrow> ?B")
  proof
    assume ?A
    then show ?B using lookup_by_Some_in [of ep_id i "endpoints p"] by blast
  next
    assume ?B
    then show ?A using lookup_by_distinct [OF assms] by auto
  qed
  then show ?thesis
    by (cases "lookup_by ep_id i (endpoints p)")
      (auto simp: enabled_of_def map_add_def foldl_enabled [OF assms] targets_def)
qed

lemma edges_group_adj:
  assumes "distinct (map gr_id gs)" and "\<And>m. ids m = Some ''group'' \<longleftrightarrow> m \<in> gr_id ` set gs"
  shows "edges (group_adj ids gs) = group_edges gs"
proof -
  have d: "distinct (map fst (group_adj ids gs))"
    using assms(1) by (simp add: group_adj_def comp_def)
  have "(g, m) \<in> edges (group_adj ids gs) \<longleftrightarrow>
      (\<exists>ms. (g, ms) \<in> set (group_adj ids gs) \<and> m \<in> set ms)" for g m
    by (simp add: map_of_eq_Some_iff [OF d, symmetric] edges_def nexts_def split: option.splits) metis
  moreover have "(\<exists>ms. (g, ms) \<in> set (group_adj ids gs) \<and> m \<in> set ms) \<longleftrightarrow> (g, m) \<in> group_edges gs" for g m
  proof -
    let ?F = "\<lambda>x. filter (\<lambda>m. m \<in> gr_id ` set gs) (gr_members x)"
    have "(g, ms) \<in> set (group_adj ids gs) \<longleftrightarrow> (\<exists>x \<in> set gs. g = gr_id x \<and> ms = ?F x)" for ms
      by (auto simp: group_adj_def assms(2))
    then have "(\<exists>ms. (g, ms) \<in> set (group_adj ids gs) \<and> m \<in> set ms) \<longleftrightarrow>
        (\<exists>ms. (\<exists>x \<in> set gs. g = gr_id x \<and> ms = ?F x) \<and> m \<in> set ms)"
      by (simp only:)
    also have "\<dots> \<longleftrightarrow> (\<exists>x \<in> set gs. g = gr_id x \<and> m \<in> set (?F x))"
      by blast
    finally show ?thesis by (auto simp: group_edges_def)
  qed
  ultimately show ?thesis by auto
qed

lemma targets_registered: "i \<in> targets p \<Longrightarrow> ids_of p i \<noteq> None"
  using dom_ids_of [of p] by (auto simp: targets_def domIff)

text \<open>The first two loops succeed exactly on new, non-empty ids and sound endpoints, and leave the
  maps above.\<close>

lemma first_loops:
  "(case fold_res validate_endpoint (Map.empty, Map.empty) (endpoints p) of
      Inl err \<Rightarrow> Inl err | Inr st \<Rightarrow> fold_res validate_group st (groups p)) = Inr (ids, en) \<longleftrightarrow>
   distinct (map ep_id (endpoints p) @ map gr_id (groups p)) \<and>
   [] \<notin> set (map ep_id (endpoints p) @ map gr_id (groups p)) \<and>
   (\<forall>e \<in> set (endpoints p). check_endpoint e = None) \<and> (\<forall>g \<in> set (groups p). gr_members g \<noteq> []) \<and>
   ids = ids_of p \<and> en = enabled_of p"
  (is "?L \<longleftrightarrow> ?R")
proof
  assume ?L
  then obtain ids1 en1 where
    1: "fold_res validate_endpoint (Map.empty, Map.empty) (endpoints p) = Inr (ids1, en1)" and
    2: "fold_res validate_group (ids1, en1) (groups p) = Inr (ids, en)"
    by (auto split: sum.splits)
  then show ?R
    by (auto simp: fold_endpoints fold_groups ids_of_def enabled_of_def)
next
  assume R: ?R
  let ?ids1 = "Map.empty ++ (\<lambda>i. if i \<in> ep_id ` set (endpoints p) then Some ''endpoint'' else None)"
  let ?en1 = "foldl (\<lambda>m e. m(ep_id e \<mapsto> ep_enabled e)) Map.empty (endpoints p)"
  from R have "fold_res validate_endpoint (Map.empty, Map.empty) (endpoints p) = Inr (?ids1, ?en1)"
    by (auto simp: fold_endpoints)
  moreover from R have "fold_res validate_group (?ids1, ?en1) (groups p) = Inr (ids, en)"
    by (auto simp: fold_groups ids_of_def enabled_of_def)
  ultimately show ?L by simp
qed

lemma members_ok:
  assumes "distinct (map ep_id (endpoints p))"
  shows "first_some (\<lambda>g. first_some (check_member (ids_of p) (enabled_of p) g) (gr_members g)) (groups p) = None
    \<longleftrightarrow> (\<forall>g \<in> set (groups p). \<forall>m \<in> set (gr_members g). member_ok p g m)"
proof -
  have "check_member (ids_of p) (enabled_of p) g m = None \<longleftrightarrow> member_ok p g m" for g m
    using targets_registered [of m p] enabled_of_targets [OF assms, of m]
    by (auto simp: check_member_def member_ok_def)
  then show ?thesis by simp
qed

lemma cycle_ok:
  assumes "distinct (map gr_id (groups p))"
  shows "cycle_check (group_adj (ids_of p) (groups p)) (map gr_id (groups p)) = None
    \<longleftrightarrow> acyclic (group_edges (groups p))"
proof -
  have "fst ` set (group_adj (ids_of p) (groups p)) \<subseteq> set (map gr_id (groups p))"
    by (auto simp: group_adj_def)
  from cycle_check_iff [OF this] edges_group_adj [OF assms ids_of_group] show ?thesis by simp
qed

lemma rule_check_ok:
  assumes "distinct (map ep_id (endpoints p))"
  shows "check_rule (ids_of p) (enabled_of p) r = None \<longleftrightarrow> rule_ok p r"
  using enabled_of_targets [OF assms] targets_registered
  by (subst check_rule_ok) (auto simp: rule_ok_def target_ok_def)

lemma list_check_ok:
  assumes "distinct (map ep_id (endpoints p))" and "ids_of p \<subseteq>\<^sub>m ids"
  shows "check_list ids (enabled_of p) rl = None \<longleftrightarrow> list_ok p rl"
  using enabled_of_targets [OF assms(1)] targets_registered assms(2)
  by (subst check_list_ok) (auto simp: list_ok_def target_ok_def map_le_def dom_def)

definition rule_ids :: "profile \<Rightarrow> id_map" where
  "rule_ids p = ids_of p ++ (\<lambda>i. if i \<in> ru_id ` set (rules p) then Some ''rule'' else None)"

lemma rule_ids_extends:
  "ru_id ` set (rules p) \<inter> dom (ids_of p) = {} \<Longrightarrow> ids_of p \<subseteq>\<^sub>m rule_ids p"
  by (auto simp: rule_ids_def map_le_def map_add_def)

text \<open>The last two loops.\<close>

lemma last_loops:
  assumes "distinct (map ep_id (endpoints p))"
  shows "(case fold_res (validate_rule (enabled_of p)) (ids_of p, 0) (rules p) of
        Inl err \<Rightarrow> Some err
      | Inr (ids2, defaults) \<Rightarrow>
          if defaults > 1 then Some (ManyDefaults defaults)
          else (case fold_res (validate_list (enabled_of p)) ids2 (routing_lists p) of
              Inl err \<Rightarrow> Some err | Inr _ \<Rightarrow> None)) = None \<longleftrightarrow>
     [] \<notin> set (map ru_id (rules p) @ map rl_id (routing_lists p)) \<and>
     distinct (map ru_id (rules p) @ map rl_id (routing_lists p)) \<and>
     (ru_id ` set (rules p) \<union> rl_id ` set (routing_lists p)) \<inter> dom (ids_of p) = {} \<and>
     (\<forall>r \<in> set (rules p). rule_ok p r) \<and> length (filter active_default (rules p)) \<le> 1 \<and>
     (\<forall>rl \<in> set (routing_lists p). list_ok p rl)" (is "?L = None \<longleftrightarrow> ?R")
proof -
  let ?n = "length (filter active_default (rules p))"
  have en: "\<forall>i. enabled_of p i = Some True \<longrightarrow> ids_of p i \<noteq> None"
    using enabled_of_targets [OF assms] targets_registered by auto
  have fr: "fold_res (validate_rule (enabled_of p)) (ids_of p, 0) (rules p) = Inr (ids', n') \<longleftrightarrow>
      [] \<notin> ru_id ` set (rules p) \<and> distinct (map ru_id (rules p)) \<and>
      ru_id ` set (rules p) \<inter> dom (ids_of p) = {} \<and> (\<forall>r \<in> set (rules p). rule_ok p r) \<and>
      ids' = rule_ids p \<and> n' = ?n" for ids' n'
    by (subst fold_rules [OF en]) (simp add: rule_check_ok [OF assms] rule_ids_def)
  show ?thesis
  proof (cases "fold_res (validate_rule (enabled_of p)) (ids_of p, 0) (rules p)")
    case (Inl err)
    then have "\<not> ([] \<notin> ru_id ` set (rules p) \<and> distinct (map ru_id (rules p)) \<and>
      ru_id ` set (rules p) \<inter> dom (ids_of p) = {} \<and> (\<forall>r \<in> set (rules p). rule_ok p r))"
      using fr [of "rule_ids p" ?n] by auto
    with Inl show ?thesis by auto
  next
    case (Inr st)
    then have r: "[] \<notin> ru_id ` set (rules p) \<and> distinct (map ru_id (rules p)) \<and>
      ru_id ` set (rules p) \<inter> dom (ids_of p) = {} \<and> (\<forall>r \<in> set (rules p). rule_ok p r)"
      and st: "st = (rule_ids p, ?n)"
      using fr [of "fst st" "snd st"] by (auto simp: prod_eq_iff)
    have ext: "ids_of p \<subseteq>\<^sub>m rule_ids p" using r rule_ids_extends by blast
    then have en': "\<forall>i. enabled_of p i = Some True \<longrightarrow> rule_ids p i \<noteq> None"
      using en by (auto simp: map_le_def dom_def)
    have dom: "dom (rule_ids p) = dom (ids_of p) \<union> ru_id ` set (rules p)"
      by (auto simp: rule_ids_def)
    have "?L = None \<longleftrightarrow> ?n \<le> 1 \<and>
        (\<exists>ids'. fold_res (validate_list (enabled_of p)) (rule_ids p) (routing_lists p) = Inr ids')"
      using Inr st by (auto split: sum.splits)
    also have "\<dots> \<longleftrightarrow> ?R"
      using r by (subst fold_lists [OF en']) (auto simp: dom list_check_ok [OF assms ext])
    finally show ?thesis .
  qed
qed

lemma case_chain_None:
  "(case a of None \<Rightarrow> (case b of None \<Rightarrow> c | Some (x, y) \<Rightarrow> Some (f x y)) | Some e \<Rightarrow> Some e) = None \<longleftrightarrow>
     a = None \<and> b = None \<and> c = None"
  by (auto split: option.splits)

lemma Validate_iff: "Validate p = None \<longleftrightarrow> profile_ok p"
proof (cases "distinct (map ep_id (endpoints p) @ map gr_id (groups p)) \<and>
   [] \<notin> set (map ep_id (endpoints p) @ map gr_id (groups p)) \<and>
   (\<forall>e \<in> set (endpoints p). check_endpoint e = None) \<and> (\<forall>g \<in> set (groups p). gr_members g \<noteq> [])")
  case False
  then have "\<not> profile_ok p"
    by (auto simp: profile_ok_def all_ids_def group_ok_def)
  moreover have "Validate p \<noteq> None"
  proof (cases "fold_res validate_endpoint (Map.empty, Map.empty) (endpoints p)")
    case (Inr st)
    with False first_loops [of p] have "fold_res validate_group st (groups p) \<noteq> Inr (ids, en)" for ids en
      by auto
    then obtain err where "fold_res validate_group st (groups p) = Inl err"
      by (cases "fold_res validate_group st (groups p)") (auto split: prod.splits)
    with Inr show ?thesis by (simp add: Validate_def)
  qed (simp add: Validate_def)
  ultimately show ?thesis by blast
next
  case True
  then obtain st where 1: "fold_res validate_endpoint (Map.empty, Map.empty) (endpoints p) = Inr st"
    and 2: "fold_res validate_group st (groups p) = Inr (ids_of p, enabled_of p)"
    using first_loops [of p "ids_of p" "enabled_of p"] by (auto split: sum.splits)
  have d: "distinct (map ep_id (endpoints p))" "distinct (map gr_id (groups p))" using True by auto
  have "Validate p = None \<longleftrightarrow>
     (\<forall>g \<in> set (groups p). \<forall>m \<in> set (gr_members g). member_ok p g m) \<and>
     acyclic (group_edges (groups p)) \<and>
     [] \<notin> set (map ru_id (rules p) @ map rl_id (routing_lists p)) \<and>
     distinct (map ru_id (rules p) @ map rl_id (routing_lists p)) \<and>
     (ru_id ` set (rules p) \<union> rl_id ` set (routing_lists p)) \<inter> dom (ids_of p) = {} \<and>
     (\<forall>r \<in> set (rules p). rule_ok p r) \<and> length (filter active_default (rules p)) \<le> 1 \<and>
     (\<forall>rl \<in> set (routing_lists p). list_ok p rl)"
    unfolding Validate_def 1 2 sum.case prod.case case_chain_None
      members_ok [OF d(1)] cycle_ok [OF d(2)] last_loops [OF d(1)] ..
  also have "\<dots> \<longleftrightarrow> profile_ok p"
    using True by (auto simp: profile_ok_def all_ids_def group_ok_def dom_ids_of)
  finally show ?thesis .
qed

subsection \<open>Properties\<close>

text \<open>C2. The validator is exact: it reports no error for a profile if and only if the profile is
  structurally sound, that is, all ids over the four collections are non-empty and distinct, every
  endpoint passes its shape checks, group members resolve to enabled endpoints, other groups or
  direct, the group graph is acyclic, active rules have sound matchers and resolvable targets, at
  most one active rule is the default, and routing lists have content and resolvable targets.\<close>

theorem Validate_exact: "Validate p = None \<longleftrightarrow> profile_ok p"
  by (rule Validate_iff)

text \<open>The members relation of the profile, and the leaves traffic can finally leave through.\<close>

definition member_rel :: "profile \<Rightarrow> (string \<times> string) set" where
  "member_rel p = {(gr_id g, m) | g m. g \<in> set (groups p) \<and> m \<in> set (gr_members g)}"

definition leaves :: "profile \<Rightarrow> string set" where
  "leaves p = insert OutboundDirect (ep_id ` {e \<in> set (endpoints p). ep_enabled e})"

lemma group_edges_finite: "finite (group_edges gs)"
proof -
  have "group_edges gs \<subseteq> (\<Union>g \<in> set gs. {gr_id g} \<times> set (gr_members g))"
    by (auto simp: group_edges_def)
  then show ?thesis by (rule finite_subset) auto
qed

lemma group_reaches_leaf:
  assumes "profile_ok p"
  shows "g \<in> set (groups p) \<Longrightarrow> \<exists>l \<in> leaves p. (gr_id g, l) \<in> (member_rel p)\<^sup>+"
proof -
  have "wf ((group_edges (groups p))\<inverse>)"
    using assms finite_acyclic_wf_converse [OF group_edges_finite] by (simp add: profile_ok_def)
  then have "\<forall>g \<in> set (groups p). gr_id g = i \<longrightarrow> (\<exists>l \<in> leaves p. (i, l) \<in> (member_rel p)\<^sup>+)" for i
  proof (induction i rule: wf_induct_rule)
    case (less i)
    show ?case
    proof (intro ballI impI)
      fix g assume g: "g \<in> set (groups p)" "gr_id g = i"
      with assms have "group_ok p g" by (simp add: profile_ok_def)
      then obtain m where m: "m \<in> set (gr_members g)" "member_ok p g m"
        by (cases "gr_members g") (auto simp: group_ok_def)
      then have im: "(i, m) \<in> member_rel p" using g by (auto simp: member_rel_def)
      show "\<exists>l \<in> leaves p. (i, l) \<in> (member_rel p)\<^sup>+"
      proof (cases "m \<in> gr_id ` set (groups p)")
        case True
        then have "(i, m) \<in> group_edges (groups p)" using g m by (auto simp: group_edges_def)
        with less True obtain l where "l \<in> leaves p" "(m, l) \<in> (member_rel p)\<^sup>+" by blast
        with im show ?thesis by (meson trancl_into_trancl2)
      next
        case False
        with m have "m \<in> leaves p" by (auto simp: member_ok_def targets_def leaves_def)
        with im show ?thesis by blast
      qed
    qed
  qed
  then show "g \<in> set (groups p) \<Longrightarrow> ?thesis" by blast
qed

text \<open>C26. In a validated profile every group can carry traffic: by following members, from group
  to nested group, one always arrives at an enabled endpoint or at direct.\<close>

theorem validated_group_reaches_leaf:
  assumes "Validate p = None" and "g \<in> set (groups p)"
  shows "\<exists>l \<in> leaves p. (gr_id g, l) \<in> (member_rel p)\<^sup>+"
  using assms group_reaches_leaf by (simp add: Validate_iff)

text \<open>A small valid profile: a VLESS server, an adopted tunnel, two nested groups, a rule, a default
  and a routing list.\<close>

definition base_endpoint :: endpoint where
  "base_endpoint = \<lparr>ep_id = ''nl1'', ep_name = ''NL'', ep_engine = EngineSingBox, ep_protocol = ProtoVLESS,
     ep_server = ''192.0.2.1'', ep_port = 443, ep_params = Map.empty, ep_transport = None, ep_tls = None,
     ep_health = None, ep_enabled = True, ep_mtu = 0, ep_keepalive = 0\<rparr>"

definition tunnel_endpoint :: endpoint where
  "tunnel_endpoint = base_endpoint\<lparr>ep_id := ''awg'', ep_engine := EngineExternal, ep_server := [], ep_port := 0,
     ep_protocol := [], ep_params := [''interface'' \<mapsto> PStr ''awg0'', ''endpoint_ip'' \<mapsto> PStr ''198.51.100.7'']\<rparr>"

definition base_group :: group where
  "base_group = \<lparr>gr_id = ''g1'', gr_name = ''auto'', gr_type = GroupURLTest, gr_members = [''nl1'', ''direct''],
     gr_test = None, gr_kill_switch = False, gr_interrupt = False\<rparr>"

definition base_rule :: rule where
  "base_rule = \<lparr>ru_id = ''r1'', ru_domain_suffix = [], ru_domain = [], ru_geosite = [], ru_geoip = [],
     ru_ip_cidr = [''203.0.113.0/24''], ru_port = [], ru_source_ip_cidr = [], ru_source_mac = [],
     ru_source_iface = [], ru_source_port = [], ru_default = False, ru_disabled = False, ru_outbound = ''awg''\<rparr>"

definition base_list :: routing_list where
  "base_list = \<lparr>rl_id = ''l1'', rl_name = ''list'', rl_source = [], rl_format = [], rl_manual = [''10.20.0.0/16''],
     rl_outbound = ''awg'', rl_download_via = ''g1'', rl_refresh_hours = 0, rl_enabled = True,
     rl_cidr_source = [], rl_cidr_cache = []\<rparr>"

definition example_profile :: profile where
  "example_profile = \<lparr>endpoints = [base_endpoint, tunnel_endpoint],
     groups = [base_group\<lparr>gr_id := ''g2'', gr_members := [''g1'']\<rparr>, base_group],
     rules = [base_rule, base_rule\<lparr>ru_id := ''rd'', ru_ip_cidr := [], ru_default := True, ru_outbound := ''g2''\<rparr>],
     routing_lists = [base_list]\<rparr>"

lemma example_profile_valid: "Validate example_profile = None"
  by code_simp

theorem validated_group_reaches_leaf_witness:
  "Validate example_profile = None \<and> base_group \<in> set (groups example_profile) \<and>
   (\<exists>l \<in> leaves example_profile. (''g1'', l) \<in> (member_rel example_profile)\<^sup>+)"
proof -
  have g: "base_group \<in> set (groups example_profile)" by (simp add: example_profile_def)
  have "gr_id base_group = ''g1''" by (simp add: base_group_def)
  with g example_profile_valid validated_group_reaches_leaf [OF example_profile_valid g] show ?thesis
    by simp
qed

text \<open>A gap of the CIDR check: the validator reads the prefix length with \<^verbatim>\<open>net.ParseCIDR\<close>, which
  accepts a leading zero, while the core and the kernel-routing compiler read it with
  \<^verbatim>\<open>netip.ParsePrefix\<close>, which does not. There is a profile that passes validation and carries an
  active rule with an entry that is neither a parsable prefix nor a parsable address.\<close>

theorem Validate_admits_unparsable_cidr:
  "\<exists>p r c. Validate p = None \<and> r \<in> set (rules p) \<and> \<not> ru_disabled r \<and> \<not> ru_default r \<and>
     c \<in> set (ru_ip_cidr r) \<and> trim_space c \<noteq> [] \<and> parse_prefix (trim_space c) = None \<and>
     parse_addr (trim_space c) = None"
proof -
  let ?r = "base_rule\<lparr>ru_ip_cidr := [''10.0.0.0/08'']\<rparr>"
  let ?p = "example_profile\<lparr>rules := [?r]\<rparr>"
  have "Validate ?p = None" by code_simp
  moreover have "trim_space ''10.0.0.0/08'' \<noteq> []" by code_simp
  moreover have "parse_prefix (trim_space ''10.0.0.0/08'') = None" by code_simp
  moreover have "parse_addr (trim_space ''10.0.0.0/08'') = None" by code_simp
  moreover have "?r \<in> set (rules ?p)" "\<not> ru_disabled ?r" "\<not> ru_default ?r" "''10.0.0.0/08'' \<in> set (ru_ip_cidr ?r)"
    by (simp_all add: base_rule_def)
  ultimately show ?thesis by blast
qed

end
