(* ===== verification/Atomicfile.thy ===== *)
theory Atomicfile
  imports Prelude
begin

text \<open>
  \<^verbatim>\<open>internal/atomicfile/atomicfile.go\<close>: the single audited write path of the daemon. The file system
  is explicit: what a name shows now, what a name shows if the power fails before the directory is
  flushed, and for each file whether its contents have been flushed. Every system call may fail, as
  the fault record says, and every intermediate state is a point where the power may fail.
\<close>

subsection \<open>A file system with power loss\<close>

type_synonym path = string

record 'd fnode =
  contents :: 'd
  synced :: bool

record 'd fs =
  cur :: "path \<rightharpoonup> 'd fnode"
  dur :: "path \<rightharpoonup> 'd fnode"

datatype ioerr = MkdirErr | OpenErr | WriteErr | SyncErr | CloseErr | RenameErr

text \<open>Which system calls fail during one write, and what a failed write leaves in the file.\<close>

record 'd faults =
  mkdir_fails :: bool
  open_fails :: bool
  write_fails :: "'d option"
  sync_fails :: bool
  close_fails :: bool
  rename_fails :: bool
  dirsync_fails :: bool

definition no_faults :: "'d faults" where
  "no_faults = \<lparr>mkdir_fails = False, open_fails = False, write_fails = None, sync_fails = False,
     close_fails = False, rename_fails = False, dirsync_fails = False\<rparr>"

definition put_file :: "path \<Rightarrow> 'd \<Rightarrow> bool \<Rightarrow> 'd fs \<Rightarrow> 'd fs" where
  "put_file p d s f = f\<lparr>cur := (cur f)(p \<mapsto> \<lparr>contents = d, synced = s\<rparr>)\<rparr>"

definition remove_file :: "path \<Rightarrow> 'd fs \<Rightarrow> 'd fs" where
  "remove_file p f = f\<lparr>cur := (cur f)(p := None)\<rparr>"

definition rename_file :: "path \<Rightarrow> path \<Rightarrow> 'd fs \<Rightarrow> 'd fs" where
  "rename_file a b f = f\<lparr>cur := (cur f)(b := cur f a, a := None)\<rparr>"

definition SyncDir :: "'d faults \<Rightarrow> 'd fs \<Rightarrow> 'd fs" where
  "SyncDir w f = (if dirsync_fails w then f else f\<lparr>dur := cur f\<rparr>)"

subsection \<open>The write path\<close>

text \<open>A call returns the states it passes through, oldest first, and the error; the last state is
  the one it leaves.\<close>

type_synonym 'd run = "'d fs list \<times> ioerr option"

definition WriteSynced :: "'d \<Rightarrow> 'd faults \<Rightarrow> path \<Rightarrow> 'd \<Rightarrow> 'd fs \<Rightarrow> 'd run" where
  "WriteSynced nil w p d f =
     (if open_fails w then ([f], Some OpenErr)
      else
        (let f1 = put_file p nil False f in
         case write_fails w of
           Some part \<Rightarrow> ([f, f1, put_file p part False f1], Some WriteErr)
         | None \<Rightarrow>
            (let f2 = put_file p d False f1 in
             if sync_fails w then ([f, f1, f2], Some SyncErr)
             else
               (let f3 = put_file p d True f2 in
                ([f, f1, f2, f3], if close_fails w then Some CloseErr else None)))))"

definition Write :: "'d \<Rightarrow> 'd faults \<Rightarrow> path \<Rightarrow> 'd \<Rightarrow> 'd fs \<Rightarrow> 'd run" where
  "Write nil w p d f =
     (if mkdir_fails w then ([f], Some MkdirErr)
      else
        (let tmp = p @ ''.tmp'' in
         case WriteSynced nil w tmp d f of
           (tr, Some e) \<Rightarrow> (tr @ [remove_file tmp (last tr)], Some e)
         | (tr, None) \<Rightarrow>
             if rename_fails w then (tr @ [remove_file tmp (last tr)], Some RenameErr)
             else (let f1 = rename_file tmp p (last tr) in (tr @ [f1, SyncDir w f1], None))))"

definition final :: "'d run \<Rightarrow> 'd fs" where
  "final r = last (fst r)"

definition read_file :: "path \<Rightarrow> 'd fs \<Rightarrow> 'd option" where
  "read_file p f = map_option contents (cur f p)"

subsection \<open>What a power loss can leave\<close>

definition after_crash1 :: "'d fnode option \<Rightarrow> 'd option set" where
  "after_crash1 x = (case x of None \<Rightarrow> {None} | Some fl \<Rightarrow> if synced fl then {Some (contents fl)} else UNIV)"

definition after_crash :: "path \<Rightarrow> 'd fs \<Rightarrow> 'd option set" where
  "after_crash p f = after_crash1 (cur f p) \<union> after_crash1 (dur f p)"

lemma tmp_neq [simp]: "p @ ''.tmp'' \<noteq> p" "p \<noteq> p @ ''.tmp''"
  by (auto dest: arg_cong [where f = length])

lemma fs_frames [frame_simps, simp]:
  "p \<noteq> q \<Longrightarrow> cur (put_file q d s f) p = cur f p" "cur (put_file p d s f) p = Some \<lparr>contents = d, synced = s\<rparr>"
  "dur (put_file q d s f) = dur f" "dur (remove_file q f) = dur f" "dur (rename_file a b f) = dur f"
  "p \<noteq> q \<Longrightarrow> cur (remove_file q f) p = cur f p" "cur (remove_file p f) p = None"
  "b \<noteq> a \<Longrightarrow> cur (rename_file a b f) b = cur f a" "cur (SyncDir w f) = cur f"
  by (simp_all add: put_file_def remove_file_def rename_file_def SyncDir_def)

lemma WriteSynced_frame:
  "g \<in> set (fst (WriteSynced nil w q d f)) \<Longrightarrow> q \<noteq> p \<Longrightarrow> cur g p = cur f p \<and> dur g = dur f"
  by (auto simp: WriteSynced_def Let_def split: if_splits option.splits)

lemma WriteSynced_trace_nonempty [simp]: "fst (WriteSynced nil w q d f) \<noteq> []"
  by (simp add: WriteSynced_def Let_def split: option.splits)

lemma WriteSynced_ok:
  "WriteSynced nil w q d f = (tr, None) \<Longrightarrow> cur (last tr) q = Some \<lparr>contents = d, synced = True\<rparr>"
  by (auto simp: WriteSynced_def Let_def split: if_splits option.splits)

lemma WriteSynced_last:
  assumes "WriteSynced nil w q d f = (tr, e)" and "q \<noteq> p"
  shows "cur (last tr) p = cur f p \<and> dur (last tr) = dur f"
proof -
  have "last tr \<in> set tr" using assms(1) WriteSynced_trace_nonempty [of nil w q d f] by simp
  with assms show ?thesis using WriteSynced_frame [of "last tr" nil w q d f p] by simp
qed

lemma Write_error:
  assumes "Write nil w p d f = (tr, Some e)" and "g \<in> set tr"
  shows "cur g p = cur f p \<and> dur g p = dur f p"
  using assms WriteSynced_frame [of _ nil w "p @ ''.tmp''" d f p]
    WriteSynced_last [of nil w "p @ ''.tmp''" d f _ _ p]
  by (fastforce simp: Write_def Let_def split: if_splits prod.splits option.splits)

lemma Write_ok:
  assumes "Write nil w p d f = (tr, None)"
  shows "\<exists>pre f1. tr = pre @ [f1, SyncDir w f1] \<and> cur f1 p = Some \<lparr>contents = d, synced = True\<rparr> \<and>
     dur f1 p = dur f p \<and> (\<forall>g \<in> set pre. cur g p = cur f p \<and> dur g p = dur f p)"
proof -
  let ?tmp = "p @ ''.tmp''"
  obtain pre where pre: "WriteSynced nil w ?tmp d f = (pre, None)"
    and tr: "tr = pre @ [rename_file ?tmp p (last pre), SyncDir w (rename_file ?tmp p (last pre))]"
    using assms by (auto simp: Write_def Let_def split: if_splits prod.splits option.splits)
  have "cur (rename_file ?tmp p (last pre)) p = Some \<lparr>contents = d, synced = True\<rparr>"
    using WriteSynced_ok [OF pre] by simp
  moreover have "dur (rename_file ?tmp p (last pre)) p = dur f p"
    using WriteSynced_last [OF pre, of p] by simp
  moreover have "\<forall>g \<in> set pre. cur g p = cur f p \<and> dur g p = dur f p"
    using WriteSynced_frame [of _ nil w ?tmp d f p] pre by auto
  ultimately show ?thesis using tr by blast
qed

lemma crash_during_Write:
  assumes "g \<in> set (fst (Write nil w p d f))"
  shows "after_crash p g \<subseteq> insert (Some d) (after_crash p f)"
proof (cases "Write nil w p d f")
  case (Pair tr e)
  show ?thesis
  proof (cases e)
    case (Some e')
    then show ?thesis using Write_error [of nil w p d f tr e' g] Pair assms by (auto simp: after_crash_def)
  next
    case None
    with Pair obtain pre f1 where "tr = pre @ [f1, SyncDir w f1]"
      "cur f1 p = Some \<lparr>contents = d, synced = True\<rparr>" "dur f1 p = dur f p"
      "\<forall>g \<in> set pre. cur g p = cur f p \<and> dur g p = dur f p"
      using Write_ok [of nil w p d f tr] by blast
    then show ?thesis using assms Pair
      by (auto simp: after_crash_def after_crash1_def SyncDir_def split: if_splits)
  qed
qed

text \<open>C33. A write is atomic under power loss: whatever calls fail, and at whatever point between two
  calls the power goes, the file then holds something it could already have held before the write,
  or exactly the new data; never a torn or truncated version.\<close>

theorem Write_crash_atomic:
  assumes "g \<in> set (fst (Write nil w p d f))"
  shows "after_crash p g \<subseteq> insert (Some d) (after_crash p f)"
  using assms by (rule crash_during_Write)

theorem Write_crash_atomic_witness:
  "let f = \<lparr>cur = [''p'' \<mapsto> \<lparr>contents = ''old'', synced = True\<rparr>], dur = [''p'' \<mapsto> \<lparr>contents = ''old'', synced = True\<rparr>]\<rparr>;
       g = fst (Write [] no_faults ''p'' ''new'' f) ! 2
   in g \<in> set (fst (Write [] no_faults ''p'' ''new'' f)) \<and> after_crash ''p'' g \<subseteq> insert (Some ''new'') (after_crash ''p'' f)"
proof -
  let ?f = "\<lparr>cur = [''p'' \<mapsto> \<lparr>contents = ''old'', synced = True\<rparr>], dur = [''p'' \<mapsto> \<lparr>contents = ''old'', synced = True\<rparr>]\<rparr>"
  let ?r = "fst (Write [] no_faults ''p'' ''new'' ?f)"
  have "?r ! 2 \<in> set ?r"
    by (rule nth_mem) (simp add: Write_def WriteSynced_def no_faults_def Let_def)
  from this Write_crash_atomic [OF this] show ?thesis by (simp add: Let_def)
qed

lemma Write_durable:
  assumes "Write nil w p d f = (tr, None)" and "\<not> dirsync_fails w"
  shows "after_crash p (last tr) = {Some d}"
  using Write_ok [OF assms(1)] assms(2) by (auto simp: after_crash_def after_crash1_def SyncDir_def)

text \<open>What a caller sees when the call has returned.\<close>

lemma read_Write_ok: "snd (Write nil w p d f) = None \<Longrightarrow> read_file p (final (Write nil w p d f)) = Some d"
proof -
  assume "snd (Write nil w p d f) = None"
  then obtain tr where "Write nil w p d f = (tr, None)" by (metis prod.collapse)
  with Write_ok [OF this] show ?thesis by (auto simp: final_def read_file_def)
qed

lemma read_Write_err: "snd (Write nil w p d f) = Some e \<Longrightarrow> read_file p (final (Write nil w p d f)) = read_file p f"
proof -
  assume "snd (Write nil w p d f) = Some e"
  then obtain tr where tr: "Write nil w p d f = (tr, Some e)" by (metis prod.collapse)
  then have "tr \<noteq> []"
    using WriteSynced_trace_nonempty [of nil w "p @ ''.tmp''" d f]
    by (auto simp: Write_def Let_def split: if_splits prod.splits option.splits)
  with Write_error [OF tr, of "last tr"] tr show ?thesis by (simp add: final_def read_file_def)
qed

subsection \<open>The contract of a durable cell\<close>

text \<open>What the stores rely on: a write either reports an error and leaves the stored value as it
  was, or reports success and the new value is stored.\<close>

locale durable_cell =
  fixes store :: "'w \<Rightarrow> 'd \<Rightarrow> 'f \<Rightarrow> 'f \<times> 'e option"
    and load :: "'f \<Rightarrow> 'd option"
  assumes write_ok: "snd (store w d f) = None \<Longrightarrow> load (fst (store w d f)) = Some d"
    and write_err: "snd (store w d f) = Some e \<Longrightarrow> load (fst (store w d f)) = load f"
begin

text \<open>Persist-then-commit: the value kept in memory after a write, with the old one restored on
  error, is what the cell holds.\<close>

lemma commit_agrees:
  assumes "load f = Some old"
  shows "load (fst (store w d f)) = Some (case snd (store w d f) of None \<Rightarrow> d | Some _ \<Rightarrow> old)"
  using assms by (auto simp: write_ok write_err split: option.splits)

lemma read_write_cases: "load (fst (store w d f)) \<in> {load f, Some d}"
  by (cases "snd (store w d f)") (auto simp: write_ok write_err)

end

definition cell_write :: "'d \<Rightarrow> path \<Rightarrow> 'd faults \<Rightarrow> 'd \<Rightarrow> 'd fs \<Rightarrow> 'd fs \<times> ioerr option" where
  "cell_write nil p w d f = (final (Write nil w p d f), snd (Write nil w p d f))"

interpretation atomic_cell: durable_cell "cell_write nil p" "read_file p"
  by unfold_locales (auto simp: cell_write_def read_Write_ok read_Write_err)

end
