(* ===== verification/Store.thy ===== *)
theory Store
  imports Validate_Spec Atomicfile
begin

text \<open>
  \<^verbatim>\<open>internal/store/store.go\<close>: the profile kept in memory and persisted as one JSON file. A store
  carries its path, its profile and the file system it writes to. Each operation takes the system
  call failures of its write, so that every error path is a branch, and returns the new store and the
  error. The operations hold the store mutex for their whole body, so they are atomic with respect to
  each other.
\<close>

subsection \<open>The file and the codec\<close>

text \<open>What a profile file can hold: nothing but white space, bytes that are not a profile, or the
  JSON text of a profile.\<close>

datatype content = Blank | Corrupt | Doc profile

text \<open>Decoding the JSON text of a profile yields the profile, with each list of strings or of objects inside
  the untyped parameters coming back as a list of untyped values.\<close>

fun json_pval :: "pval \<Rightarrow> pval" where
  "json_pval (PStrs ss) = PList (map PStr ss)"
| "json_pval (PList vs) = PList (map json_pval vs)"
| "json_pval (PMap kvs) = PMap (map (\<lambda>(k, v). (k, json_pval v)) kvs)"
| "json_pval (PMaps ms) = PList (map (\<lambda>kvs. PMap (map (\<lambda>(k, v). (k, json_pval v)) kvs)) ms)"
| "json_pval v = v"

definition json_endpoint :: "endpoint \<Rightarrow> endpoint" where
  "json_endpoint e = e\<lparr>ep_params := map_option json_pval \<circ> ep_params e\<rparr>"

definition unmarshal :: "profile \<Rightarrow> profile" where
  "unmarshal p = p\<lparr>endpoints := map json_endpoint (endpoints p)\<rparr>"

lemma json_pval_idem [simp]: "json_pval (json_pval v) = json_pval v"
  by (induction v rule: json_pval.induct) auto

lemma unmarshal_idem [simp]: "unmarshal (unmarshal p) = unmarshal p"
  by (simp add: unmarshal_def json_endpoint_def comp_def option.map_comp)

subsection \<open>State and errors\<close>

record store =
  st_path :: path
  prof :: profile
  disk :: "content fs"

datatype serr =
    ReadErr | ParseErr | PersistErr ioerr | InvalidErr verr
  | IdRequired
  | UsedByRule string | OnlyMemberOf string | UsedByList string
  | NotFound

text \<open>Each write of the profile can meet its own failures.\<close>

type_synonym wfaults = "content faults"

definition saveLocked :: "wfaults \<Rightarrow> store \<Rightarrow> store \<times> serr option" where
  "saveLocked w s =
     (case cell_write Blank (st_path s) w (Doc (prof s)) (disk s) of
        (f, e) \<Rightarrow> (s\<lparr>disk := f\<rparr>, map_option PersistErr e))"

definition commitLocked :: "wfaults \<Rightarrow> profile \<Rightarrow> store \<Rightarrow> store \<times> serr option" where
  "commitLocked w prev s =
     (case saveLocked w s of
        (s', Some e) \<Rightarrow> (s'\<lparr>prof := prev\<rparr>, Some e)
      | (s', None) \<Rightarrow> (s', None))"

subsection \<open>Opening\<close>

text \<open>The open store, if there is one, the file system it leaves, and the error. A failed save of the
  fresh empty profile returns the store together with the error.\<close>

definition Open :: "bool \<Rightarrow> wfaults \<Rightarrow> path \<Rightarrow> content fs \<Rightarrow> store option \<times> serr option" where
  "Open read_fails w path f =
     (let s = \<lparr>st_path = path, prof = empty_profile, disk = f\<rparr>;
          fresh = (case saveLocked w s of (s', e) \<Rightarrow> (Some s', e))
      in case read_file path f of
           None \<Rightarrow> fresh
         | Some c \<Rightarrow>
             if read_fails then (None, Some ReadErr)
             else (case c of
                 Blank \<Rightarrow> fresh
               | Corrupt \<Rightarrow> (None, Some ParseErr)
               | Doc p \<Rightarrow> (Some (s\<lparr>prof := unmarshal p\<rparr>), None)))"

definition Profile :: "store \<Rightarrow> profile" where
  "Profile s = prof s"

subsection \<open>Whole-profile replacement\<close>

definition Replace :: "wfaults \<Rightarrow> profile \<Rightarrow> store \<Rightarrow> store \<times> serr option" where
  "Replace w p s =
     (case Validate p of
        Some e \<Rightarrow> (s, Some (InvalidErr e))
      | None \<Rightarrow> (let prev = prof s in commitLocked w prev (s\<lparr>prof := p\<rparr>)))"

subsection \<open>Endpoints\<close>

definition UpsertEndpoint :: "wfaults \<Rightarrow> endpoint \<Rightarrow> store \<Rightarrow> store \<times> serr option" where
  "UpsertEndpoint w e s =
     (if ep_id e = [] then (s, Some IdRequired)
      else
        (let prev = prof s in
         commitLocked w prev (s\<lparr>prof := prev\<lparr>endpoints := upsert_by ep_id e (endpoints prev)\<rparr>\<rparr>)))"

fun onlyMember :: "string list \<Rightarrow> string \<Rightarrow> bool" where
  "onlyMember [] i = False"
| "onlyMember ms i = list_all (\<lambda>m. m = i) ms"

definition removeString :: "string list \<Rightarrow> string \<Rightarrow> string list" where
  "removeString ss target = filter (\<lambda>s. s \<noteq> target) ss"

definition prune_member :: "string \<Rightarrow> group \<Rightarrow> group" where
  "prune_member i g = g\<lparr>gr_members := removeString (gr_members g) i\<rparr>"

text \<open>The guard shared by the two deletions over the routing lists.\<close>

definition uses_target :: "string \<Rightarrow> routing_list \<Rightarrow> bool" where
  "uses_target i rl = (rl_outbound rl = i \<or> rl_download_via rl = i)"

definition DeleteEndpoint :: "wfaults \<Rightarrow> string \<Rightarrow> store \<Rightarrow> store \<times> serr option" where
  "DeleteEndpoint w i s =
     (let p = prof s in
      case find (\<lambda>r. ru_outbound r = i) (rules p) of
        Some r \<Rightarrow> (s, Some (UsedByRule (ru_id r)))
      | None \<Rightarrow>
      (case find (\<lambda>g. onlyMember (gr_members g) i) (groups p) of
        Some g \<Rightarrow> (s, Some (OnlyMemberOf (gr_id g)))
      | None \<Rightarrow>
      (case find (uses_target i) (routing_lists p) of
        Some rl \<Rightarrow> (s, Some (UsedByList (rl_id rl)))
      | None \<Rightarrow>
        if i \<notin> set (map ep_id (endpoints p)) then (s, Some NotFound)
        else commitLocked w p
          (s\<lparr>prof := p\<lparr>endpoints := delete_by ep_id i (endpoints p),
                      groups := map (prune_member i) (groups p)\<rparr>\<rparr>))))"

subsection \<open>Groups\<close>

definition UpsertGroup :: "wfaults \<Rightarrow> group \<Rightarrow> store \<Rightarrow> store \<times> serr option" where
  "UpsertGroup w g s =
     (if gr_id g = [] then (s, Some IdRequired)
      else
        (let prev = prof s in
         commitLocked w prev (s\<lparr>prof := prev\<lparr>groups := upsert_by gr_id g (groups prev)\<rparr>\<rparr>)))"

definition DeleteGroup :: "wfaults \<Rightarrow> string \<Rightarrow> store \<Rightarrow> store \<times> serr option" where
  "DeleteGroup w i s =
     (let p = prof s in
      case find (\<lambda>r. ru_outbound r = i) (rules p) of
        Some r \<Rightarrow> (s, Some (UsedByRule (ru_id r)))
      | None \<Rightarrow>
      (case find (\<lambda>g. gr_id g \<noteq> i \<and> onlyMember (gr_members g) i) (groups p) of
        Some g \<Rightarrow> (s, Some (OnlyMemberOf (gr_id g)))
      | None \<Rightarrow>
      (case find (uses_target i) (routing_lists p) of
        Some rl \<Rightarrow> (s, Some (UsedByList (rl_id rl)))
      | None \<Rightarrow>
        if i \<notin> set (map gr_id (groups p)) then (s, Some NotFound)
        else commitLocked w p
          (s\<lparr>prof := p\<lparr>groups := map (prune_member i) (delete_by gr_id i (groups p))\<rparr>\<rparr>))))"

subsection \<open>Rules\<close>

definition UpsertRule :: "wfaults \<Rightarrow> rule \<Rightarrow> store \<Rightarrow> store \<times> serr option" where
  "UpsertRule w r s =
     (if ru_id r = [] then (s, Some IdRequired)
      else
        (let prev = prof s in
         commitLocked w prev (s\<lparr>prof := prev\<lparr>rules := upsert_by ru_id r (rules prev)\<rparr>\<rparr>)))"

definition DeleteRule :: "wfaults \<Rightarrow> string \<Rightarrow> store \<Rightarrow> store \<times> serr option" where
  "DeleteRule w i s =
     (let p = prof s in
      if i \<notin> set (map ru_id (rules p)) then (s, Some NotFound)
      else commitLocked w p (s\<lparr>prof := p\<lparr>rules := delete_by ru_id i (rules p)\<rparr>\<rparr>))"

subsection \<open>Routing lists\<close>

text \<open>The edit of an existing list: a changed source drops the cache, an edit that omits the cache
  keeps the stored one.\<close>

definition carry_cache :: "routing_list \<Rightarrow> routing_list \<Rightarrow> routing_list" where
  "carry_cache old rl =
     (if rl_cidr_source rl \<noteq> rl_cidr_source old then rl\<lparr>rl_cidr_cache := []\<rparr>
      else if rl_cidr_cache rl = [] then rl\<lparr>rl_cidr_cache := rl_cidr_cache old\<rparr>
      else rl)"

fun upsert_list :: "routing_list \<Rightarrow> routing_list list \<Rightarrow> routing_list list" where
  "upsert_list rl [] = [rl]"
| "upsert_list rl (x # xs) = (if rl_id x = rl_id rl then carry_cache x rl # xs else x # upsert_list rl xs)"

definition UpsertRoutingList :: "wfaults \<Rightarrow> routing_list \<Rightarrow> store \<Rightarrow> store \<times> serr option" where
  "UpsertRoutingList w rl s =
     (if rl_id rl = [] then (s, Some IdRequired)
      else
        (let prev = prof s in
         commitLocked w prev (s\<lparr>prof := prev\<lparr>routing_lists := upsert_list rl (routing_lists prev)\<rparr>\<rparr>)))"

fun set_cache :: "string \<Rightarrow> string list \<Rightarrow> routing_list list \<Rightarrow> routing_list list option" where
  "set_cache i cidrs [] = None"
| "set_cache i cidrs (x # xs) =
     (if rl_id x = i then Some (x\<lparr>rl_cidr_cache := cidrs\<rparr> # xs)
      else map_option (\<lambda>ys. x # ys) (set_cache i cidrs xs))"

definition SetRoutingListCache :: "wfaults \<Rightarrow> string \<Rightarrow> string list \<Rightarrow> store \<Rightarrow> store \<times> serr option" where
  "SetRoutingListCache w i cidrs s =
     (let prev = prof s in
      case set_cache i cidrs (routing_lists prev) of
        Some rls \<Rightarrow> commitLocked w prev (s\<lparr>prof := prev\<lparr>routing_lists := rls\<rparr>\<rparr>)
      | None \<Rightarrow> (s, Some NotFound))"

definition DeleteRoutingList :: "wfaults \<Rightarrow> string \<Rightarrow> store \<Rightarrow> store \<times> serr option" where
  "DeleteRoutingList w i s =
     (let p = prof s in
      if i \<notin> set (map rl_id (routing_lists p)) then (s, Some NotFound)
      else commitLocked w p (s\<lparr>prof := p\<lparr>routing_lists := delete_by rl_id i (routing_lists p)\<rparr>\<rparr>))"

end
