(* ===== verification/Store_Spec.thy ===== *)
theory Store_Spec
  imports Store
begin

text \<open>
  What the store promises: each operation is a pure edit of the profile, committed only when it has
  reached the disk; memory and file agree after every history of operations and failures; no power
  loss leaves a torn file; and the deletions keep a valid profile valid.
\<close>

subsection \<open>The abstract edits\<close>

datatype store_op =
    OReplace profile
  | OUpsertEndpoint endpoint | ODeleteEndpoint string
  | OUpsertGroup group | ODeleteGroup string
  | OUpsertRule rule | ODeleteRule string
  | OUpsertRoutingList routing_list | OSetRoutingListCache string "string list" | ODeleteRoutingList string

fun exec :: "wfaults \<Rightarrow> store_op \<Rightarrow> store \<Rightarrow> store \<times> serr option" where
  "exec w (OReplace p) s = Replace w p s"
| "exec w (OUpsertEndpoint e) s = UpsertEndpoint w e s"
| "exec w (ODeleteEndpoint i) s = DeleteEndpoint w i s"
| "exec w (OUpsertGroup g) s = UpsertGroup w g s"
| "exec w (ODeleteGroup i) s = DeleteGroup w i s"
| "exec w (OUpsertRule r) s = UpsertRule w r s"
| "exec w (ODeleteRule i) s = DeleteRule w i s"
| "exec w (OUpsertRoutingList rl) s = UpsertRoutingList w rl s"
| "exec w (OSetRoutingListCache i cs) s = SetRoutingListCache w i cs s"
| "exec w (ODeleteRoutingList i) s = DeleteRoutingList w i s"

text \<open>Removing a target of traffic: refused while something depends on it.\<close>

definition dependants :: "(group \<Rightarrow> bool) \<Rightarrow> string \<Rightarrow> profile \<Rightarrow> serr list" where
  "dependants ignore i p =
     map (UsedByRule \<circ> ru_id) (filter (\<lambda>r. ru_outbound r = i) (rules p)) @
     map (OnlyMemberOf \<circ> gr_id) (filter (\<lambda>g. \<not> ignore g \<and> gr_members g \<noteq> [] \<and> set (gr_members g) = {i}) (groups p)) @
     map (UsedByList \<circ> rl_id) (filter (uses_target i) (routing_lists p))"

fun edit :: "store_op \<Rightarrow> profile \<Rightarrow> (serr, profile) res" where
  "edit (OReplace q) p = (case Validate q of Some e \<Rightarrow> fail (InvalidErr e) | None \<Rightarrow> ok q)"
| "edit (OUpsertEndpoint e) p =
     (if ep_id e = [] then fail IdRequired else ok (p\<lparr>endpoints := upsert_by ep_id e (endpoints p)\<rparr>))"
| "edit (ODeleteEndpoint i) p =
     (case dependants (\<lambda>g. False) i p of
        e # _ \<Rightarrow> fail e
      | [] \<Rightarrow> if i \<notin> ep_id ` set (endpoints p) then fail NotFound
             else ok (p\<lparr>endpoints := delete_by ep_id i (endpoints p), groups := map (prune_member i) (groups p)\<rparr>))"
| "edit (OUpsertGroup g) p =
     (if gr_id g = [] then fail IdRequired else ok (p\<lparr>groups := upsert_by gr_id g (groups p)\<rparr>))"
| "edit (ODeleteGroup i) p =
     (case dependants (\<lambda>g. gr_id g = i) i p of
        e # _ \<Rightarrow> fail e
      | [] \<Rightarrow> if i \<notin> gr_id ` set (groups p) then fail NotFound
             else ok (p\<lparr>groups := map (prune_member i) (delete_by gr_id i (groups p))\<rparr>))"
| "edit (OUpsertRule r) p =
     (if ru_id r = [] then fail IdRequired else ok (p\<lparr>rules := upsert_by ru_id r (rules p)\<rparr>))"
| "edit (ODeleteRule i) p =
     (if i \<notin> ru_id ` set (rules p) then fail NotFound else ok (p\<lparr>rules := delete_by ru_id i (rules p)\<rparr>))"
| "edit (OUpsertRoutingList rl) p =
     (if rl_id rl = [] then fail IdRequired
      else let rl' = (case RoutingListByID p (rl_id rl) of None \<Rightarrow> rl | Some old \<Rightarrow> carry_cache old rl)
           in ok (p\<lparr>routing_lists := upsert_by rl_id rl' (routing_lists p)\<rparr>))"
| "edit (OSetRoutingListCache i cs) p =
     (case RoutingListByID p i of
        None \<Rightarrow> fail NotFound
      | Some rl \<Rightarrow> ok (p\<lparr>routing_lists := upsert_by rl_id (rl\<lparr>rl_cidr_cache := cs\<rparr>) (routing_lists p)\<rparr>))"
| "edit (ODeleteRoutingList i) p =
     (if i \<notin> rl_id ` set (routing_lists p) then fail NotFound
      else ok (p\<lparr>routing_lists := delete_by rl_id i (routing_lists p)\<rparr>))"

subsection \<open>Persist, then commit\<close>

text \<open>What a saved profile looks like from outside: reading the file back gives the profile in
  memory.\<close>

definition in_sync :: "store \<Rightarrow> bool" where
  "in_sync s = (\<exists>d. read_file (st_path s) (disk s) = Some (Doc d) \<and> unmarshal d = unmarshal (prof s))"

text \<open>Whatever a power loss leaves in the file, it parses.\<close>

definition crash_ok :: "path \<Rightarrow> content fs \<Rightarrow> bool" where
  "crash_ok path f = (after_crash path f \<subseteq> range (\<lambda>p. Some (Doc p)))"

lemma saveLocked_frames [frame_simps, simp]:
  "prof (fst (saveLocked w s)) = prof s" "st_path (fst (saveLocked w s)) = st_path s"
  by (simp_all add: saveLocked_def split: prod.splits)

lemma commitLocked_frames [frame_simps, simp]: "st_path (fst (commitLocked w prev s)) = st_path s"
  by (auto simp: commitLocked_def saveLocked_def split: prod.splits option.splits)

lemma commitLocked_prof:
  "prof (fst (commitLocked w prev s)) = (case snd (commitLocked w prev s) of None \<Rightarrow> prof s | Some _ \<Rightarrow> prev)"
  by (auto simp: commitLocked_def saveLocked_def split: prod.splits option.splits)

lemma commitLocked_err: "snd (commitLocked w prev s) = Some e \<Longrightarrow> \<exists>io. e = PersistErr io"
  by (auto simp: commitLocked_def saveLocked_def split: prod.splits option.splits)

lemma commitLocked_disk:
  "disk (fst (commitLocked w prev s)) = fst (cell_write Blank (st_path s) w (Doc (prof s)) (disk s))"
  by (auto simp: commitLocked_def saveLocked_def split: prod.splits option.splits)

lemma commitLocked_snd:
  "snd (commitLocked w prev s) = map_option PersistErr (snd (cell_write Blank (st_path s) w (Doc (prof s)) (disk s)))"
  by (auto simp: commitLocked_def saveLocked_def split: prod.splits option.splits)

lemma commitLocked_in_sync [inv_intros]:
  assumes "in_sync s"
  shows "in_sync (fst (commitLocked w (prof s) (s\<lparr>prof := p\<rparr>)))"
proof -
  let ?s = "s\<lparr>prof := p\<rparr>"
  obtain d where d: "read_file (st_path s) (disk s) = Some (Doc d)" "unmarshal d = unmarshal (prof s)"
    using assms by (auto simp: in_sync_def)
  show ?thesis
    using atomic_cell.commit_agrees [OF d(1), of Blank w "Doc p"] d(2)
    by (auto simp: in_sync_def commitLocked_prof commitLocked_disk commitLocked_snd split: option.splits)
qed

lemma crash_ok_Write:
  assumes "crash_ok path f" and "g \<in> set (fst (Write Blank w path (Doc p) f))"
  shows "crash_ok path g"
  using crash_during_Write [OF assms(2)] assms(1) by (fastforce simp: crash_ok_def)

lemma final_in_trace: "final (Write nil w p d f) \<in> set (fst (Write nil w p d f))"
proof -
  have "fst (Write nil w p d f) \<noteq> []"
    using WriteSynced_trace_nonempty [of nil w "p @ ''.tmp''" d f]
    by (auto simp: Write_def Let_def split: prod.splits option.splits)
  then show ?thesis by (simp add: final_def)
qed

lemma commitLocked_crash_ok [inv_intros]:
  "crash_ok (st_path s) (disk s) \<Longrightarrow> crash_ok (st_path s) (disk (fst (commitLocked w prev s)))"
  using crash_ok_Write [OF _ final_in_trace] by (simp add: commitLocked_disk cell_write_def)

text \<open>The contract between an operation and its edit of the profile, and what follows for every
  history of operations.\<close>

fun run_all :: "(wfaults \<Rightarrow> 'a \<Rightarrow> store \<Rightarrow> store \<times> serr option) \<Rightarrow> (wfaults \<times> 'a) list \<Rightarrow> store \<Rightarrow> store" where
  "run_all run [] s = s"
| "run_all run ((w, a) # as) s = run_all run as (fst (run w a s))"
locale persist_then_commit =
  fixes run :: "wfaults \<Rightarrow> 'a \<Rightarrow> store \<Rightarrow> store \<times> serr option"
    and change :: "'a \<Rightarrow> profile \<Rightarrow> (serr, profile) res"
  assumes run_eq: "run w a s =
    (case change a (prof s) of
       Inl e \<Rightarrow> (s, Some e)
     | Inr p \<Rightarrow> commitLocked w (prof s) (s\<lparr>prof := p\<rparr>))"
begin

lemma run_result:
  "case run w a s of
     (s', None) \<Rightarrow> change a (prof s) = Inr (prof s')
   | (s', Some e) \<Rightarrow> prof s' = prof s \<and> (change a (prof s) = Inl e \<or> (\<exists>io. e = PersistErr io))"
proof (cases "change a (prof s)")
  case (Inr p)
  then show ?thesis
    using commitLocked_prof [of w "prof s" "s\<lparr>prof := p\<rparr>"] commitLocked_err [of w "prof s" "s\<lparr>prof := p\<rparr>"]
    by (cases "commitLocked w (prof s) (s\<lparr>prof := p\<rparr>)") (auto simp: run_eq split: option.splits)
qed (simp add: run_eq)

lemma run_path [simp]: "st_path (fst (run w a s)) = st_path s"
  by (auto simp: run_eq split: sum.splits)

lemma run_in_sync: "in_sync s \<Longrightarrow> in_sync (fst (run w a s))"
  by (auto simp: run_eq intro: inv_intros split: sum.splits)

lemma run_crash_ok:
  "crash_ok (st_path s) (disk s) \<Longrightarrow> crash_ok (st_path s) (disk (fst (run w a s)))"
  using commitLocked_crash_ok [of "s\<lparr>prof := p\<rparr>" for p] by (auto simp: run_eq split: sum.splits)

lemma run_all_in_sync: "in_sync s \<Longrightarrow> in_sync (run_all run as s)"
proof (induction as arbitrary: s)
  case (Cons wa as)
  then show ?case using run_in_sync [of s "fst wa" "snd wa"] by (cases wa) simp
qed simp

lemma run_all_path: "st_path (run_all run as s) = st_path s"
  by (induction as arbitrary: s) auto

lemma run_all_crash_ok:
  "crash_ok (st_path s) (disk s) \<Longrightarrow> crash_ok (st_path s) (disk (run_all run as s))"
proof (induction as arbitrary: s)
  case (Cons wa as)
  then show ?case using run_crash_ok [OF Cons.prems, of "fst wa" "snd wa"]
      Cons.IH [of "fst (run (fst wa) (snd wa) s)"] by (cases wa) simp
qed simp

text \<open>A property of profiles that each edit keeps holds after every history.\<close>

lemma run_all_keeps:
  assumes "\<And>w a p q. (w, a) \<in> set as \<Longrightarrow> P p \<Longrightarrow> change a p = Inr q \<Longrightarrow> P q"
  shows "P (prof s) \<Longrightarrow> P (prof (run_all run as s))"
  using assms
proof (induction as arbitrary: s)
  case (Cons wa as)
  obtain w a where wa: "wa = (w, a)" by fastforce
  have "P (prof (fst (run w a s)))"
  proof (cases "run w a s")
    case (Pair s' e)
    have "change a (prof s) = Inr q \<Longrightarrow> P q" for q
      using Cons.prems wa by (meson list.set_intros(1))
    with Pair run_result [where w = w and a = a and s = s] Cons.prems(1) show ?thesis by (cases e) auto
  qed
  then have "P (prof (run_all run as (fst (run w a s))))"
    using Cons.prems(2) by (intro Cons.IH) auto
  with wa show ?case by simp
qed simp

end

lemma find_eq_hd_filter: "find P xs = (case filter P xs of [] \<Rightarrow> None | x # _ \<Rightarrow> Some x)"
  by (induction xs) auto

lemma onlyMember_set: "onlyMember ms i \<longleftrightarrow> ms \<noteq> [] \<and> set ms = {i}"
  by (cases "(ms, i)" rule: onlyMember.cases) (auto simp: list_all_iff)

lemma upsert_list_eq:
  "upsert_list rl xs =
     upsert_by rl_id (case lookup_by rl_id (rl_id rl) xs of None \<Rightarrow> rl | Some old \<Rightarrow> carry_cache old rl) xs"
  by (induction xs) (auto simp: carry_cache_def split: option.splits)

lemma lookup_by_id: "lookup_by rl_id i xs = Some rl \<Longrightarrow> rl_id rl = i"
  by (auto dest: lookup_by_Some_in)

lemma set_cache_eq:
  "set_cache i cs xs =
     map_option (\<lambda>rl. upsert_by rl_id (rl\<lparr>rl_cidr_cache := cs\<rparr>) xs) (lookup_by rl_id i xs)"
proof (induction xs)
  case (Cons x xs)
  then show ?case by (cases "lookup_by rl_id i xs") (auto dest: lookup_by_id)
qed simp

lemmas find_guards = find_eq_hd_filter dependants_def onlyMember_set

lemma exec_DeleteEndpoint:
  "DeleteEndpoint w i s = (case edit (ODeleteEndpoint i) (prof s) of
      Inl e \<Rightarrow> (s, Some e) | Inr p \<Rightarrow> commitLocked w (prof s) (s\<lparr>prof := p\<rparr>))"
  by (auto simp: DeleteEndpoint_def Let_def find_guards split: list.splits option.splits)

lemma exec_DeleteGroup:
  "DeleteGroup w i s = (case edit (ODeleteGroup i) (prof s) of
      Inl e \<Rightarrow> (s, Some e) | Inr p \<Rightarrow> commitLocked w (prof s) (s\<lparr>prof := p\<rparr>))"
  by (auto simp: DeleteGroup_def Let_def find_guards split: list.splits option.splits)

interpretation op: persist_then_commit exec edit
proof
  fix w a s
  show "exec w a s = (case edit a (prof s) of
      Inl e \<Rightarrow> (s, Some e) | Inr p \<Rightarrow> commitLocked w (prof s) (s\<lparr>prof := p\<rparr>))"
    by (cases a)
      (auto simp: exec_DeleteEndpoint exec_DeleteGroup Replace_def UpsertEndpoint_def UpsertGroup_def
        UpsertRule_def DeleteRule_def UpsertRoutingList_def SetRoutingListCache_def DeleteRoutingList_def
        Let_def upsert_list_eq set_cache_eq RoutingListByID_def simp del: edit.simps(3,5) split: option.splits)
qed

subsection \<open>Deletions keep a valid profile valid\<close>

lemma prune_member_simps [simp]:
  "gr_id (prune_member i g) = gr_id g"
  "gr_members (prune_member i g) = filter (\<lambda>m. m \<noteq> i) (gr_members g)"
  by (simp_all add: prune_member_def removeString_def)

lemma map_delete_by: "map key (delete_by key i xs) = filter (\<lambda>k. k \<noteq> i) (map key xs)"
  by (induction xs) auto

lemma delete_by_absent: "i \<notin> key ` set xs \<Longrightarrow> delete_by key i xs = xs"
  by (auto simp: delete_by_def filter_id_conv)

lemma prune_groups_ids [simp]: "map (gr_id \<circ> prune_member i) gs = map gr_id gs"
  by simp

lemma map_upsert_by_known: "key x \<in> key ` set xs \<Longrightarrow> map key (upsert_by key x xs) = map key xs"
  by (induction xs) auto

lemma set_upsert_by_subset: "set (upsert_by key x xs) \<subseteq> insert x (set xs)"
  by (induction xs) auto

text \<open>Removing the target \<^verbatim>\<open>i\<close> from a valid profile on which nothing depends through \<^verbatim>\<open>i\<close>.\<close>

definition without :: "string \<Rightarrow> profile \<Rightarrow> profile" where
  "without i p = p\<lparr>endpoints := delete_by ep_id i (endpoints p),
     groups := map (prune_member i) (delete_by gr_id i (groups p))\<rparr>"

lemma targets_without: "targets (without i p) = targets p - {i}"
proof -
  have "gr_id ` set (groups (without i p)) = gr_id ` set (groups p) - {i}"
    by (auto simp: without_def image_image)
  then show ?thesis by (auto simp: targets_def without_def)
qed

lemma without_ok:
  assumes ok: "profile_ok p" and dep: "dependants (\<lambda>g. gr_id g = i) i p = []"
  shows "profile_ok (without i p)"
proof -
  have rules: "\<forall>r \<in> set (rules p). ru_outbound r \<noteq> i"
    and only: "\<forall>g \<in> set (groups p). gr_id g \<noteq> i \<longrightarrow> gr_members g \<noteq> [] \<longrightarrow> set (gr_members g) \<noteq> {i}"
    and lists: "\<forall>rl \<in> set (routing_lists p). rl_outbound rl \<noteq> i \<and> rl_download_via rl \<noteq> i"
    using dep by (auto simp: dependants_def filter_empty_conv uses_target_def)
  have tgt: "target_ok (without i p) t \<longleftrightarrow> target_ok p t" if "t \<noteq> i" for t
    using that by (simp add: target_ok_def targets_without)
  have ids: "distinct (all_ids (without i p))" "[] \<notin> set (all_ids (without i p))"
    using ok by (auto simp: profile_ok_def all_ids_def without_def map_delete_by)
  have gok: "group_ok (without i p) (prune_member i g)" if "g \<in> set (groups p)" "gr_id g \<noteq> i" for g
  proof -
    have g: "group_ok p g" using ok that by (simp add: profile_ok_def)
    then have "gr_members g \<noteq> []" "set (gr_members g) \<noteq> {i}" using only that by (auto simp: group_ok_def)
    then obtain m where "m \<in> set (gr_members g)" "m \<noteq> i"
      by (metis set_empty singleton_insert_inj_eq' subsetI subset_singletonD insertCI)
    then have "filter (\<lambda>m. m \<noteq> i) (gr_members g) \<noteq> []" by (auto simp: filter_empty_conv)
    with g show ?thesis by (auto simp: group_ok_def member_ok_def targets_without)
  qed
  have "group_edges (groups (without i p)) \<subseteq> group_edges (groups p)"
    by (auto simp: group_edges_def without_def)
  then have "acyclic (group_edges (groups (without i p)))"
    using ok by (meson acyclic_subset profile_ok_def)
  with ok ids gok rules lists tgt show ?thesis
    by (auto simp: profile_ok_def rule_ok_def list_ok_def) (auto simp: without_def)
qed

lemma edit_DeleteEndpoint_ok:
  assumes "profile_ok p" and "edit (ODeleteEndpoint i) p = Inr q"
  shows "q = without i p \<and> dependants (\<lambda>g. gr_id g = i) i p = []"
proof -
  have i: "i \<in> ep_id ` set (endpoints p)" and dep: "dependants (\<lambda>g. False) i p = []"
    and q: "q = p\<lparr>endpoints := delete_by ep_id i (endpoints p), groups := map (prune_member i) (groups p)\<rparr>"
    using assms(2) by (auto split: list.splits if_splits)
  have "i \<notin> gr_id ` set (groups p)" using assms(1) i by (auto simp: profile_ok_def all_ids_def)
  with q have "q = without i p" by (simp add: without_def delete_by_absent)
  moreover have "dependants (\<lambda>g. gr_id g = i) i p = []"
    using dep by (auto simp: dependants_def filter_empty_conv)
  ultimately show ?thesis by simp
qed

lemma edit_DeleteGroup_ok:
  assumes "profile_ok p" and "edit (ODeleteGroup i) p = Inr q"
  shows "q = without i p \<and> dependants (\<lambda>g. gr_id g = i) i p = []"
proof -
  have i: "i \<in> gr_id ` set (groups p)" and dep: "dependants (\<lambda>g. gr_id g = i) i p = []"
    and q: "q = p\<lparr>groups := map (prune_member i) (delete_by gr_id i (groups p))\<rparr>"
    using assms(2) by (auto split: list.splits if_splits)
  have "i \<notin> ep_id ` set (endpoints p)" using assms(1) i by (auto simp: profile_ok_def all_ids_def)
  with q dep show ?thesis by (simp add: without_def delete_by_absent)
qed

lemma targets_frame [simp]:
  "targets (p\<lparr>rules := rs\<rparr>) = targets p" "targets (p\<lparr>routing_lists := ls\<rparr>) = targets p"
  by (simp_all add: targets_def)

lemmas ok_unfold = profile_ok_def group_ok_def member_ok_def rule_ok_def list_ok_def target_ok_def

lemma length_filter_delete_by: "length (filter P (delete_by key i xs)) \<le> length (filter P xs)"
  by (induction xs) auto

lemma DeleteRule_ok: "profile_ok p \<Longrightarrow> profile_ok (p\<lparr>rules := delete_by ru_id i (rules p)\<rparr>)"
proof -
  assume ok: "profile_ok p"
  have "length (filter active_default (delete_by ru_id i (rules p))) \<le> length (filter active_default (rules p))"
    by (rule length_filter_delete_by)
  moreover have "distinct (all_ids (p\<lparr>rules := delete_by ru_id i (rules p)\<rparr>))"
    using ok by (auto simp: profile_ok_def all_ids_def map_delete_by)
  ultimately show ?thesis using ok by (auto simp: ok_unfold all_ids_def)
qed

lemma routing_lists_ok:
  assumes "profile_ok p" and "\<forall>rl \<in> set ls. rl \<in> set (routing_lists p) \<or> list_ok p rl"
    and "\<exists>P. map rl_id ls = filter P (map rl_id (routing_lists p))"
  shows "profile_ok (p\<lparr>routing_lists := ls\<rparr>)"
proof -
  let ?q = "p\<lparr>routing_lists := ls\<rparr>"
  obtain P where P: "map rl_id ls = filter P (map rl_id (routing_lists p))" using assms(3) by blast
  have "distinct (all_ids ?q)" "[] \<notin> set (all_ids ?q)"
    using assms(1) P by (auto simp: profile_ok_def all_ids_def)
  then show ?thesis using assms(1,2) by (auto simp: ok_unfold)
qed

text \<open>The operations that never invalidate a profile: the gated replacement, the deletions, and a
  refresh that brings at least one prefix.\<close>

fun gated_op :: "store_op \<Rightarrow> bool" where
  "gated_op (OReplace _) = True"
| "gated_op (ODeleteEndpoint _) = True"
| "gated_op (ODeleteGroup _) = True"
| "gated_op (ODeleteRule _) = True"
| "gated_op (ODeleteRoutingList _) = True"
| "gated_op (OSetRoutingListCache _ cs) = (cs \<noteq> [])"
| "gated_op _ = False"

lemma SetCache_ok:
  assumes "profile_ok p" and "lookup_by rl_id i (routing_lists p) = Some rl" and "cs \<noteq> []"
  shows "profile_ok (p\<lparr>routing_lists := upsert_by rl_id (rl\<lparr>rl_cidr_cache := cs\<rparr>) (routing_lists p)\<rparr>)"
proof (rule routing_lists_ok [OF assms(1)])
  have rl: "rl \<in> set (routing_lists p)" using assms(2) by (auto dest: lookup_by_Some_in)
  then have "list_ok p (rl\<lparr>rl_cidr_cache := cs\<rparr>)"
    using assms(1,3) by (auto simp: profile_ok_def list_ok_def)
  then show "\<forall>x \<in> set (upsert_by rl_id (rl\<lparr>rl_cidr_cache := cs\<rparr>) (routing_lists p)).
      x \<in> set (routing_lists p) \<or> list_ok p x"
    using set_upsert_by_subset [of rl_id "rl\<lparr>rl_cidr_cache := cs\<rparr>"] by blast
  show "\<exists>P. map rl_id (upsert_by rl_id (rl\<lparr>rl_cidr_cache := cs\<rparr>) (routing_lists p)) =
      filter P (map rl_id (routing_lists p))"
    using rl by (intro exI [of _ "\<lambda>_. True"]) (auto simp: map_upsert_by_known)
qed

lemma gated_op_ok:
  assumes "gated_op a" and "profile_ok p" and "edit a p = Inr q"
  shows "profile_ok q"
proof (cases a)
  case (OReplace r)
  with assms show ?thesis by (auto simp: Validate_iff split: option.splits)
next
  case (ODeleteRoutingList i)
  with assms show ?thesis
    by (auto simp: map_delete_by intro!: routing_lists_ok split: if_splits)
next
  case (OSetRoutingListCache i cs)
  with assms show ?thesis by (auto simp: RoutingListByID_def SetCache_ok split: option.splits)
next
  case (ODeleteEndpoint i)
  with assms(3) have "edit (ODeleteEndpoint i) p = Inr q" by blast
  from edit_DeleteEndpoint_ok [OF assms(2) this] without_ok [OF assms(2)] show ?thesis by blast
next
  case (ODeleteGroup i)
  with assms(3) have "edit (ODeleteGroup i) p = Inr q" by blast
  from edit_DeleteGroup_ok [OF assms(2) this] without_ok [OF assms(2)] show ?thesis by blast
next
  case (ODeleteRule i)
  with assms show ?thesis using DeleteRule_ok [of p i] by (auto split: if_splits)
qed (use assms(1) in simp_all)

subsection \<open>Properties\<close>

text \<open>C6. Every store operation is its abstract edit, committed only when it is on disk: success
  means that the edit was applied, an error that the profile in memory is what it was, and the error
  is either the refusal of the edit or the failure of the write.\<close>

theorem store_op_refines_edit:
  "case exec w a s of
     (s', None) \<Rightarrow> edit a (prof s) = Inr (prof s')
   | (s', Some e) \<Rightarrow> prof s' = prof s \<and> (edit a (prof s) = Inl e \<or> (\<exists>io. e = PersistErr io))"
  by (rule op.run_result)




text \<open>C21. No power loss leaves a file that does not parse: after any history of operations, and at any
  point inside one more write, the file holds the text of some profile, provided it did when the
  history began.\<close>

theorem store_survives_power_loss:
  assumes "crash_ok (st_path s) (disk s)"
    and "g \<in> set (fst (Write Blank w (st_path s) (Doc q) (disk (run_all exec ops s))))"
    and "c \<in> after_crash (st_path s) g"
  shows "\<exists>p. c = Some (Doc p)"
  using crash_ok_Write [OF op.run_all_crash_ok [OF assms(1)] assms(2)] assms(3)
  by (auto simp: crash_ok_def)

text \<open>C32. Deletions, replacements and non-empty refreshes keep a valid profile valid, in any order and
  with any write failures: nothing is left dangling, no group loses its last member.\<close>

theorem deletions_keep_profile_valid:
  assumes "Validate (prof s) = None" and "\<forall>x \<in> set ops. gated_op (snd x)"
  shows "Validate (prof (run_all exec ops s)) = None"
proof -
  have "profile_ok (prof (run_all exec ops s))"
    using assms gated_op_ok by (intro op.run_all_keeps [where P = profile_ok]) (auto simp: Validate_iff)
  then show ?thesis by (simp add: Validate_iff)
qed

text \<open>A successful deletion of an endpoint leaves no trace of its id: no endpoint carries it, no
  group lists it, no rule and no routing list routes or downloads through it.\<close>

theorem DeleteEndpoint_leaves_no_reference:
  assumes "DeleteEndpoint w i s = (s', None)"
  shows "EndpointByID (prof s') i = None \<and>
    (\<forall>g \<in> set (groups (prof s')). i \<notin> set (gr_members g)) \<and>
    (\<forall>r \<in> set (rules (prof s')). ru_outbound r \<noteq> i) \<and>
    (\<forall>rl \<in> set (routing_lists (prof s')). rl_outbound rl \<noteq> i \<and> rl_download_via rl \<noteq> i)"
proof -
  have "edit (ODeleteEndpoint i) (prof s) = Inr (prof s')"
    using assms op.run_result [where w = w and a = "ODeleteEndpoint i" and s = s] by (simp del: edit.simps)
  then have "dependants (\<lambda>g. False) i (prof s) = []"
    "prof s' = (prof s)\<lparr>endpoints := delete_by ep_id i (endpoints (prof s)),
       groups := map (prune_member i) (groups (prof s))\<rparr>"
    by (auto split: list.splits if_splits)
  then show ?thesis
    by (auto simp: EndpointByID_def dependants_def filter_empty_conv uses_target_def)
qed

text \<open>A routing list edited by the user never keeps a stale prefix cache: a changed source empties
  it, an edit that omits it keeps the stored one, and the other lists are untouched.\<close>

theorem UpsertRoutingList_cache:
  assumes "UpsertRoutingList w rl s = (s', None)" and "RoutingListByID (prof s) (rl_id rl) = Some old"
  shows "RoutingListByID (prof s') (rl_id rl) = Some (rl\<lparr>rl_cidr_cache :=
      (if rl_cidr_source rl \<noteq> rl_cidr_source old then []
       else if rl_cidr_cache rl = [] then rl_cidr_cache old else rl_cidr_cache rl)\<rparr>) \<and>
    (\<forall>i. i \<noteq> rl_id rl \<longrightarrow> RoutingListByID (prof s') i = RoutingListByID (prof s) i)"
proof -
  have "edit (OUpsertRoutingList rl) (prof s) = Inr (prof s')"
    using assms(1) op.run_result [where w = w and a = "OUpsertRoutingList rl" and s = s] by (simp del: edit.simps)
  with assms(2) have "prof s' = (prof s)\<lparr>routing_lists := upsert_by rl_id (carry_cache old rl) (routing_lists (prof s))\<rparr>"
    by (auto split: if_splits simp: Let_def)
  then show ?thesis by (auto simp: RoutingListByID_def carry_cache_def)
qed

subsection \<open>Witnesses\<close>

definition example_fs :: "content fs" where
  "example_fs = \<lparr>cur = [''p'' \<mapsto> \<lparr>contents = Doc example_profile, synced = True\<rparr>],
     dur = [''p'' \<mapsto> \<lparr>contents = Doc example_profile, synced = True\<rparr>]\<rparr>"

definition example_store :: store where
  "example_store = \<lparr>st_path = ''p'', prof = example_profile, disk = example_fs\<rparr>"

definition full_disk :: wfaults where
  "full_disk = no_faults\<lparr>write_fails := Some Blank\<rparr>"

definition example_ops :: "(wfaults \<times> store_op) list" where
  "example_ops = [(full_disk, ODeleteRule ''r1''), (no_faults, ODeleteRoutingList ''l1''), (no_faults, ODeleteRule ''r1''),
     (no_faults, ODeleteEndpoint ''awg'')]"


lemma example_crash_ok: "crash_ok ''p'' example_fs"
  by (auto simp: crash_ok_def after_crash_def after_crash1_def example_fs_def)

theorem store_survives_power_loss_witness:
  "\<exists>g c. g \<in> set (fst (Write Blank full_disk ''p'' (Doc empty_profile) (disk (run_all exec example_ops example_store)))) \<and>
     c \<in> after_crash ''p'' g \<and> (\<exists>p. c = Some (Doc p))"
proof -
  let ?s = example_store
  let ?tr = "fst (Write Blank full_disk ''p'' (Doc empty_profile) (disk (run_all exec example_ops ?s)))"
  have g: "final (Write Blank full_disk ''p'' (Doc empty_profile) (disk (run_all exec example_ops ?s))) \<in> set ?tr"
    (is "?g \<in> _") by (rule final_in_trace)
  have "after_crash ''p'' ?g \<noteq> {}"
    by (auto simp: after_crash_def after_crash1_def split: option.splits)
  then obtain c where c: "c \<in> after_crash ''p'' ?g" by blast
  have "crash_ok (st_path ?s) (disk ?s)" using example_crash_ok by (simp add: example_store_def)
  moreover have p: "st_path ?s = ''p''" by (simp add: example_store_def)
  ultimately have "\<exists>p. c = Some (Doc p)"
    using store_survives_power_loss [of ?s ?g full_disk empty_profile example_ops c] g c by simp
  with g c show ?thesis by blast
qed

theorem deletions_keep_profile_valid_witness:
  "Validate (prof example_store) = None \<and> list_all (\<lambda>x. gated_op (snd x)) example_ops \<and>
   Validate (prof (run_all exec example_ops example_store)) = None"
proof -
  have 1: "Validate (prof example_store) = None" using example_profile_valid by (simp add: example_store_def)
  have 2: "\<forall>x \<in> set example_ops. gated_op (snd x)" by (simp add: example_ops_def)
  from 1 2 deletions_keep_profile_valid [OF 1 2] show ?thesis by (simp add: list_all_iff)
qed

lemma example_delete:
  "snd (DeleteEndpoint no_faults ''awg'' (example_store\<lparr>prof := example_profile\<lparr>rules := [], routing_lists := []\<rparr>\<rparr>)) = None"
  by code_simp

theorem DeleteEndpoint_leaves_no_reference_witness:
  "let s = example_store\<lparr>prof := example_profile\<lparr>rules := [], routing_lists := []\<rparr>\<rparr>;
       s' = fst (DeleteEndpoint no_faults ''awg'' s)
   in DeleteEndpoint no_faults ''awg'' s = (s', None) \<and> EndpointByID (prof s') ''awg'' = None"
proof -
  let ?s = "example_store\<lparr>prof := example_profile\<lparr>rules := [], routing_lists := []\<rparr>\<rparr>"
  have "DeleteEndpoint no_faults ''awg'' ?s = (fst (DeleteEndpoint no_faults ''awg'' ?s), None)"
    using example_delete by (metis prod.collapse)
  from this DeleteEndpoint_leaves_no_reference [OF this] show ?thesis by (simp add: Let_def)
qed

theorem UpsertRoutingList_cache_witness:
  "let rl = base_list\<lparr>rl_cidr_source := ''asn:13335'', rl_cidr_cache := []\<rparr>;
       s' = fst (UpsertRoutingList no_faults rl example_store)
   in UpsertRoutingList no_faults rl example_store = (s', None) \<and>
      RoutingListByID (prof example_store) (rl_id rl) = Some base_list \<and> RoutingListByID (prof s') ''l1'' = Some rl"
proof -
  let ?rl = "base_list\<lparr>rl_cidr_source := ''asn:13335'', rl_cidr_cache := []\<rparr>"
  have "snd (UpsertRoutingList no_faults ?rl example_store) = None" by code_simp
  then have u: "UpsertRoutingList no_faults ?rl example_store = (fst (UpsertRoutingList no_faults ?rl example_store), None)"
    by (metis prod.collapse)
  have old: "RoutingListByID (prof example_store) (rl_id ?rl) = Some base_list"
    by (simp add: RoutingListByID_def example_store_def example_profile_def)
  from u old UpsertRoutingList_cache [OF u old] show ?thesis by (simp add: Let_def base_list_def)
qed

end
