(* ===== verification/Failsafe.thy ===== *)
theory Failsafe
  imports Prelude
begin

text \<open>
  \<^verbatim>\<open>internal/failsafe/failsafe.go\<close>: the fail-safe window after an unsaved Apply. The manager is a
  record; each method is a function on it, covering what the method does while it holds the manager's
  mutex. Times are Unix milliseconds as integers; durations are nanoseconds, as in Go.
\<close>

subsection \<open>The manager\<close>

datatype action = ActNone | ActRollback | ActReboot | ActDone

datatype phase = PIdle | PArmed | PDegraded | PRolledBack | PRollbackFailed | PCommitted | PLiveUnsaved | PReboot

record durations =
  Grace :: int
  Interval :: int
  RollbackAfter :: int
  RebootAfter :: int
  KeepWindow :: int

text \<open>Division of a duration by \<^verbatim>\<open>time.Millisecond\<close>, truncating toward zero.\<close>

definition to_ms :: "int \<Rightarrow> int" where
  "to_ms d = (if d < 0 then - (- d div 1000000) else d div 1000000)"

abbreviation second :: int where "second \<equiv> 1000000000"

definition DefaultDurations :: durations where
  "DefaultDurations = \<lparr>Grace = 20 * second, Interval = 15 * second, RollbackAfter = 45 * second,
     RebootAfter = 300 * second, KeepWindow = 180 * second\<rparr>"

text \<open>A rollback closure is named by the window that created it; \<^verbatim>\<open>None\<close> is a nil function.\<close>

record manager =
  m_d :: durations
  pending :: bool
  m_phase :: phase
  armedAt :: int
  deadline :: int
  bad :: bool
  badSince :: int
  rolledBack :: bool
  dispatched :: bool
  epoch :: nat
  lastOk :: bool
  lastAt :: int
  lastErr :: string
  rollback :: "nat option"
  reboot :: bool
  allowReboot :: bool

definition New :: "durations \<Rightarrow> manager" where
  "New d = \<lparr>m_d = d, pending = False, m_phase = PIdle, armedAt = 0, deadline = 0, bad = False, badSince = 0,
     rolledBack = False, dispatched = False, epoch = 0, lastOk = False, lastAt = 0, lastErr = [],
     rollback = None, reboot = False, allowReboot = False\<rparr>"

text \<open>The rollback closure passed to \<^verbatim>\<open>Arm\<close> is the one of the window being created, so it carries the
  new epoch.\<close>

definition Arm :: "int \<Rightarrow> bool \<Rightarrow> bool \<Rightarrow> bool \<Rightarrow> manager \<Rightarrow> nat \<times> manager" where
  "Arm now has_rb has_reboot allow m =
     (let e = Suc (epoch m)
      in (e, m\<lparr>epoch := e, pending := True, m_phase := PArmed, rolledBack := False, dispatched := False,
               bad := False, badSince := 0, lastErr := [], armedAt := now,
               deadline := now + to_ms (KeepWindow (m_d m)),
               rollback := (if has_rb then Some e else None), reboot := has_reboot, allowReboot := allow\<rparr>))"

definition IsCurrent :: "nat \<Rightarrow> manager \<Rightarrow> bool" where
  "IsCurrent e m = (epoch m = e)"

definition claimRollback :: "nat \<Rightarrow> manager \<Rightarrow> bool \<times> manager" where
  "claimRollback e m =
     (if epoch m \<noteq> e \<or> dispatched m then (False, m) else (True, m\<lparr>dispatched := True\<rparr>))"

definition claimReboot :: "nat \<Rightarrow> manager \<Rightarrow> bool" where
  "claimReboot e m = (epoch m = e)"

definition markRollbackFailed :: "string option \<Rightarrow> manager \<Rightarrow> manager" where
  "markRollbackFailed err m =
     (let m1 = m\<lparr>m_phase := PRollbackFailed\<rparr>
      in case err of None \<Rightarrow> m1 | Some e \<Rightarrow> m1\<lparr>lastErr := e\<rparr>)"

definition tick :: "int \<Rightarrow> bool \<Rightarrow> manager \<Rightarrow> action \<times> manager" where
  "tick now good m0 =
     (if \<not> pending m0 then (ActNone, m0)
      else
        (let m = m0\<lparr>lastOk := good, lastAt := now\<rparr> in
         if good then
           (let m1 = m\<lparr>bad := False, badSince := 0\<rparr> in
            if rolledBack m1 then (ActDone, m1\<lparr>pending := False\<rparr>)
            else if now \<ge> deadline m1 then (ActDone, m1\<lparr>pending := False, m_phase := PLiveUnsaved\<rparr>)
            else (ActNone, m1\<lparr>m_phase := PArmed\<rparr>))
         else
           (let m1 = (if \<not> bad m then m\<lparr>bad := True, badSince := now\<rparr> else m);
                badFor = now - badSince m1 in
            if badFor \<ge> to_ms (RebootAfter (m_d m1)) then
              (ActReboot, m1\<lparr>pending := False, m_phase := PReboot\<rparr>)
            else if \<not> rolledBack m1 \<and> badFor \<ge> to_ms (RollbackAfter (m_d m1)) then
              (ActRollback, m1\<lparr>rolledBack := True, m_phase := PRolledBack\<rparr>)
            else if \<not> rolledBack m1 then (ActNone, m1\<lparr>m_phase := PDegraded\<rparr>)
            else (ActNone, m1))))"

definition Confirm :: "manager \<Rightarrow> manager" where
  "Confirm m = m\<lparr>pending := False, m_phase := PCommitted\<rparr>"

text \<open>The locked part of \<^verbatim>\<open>RollbackNow\<close>: the closure to call after the lock is released, if any.\<close>

definition RollbackNow :: "manager \<Rightarrow> nat option \<times> manager" where
  "RollbackNow m =
     (let m1 = (if dispatched m then m else m\<lparr>dispatched := True\<rparr>);
          m2 = m1\<lparr>pending := False, m_phase := PRolledBack, rolledBack := True\<rparr>
      in (if dispatched m then None else rollback m, m2))"

record status =
  s_pending :: bool
  s_phase :: phase
  s_seconds_left :: int
  s_last_ok :: bool
  s_last_at :: int
  s_last_error :: string

definition Status :: "int \<Rightarrow> manager \<Rightarrow> status" where
  "Status now m =
     (let left = (deadline m - now) div 1000 in
      \<lparr>s_pending = pending m, s_phase = m_phase m,
       s_seconds_left = (if pending m \<and> \<not> rolledBack m \<and> left > 0 then left else 0),
       s_last_ok = lastOk m, s_last_at = lastAt m, s_last_error = lastErr m\<rparr>)"

text \<open>\<^verbatim>\<open>routingBrainUp\<close> of \<^verbatim>\<open>internal/server/failsafe.go\<close>, and the connectivity check built on it.\<close>

definition routingBrainUp :: "bool \<Rightarrow> bool \<Rightarrow> bool" where
  "routingBrainUp available running = (\<not> available \<or> running)"

definition window_check :: "bool \<Rightarrow> bool \<Rightarrow> bool \<Rightarrow> bool \<Rightarrow> bool" where
  "window_check nativeOnly available running ping_ok =
     (if \<not> nativeOnly \<and> \<not> routingBrainUp available running then False else ping_ok)"

subsection \<open>What a tick leaves alone\<close>

lemma tick_frames [frame_simps, simp]:
  "m_d (snd (tick now good m)) = m_d m" "epoch (snd (tick now good m)) = epoch m"
  "dispatched (snd (tick now good m)) = dispatched m" "deadline (snd (tick now good m)) = deadline m"
  "rollback (snd (tick now good m)) = rollback m" "allowReboot (snd (tick now good m)) = allowReboot m"
  by (simp_all add: tick_def Let_def)

lemma tick_not_pending [simp]: "\<not> pending m \<Longrightarrow> tick now good m = (ActNone, m)"
  by (simp add: tick_def)

lemma tick_rolledBack_mono: "rolledBack m \<Longrightarrow> rolledBack (snd (tick now good m))"
  by (simp add: tick_def Let_def)

lemma tick_rollback:
  "fst (tick now good m) = ActRollback \<Longrightarrow> \<not> rolledBack m \<and> rolledBack (snd (tick now good m)) \<and> \<not> good \<and> pending m"
  by (auto simp: tick_def Let_def split: if_splits)

lemma tick_bad_state:
  "pending m \<Longrightarrow> \<not> good \<Longrightarrow> bad (snd (tick now good m)) \<and> badSince (snd (tick now good m)) = (if bad m then badSince m else now)"
  by (auto simp: tick_def Let_def)

lemma tick_good_state: "pending m \<Longrightarrow> good \<Longrightarrow> \<not> bad (snd (tick now good m))"
  by (auto simp: tick_def Let_def)

subsection \<open>Runs of checks\<close>

text \<open>A window sees a list of checks, each with its time and its verdict.\<close>

type_synonym check = "int \<times> bool"

fun ticks :: "check list \<Rightarrow> manager \<Rightarrow> action list \<times> manager" where
  "ticks [] m = ([], m)"
| "ticks ((now, good) # cs) m =
     (case tick now good m of (a, m1) \<Rightarrow> (case ticks cs m1 of (as, m2) \<Rightarrow> (a # as, m2)))"

lemma ticks_Cons:
  "ticks (c # cs) m = (fst (tick (fst c) (snd c) m) # fst (ticks cs (snd (tick (fst c) (snd c) m))),
     snd (ticks cs (snd (tick (fst c) (snd c) m))))"
  by (cases c) (simp split: prod.splits)

declare ticks.simps(2) [simp del]
declare ticks_Cons [simp]

lemma ticks_append:
  "ticks (xs @ ys) m = (fst (ticks xs m) @ fst (ticks ys (snd (ticks xs m))), snd (ticks ys (snd (ticks xs m))))"
  by (induction xs arbitrary: m) simp_all

lemma ticks_not_pending:
  "\<not> pending m \<Longrightarrow> ticks cs m = (map (\<lambda>_. ActNone) cs, m)"
  by (induction cs) simp_all

lemma ticks_frames [simp]:
  "m_d (snd (ticks cs m)) = m_d m" "epoch (snd (ticks cs m)) = epoch m" "deadline (snd (ticks cs m)) = deadline m"
  by (induction cs arbitrary: m) simp_all

lemma ticks_rolledBack_none:
  "rolledBack m \<Longrightarrow> ActRollback \<notin> set (fst (ticks cs m))"
proof (induction cs arbitrary: m)
  case (Cons c cs)
  have "fst (tick (fst c) (snd c) m) \<noteq> ActRollback" using Cons.prems tick_rollback by blast
  with Cons show ?case by (simp add: tick_rolledBack_mono)
qed simp

text \<open>A rollback is asked for at most once between two applies, whatever the checks say.\<close>

lemma ticks_one_rollback: "length (filter (\<lambda>a. a = ActRollback) (fst (ticks cs m))) \<le> 1"
proof (induction cs arbitrary: m)
  case (Cons c cs)
  let ?m = "snd (tick (fst c) (snd c) m)"
  show ?case
  proof (cases "fst (tick (fst c) (snd c) m) = ActRollback")
    case True
    then have "rolledBack ?m" by (simp add: tick_rollback)
    then have "filter (\<lambda>a. a = ActRollback) (fst (ticks cs ?m)) = []"
      using ticks_rolledBack_none by (auto simp: filter_empty_conv)
    with True show ?thesis by simp
  qed (use Cons in simp)
qed simp

text \<open>While connectivity is good, nothing is undone, and the window ends at its deadline.\<close>

lemma ticks_good:
  assumes "\<forall>c \<in> set cs. snd c \<and> fst c < deadline m" and "\<not> rolledBack m" and "pending m"
  shows "set (fst (ticks cs m)) \<subseteq> {ActNone} \<and> pending (snd (ticks cs m)) \<and> \<not> rolledBack (snd (ticks cs m))"
  using assms
proof (induction cs arbitrary: m)
  case (Cons c cs)
  let ?m = "snd (tick (fst c) (snd c) m)"
  have m: "fst (tick (fst c) (snd c) m) = ActNone" "pending ?m" "\<not> rolledBack ?m" "deadline ?m = deadline m"
    using Cons.prems by (auto simp: tick_def Let_def)
  with Cons.IH [of ?m] Cons.prems show ?case by simp
qed simp

text \<open>While connectivity is bad and neither limit is reached, the window waits in the degraded phase
  and remembers when the outage began.\<close>

lemma ticks_bad:
  assumes "\<forall>c \<in> set cs. \<not> snd c \<and> fst c - badSince m < to_ms (RollbackAfter (m_d m))"
    and "to_ms (RollbackAfter (m_d m)) \<le> to_ms (RebootAfter (m_d m))"
    and "bad m" and "pending m" and "\<not> rolledBack m"
  shows "set (fst (ticks cs m)) \<subseteq> {ActNone} \<and> bad (snd (ticks cs m)) \<and> badSince (snd (ticks cs m)) = badSince m \<and>
     pending (snd (ticks cs m)) \<and> \<not> rolledBack (snd (ticks cs m))"
  using assms
proof (induction cs arbitrary: m)
  case (Cons c cs)
  let ?m = "snd (tick (fst c) (snd c) m)"
  have m: "fst (tick (fst c) (snd c) m) = ActNone" "pending ?m" "\<not> rolledBack ?m" "bad ?m" "badSince ?m = badSince m"
    using Cons.prems by (auto simp: tick_def Let_def)
  with Cons.IH [of ?m] Cons.prems show ?case by simp
qed simp

lemma Arm_state:
  assumes "m = snd (Arm now hr hb al m0)"
  shows "pending m" "\<not> rolledBack m" "\<not> bad m" "\<not> dispatched m" "m_d m = m_d m0"
    "epoch m = Suc (epoch m0)" "deadline m = now + to_ms (KeepWindow (m_d m0))"
  using assms by (simp_all add: Arm_def Let_def)

lemma tick_bad_first:
  "pending m \<Longrightarrow> \<not> bad m \<Longrightarrow> 0 < to_ms (RollbackAfter (m_d m)) \<Longrightarrow> 0 < to_ms (RebootAfter (m_d m)) \<Longrightarrow>
   fst (tick t False m) = ActNone \<and> pending (snd (tick t False m)) \<and> rolledBack (snd (tick t False m)) = rolledBack m"
  by (simp add: tick_def Let_def)

lemma replicate_of_subset: "set xs \<subseteq> {a} \<Longrightarrow> xs = replicate (length xs) a"
  by (induction xs) auto

lemma length_ticks [simp]: "length (fst (ticks cs m)) = length cs"
  by (induction cs arbitrary: m) simp_all

lemma ticks_good_not_bad: "\<forall>c \<in> set cs. snd c \<Longrightarrow> pending (snd (ticks cs m)) \<Longrightarrow> \<not> bad m \<Longrightarrow> \<not> bad (snd (ticks cs m))"
proof (induction cs arbitrary: m)
  case (Cons c cs)
  have "\<not> bad (snd (tick (fst c) (snd c) m))"
    using Cons.prems tick_good_state [of m "snd c" "fst c"] by (cases "pending m") auto
  with Cons show ?case by simp
qed simp

subsection \<open>Properties of one window\<close>

text \<open>C27. A sustained outage is rolled back: after an Apply, however long connectivity stayed good, if
  it is then lost and every check stays bad, no action is taken before the rollback threshold and the
  first check that has been bad for that long, and not yet for the reboot threshold, asks for the
  rollback.\<close>

theorem outage_rolls_back:
  assumes "m = snd (Arm now True hb al m0)"
    and "\<forall>c \<in> set healthy. snd c \<and> fst c < deadline m"
    and "\<forall>c \<in> set outage. \<not> snd c \<and> fst c - t0 < to_ms (RollbackAfter (m_d m0))"
    and "0 < to_ms (RollbackAfter (m_d m0))"
    and "to_ms (RollbackAfter (m_d m0)) \<le> t1 - t0" and "t1 - t0 < to_ms (RebootAfter (m_d m0))"
  shows "fst (ticks (healthy @ (t0, False) # outage @ [(t1, False)]) m) =
      replicate (length healthy + 1 + length outage) ActNone @ [ActRollback]"
proof -
  note arm = Arm_state [OF assms(1)]
  let ?h = "snd (ticks healthy m)" let ?b = "snd (tick t0 False ?h)" let ?o = "snd (ticks outage ?b)"
  have h: "set (fst (ticks healthy m)) \<subseteq> {ActNone}" "pending ?h" "\<not> rolledBack ?h"
    using ticks_good [OF assms(2) arm(2) arm(1)] by auto
  then have nb: "\<not> bad ?h" using ticks_good_not_bad [of healthy m] assms(2) arm(3) by auto
  have b: "fst (tick t0 False ?h) = ActNone" "pending ?b" "\<not> rolledBack ?b" "bad ?b" "badSince ?b = t0"
    using tick_bad_first [of ?h t0] tick_bad_state [of ?h False t0] h nb assms(4-6) arm(5) by auto
  have o: "set (fst (ticks outage ?b)) \<subseteq> {ActNone}" "bad ?o" "badSince ?o = t0" "pending ?o" "\<not> rolledBack ?o"
    using ticks_bad [of outage ?b] b assms(3-6) arm(5) by auto
  have "fst (tick t1 False ?o) = ActRollback"
    using o assms(5,6) arm(5) by (simp add: tick_def Let_def)
  moreover have "fst (ticks healthy m) = replicate (length healthy) ActNone"
    using replicate_of_subset [OF h(1)] by simp
  moreover have "fst (ticks outage ?b) = replicate (length outage) ActNone"
    using replicate_of_subset [OF o(1)] by simp
  ultimately show ?thesis using b(1) by (simp add: ticks_append replicate_add replicate_append_same)
qed

text \<open>A healthy window is left alone: if every check is good, nothing is rolled back or rebooted; the
  first check at or after the deadline ends the window with the configuration live but unsaved, and
  no later check does anything.\<close>

theorem healthy_window_stays_live:
  assumes "m = snd (Arm now hr hb al m0)"
    and "\<forall>c \<in> set healthy. snd c \<and> fst c < deadline m" and "deadline m \<le> t"
  shows "fst (ticks (healthy @ (t, True) # later) m) =
      replicate (length healthy) ActNone @ ActDone # replicate (length later) ActNone \<and>
    m_phase (snd (ticks (healthy @ (t, True) # later) m)) = PLiveUnsaved"
proof -
  note arm = Arm_state [OF assms(1)]
  let ?h = "snd (ticks healthy m)"
  have h: "set (fst (ticks healthy m)) \<subseteq> {ActNone}" "pending ?h" "\<not> rolledBack ?h"
    using ticks_good [OF assms(2) arm(2) arm(1)] by auto
  have t: "fst (tick t True ?h) = ActDone" "\<not> pending (snd (tick t True ?h))"
    "m_phase (snd (tick t True ?h)) = PLiveUnsaved"
    using h assms(3) by (simp_all add: tick_def Let_def)
  have "fst (ticks healthy m) = replicate (length healthy) ActNone"
    using replicate_of_subset [OF h(1)] by simp
  then show ?thesis using t ticks_not_pending [OF t(2), of later] by (simp add: ticks_append map_replicate_const)
qed

text \<open>The manager's record of an outage is backed by the checks themselves.\<close>

definition outage_since :: "int \<Rightarrow> check list \<Rightarrow> bool" where
  "outage_since t cs = (\<exists>pre mid. cs = pre @ (t, False) # mid \<and> (\<forall>c \<in> set mid. \<not> snd c))"

lemma outage_since_snoc: "outage_since t cs \<Longrightarrow> outage_since t (cs @ [(t', False)])"
  by (force simp: outage_since_def)

lemma outage_since_last: "outage_since t (cs @ [(t, False)])"
  by (force simp: outage_since_def)

lemma bad_is_outage:
  assumes "\<not> bad m" and "pending (snd (ticks cs m))" and "bad (snd (ticks cs m))"
  shows "outage_since (badSince (snd (ticks cs m))) cs"
  using assms(2,3)
proof (induction cs rule: rev_induct)
  case (snoc c cs)
  let ?m = "snd (ticks cs m)"
  obtain t g where c: "c = (t, g)" by fastforce
  have p: "pending ?m" using snoc.prems(1) c by (cases "pending ?m") (simp_all add: ticks_append)
  have g: "\<not> g" using snoc.prems(2) p tick_good_state [of ?m True t] c by (cases g) (auto simp: ticks_append)
  have "badSince (snd (tick t False ?m)) = (if bad ?m then badSince ?m else t)"
    using tick_bad_state [OF p, of False t] by simp
  with snoc.IH [OF p] c g show ?case
    by (auto simp: ticks_append outage_since_snoc outage_since_last)
qed (use assms(1) in simp)

lemma tick_action_outage:
  assumes "\<not> bad m" and "m' = snd (ticks cs m)" and "fst (tick now good m') = a" and "a = ActRollback \<or> a = ActReboot"
    and "lim = (if a = ActReboot then to_ms (RebootAfter (m_d m)) else to_ms (RollbackAfter (m_d m)))"
  shows "\<exists>t. outage_since t (cs @ [(now, good)]) \<and> lim \<le> now - t"
proof -
  have p: "pending m'" and g: "\<not> good" using assms(3,4) by (auto simp: tick_def Let_def split: if_splits)
  let ?t = "if bad m' then badSince m' else now"
  have "outage_since ?t (cs @ [(now, False)])"
    using bad_is_outage [OF assms(1), of cs] p assms(2) by (auto intro: outage_since_snoc outage_since_last)
  moreover have "lim \<le> now - ?t"
    using assms(2-5) p g by (auto simp: tick_def Let_def split: if_splits)
  ultimately show ?thesis using g by (intro exI [of _ ?t]) simp
qed

text \<open>C40. A freshly armed window acts only on a sustained outage: if a check asks for a rollback or a reboot, then
  that check and all checks back to some earlier one are bad, and they span at least the rollback or
  the reboot threshold. One good check in between starts the count anew.\<close>

theorem acts_only_on_sustained_outage:
  assumes "m = snd (Arm now0 hr hb al m0)" and "fst (tick now good (snd (ticks cs m))) = a"
    and "a = ActRollback \<or> a = ActReboot"
  shows "\<exists>t. outage_since t (cs @ [(now, good)]) \<and>
    (if a = ActReboot then to_ms (RebootAfter (m_d m0)) else to_ms (RollbackAfter (m_d m0))) \<le> now - t"
  using tick_action_outage [OF Arm_state(3) [OF assms(1)] refl assms(2,3) refl]
  by (simp only: Arm_state(5) [OF assms(1)])

text \<open>Consecutive checks at most \<^verbatim>\<open>g\<close> milliseconds apart.\<close>

fun gaps_ok :: "int \<Rightarrow> int \<Rightarrow> check list \<Rightarrow> bool" where
  "gaps_ok g t [] = True"
| "gaps_ok g t ((now, _) # cs) = (now - t \<le> g \<and> gaps_ok g now cs)"

lemma reboot_after_rollback_aux:
  assumes "gaps_ok g t cs" and "g \<le> to_ms (RebootAfter (m_d m)) - to_ms (RollbackAfter (m_d m))"
    and "0 < to_ms (RollbackAfter (m_d m))" and "g \<ge> 0"
    and "bad m \<longrightarrow> t - badSince m < to_ms (RollbackAfter (m_d m))" and "\<not> rolledBack m"
    and "ticks cs m = (xs @ ActReboot # ys, m')"
  shows "ActRollback \<in> set xs"
  using assms
proof (induction cs arbitrary: t m xs)
  case (Cons c cs)
  obtain now good where c: "c = (now, good)" by fastforce
  let ?a = "fst (tick now good m)" let ?m = "snd (tick now good m)"
  have xs: "?a # fst (ticks cs ?m) = xs @ ActReboot # ys" and m': "snd (ticks cs ?m) = m'"
    using Cons.prems(7) c by auto
  have gap: "now - t \<le> g" "gaps_ok g now cs" using Cons.prems(1) c by auto
  have pend: "pending m"
  proof (rule ccontr)
    assume "\<not> pending m"
    then have "map (\<lambda>_. ActNone) (c # cs) = xs @ ActReboot # ys"
      using Cons.prems(7) ticks_not_pending [of m "c # cs"] by (simp del: ticks_Cons list.map)
    then have "ActReboot \<in> set (map (\<lambda>_. ActNone) (c # cs))" by (metis in_set_conv_decomp)
    then show False by auto
  qed
  show ?case
  proof (cases "?a = ActRollback")
    case True
    then show ?thesis using xs by (cases xs) auto
  next
    case False
    have inv: "bad ?m \<longrightarrow> now - badSince ?m < to_ms (RollbackAfter (m_d m))" "\<not> rolledBack ?m" "?a \<noteq> ActReboot"
      using False gap(1) Cons.prems(2-6) pend by (auto simp: tick_def Let_def split: if_splits)
    obtain xs' where xs': "xs = ?a # xs'" "fst (ticks cs ?m) = xs' @ ActReboot # ys"
      using xs inv(3) by (cases xs) auto
    have "ActRollback \<in> set xs'"
      using gap(2) Cons.prems(2-4) inv xs'(2) m' by (intro Cons.IH [of now ?m xs']) (auto simp: prod_eq_iff)
    with xs'(1) show ?thesis by simp
  qed
qed simp

text \<open>The reboot is the last resort: as long as two consecutive checks are never further apart than
  the reboot threshold exceeds the rollback threshold, every reboot request has been preceded by a
  rollback request in the same window.\<close>

theorem reboot_only_after_rollback:
  assumes "m = snd (Arm now hr hb al m0)" and "gaps_ok g t cs" and "0 \<le> g"
    and "g \<le> to_ms (RebootAfter (m_d m0)) - to_ms (RollbackAfter (m_d m0))" and "0 < to_ms (RollbackAfter (m_d m0))"
    and "ticks cs m = (xs @ ActReboot # ys, m')"
  shows "ActRollback \<in> set xs"
  using assms Arm_state [OF assms(1)] by (intro reboot_after_rollback_aux [OF assms(2), of m xs ys m']) auto

text \<open>Without that bound the order is not guaranteed: the loop reads the wall clock, and with the
  default thresholds two bad checks five minutes apart (a suspended process, a clock step) ask for a
  reboot although no rollback was ever tried.\<close>

theorem reboot_without_rollback:
  "\<exists>cs. fst (ticks cs (snd (Arm 0 True True True (New DefaultDurations)))) = [ActNone, ActReboot]"
proof -
  have "fst (ticks [(20000, False), (320000, False)] (snd (Arm 0 True True True (New DefaultDurations)))) = [ActNone, ActReboot]"
    by code_simp
  then show ?thesis by blast
qed

subsection \<open>Witnesses\<close>

text \<open>The default thresholds, with checks every fifteen seconds.\<close>

definition example_window :: manager where
  "example_window = snd (Arm 0 True True True (New DefaultDurations))"

lemma example_window_simps [simp]:
  "m_d (New d) = d" "deadline example_window = 180000"
  "to_ms (RollbackAfter DefaultDurations) = 45000" "to_ms (RebootAfter DefaultDurations) = 300000"
  by (simp_all add: example_window_def New_def Arm_def DefaultDurations_def to_ms_def Let_def)

theorem outage_rolls_back_witness:
  "fst (ticks ([(20000, True)] @ (35000, False) # [(50000, False), (65000, False)] @ [(80000, False)]) example_window) =
     replicate (length [(20000::int, True)] + 1 + length [(50000::int, False), (65000, False)]) ActNone @ [ActRollback]"
  using outage_rolls_back [OF example_window_def, of "[(20000, True)]" "[(50000, False), (65000, False)]" 35000 80000]
  by simp

theorem healthy_window_stays_live_witness:
  "fst (ticks ([(20000, True), (35000, True)] @ (180000, True) # [(195000, False)]) example_window) =
     replicate (length [(20000::int, True), (35000, True)]) ActNone @ ActDone # replicate (length [(195000::int, False)]) ActNone"
  using healthy_window_stays_live [OF example_window_def, of "[(20000, True), (35000, True)]" 180000 "[(195000, False)]"]
  by simp

theorem acts_only_on_sustained_outage_witness:
  "fst (tick 80000 False (snd (ticks [(20000, True), (35000, False)] example_window))) = ActRollback \<and>
   (\<exists>t. outage_since t ([(20000, True), (35000, False)] @ [(80000, False)]) \<and> 45000 \<le> 80000 - t)"
proof -
  have a: "fst (tick 80000 False (snd (ticks [(20000, True), (35000, False)] example_window))) = ActRollback"
    by code_simp
  from a acts_only_on_sustained_outage [OF example_window_def a] show ?thesis by simp
qed

theorem reboot_only_after_rollback_witness:
  "ActRollback \<in> set [ActNone, ActRollback] \<and>
   fst (ticks [(20000, False), (65000, False), (320000, False)] example_window) = [ActNone, ActRollback] @ ActReboot # []"
proof -
  let ?cs = "[(20000, False), (65000, False), (320000, False)]"
  have a: "fst (ticks ?cs example_window) = [ActNone, ActRollback] @ ActReboot # []" by code_simp
  then have "ticks ?cs example_window = ([ActNone, ActRollback] @ ActReboot # [], snd (ticks ?cs example_window))"
    by (metis prod.collapse)
  from a reboot_only_after_rollback [OF example_window_def _ _ _ _ this, of 255000 20000] show ?thesis by simp
qed

end
