(* ===== verification/Failsafe_Run.thy ===== *)
theory Failsafe_Run
  imports Failsafe
begin

text \<open>
  The fail-safe under concurrency: the \<^verbatim>\<open>run\<close> goroutine of every window ever armed
  (\<^verbatim>\<open>internal/failsafe/failsafe.go\<close>), any number of manual rollback requests, the Apply handler, and
  the rollback and reboot closures of \<^verbatim>\<open>internal/server/failsafe.go\<close>, which serialise on the server's
  apply mutex. Every critical section of the manager's mutex is one step, so the step relation has all
  interleavings of the code. Times, check verdicts and restore errors are arbitrary.
\<close>

subsection \<open>Threads\<close>

datatype tid = Run nat | Manual nat

datatype pc =
    NotStarted | InGrace
  | LoopTop        \<comment> \<open>about to test the context\<close>
  | LoopPending    \<comment> \<open>about to read \<^verbatim>\<open>pending\<close>\<close>
  | InCheck        \<comment> \<open>inside \<^verbatim>\<open>check()\<close>, then \<^verbatim>\<open>tick\<close>\<close>
  | Acting action
  | WaitLock nat   \<comment> \<open>inside the rollback closure of this window, before \<^verbatim>\<open>applyMu.Lock\<close>\<close>
  | Holding nat    \<comment> \<open>holding the apply mutex, before \<^verbatim>\<open>IsCurrent\<close>\<close>
  | Restoring nat
  | Returned "string option"
  | RebootCall nat \<comment> \<open>inside the reboot closure of this window, before \<^verbatim>\<open>IsCurrent\<close>\<close>
  | Rebooting nat
  | Waiting | Exited

datatype owner = Applying | Th tid

datatype event = EvArm nat | EvRestore nat | EvReboot nat

record sys =
  mgr :: manager
  pc :: "tid \<Rightarrow> pc"
  cancelled :: "nat set"
  applyMu :: "owner option"
  log :: "event list"   \<comment> \<open>newest first\<close>

definition init_sys :: "durations \<Rightarrow> sys" where
  "init_sys d = \<lparr>mgr = New d, pc = \<lambda>_. NotStarted, cancelled = {}, applyMu = None, log = []\<rparr>"

definition goto :: "tid \<Rightarrow> pc \<Rightarrow> sys \<Rightarrow> sys" where
  "goto t l s = s\<lparr>pc := (pc s)(t := l)\<rparr>"

text \<open>\<^verbatim>\<open>m.cancel\<close> is the cancel function of the last armed window, if there is one.\<close>

definition cancel_current :: "sys \<Rightarrow> sys" where
  "cancel_current s = s\<lparr>cancelled := (if epoch (mgr s) = 0 then cancelled s else insert (epoch (mgr s)) (cancelled s))\<rparr>"

text \<open>Where a thread continues when its rollback closure has returned.\<close>

fun after_rollback :: "tid \<Rightarrow> pc" where
  "after_rollback (Run _) = Waiting"
| "after_rollback (Manual _) = Exited"

subsection \<open>Steps\<close>

inductive step :: "sys \<Rightarrow> sys \<Rightarrow> bool" where
  apply_lock: "applyMu s = None \<Longrightarrow> step s (s\<lparr>applyMu := Some Applying\<rparr>)"
| apply_arm: "applyMu s = Some Applying \<Longrightarrow> Arm now True True allow (mgr s) = (e, m) \<Longrightarrow>
    step s (goto (Run e) InGrace ((cancel_current s)\<lparr>mgr := m, log := EvArm e # log s\<rparr>))"
| apply_unlock: "applyMu s = Some Applying \<Longrightarrow> step s (s\<lparr>applyMu := None\<rparr>)"
| confirm: "step s ((cancel_current s)\<lparr>mgr := Confirm (mgr s)\<rparr>)"
| grace_over: "pc s (Run e) = InGrace \<Longrightarrow> step s (goto (Run e) LoopTop s)"
| cancel_exit: "pc s (Run e) \<in> {InGrace, LoopTop, Waiting} \<Longrightarrow> e \<in> cancelled s \<Longrightarrow> step s (goto (Run e) Exited s)"
| loop_top: "pc s (Run e) = LoopTop \<Longrightarrow> e \<notin> cancelled s \<Longrightarrow> step s (goto (Run e) LoopPending s)"
| loop_pending: "pc s (Run e) = LoopPending \<Longrightarrow>
    step s (goto (Run e) (if pending (mgr s) then InCheck else Exited) s)"
| do_tick: "pc s (Run e) = InCheck \<Longrightarrow> tick now good (mgr s) = (a, m) \<Longrightarrow>
    step s (goto (Run e) (Acting a) (s\<lparr>mgr := m\<rparr>))"
| act_none: "pc s (Run e) = Acting ActNone \<Longrightarrow> step s (goto (Run e) Waiting s)"
| act_done: "pc s (Run e) = Acting ActDone \<Longrightarrow> step s (goto (Run e) Exited s)"
| act_rollback: "pc s (Run e) = Acting ActRollback \<Longrightarrow> claimRollback e (mgr s) = (won, m) \<Longrightarrow>
    step s (goto (Run e) (if won then WaitLock e else Waiting) (s\<lparr>mgr := m\<rparr>))"
| act_reboot: "pc s (Run e) = Acting ActReboot \<Longrightarrow>
    step s (goto (Run e) (if allow \<and> claimReboot e (mgr s) then RebootCall e else Exited) s)"
| waiting: "pc s (Run e) = Waiting \<Longrightarrow> step s (goto (Run e) LoopTop s)"
| manual: "pc s (Manual n) = NotStarted \<Longrightarrow> RollbackNow (mgr s) = (rb, m) \<Longrightarrow>
    step s (goto (Manual n) (case rb of None \<Rightarrow> Exited | Some e \<Rightarrow> WaitLock e) ((cancel_current s)\<lparr>mgr := m\<rparr>))"
| rb_lock: "pc s t = WaitLock e \<Longrightarrow> applyMu s = None \<Longrightarrow> step s (goto t (Holding e) (s\<lparr>applyMu := Some (Th t)\<rparr>))"
| rb_stale: "pc s t = Holding e \<Longrightarrow> \<not> IsCurrent e (mgr s) \<Longrightarrow>
    step s (goto t (Returned None) (s\<lparr>applyMu := None\<rparr>))"
| rb_current: "pc s t = Holding e \<Longrightarrow> IsCurrent e (mgr s) \<Longrightarrow> step s (goto t (Restoring e) s)"
| rb_restore: "pc s t = Restoring e \<Longrightarrow>
    step s (goto t (Returned err) (s\<lparr>applyMu := None, log := EvRestore e # log s\<rparr>))"
| rb_return: "pc s t = Returned err \<Longrightarrow>
    step s (goto t (after_rollback t)
      (case err of None \<Rightarrow> s | Some _ \<Rightarrow> s\<lparr>mgr := markRollbackFailed err (mgr s)\<rparr>))"
| reboot_check: "pc s (Run e) = RebootCall e \<Longrightarrow>
    step s (goto (Run e) (if IsCurrent e (mgr s) then Rebooting e else Exited) s)"
| reboot_now: "pc s (Run e) = Rebooting e \<Longrightarrow> step s (goto (Run e) Exited (s\<lparr>log := EvReboot e # log s\<rparr>))"

inductive reachable :: "durations \<Rightarrow> sys \<Rightarrow> bool" for d where
  start: "reachable d (init_sys d)"
| next_step: "reachable d s \<Longrightarrow> step s s' \<Longrightarrow> reachable d s'"

inductive_cases stepE: "step s s'"

subsection \<open>The invariant\<close>

fun last_armed :: "event list \<Rightarrow> nat" where
  "last_armed [] = 0"
| "last_armed (EvArm e # _) = e"
| "last_armed (_ # es) = last_armed es"

text \<open>Every restore in the log is of the window that was the last one armed, and the first of it.\<close>

fun restores_ok :: "event list \<Rightarrow> bool" where
  "restores_ok [] = True"
| "restores_ok (EvRestore e # es) = (last_armed es = e \<and> EvRestore e \<notin> set es \<and> restores_ok es)"
| "restores_ok (_ # es) = restores_ok es"

text \<open>A thread that holds the right to roll a window back.\<close>

fun flying :: "pc \<Rightarrow> nat option" where
  "flying (WaitLock e) = Some e"
| "flying (Holding e) = Some e"
| "flying (Restoring e) = Some e"
| "flying _ = None"

fun in_closure :: "pc \<Rightarrow> bool" where
  "in_closure (Holding _) = True"
| "in_closure (Restoring _) = True"
| "in_closure _ = False"

definition claimed :: "nat \<Rightarrow> manager \<Rightarrow> bool" where
  "claimed e m = (e < epoch m \<or> e = epoch m \<and> dispatched m)"

definition safe :: "sys \<Rightarrow> bool" where
  "safe s =
     (epoch (mgr s) = last_armed (log s) \<and>
      (\<forall>t. in_closure (pc s t) \<longleftrightarrow> applyMu s = Some (Th t)) \<and>
      (\<forall>t e. pc s t = Restoring e \<longrightarrow> e = epoch (mgr s)) \<and>
      (\<forall>t e. flying (pc s t) = Some e \<longrightarrow> EvRestore e \<notin> set (log s) \<and> claimed e (mgr s)) \<and>
      (\<forall>t t' e. flying (pc s t) = Some e \<longrightarrow> flying (pc s t') = Some e \<longrightarrow> t = t') \<and>
      (\<forall>e. EvRestore e \<in> set (log s) \<longrightarrow> claimed e (mgr s)) \<and>
      (\<forall>e. rollback (mgr s) = Some e \<longrightarrow> e = epoch (mgr s)) \<and>
      restores_ok (log s))"

lemma safeI:
  assumes "epoch (mgr s) = last_armed (log s)"
    and "\<And>t. in_closure (pc s t) \<longleftrightarrow> applyMu s = Some (Th t)"
    and "\<And>t e. pc s t = Restoring e \<Longrightarrow> e = epoch (mgr s)"
    and "\<And>t e. flying (pc s t) = Some e \<Longrightarrow> EvRestore e \<notin> set (log s) \<and> claimed e (mgr s)"
    and "\<And>t t' e. flying (pc s t) = Some e \<Longrightarrow> flying (pc s t') = Some e \<Longrightarrow> t = t'"
    and "\<And>e. EvRestore e \<in> set (log s) \<Longrightarrow> claimed e (mgr s)"
    and "\<And>e. rollback (mgr s) = Some e \<Longrightarrow> e = epoch (mgr s)"
    and "restores_ok (log s)"
  shows "safe s"
  using assms unfolding safe_def by blast

lemma safeD:
  assumes "safe s"
  shows "epoch (mgr s) = last_armed (log s)"
    and "in_closure (pc s t) \<longleftrightarrow> applyMu s = Some (Th t)"
    and "pc s t = Restoring e \<Longrightarrow> e = epoch (mgr s)"
    and "flying (pc s t) = Some e \<Longrightarrow> EvRestore e \<notin> set (log s) \<and> claimed e (mgr s)"
    and "flying (pc s t) = Some e \<Longrightarrow> flying (pc s t') = Some e \<Longrightarrow> t = t'"
    and "EvRestore e \<in> set (log s) \<Longrightarrow> claimed e (mgr s)"
    and "rollback (mgr s) = Some e \<Longrightarrow> e = epoch (mgr s)"
    and "restores_ok (log s)"
  using assms unfolding safe_def by blast+

lemma safe_init: "safe (init_sys d)"
  by (simp add: safe_def init_sys_def New_def)

lemma goto_simps [simp]:
  "mgr (goto t l s) = mgr s" "cancelled (goto t l s) = cancelled s" "applyMu (goto t l s) = applyMu s"
  "log (goto t l s) = log s" "pc (goto t l s) = (pc s)(t := l)"
  by (simp_all add: goto_def)

lemma cancel_current_simps [simp]:
  "mgr (cancel_current s) = mgr s" "pc (cancel_current s) = pc s" "applyMu (cancel_current s) = applyMu s"
  "log (cancel_current s) = log s"
  by (simp_all add: cancel_current_def)

text \<open>Steps that keep what the invariant reads: the windows of the log, and the manager except that
  the rollback may become claimed. They move at most one thread, outside the rollback closure.\<close>

definition same_view :: "sys \<Rightarrow> sys \<Rightarrow> bool" where
  "same_view s s' =
     (epoch (mgr s') = epoch (mgr s) \<and> rollback (mgr s') = rollback (mgr s) \<and>
      (dispatched (mgr s) \<longrightarrow> dispatched (mgr s')) \<and>
      (\<forall>t. applyMu s' = Some (Th t) \<longleftrightarrow> applyMu s = Some (Th t)) \<and>
      (log s' = log s \<or> (\<exists>e. log s' = EvReboot e # log s)))"

lemma same_viewD:
  assumes "same_view s s'"
  shows "epoch (mgr s') = epoch (mgr s)" "rollback (mgr s') = rollback (mgr s)"
    "claimed e (mgr s) \<Longrightarrow> claimed e (mgr s')" "applyMu s' = Some (Th t) \<longleftrightarrow> applyMu s = Some (Th t)"
    "last_armed (log s') = last_armed (log s)" "EvRestore e \<in> set (log s') \<longleftrightarrow> EvRestore e \<in> set (log s)"
    "restores_ok (log s') = restores_ok (log s)"
  using assms by (auto simp: same_view_def claimed_def)

lemma safe_same_view:
  assumes "safe s" and v: "same_view s s'" and "pc s' = pc s"
  shows "safe s'"
  using safeD [OF assms(1)] same_viewD [OF v] assms(3) by (intro safeI) auto

lemma safe_quiet:
  assumes "safe s" and v: "same_view s s'"
    and "pc s' = (pc s)(t := l)" and "flying l = None" and "\<not> in_closure l" and "\<not> in_closure (pc s t)"
  shows "safe s'"
proof -
  have l: "l \<noteq> Restoring e" for e using assms(4) by auto
  note d = safeD [OF assms(1)]
  show ?thesis
  proof (rule safeI, goal_cases)
    case (2 t') then show ?case using d(2) [of t'] d(2) [of t] same_viewD [OF v] assms by auto
  qed (use d(1,3-8) same_viewD [OF v] l assms in \<open>auto split: if_splits\<close>)
qed

text \<open>Claiming the rollback of the current window.\<close>

lemma unclaimed:
  assumes "safe s" and "\<not> dispatched (mgr s)"
  shows "EvRestore (epoch (mgr s)) \<notin> set (log s)" "flying (pc s t) \<noteq> Some (epoch (mgr s))"
  using safeD(4,6) [OF assms(1)] assms(2) by (auto simp: claimed_def)

lemma safe_claim:
  assumes "safe s" and "\<not> dispatched (mgr s)" and "dispatched (mgr s')" and v: "same_view s s'"
    and "log s' = log s" and "pc s' = (pc s)(t := WaitLock (epoch (mgr s)))" and "\<not> in_closure (pc s t)"
  shows "safe s'"
proof -
  note d = safeD [OF assms(1)] and u = unclaimed [OF assms(1,2)] and w = same_viewD [OF v]
  have c: "claimed (epoch (mgr s)) (mgr s')" using assms(3) w(1) by (simp add: claimed_def)
  show ?thesis
  proof (rule safeI, goal_cases)
    case (2 t') then show ?case using d(2) [of t'] d(2) [of t] w assms by auto
  next
    case (4 t' e) then show ?case using d(4) u(1) c w assms(6) by (auto split: if_splits)
  next
    case (5 t1 t2 e) then show ?case using d(5) u(2) assms(6) by (auto split: if_splits)
  qed (use d(1,3,6-8) w assms(6) in \<open>auto split: if_splits\<close>)
qed

text \<open>The four steps of the rollback closure.\<close>

lemma safe_rb_lock:
  assumes "safe s" and "pc s t = WaitLock e" and "applyMu s = None"
  shows "safe (goto t (Holding e) (s\<lparr>applyMu := Some (Th t)\<rparr>))"
proof -
  note d = safeD [OF assms(1)]
  have f: "flying (pc s t) = Some e" using assms(2) by simp
  show ?thesis
  proof (rule safeI, goal_cases)
    case (2 t') then show ?case using d(2) [of t'] assms(3) by auto
  next
    case (4 t' e') then show ?case using d(4) [OF f] d(4) [of t' e'] by (auto split: if_splits)
  next
    case (5 t1 t2 e') then show ?case using d(5) [OF f] d(5) by (auto split: if_splits)
  qed (use d(1,3,6-8) in \<open>auto split: if_splits\<close>)
qed

lemma safe_rb_stale:
  assumes "safe s" and "pc s t = Holding e"
  shows "safe (goto t (Returned None) (s\<lparr>applyMu := None\<rparr>))"
proof -
  note d = safeD [OF assms(1)]
  have o: "applyMu s = Some (Th t)" using d(2) [of t] assms(2) by simp
  show ?thesis
  proof (rule safeI, goal_cases)
    case (2 t') then show ?case using d(2) [of t'] o by auto
  qed (use d(1,3-8) in \<open>auto split: if_splits\<close>)
qed

lemma safe_rb_current:
  assumes "safe s" and "pc s t = Holding e" and "IsCurrent e (mgr s)"
  shows "safe (goto t (Restoring e) s)"
proof -
  note d = safeD [OF assms(1)]
  have f: "flying (pc s t) = Some e" using assms(2) by simp
  show ?thesis
  proof (rule safeI, goal_cases)
    case (2 t') then show ?case using d(2) [of t'] assms(2) by auto
  next
    case (4 t' e') then show ?case using d(4) [OF f] d(4) [of t' e'] by (auto split: if_splits)
  next
    case (5 t1 t2 e') then show ?case using d(5) [OF f] d(5) by (auto split: if_splits)
  qed (use d(1,3,6-8) assms(3) in \<open>auto simp: IsCurrent_def split: if_splits\<close>)
qed

lemma safe_rb_restore:
  assumes "safe s" and "pc s t = Restoring e"
  shows "safe (goto t (Returned err) (s\<lparr>applyMu := None, log := EvRestore e # log s\<rparr>))"
proof -
  note d = safeD [OF assms(1)]
  have f: "flying (pc s t) = Some e" and e: "e = epoch (mgr s)" using assms(2) d(3) [of t e] by simp_all
  have o: "applyMu s = Some (Th t)" using d(2) [of t] assms(2) by simp
  show ?thesis
  proof (rule safeI, goal_cases)
    case (2 t') then show ?case using d(2) [of t'] o by auto
  next
    case (4 t' e') then show ?case using d(5) [OF f, of t'] d(4) [of t' e'] by (auto split: if_splits)
  next
    case (6 e') then show ?case using d(4) [OF f] d(6) by auto
  next
    case 8 then show ?case using d(1,8) d(4) [OF f] e by simp
  qed (use d(1,3,5,7) in \<open>auto split: if_splits\<close>)
qed

lemma safe_arm:
  assumes "safe s" and "applyMu s = Some Applying" and "Arm now True True allow (mgr s) = (e, m)"
  shows "safe (goto (Run e) InGrace ((cancel_current s)\<lparr>mgr := m, log := EvArm e # log s\<rparr>))"
proof -
  note d = safeD [OF assms(1)]
  have m: "e = Suc (epoch (mgr s))" "epoch m = e" "rollback m = Some e"
    using assms(3) by (auto simp: Arm_def Let_def)
  have c: "claimed e' (mgr s) \<Longrightarrow> claimed e' m" for e' using m by (auto simp: claimed_def)
  have nc: "\<not> in_closure (pc s t)" for t using d(2) [of t] assms(2) by simp
  then have nr: "pc s t \<noteq> Restoring e'" for t e' by (metis in_closure.simps(2))
  show ?thesis
    by (rule safeI) (use d(4-6,8) m c nc nr assms(2) in \<open>auto split: if_splits\<close>)
qed

lemmas view_defs = same_view_def Confirm_def markRollbackFailed_def claimRollback_def RollbackNow_def Let_def

lemma after_rollback_quiet [simp]: "flying (after_rollback t) = None" "\<not> in_closure (after_rollback t)"
  by (cases t; simp)+

lemma step_safe: "step s s' \<Longrightarrow> safe s \<Longrightarrow> safe s'"
proof (induction rule: step.induct)
  case (do_tick s e now good a m)
  have "epoch m = epoch (mgr s)" "rollback m = rollback (mgr s)" "dispatched m = dispatched (mgr s)"
    using tick_frames [of now good "mgr s"] unfolding do_tick(2) by simp_all
  then show ?case using do_tick(1,3)
    by - (rule safe_quiet [of s _ "Run e" "Acting a"], auto simp: same_view_def)
next
  case (act_rollback s e won m)
  show ?case
  proof (cases won)
    case True
    then have "e = epoch (mgr s)" "\<not> dispatched (mgr s)" using act_rollback by (auto simp: claimRollback_def split: if_splits)
    then show ?thesis using act_rollback True
      by - (rule safe_claim [of s _ "Run e"], auto simp: view_defs)
  next
    case False
    then show ?thesis using act_rollback
      by - (rule safe_quiet [of s _ "Run e" Waiting], auto simp: view_defs split: if_splits)
  qed
next
  case (manual s n rb m)
  show ?case
  proof (cases rb)
    case None
    then show ?thesis using manual
      by - (rule safe_quiet [of s _ "Manual n" Exited], auto simp: view_defs split: if_splits)
  next
    case (Some e)
    then have "\<not> dispatched (mgr s)" "e = epoch (mgr s)"
      using manual safeD(7) [OF manual(3)] by (auto simp: RollbackNow_def Let_def split: if_splits)
    then show ?thesis using manual Some
      by - (rule safe_claim [of s _ "Manual n"], auto simp: view_defs)
  qed
next
  case (rb_return s t err)
  show ?case
    by (rule safe_quiet [of s _ t "after_rollback t"])
      (use rb_return in \<open>auto simp: view_defs split: option.splits\<close>)
next
  case (confirm s)
  then show ?case by - (rule safe_same_view [of s], auto simp: view_defs)
next
  case (apply_lock s)
  then show ?case by - (rule safe_same_view [of s], auto simp: view_defs)
next
  case (apply_unlock s)
  then show ?case by - (rule safe_same_view [of s], auto simp: view_defs)
next
  case (rb_restore s t e err)
  then show ?case by (rule safe_rb_restore [rotated])
qed (blast intro: safe_arm safe_rb_lock safe_rb_stale safe_rb_current
     | (rule safe_quiet, assumption, auto simp: same_view_def split: if_splits)[1])+

lemma reachable_safe: "reachable d s \<Longrightarrow> safe s"
  by (induction rule: reachable.induct) (auto intro: safe_init step_safe)

lemma restores_ok_split:
  "restores_ok (later @ EvRestore e # earlier) \<Longrightarrow> last_armed earlier = e \<and> EvRestore e \<notin> set earlier"
  by (induction later rule: restores_ok.induct) auto

subsection \<open>Properties of all interleavings\<close>

text \<open>C3. A rollback never undoes a newer Apply and never happens twice: in every interleaving of the
  window goroutines, manual rollbacks, confirmations and applies, whenever a window's configuration is
  restored, that window is the last one armed, and it has not been restored before.\<close>

theorem rollback_fires_once_and_never_stale:
  assumes "reachable d s" and "log s = later @ EvRestore e # earlier"
  shows "last_armed earlier = e \<and> EvRestore e \<notin> set earlier"
  using restores_ok_split safeD(8) [OF reachable_safe [OF assms(1)]] assms(2) by simp

text \<open>The apply mutex really excludes: no two threads are ever inside a rollback closure together,
  and none is while an Apply is under way.\<close>

theorem rollback_excludes_apply:
  assumes "reachable d s"
  shows "(in_closure (pc s t) \<longrightarrow> in_closure (pc s t') \<longrightarrow> t = t') \<and> (in_closure (pc s t) \<longrightarrow> applyMu s \<noteq> Some Applying)"
  using safeD(2) [OF reachable_safe [OF assms]] by auto

subsection \<open>Traces\<close>

text \<open>Two applies in a row, and the manual rollback of the first window whose restore fails.\<close>

definition arm_state :: "sys \<Rightarrow> sys" where
  "arm_state s = (case Arm 0 True True True (mgr s) of (e, m) \<Rightarrow>
     goto (Run e) InGrace ((cancel_current s)\<lparr>mgr := m, log := EvArm e # log s, applyMu := None\<rparr>))"

lemma reachable_arm:
  assumes "reachable d s" and "applyMu s = None"
  shows "reachable d (arm_state s)"
proof -
  obtain e m where a: "Arm 0 True True True (mgr s) = (e, m)" by fastforce
  let ?s1 = "s\<lparr>applyMu := Some Applying\<rparr>"
  let ?s2 = "goto (Run e) InGrace ((cancel_current ?s1)\<lparr>mgr := m, log := EvArm e # log ?s1\<rparr>)"
  have "reachable d ?s2"
    using next_step [OF assms(1) apply_lock [of s, OF assms(2)]] apply_arm [of ?s1 0 True e m] a
    by (auto intro: next_step)
  from next_step [OF this apply_unlock [of ?s2]] have "reachable d (?s2\<lparr>applyMu := None\<rparr>)" by simp
  moreover have "?s2\<lparr>applyMu := None\<rparr> = arm_state s"
    using a by (cases s) (simp add: arm_state_def goto_def cancel_current_def)
  ultimately show ?thesis by simp
qed

definition manual_restored :: "string option \<Rightarrow> sys \<Rightarrow> sys" where
  "manual_restored err s = goto (Manual 0) (Returned err)
     ((cancel_current s)\<lparr>mgr := snd (RollbackNow (mgr s)), log := EvRestore (epoch (mgr s)) # log s\<rparr>)"

text \<open>A manual rollback that has claimed the window, taken the mutex and found the window current.\<close>

definition manual_restoring :: "sys \<Rightarrow> sys" where
  "manual_restoring s = goto (Manual 0) (Restoring (epoch (mgr s)))
     ((cancel_current s)\<lparr>mgr := snd (RollbackNow (mgr s)), applyMu := Some (Th (Manual 0))\<rparr>)"

lemma reachable_restoring:
  assumes "reachable d s" and "applyMu s = None" and "pc s (Manual 0) = NotStarted"
    and rb: "fst (RollbackNow (mgr s)) = Some (epoch (mgr s))"
  shows "reachable d (manual_restoring s)"
proof -
  let ?e = "epoch (mgr s)" let ?m = "snd (RollbackNow (mgr s))"
  let ?s1 = "goto (Manual 0) (WaitLock ?e) ((cancel_current s)\<lparr>mgr := ?m\<rparr>)"
  let ?s2 = "goto (Manual 0) (Holding ?e) (?s1\<lparr>applyMu := Some (Th (Manual 0))\<rparr>)"
  have em: "epoch ?m = ?e" by (simp add: RollbackNow_def Let_def)
  have "RollbackNow (mgr s) = (Some ?e, ?m)" using rb by (metis prod.collapse)
  with manual [OF assms(3) this] have 1: "reachable d ?s1" using assms(1) by (auto intro: next_step)
  have 2: "reachable d ?s2" by (rule next_step [OF 1 rb_lock]) (use assms(2) in auto)
  have "reachable d (goto (Manual 0) (Restoring ?e) ?s2)" by (rule next_step [OF 2 rb_current]) (auto simp: IsCurrent_def em)
  moreover have "goto (Manual 0) (Restoring ?e) ?s2 = manual_restoring s"
    by (simp add: manual_restoring_def goto_def cancel_current_def)
  ultimately show ?thesis by simp
qed

lemma reachable_manual:
  assumes "reachable d s" and "applyMu s = None" and "pc s (Manual 0) = NotStarted"
    and "fst (RollbackNow (mgr s)) = Some (epoch (mgr s))"
  shows "reachable d (manual_restored err s)"
proof -
  let ?s3 = "manual_restoring s"
  have "step ?s3 (goto (Manual 0) (Returned err) (?s3\<lparr>applyMu := None, log := EvRestore (epoch (mgr s)) # log ?s3\<rparr>))"
    by (rule rb_restore) (simp add: manual_restoring_def)
  moreover have "goto (Manual 0) (Returned err) (?s3\<lparr>applyMu := None, log := EvRestore (epoch (mgr s)) # log ?s3\<rparr>) = manual_restored err s"
    using assms(2) by (simp add: manual_restoring_def manual_restored_def goto_def cancel_current_def)
  ultimately show ?thesis using next_step [OF reachable_restoring [OF assms]] by simp
qed

definition window1 :: sys where
  "window1 = arm_state (init_sys DefaultDurations)"

lemma window1_reachable: "reachable DefaultDurations window1"
  unfolding window1_def by (rule reachable_arm [OF start]) (simp add: init_sys_def)

lemmas trace_simps = window1_def arm_state_def manual_restored_def init_sys_def New_def Arm_def RollbackNow_def
  cancel_current_def goto_def Let_def

lemma restored1_reachable: "reachable DefaultDurations (manual_restored err window1)"
  by (rule reachable_manual [OF window1_reachable]) (simp_all add: trace_simps)

theorem rollback_fires_once_and_never_stale_witness:
  "reachable DefaultDurations (manual_restored None window1) \<and>
   log (manual_restored None window1) = [] @ EvRestore 1 # [EvArm 1] \<and> last_armed [EvArm 1] = 1 \<and> EvRestore 1 \<notin> set [EvArm 1]"
proof -
  have l: "log (manual_restored None window1) = [] @ EvRestore 1 # [EvArm 1]" by (simp add: trace_simps)
  from restored1_reachable l rollback_fires_once_and_never_stale [OF restored1_reachable l] show ?thesis by blast
qed

lemma restoring1_reachable: "reachable DefaultDurations (manual_restoring window1)"
  by (rule reachable_restoring [OF window1_reachable]) (simp_all add: trace_simps)

theorem rollback_excludes_apply_witness:
  "reachable DefaultDurations (manual_restoring window1) \<and> in_closure (pc (manual_restoring window1) (Manual 0)) \<and>
   applyMu (manual_restoring window1) \<noteq> Some Applying"
proof -
  have "in_closure (pc (manual_restoring window1) (Manual 0))" by (simp add: manual_restoring_def goto_def)
  then show ?thesis using restoring1_reachable rollback_excludes_apply [OF restoring1_reachable, of "Manual 0" "Manual 0"] by blast
qed

text \<open>The error of a superseded window is written into the new one: \<^verbatim>\<open>markRollbackFailed\<close> does not
  check the epoch, so a rollback that failed before a new Apply can mark the freshly armed window,
  which nobody has rolled back, as \<^verbatim>\<open>rollback_failed\<close>.\<close>

theorem stale_rollback_error_taints_new_window:
  "\<exists>s. reachable DefaultDurations s \<and> epoch (mgr s) = 2 \<and> pending (mgr s) \<and> m_phase (mgr s) = PRollbackFailed \<and>
     \<not> dispatched (mgr s) \<and> EvRestore 2 \<notin> set (log s)"
proof -
  let ?s1 = "manual_restored (Some ''x'') window1"
  let ?s2 = "arm_state ?s1"
  have 2: "reachable DefaultDurations ?s2"
    by (rule reachable_arm [OF restored1_reachable]) (simp add: trace_simps)
  have pc: "pc ?s2 (Manual 0) = Returned (Some ''x'')" by (simp add: trace_simps)
  let ?s3 = "goto (Manual 0) Exited (?s2\<lparr>mgr := markRollbackFailed (Some ''x'') (mgr ?s2)\<rparr>)"
  have "reachable DefaultDurations ?s3" using next_step [OF 2 rb_return [OF pc]] by simp
  moreover have "epoch (mgr ?s3) = 2 \<and> pending (mgr ?s3) \<and> m_phase (mgr ?s3) = PRollbackFailed \<and>
     \<not> dispatched (mgr ?s3) \<and> EvRestore 2 \<notin> set (log ?s3)"
    by (simp add: trace_simps markRollbackFailed_def)
  ultimately show ?thesis by blast
qed

end
