(* ===== verification/Core.thy ===== *)
theory Core
  imports Atomicfile Go_Strings
begin

text \<open>
  \<^verbatim>\<open>internal/core/singbox.go\<close>: the supervisor of the sing-box process. Its ring of log lines, the
  process life cycle (start, stop, reload, conditional restart) and the configuration snapshots the
  fail-safe restores.
\<close>

subsection \<open>The ring log\<close>

record ringlog =
  rl_lines :: "string list"
  rl_size :: nat
  rl_buf :: string

definition newRingLog :: "nat \<Rightarrow> ringlog" where
  "newRingLog cap = \<lparr>rl_lines = [], rl_size = cap, rl_buf = []\<rparr>"

text \<open>\<^verbatim>\<open>bytes.IndexByte\<close> and the two slices around the newline.\<close>

fun cut_newline :: "string \<Rightarrow> (string \<times> string) option" where
  "cut_newline [] = None"
| "cut_newline (c # cs) =
     (if c = CHR 0x0A then Some ([], cs) else map_option (\<lambda>(a, b). (c # a, b)) (cut_newline cs))"

lemma cut_newline_shorter: "cut_newline s = Some (a, b) \<Longrightarrow> length b < length s"
  by (induction s arbitrary: a b) (auto split: if_splits)

definition trim_right_cr :: "string \<Rightarrow> string" where
  "trim_right_cr s = rev (dropWhile (\<lambda>c. c = CHR 0x0D) (rev s))"

definition push_line :: "nat \<Rightarrow> string list \<Rightarrow> string \<Rightarrow> string list" where
  "push_line cap ls line =
     (if line = [] then ls
      else (let ls' = ls @ [line] in
            if length ls' > 2 * cap then drop (length ls' - cap) ls' else ls'))"

function (sequential) drain :: "nat \<Rightarrow> string list \<Rightarrow> string \<Rightarrow> string list \<times> string" where
  "drain cap ls buf =
     (case cut_newline buf of
        None \<Rightarrow> (ls, buf)
      | Some (raw, rest) \<Rightarrow> drain cap (push_line cap ls (trim_right_cr raw)) rest)"
  by pat_completeness auto
termination by (relation "measure (\<lambda>(_, _, buf). length buf)") (auto simp: cut_newline_shorter)

declare drain.simps [simp del]

definition Write_log :: "string \<Rightarrow> ringlog \<Rightarrow> ringlog" where
  "Write_log p r = (case drain (rl_size r) (rl_lines r) (rl_buf r @ p) of
     (ls, buf) \<Rightarrow> r\<lparr>rl_lines := ls, rl_buf := buf\<rparr>)"

definition Lines :: "ringlog \<Rightarrow> string list" where
  "Lines r = rl_lines r"

text \<open>The lines a stream of bytes contains, and what is left after the last newline.\<close>

function (sequential) stream_lines :: "string \<Rightarrow> string list \<times> string" where
  "stream_lines buf =
     (case cut_newline buf of
        None \<Rightarrow> ([], buf)
      | Some (raw, rest) \<Rightarrow>
          (case stream_lines rest of (ls, b) \<Rightarrow>
             ((if trim_right_cr raw = [] then ls else trim_right_cr raw # ls), b)))"
  by pat_completeness auto
termination by (relation "measure length") (auto simp: cut_newline_shorter)

declare stream_lines.simps [simp del]

lemma cut_newline_append:
  "cut_newline (s @ t) = (case cut_newline s of
      Some (a, b) \<Rightarrow> Some (a, b @ t)
    | None \<Rightarrow> (case cut_newline t of None \<Rightarrow> None | Some (a, b) \<Rightarrow> Some (s @ a, b)))"
  by (induction s) (auto split: option.splits)

lemma stream_lines_append:
  "stream_lines (s @ t) =
     (fst (stream_lines s) @ fst (stream_lines (snd (stream_lines s) @ t)), snd (stream_lines (snd (stream_lines s) @ t)))"
proof (induction s rule: stream_lines.induct)
  case (1 buf)
  show ?case
  proof (cases "cut_newline buf")
    case None
    then show ?thesis by (simp add: stream_lines.simps [of buf])
  next
    case (Some ab)
    then obtain a b where ab: "cut_newline buf = Some (a, b)" by fastforce
    from 1 [OF ab refl] show ?thesis
      by (simp add: stream_lines.simps [of buf] stream_lines.simps [of "buf @ t"] ab cut_newline_append split: prod.splits)
  qed
qed

lemma drain_stream:
  "drain cap ls buf = (foldl (push_line cap) ls (fst (stream_lines buf)), snd (stream_lines buf))"
proof (induction cap ls buf rule: drain.induct)
  case (1 cap ls buf)
  show ?case
  proof (cases "cut_newline buf")
    case (Some ab)
    then obtain a b where ab: "cut_newline buf = Some (a, b)" by fastforce
    from 1 [OF ab refl] show ?thesis
      by (simp add: drain.simps [of cap ls buf] stream_lines.simps [of buf] ab push_line_def Let_def split: prod.splits)
  qed (simp add: drain.simps [of cap ls buf] stream_lines.simps [of buf])
qed

lemma Write_log_writes:
  "foldl (\<lambda>r p. Write_log p r) (newRingLog cap) ps =
     \<lparr>rl_lines = foldl (push_line cap) [] (fst (stream_lines (concat ps))), rl_size = cap,
      rl_buf = snd (stream_lines (concat ps))\<rparr>"
proof (induction ps rule: rev_induct)
  case Nil
  then show ?case by (simp add: newRingLog_def stream_lines.simps [of "[]"])
next
  case (snoc p ps)
  then show ?case
    by (simp add: Write_log_def drain_stream stream_lines_append [of "concat ps" p])
qed

text \<open>What the ring keeps of the lines pushed into it.\<close>

definition recent :: "nat \<Rightarrow> string list \<Rightarrow> string list \<Rightarrow> bool" where
  "recent cap kept all =
     (\<exists>k \<le> length all. kept = drop k all \<and> length kept \<le> 2 * cap \<and> (k = 0 \<or> cap \<le> length kept))"

lemma recent_push:
  assumes "recent cap kept all" and "line \<noteq> []"
  shows "recent cap (push_line cap kept line) (all @ [line])"
proof -
  obtain k where k: "kept = drop k all" "length kept \<le> 2 * cap" "k = 0 \<or> cap \<le> length kept" "k \<le> length all"
    using assms(1) unfolding recent_def by blast
  let ?ls = "kept @ [line]"
  have ls: "?ls = drop k (all @ [line])" using k by simp
  show ?thesis
  proof (cases "length ?ls > 2 * cap")
    case True
    define n where "n = length ?ls - cap"
    have "push_line cap kept line = drop n ?ls"
      using True assms(2) by (simp add: push_line_def n_def Let_def)
    then have "push_line cap kept line = drop (n + k) (all @ [line])" unfolding ls by (simp only: drop_drop)
    moreover have "length (push_line cap kept line) = cap"
      using True assms(2) by (simp add: push_line_def Let_def)
    moreover have "n + k \<le> length (all @ [line])" using k by (simp add: n_def)
    ultimately show ?thesis unfolding recent_def by (intro exI [of _ "n + k"]) simp
  next
    case False
    then have "push_line cap kept line = ?ls" using assms(2) by (simp add: push_line_def Let_def)
    with False k(3,4) ls show ?thesis unfolding recent_def by (intro exI [of _ k]) auto
  qed
qed

lemma recent_foldl:
  assumes "\<forall>l \<in> set ls. l \<noteq> []"
  shows "recent cap (foldl (push_line cap) [] ls) ls"
  using assms
proof (induction ls rule: rev_induct)
  case (snoc l ls)
  then show ?case using recent_push by simp
qed (simp add: recent_def)

lemma stream_lines_nonempty: "\<forall>l \<in> set (fst (stream_lines s)). l \<noteq> []"
proof (induction s rule: stream_lines.induct)
  case (1 buf)
  show ?case
  proof (cases "cut_newline buf")
    case (Some ab)
    then obtain a b where ab: "cut_newline buf = Some (a, b)" by fastforce
    from 1 [OF ab refl] show ?thesis by (auto simp: stream_lines.simps [of buf] ab split: prod.splits)
  qed (simp add: stream_lines.simps [of buf])
qed

text \<open>The log ring shows the most recent output: however the process output is cut into writes, the
  lines returned are a suffix of all non-empty lines written, at most twice the configured size, and
  nothing has been dropped as long as fewer than that many were written: once anything is dropped, at
  least the configured number of lines is kept.\<close>

theorem ringLog_keeps_recent_lines:
  "\<exists>k. Lines (foldl (\<lambda>r p. Write_log p r) (newRingLog cap) ps) = drop k (fst (stream_lines (concat ps))) \<and>
     length (Lines (foldl (\<lambda>r p. Write_log p r) (newRingLog cap) ps)) \<le> 2 * cap \<and>
     (k = 0 \<or> cap \<le> length (Lines (foldl (\<lambda>r p. Write_log p r) (newRingLog cap) ps)))"
  using recent_foldl [OF stream_lines_nonempty [of "concat ps"], of cap]
  by (auto simp: Write_log_writes Lines_def recent_def)

subsection \<open>The process\<close>

text \<open>Processes are numbered in the order they are spawned. A process is in \<^verbatim>\<open>running\<close> until its
  exit-tracking goroutine has closed its \<^verbatim>\<open>done\<close> channel. \<^verbatim>\<open>cmd\<close> and \<^verbatim>\<open>done\<close> are always set and cleared
  together.\<close>

record core =
  cmd :: "nat option"
  running :: "nat set"
  next_pid :: nat
  desired :: bool
  startedAt :: "int option"
  exitErr :: "string option"

definition new_core :: core where
  "new_core = \<lparr>cmd = None, running = {}, next_pid = 0, desired = False, startedAt = None, exitErr = None\<rparr>"

datatype spawn = NoBinary | SpawnFails | Spawned

datatype core_err = BinaryNotFound | StartFailed | KillFailed

definition aliveLocked :: "core \<Rightarrow> bool" where
  "aliveLocked c = (case cmd c of None \<Rightarrow> False | Some p \<Rightarrow> p \<in> running c)"

definition startLocked :: "int \<Rightarrow> spawn \<Rightarrow> core \<Rightarrow> core_err option \<times> core" where
  "startLocked now sp c =
     (case sp of
        NoBinary \<Rightarrow> (Some BinaryNotFound, c)
      | SpawnFails \<Rightarrow> (Some StartFailed, c)
      | Spawned \<Rightarrow>
          (None, c\<lparr>cmd := Some (next_pid c), running := insert (next_pid c) (running c), next_pid := Suc (next_pid c),
                   desired := True, startedAt := Some now, exitErr := None\<rparr>))"

definition Start :: "int \<Rightarrow> spawn \<Rightarrow> core \<Rightarrow> core_err option \<times> core" where
  "Start now sp c =
     (if cmd c \<noteq> None \<and> aliveLocked c then (None, c\<lparr>desired := True\<rparr>) else startLocked now sp c)"

definition StartIfDesiredDead :: "int \<Rightarrow> spawn \<Rightarrow> core \<Rightarrow> (bool \<times> core_err option) \<times> core" where
  "StartIfDesiredDead now sp c =
     (if \<not> desired c \<or> aliveLocked c then ((False, None), c)
      else (case startLocked now sp c of
          (Some e, c') \<Rightarrow> ((False, Some e), c')
        | (None, c') \<Rightarrow> ((True, None), c')))"

text \<open>The exit-tracking goroutine of process \<^verbatim>\<open>p\<close>.\<close>

definition process_exit :: "nat \<Rightarrow> string option \<Rightarrow> core \<Rightarrow> core" where
  "process_exit p err c = c\<lparr>running := running c - {p}, exitErr := err\<rparr>"

text \<open>How a process reacts to being stopped.\<close>

datatype kill_result = KillOk | ProcessDone | KillError

record stop_outcome =
  term_ok :: bool
  exits_in_grace :: bool
  kill_result :: kill_result
  exit_status :: "string option"

text \<open>\<^verbatim>\<open>Stop\<close> first gives up the process under the lock, then waits for it without the lock.\<close>

definition stop_begin :: "core \<Rightarrow> nat option \<times> core" where
  "stop_begin c = (cmd c, c\<lparr>desired := False, cmd := None\<rparr>)"

definition stop_finish :: "stop_outcome \<Rightarrow> nat \<Rightarrow> core \<Rightarrow> core_err option \<times> core" where
  "stop_finish so p c =
     (if p \<notin> running c then (None, c)
      else
        (let c' = process_exit p (exit_status so) c in
         if term_ok so \<and> exits_in_grace so then (None, c')
         else (case kill_result so of
                 KillOk \<Rightarrow> (None, c') | ProcessDone \<Rightarrow> (None, c') | KillError \<Rightarrow> (Some KillFailed, c'))))"

definition Stop :: "stop_outcome \<Rightarrow> core \<Rightarrow> core_err option \<times> core" where
  "Stop so c = (case stop_begin c of (None, c') \<Rightarrow> (None, c') | (Some p, c') \<Rightarrow> stop_finish so p c')"

definition Reload :: "stop_outcome \<Rightarrow> int \<Rightarrow> spawn \<Rightarrow> core \<Rightarrow> core_err option \<times> core" where
  "Reload so now sp c =
     (case Stop so c of
        (Some e, c1) \<Rightarrow> (Some e, c1)
      | (None, c1) \<Rightarrow>
          (case Start now sp c1 of
             (Some e, c2) \<Rightarrow> (Some e, c2\<lparr>desired := True\<rparr>)
           | (None, c2) \<Rightarrow> (None, c2)))"

definition Running :: "core \<Rightarrow> bool" where
  "Running c = aliveLocked c"

definition Alive :: "core \<Rightarrow> bool" where
  "Alive c = aliveLocked c"

definition Desired :: "core \<Rightarrow> bool" where
  "Desired c = desired c"

subsection \<open>One process at a time\<close>

text \<open>Every running process is the supervised one, and process numbers are fresh.\<close>

definition sole :: "core \<Rightarrow> bool" where
  "sole c = (running c \<subseteq> set_option (cmd c) \<and> (\<forall>p \<in> set_option (cmd c). p < next_pid c))"

lemma sole_new [inv_intros]: "sole new_core"
  by (simp add: sole_def new_core_def)

lemma sole_desired [simp]: "sole (c\<lparr>desired := b\<rparr>) = sole c"
  by (simp add: sole_def)

lemma sole_dead: "sole c \<Longrightarrow> \<not> aliveLocked c \<Longrightarrow> running c = {}"
  by (cases "cmd c") (auto simp: sole_def aliveLocked_def)

lemma sole_startLocked: "sole c \<Longrightarrow> \<not> aliveLocked c \<Longrightarrow> sole (snd (startLocked now sp c))"
  using sole_dead [of c] by (cases sp) (simp_all add: sole_def startLocked_def)

lemma sole_Start [inv_intros]: "sole c \<Longrightarrow> sole (snd (Start now sp c))"
  using sole_startLocked [of c now sp] by (cases "cmd c") (simp_all add: Start_def aliveLocked_def)

lemma snd_StartIfDesiredDead:
  "snd (StartIfDesiredDead now sp c) = (if \<not> desired c \<or> aliveLocked c then c else snd (startLocked now sp c))"
  by (simp add: StartIfDesiredDead_def split: prod.splits option.splits)

lemma sole_StartIfDesiredDead [inv_intros]: "sole c \<Longrightarrow> sole (snd (StartIfDesiredDead now sp c))"
  by (simp add: snd_StartIfDesiredDead sole_startLocked)

lemma snd_stop_finish: "snd (stop_finish so p c) = (if p \<in> running c then process_exit p (exit_status so) c else c)"
  by (simp add: stop_finish_def Let_def split: kill_result.splits)

lemma snd_Stop:
  "snd (Stop so c) =
     (let c' = c\<lparr>desired := False, cmd := None\<rparr> in
      case cmd c of None \<Rightarrow> c' | Some p \<Rightarrow> if p \<in> running c then process_exit p (exit_status so) c' else c')"
  by (simp add: Stop_def stop_begin_def snd_stop_finish Let_def split: option.splits)

lemma Stop_result:
  "sole c \<Longrightarrow> sole (snd (Stop so c)) \<and> \<not> desired (snd (Stop so c)) \<and> running (snd (Stop so c)) = {} \<and> cmd (snd (Stop so c)) = None"
  by (cases "cmd c") (auto simp: snd_Stop process_exit_def sole_def Let_def)

lemma snd_Reload:
  "snd (Reload so now sp c) =
     (if fst (Stop so c) \<noteq> None then snd (Stop so c)
      else if fst (Start now sp (snd (Stop so c))) \<noteq> None then (snd (Start now sp (snd (Stop so c))))\<lparr>desired := True\<rparr>
      else snd (Start now sp (snd (Stop so c))))"
  by (simp add: Reload_def split: prod.splits option.splits)

lemma sole_Reload [inv_intros]: "sole c \<Longrightarrow> sole (snd (Reload so now sp c))"
  using Stop_result [of c so] sole_Start [of "snd (Stop so c)" now sp] by (simp add: snd_Reload)

lemma sole_exit [inv_intros]: "sole c \<Longrightarrow> sole (process_exit p e c)"
  by (auto simp: sole_def process_exit_def)

text \<open>A history of calls and crashes, at the points where the calls take and release the lock. \<^verbatim>\<open>Start\<close>
  and \<^verbatim>\<open>StartIfDesiredDead\<close> hold it throughout. \<^verbatim>\<open>Stop\<close> gives up the process under the lock and then
  waits for it without, so that other calls can come in between; the processes that stops in progress
  are waiting for are kept beside the state. A reload is a stop, then a start, then, where the start
  failed, the renewed intent.\<close>

record core_run =
  cr_core :: core
  cr_stopping :: "nat list"

datatype core_event =
    EStart int spawn | ERestart int spawn | EStopBegin | EStopFinish stop_outcome nat | EIntent
  | EExit nat "string option"

fun core_step :: "core_event \<Rightarrow> core_run \<Rightarrow> core_run" where
  "core_step (EStart now sp) r = r\<lparr>cr_core := snd (Start now sp (cr_core r))\<rparr>"
| "core_step (ERestart now sp) r = r\<lparr>cr_core := snd (StartIfDesiredDead now sp (cr_core r))\<rparr>"
| "core_step EStopBegin r =
     (case stop_begin (cr_core r) of
        (None, c) \<Rightarrow> r\<lparr>cr_core := c\<rparr>
      | (Some p, c) \<Rightarrow> r\<lparr>cr_core := c, cr_stopping := p # cr_stopping r\<rparr>)"
| "core_step (EStopFinish so p) r =
     (if p \<in> set (cr_stopping r)
      then r\<lparr>cr_core := snd (stop_finish so p (cr_core r)), cr_stopping := remove1 p (cr_stopping r)\<rparr> else r)"
| "core_step EIntent r = r\<lparr>cr_core := (cr_core r)\<lparr>desired := True\<rparr>\<rparr>"
| "core_step (EExit p e) r = r\<lparr>cr_core := process_exit p e (cr_core r)\<rparr>"

definition new_run :: core_run where
  "new_run = \<lparr>cr_core = new_core, cr_stopping = []\<rparr>"

text \<open>Every running process is the supervised one or one that exactly one stop is waiting for.\<close>

definition owned_run :: "core_run \<Rightarrow> bool" where
  "owned_run r =
     (running (cr_core r) \<subseteq> set_option (cmd (cr_core r)) \<union> set (cr_stopping r) \<and>
      distinct (cr_stopping r) \<and> set_option (cmd (cr_core r)) \<inter> set (cr_stopping r) = {} \<and>
      (\<forall>p \<in> set_option (cmd (cr_core r)) \<union> set (cr_stopping r). p < next_pid (cr_core r)))"

lemma owned_new: "owned_run new_run"
  by (simp add: owned_run_def new_run_def new_core_def)

lemma owned_startLocked:
  assumes "owned_run r" and "\<not> aliveLocked (cr_core r)"
  shows "owned_run (r\<lparr>cr_core := snd (startLocked now sp (cr_core r))\<rparr>)"
  using assms
  by (cases sp; cases "cmd (cr_core r)") (auto simp: owned_run_def startLocked_def aliveLocked_def)

lemma owned_stop_finish:
  assumes "owned_run r" and "p \<in> set (cr_stopping r)"
  shows "owned_run (r\<lparr>cr_core := snd (stop_finish so p (cr_core r)), cr_stopping := remove1 p (cr_stopping r)\<rparr>)"
  using assms by (auto simp: owned_run_def snd_stop_finish process_exit_def)

lemma owned_step: "owned_run r \<Longrightarrow> owned_run (core_step e r)"
proof (cases e)
  case (EStart now sp)
  assume r: "owned_run r"
  show ?thesis
  proof (cases "cmd (cr_core r) \<noteq> None \<and> aliveLocked (cr_core r)")
    case True
    then show ?thesis using r EStart by (simp add: Start_def owned_run_def)
  next
    case False
    then have "\<not> aliveLocked (cr_core r)" by (auto simp: aliveLocked_def split: option.splits)
    with owned_startLocked [OF r] False EStart show ?thesis by (simp add: Start_def)
  qed
next
  case (ERestart now sp)
  assume "owned_run r"
  then show ?thesis using ERestart owned_startLocked [of r now sp] by (auto simp: snd_StartIfDesiredDead)
next
  case EStopBegin
  assume "owned_run r"
  then show ?thesis using EStopBegin by (cases "cmd (cr_core r)") (auto simp: stop_begin_def owned_run_def)
next
  case (EStopFinish so p)
  assume "owned_run r"
  then show ?thesis using EStopFinish owned_stop_finish by simp
qed (auto simp: owned_run_def process_exit_def)

lemma owned_history: "owned_run r \<Longrightarrow> owned_run (fold core_step es r)"
  by (induction es arbitrary: r) (auto intro: owned_step)

text \<open>C34. Whatever the interleaving of starts, conditional restarts, the two halves of stops and of the
  stops inside reloads, and crashes: every running sing-box process is the one the supervisor watches
  or one that exactly one stop in progress is waiting for, so there is at most one process more than
  there are stops in progress, and, while none is, at most the supervised one.\<close>

theorem one_core_process:
  "let r = fold core_step es new_run; c = cr_core r in
     running c \<subseteq> set_option (cmd c) \<union> set (cr_stopping r) \<and> distinct (cr_stopping r) \<and>
     set_option (cmd c) \<inter> set (cr_stopping r) = {} \<and> card (running c) \<le> 1 + length (cr_stopping r)"
proof -
  let ?r = "fold core_step es new_run"
  let ?c = "cr_core ?r"
  have o: "owned_run ?r" by (rule owned_history [OF owned_new])
  then have "running ?c \<subseteq> set_option (cmd ?c) \<union> set (cr_stopping ?r)" by (simp add: owned_run_def)
  then have "card (running ?c) \<le> card (set_option (cmd ?c) \<union> set (cr_stopping ?r))" by (rule card_mono [rotated]) simp
  also have "\<dots> \<le> card (set_option (cmd ?c)) + card (set (cr_stopping ?r))" by (rule card_Un_le)
  also have "\<dots> \<le> 1 + length (cr_stopping ?r)"
    using card_length [of "cr_stopping ?r"] by (cases "cmd ?c") simp_all
  finally show ?thesis using o by (simp add: owned_run_def Let_def)
qed

text \<open>A stop that is waited for leaves nothing behind: when its second half has run, its process is gone,
  and a whole stop with nothing in between leaves no process and no intent (\<^verbatim>\<open>Stop_result\<close>).\<close>

lemma stop_finish_gone: "p \<notin> running (snd (stop_finish so p c))"
  by (simp add: snd_stop_finish process_exit_def)

text \<open>The two halves of \<^verbatim>\<open>Stop\<close> leave a gap: a \<^verbatim>\<open>Start\<close> that comes while the old process is still being
  stopped launches a second sing-box next to it.\<close>

theorem start_during_stop_runs_two_processes:
  "\<exists>c p c1 c2. c = snd (Start 0 Spawned new_core) \<and> stop_begin c = (Some p, c1) \<and>
     Start 1 Spawned c1 = (None, c2) \<and> p \<in> running c2 \<and> card (running c2) = 2"
  by (simp add: Start_def startLocked_def stop_begin_def new_core_def aliveLocked_def)

text \<open>A reload that fails to start the new process keeps the intent, so that the watchdog goes on
  trying, and one that succeeds leaves the core up; but if the reload already fails to stop the old
  process, it returns with the core down and no longer supervised.\<close>

theorem Reload_outcomes:
  assumes "sole c"
  shows "case Reload so now sp c of
      (None, c') \<Rightarrow> Alive c' \<and> Desired c'
    | (Some KillFailed, c') \<Rightarrow> \<not> Alive c' \<and> \<not> Desired c'
    | (Some _, c') \<Rightarrow> \<not> Alive c' \<and> Desired c'"
proof -
  have dead: "cmd (snd (Stop so c)) = None" "running (snd (Stop so c)) = {}" "\<not> desired (snd (Stop so c))"
    using Stop_result [OF assms] by auto
  show ?thesis
  proof (cases "fst (Stop so c)")
    case None
    then have s: "Stop so c = (None, snd (Stop so c))" by (metis prod.collapse)
    show ?thesis
      using dead by (subst Reload_def, subst s, cases sp)
        (simp_all add: Start_def startLocked_def aliveLocked_def Alive_def Desired_def)
  next
    case (Some e)
    then have s: "Stop so c = (Some e, snd (Stop so c))" by (metis prod.collapse)
    have "e = KillFailed"
      using Some by (auto simp: Stop_def stop_begin_def stop_finish_def Let_def split: option.splits if_splits kill_result.splits)
    then show ?thesis
      using dead by (subst Reload_def, subst s) (simp add: Alive_def Desired_def aliveLocked_def)
  qed
qed

theorem Reload_outcomes_witness:
  "sole new_core \<and> (case Reload \<lparr>term_ok = True, exits_in_grace = True, kill_result = KillOk, exit_status = None\<rparr> 5 Spawned new_core of
      (None, c') \<Rightarrow> Alive c' \<and> Desired c'
    | (Some KillFailed, c') \<Rightarrow> \<not> Alive c' \<and> \<not> Desired c'
    | (Some _, c') \<Rightarrow> \<not> Alive c' \<and> Desired c')"
  by (intro conjI sole_new) (rule Reload_outcomes [OF sole_new])

subsection \<open>Configuration snapshots\<close>

datatype cp_err = NoBackup | ReadFailed | WriteFailed ioerr

text \<open>\<^verbatim>\<open>copyFile\<close> with the failures of its read and of its write; \<^verbatim>\<open>nil\<close> is the empty file.\<close>

definition copyFile :: "'d \<Rightarrow> bool \<Rightarrow> 'd faults \<Rightarrow> path \<Rightarrow> path \<Rightarrow> 'd fs \<Rightarrow> 'd fs \<times> cp_err option" where
  "copyFile nil read_fails w src dst f =
     (case read_file src f of
        None \<Rightarrow> (f, Some ReadFailed)
      | Some d \<Rightarrow>
          if read_fails then (f, Some ReadFailed)
          else (case cell_write nil dst w d f of (f', e) \<Rightarrow> (f', map_option WriteFailed e)))"

definition Backup :: "'d \<Rightarrow> bool \<Rightarrow> 'd faults \<Rightarrow> path \<Rightarrow> 'd fs \<Rightarrow> 'd fs \<times> cp_err option" where
  "Backup nil rf w config f =
     (if cur f config = None then (f, None) else copyFile nil rf w config (config @ ''.bak'') f)"

definition Restore :: "'d \<Rightarrow> bool \<Rightarrow> 'd faults \<Rightarrow> path \<Rightarrow> 'd fs \<Rightarrow> 'd fs \<times> cp_err option" where
  "Restore nil rf w config f =
     (let bak = config @ ''.bak'' in
      if cur f bak = None then (f, Some NoBackup) else copyFile nil rf w bak config f)"

definition Commit :: "'d \<Rightarrow> bool \<Rightarrow> 'd faults \<Rightarrow> path \<Rightarrow> 'd fs \<Rightarrow> 'd fs \<times> cp_err option" where
  "Commit nil rf w config f =
     (if cur f config = None then (f, None) else copyFile nil rf w config (config @ ''.good'') f)"

text \<open>A write touches only its file and the staging file beside it.\<close>

lemma read_Write_other:
  assumes "q \<noteq> p" and "q \<noteq> p @ ''.tmp''"
  shows "read_file q (final (Write nil w p d f)) = read_file q f"
proof -
  let ?tmp = "p @ ''.tmp''"
  obtain tr e where ws: "WriteSynced nil w ?tmp d f = (tr, e)" by fastforce
  have "cur (last tr) q = cur f q" using WriteSynced_last [OF ws, of q] assms(2) by auto
  with assms ws show ?thesis
    by (auto simp: Write_def Let_def final_def read_file_def rename_file_def split: option.splits)
qed

lemma copyFile_ok:
  "snd (copyFile nil rf w src dst f) = None \<Longrightarrow> read_file dst (fst (copyFile nil rf w src dst f)) = read_file src f"
  by (auto simp: copyFile_def case_prod_beta atomic_cell.write_ok split: option.splits if_splits)

lemma copyFile_err:
  "snd (copyFile nil rf w src dst f) = Some e \<Longrightarrow> read_file dst (fst (copyFile nil rf w src dst f)) = read_file dst f"
  by (auto simp: copyFile_def case_prod_beta atomic_cell.write_err split: option.splits if_splits)

text \<open>The rollback target is the configuration that was backed up: after a successful backup of an
  existing configuration, whatever is then written to the live file and with whatever failures, a
  restore either reports success and the live file holds the backed-up configuration again, or reports
  an error and leaves the live file as it was.\<close>

theorem Restore_returns_to_Backup:
  assumes "read_file config f = Some d" and "Backup nil rf w config f = (f1, None)"
    and "f2 = final (Write nil w' config d' f1)" and "Restore nil rf2 w2 config f2 = (f3, e)"
  shows "read_file config f3 = (if e = None then Some d else read_file config f2)"
proof -
  let ?bak = "config @ ''.bak''"
  have "cur f config \<noteq> None" using assms(1) by (auto simp: read_file_def)
  then have "copyFile nil rf w config ?bak f = (f1, None)" using assms(2) by (auto simp: Backup_def)
  then have "read_file ?bak f1 = Some d" using copyFile_ok [of nil rf w config ?bak f] assms(1) by simp
  moreover have "?bak \<noteq> config" by (auto dest: arg_cong [where f = length])
  ultimately have bak: "read_file ?bak f2 = Some d"
    using read_Write_other [of ?bak config nil w' d' f1] assms(3) by simp
  then have "cur f2 ?bak \<noteq> None" by (auto simp: read_file_def)
  then have "copyFile nil rf2 w2 ?bak config f2 = (f3, e)" using assms(4) by (auto simp: Restore_def Let_def)
  with bak copyFile_ok [of nil rf2 w2 ?bak config f2] copyFile_err [of nil rf2 w2 ?bak config f2] show ?thesis
    by (cases e) auto
qed

theorem Restore_returns_to_Backup_witness:
  "\<exists>f f1 f2 f3. read_file ''c'' f = Some ''good'' \<and> Backup [] False no_faults ''c'' f = (f1, None) \<and>
     f2 = final (Write [] no_faults ''c'' ''broken'' f1) \<and> Restore [] False no_faults ''c'' f2 = (f3, None) \<and>
     read_file ''c'' f3 = Some ''good''"
proof -
  let ?f = "\<lparr>cur = [''c'' \<mapsto> \<lparr>contents = ''good'', synced = True\<rparr>], dur = Map.empty\<rparr>"
  let ?f1 = "fst (Backup [] False no_faults ''c'' ?f)"
  let ?f2 = "final (Write [] no_faults ''c'' ''broken'' ?f1)"
  let ?f3 = "fst (Restore [] False no_faults ''c'' ?f2)"
  have 1: "read_file ''c'' ?f = Some ''good''" by code_simp
  have "snd (Backup [] False no_faults ''c'' ?f) = None" by code_simp
  then have 2: "Backup [] False no_faults ''c'' ?f = (?f1, None)" by (metis prod.collapse)
  have "snd (Restore [] False no_faults ''c'' ?f2) = None" by code_simp
  then have 3: "Restore [] False no_faults ''c'' ?f2 = (?f3, None)" by (metis prod.collapse)
  from 1 2 3 Restore_returns_to_Backup [OF 1 2 refl 3] show ?thesis by auto
qed

end
