(* ===== verification/Watchdog.thy ===== *)
theory Watchdog
  imports Core
begin

text \<open>
  \<^verbatim>\<open>internal/watchdog/watchdog.go\<close>: restarting a crashed process with exponential backoff. The watchdog
  sees its process through the interface \<^verbatim>\<open>Supervisor\<close> and the optional \<^verbatim>\<open>atomicRestarter\<close>; here that
  interface is a locale, and the sing-box supervisor is its instance. Times and durations are
  nanoseconds; the zero time is \<^verbatim>\<open>None\<close>.
\<close>

subsection \<open>State and the pieces of a tick\<close>

datatype 'e alert = Crashed nat int | CrashedFailed nat 'e

record 'e watchdog =
  interval :: int
  minBackoff :: int
  maxBackoff :: int
  stable :: int
  notify :: bool
  restarts :: nat
  lastRestart :: "int option"
  lastErr :: "'e option"
  backoff :: int
  nextAttempt :: "int option"
  alerts :: "'e alert list"   \<comment> \<open>newest first\<close>

definition new_watchdog :: "'e watchdog" where
  "new_watchdog = \<lparr>interval = 3000000000, minBackoff = 1000000000, maxBackoff = 60000000000, stable = 30000000000,
     notify = False, restarts = 0, lastRestart = None, lastErr = None, backoff = 0, nextAttempt = None, alerts = []\<rparr>"

definition clearBackoff :: "'e watchdog \<Rightarrow> 'e watchdog" where
  "clearBackoff w = w\<lparr>backoff := 0, nextAttempt := None\<rparr>"

text \<open>The branch of a tick that finds the process alive.\<close>

definition settle :: "int \<Rightarrow> 'e watchdog \<Rightarrow> 'e watchdog" where
  "settle now w =
     (if backoff w > 0 \<and> (case lastRestart w of None \<Rightarrow> False | Some t \<Rightarrow> now - t \<ge> stable w)
      then w\<lparr>backoff := 0, nextAttempt := None\<rparr> else w)"

definition in_window :: "int \<Rightarrow> 'e watchdog \<Rightarrow> bool" where
  "in_window now w = (case nextAttempt w of None \<Rightarrow> False | Some t \<Rightarrow> now < t)"

definition next_backoff :: "'e watchdog \<Rightarrow> int" where
  "next_backoff w =
     (if backoff w = 0 then minBackoff w
      else if backoff w < maxBackoff w then
        (let b = backoff w * 2 in if b > maxBackoff w then maxBackoff w else b)
      else backoff w)"

text \<open>The branch that finds it dead: nothing inside the backoff window, otherwise the window grows.\<close>

definition charge :: "int \<Rightarrow> 'e watchdog \<Rightarrow> 'e watchdog option" where
  "charge now w =
     (if in_window now w then None
      else (let b = next_backoff w in Some (w\<lparr>backoff := b, nextAttempt := Some (now + b)\<rparr>)))"

definition account :: "int \<Rightarrow> 'e option \<Rightarrow> 'e watchdog \<Rightarrow> 'e watchdog" where
  "account now err w =
     (let w1 = w\<lparr>restarts := Suc (restarts w), lastRestart := Some now, lastErr := err\<rparr>;
          n = restarts w1
      in if notify w1
         then w1\<lparr>alerts := (case err of None \<Rightarrow> Crashed n (backoff w1) | Some e \<Rightarrow> CrashedFailed n e) # alerts w1\<rparr>
         else w1)"

definition undo_charge :: "'e watchdog \<Rightarrow> 'e watchdog \<Rightarrow> 'e watchdog" where
  "undo_charge prev w = w\<lparr>backoff := backoff prev, nextAttempt := nextAttempt prev\<rparr>"

text \<open>\<^verbatim>\<open>restart\<close>: the error and whether it was a deliberate stop, with and without the optional
  interface.\<close>

definition restart_atomic :: "('c \<Rightarrow> (bool \<times> 'e option) \<times> 'c) \<Rightarrow> 'c \<Rightarrow> ('e option \<times> bool) \<times> 'c" where
  "restart_atomic start_if c =
     (case start_if c of ((started, err), c') \<Rightarrow>
        if \<not> started \<and> err = None then ((None, True), c') else ((err, False), c'))"

definition restart_legacy :: "('c \<Rightarrow> 'e option \<times> 'c) \<Rightarrow> 'c \<Rightarrow> ('e option \<times> bool) \<times> 'c" where
  "restart_legacy start c = (case start c of (err, c') \<Rightarrow> ((err, False), c'))"

definition tick ::
  "('c \<Rightarrow> bool) \<Rightarrow> ('c \<Rightarrow> bool) \<Rightarrow> ('c \<Rightarrow> ('e option \<times> bool) \<times> 'c) \<Rightarrow> int \<Rightarrow> 'e watchdog \<times> 'c \<Rightarrow> 'e watchdog \<times> 'c" where
  "tick is_desired is_alive restart now s =
     (case s of (w, c) \<Rightarrow>
        if \<not> is_desired c then (clearBackoff w, c)
        else if is_alive c then (settle now w, c)
        else (case charge now w of
            None \<Rightarrow> (w, c)
          | Some w1 \<Rightarrow>
              (case restart c of
                 ((err, True), c') \<Rightarrow> (undo_charge w w1, c')
               | ((err, False), c') \<Rightarrow> (account now err w1, c'))))"

record 'e stats =
  st_supervised :: bool
  st_alive :: bool
  st_restarts :: nat
  st_last_restart :: "int option"
  st_last_error :: "'e option"
  st_backoff_ms :: int

definition Stats :: "('c \<Rightarrow> bool) \<Rightarrow> ('c \<Rightarrow> bool) \<Rightarrow> 'e watchdog \<times> 'c \<Rightarrow> 'e stats" where
  "Stats is_desired is_alive s = (case s of (w, c) \<Rightarrow>
     \<lparr>st_supervised = is_desired c, st_alive = is_alive c, st_restarts = restarts w, st_last_restart = lastRestart w,
      st_last_error = lastErr w, st_backoff_ms = backoff w div 1000000\<rparr>)"

subsection \<open>Backoff arithmetic\<close>

definition backoff_ok :: "'e watchdog \<Rightarrow> bool" where
  "backoff_ok w = (0 < minBackoff w \<and> minBackoff w \<le> maxBackoff w \<and>
     (backoff w = 0 \<or> minBackoff w \<le> backoff w \<and> backoff w \<le> maxBackoff w))"

lemma next_backoff_bounds:
  "backoff_ok w \<Longrightarrow> minBackoff w \<le> next_backoff w \<and> next_backoff w \<le> maxBackoff w"
  by (auto simp: backoff_ok_def next_backoff_def Let_def)

lemma account_frames [frame_simps, simp]:
  "backoff (account now e w) = backoff w" "nextAttempt (account now e w) = nextAttempt w"
  "minBackoff (account now e w) = minBackoff w" "maxBackoff (account now e w) = maxBackoff w"
  "restarts (account now e w) = Suc (restarts w)" "lastErr (account now e w) = e" "lastRestart (account now e w) = Some now"
  by (simp_all add: account_def Let_def)

lemma charge_Some:
  "charge now w = Some w1 \<longleftrightarrow> \<not> in_window now w \<and> w1 = w\<lparr>backoff := next_backoff w, nextAttempt := Some (now + next_backoff w)\<rparr>"
  by (auto simp: charge_def Let_def)

lemma undo_charge_exact: "charge now w = Some w1 \<Longrightarrow> undo_charge w w1 = w"
  by (auto simp: charge_Some undo_charge_def)

text \<open>Doubling from the minimum, capped at the maximum.\<close>

lemma next_backoff_power:
  assumes "0 < minBackoff w" and "minBackoff w \<le> maxBackoff w" and "backoff w = min (minBackoff w * 2 ^ n) (maxBackoff w)"
  shows "next_backoff w = min (minBackoff w * 2 ^ Suc n) (maxBackoff w)"
proof -
  have "0 < minBackoff w * 2 ^ n" using assms(1) by simp
  then have b: "0 < backoff w" using assms by simp
  show ?thesis
  proof (cases "minBackoff w * 2 ^ n < maxBackoff w")
    case True
    then show ?thesis using b assms(3) by (simp add: next_backoff_def Let_def)
  next
    case False
    then have "maxBackoff w \<le> minBackoff w * 2 ^ Suc n" using b assms(3) by simp
    then show ?thesis using False b assms(3) by (simp add: next_backoff_def)
  qed
qed

subsection \<open>The interface\<close>

locale supervisor =
  fixes is_desired :: "'c \<Rightarrow> bool" and is_alive :: "'c \<Rightarrow> bool"
    and start_if :: "'o \<Rightarrow> 'c \<Rightarrow> (bool \<times> 'e option) \<times> 'c"
  assumes not_needed: "\<not> is_desired c \<or> is_alive c \<Longrightarrow> start_if o1 c = ((False, None), c)"
    and needed: "is_desired c \<Longrightarrow> \<not> is_alive c \<Longrightarrow>
      (\<exists>e. start_if o1 c = ((False, Some e), c)) \<or> (\<exists>c'. start_if o1 c = ((True, None), c') \<and> is_desired c' \<and> is_alive c')"
begin

lemma restart_crashed:
  assumes "is_desired c" and "\<not> is_alive c"
  shows "\<exists>err c'. restart_atomic (start_if o1) c = ((err, False), c') \<and> is_desired c' \<and> (is_alive c' \<longleftrightarrow> err = None)"
  using needed [OF assms, of o1] assms by (auto simp: restart_atomic_def)

lemma tick_spec:
  assumes "tick is_desired is_alive (restart_atomic (start_if o1)) now (w, c) = (w', c')"
  shows "(\<not> is_desired c \<longrightarrow> w' = clearBackoff w \<and> c' = c)"
    and "(is_desired c \<and> is_alive c \<longrightarrow> w' = settle now w \<and> c' = c)"
    and "(is_desired c \<and> \<not> is_alive c \<and> in_window now w \<longrightarrow> w' = w \<and> c' = c)"
    and "(is_desired c \<and> \<not> is_alive c \<and> \<not> in_window now w \<longrightarrow>
       restarts w' = Suc (restarts w) \<and> lastRestart w' = Some now \<and> backoff w' = next_backoff w \<and>
       nextAttempt w' = Some (now + next_backoff w) \<and> is_desired c' \<and> (is_alive c' \<longleftrightarrow> lastErr w' = None))"
  using assms restart_crashed [of c o1]
  by (auto simp: tick_def charge_def Let_def split: if_splits prod.splits bool.splits)

lemma tick_desired:
  "is_desired (snd (tick is_desired is_alive (restart_atomic (start_if o1)) now (w, c))) = is_desired c"
  using restart_crashed [of c o1]
  by (auto simp: tick_def split: option.splits prod.splits bool.splits)

lemma tick_keeps_backoff_ok:
  assumes "backoff_ok w"
  shows "backoff_ok (fst (tick is_desired is_alive (restart_atomic (start_if o1)) now (w, c)))"
proof -
  have "backoff_ok (account now err (w\<lparr>backoff := next_backoff w, nextAttempt := t\<rparr>))" for err t
    using next_backoff_bounds [OF assms] assms by (simp add: backoff_ok_def)
  moreover have "backoff_ok (clearBackoff w)" "backoff_ok (settle now w)"
    using assms by (auto simp: backoff_ok_def clearBackoff_def settle_def)
  ultimately show ?thesis using assms undo_charge_exact [of now w]
    by (auto simp: tick_def charge_Some split: option.splits prod.splits bool.splits)
qed

end

type_synonym core_wd = "core_err watchdog"

text \<open>The sing-box supervisor meets the contract; what the environment decides is the outcome of the
  spawn.\<close>

interpretation sb: supervisor Desired Alive "\<lambda>(now, sp). StartIfDesiredDead now sp"
  by unfold_locales
    (auto simp: Desired_def Alive_def StartIfDesiredDead_def startLocked_def aliveLocked_def split: spawn.splits)

definition core_tick :: "int \<Rightarrow> spawn \<Rightarrow> core_wd \<times> core \<Rightarrow> core_wd \<times> core" where
  "core_tick now sp = tick Desired Alive (restart_atomic (StartIfDesiredDead now sp)) now"

lemma core_tick_crashed:
  assumes "core_tick now sp (w, c) = (w', c')" and "Desired c" and "\<not> Alive c"
  shows "in_window now w \<Longrightarrow> w' = w \<and> c' = c"
    and "\<not> in_window now w \<Longrightarrow> restarts w' = Suc (restarts w) \<and> backoff w' = next_backoff w \<and>
       nextAttempt w' = Some (now + next_backoff w) \<and> Desired c' \<and> (Alive c' \<longleftrightarrow> lastErr w' = None)"
  using sb.tick_spec(3,4) [of "(now, sp)" now w c w' c'] assms by (simp_all add: core_tick_def)

text \<open>What a tick does to a crashed core: inside the backoff window nothing at all; outside it, exactly
  one restart is tried and counted, the next attempt is barred for the new backoff, which is within the
  configured bounds, the core stays desired, and it is up again unless an error was recorded.\<close>

theorem watchdog_restarts_crashed_core:
  assumes "core_tick now sp (w, c) = (w', c')" and "Desired c" and "\<not> Alive c" and "backoff_ok w"
  shows "if in_window now w then w' = w \<and> c' = c
    else restarts w' = Suc (restarts w) \<and> nextAttempt w' = Some (now + backoff w') \<and>
      minBackoff w \<le> backoff w' \<and> backoff w' \<le> maxBackoff w \<and> Desired c' \<and> (Alive c' \<longleftrightarrow> lastErr w' = None)"
  using core_tick_crashed [OF assms(1-3)] next_backoff_bounds [OF assms(4)] by auto

subsection \<open>A crash loop\<close>

text \<open>The core dies before every tick.\<close>

definition crash :: "core \<Rightarrow> core" where
  "crash c = c\<lparr>running := {}\<rparr>"

fun crash_loop :: "(int \<times> spawn) list \<Rightarrow> core_wd \<times> core \<Rightarrow> core_wd \<times> core" where
  "crash_loop [] s = s"
| "crash_loop ((now, sp) # xs) (w, c) = crash_loop xs (core_tick now sp (w, crash c))"

text \<open>The times at which restarts are due, of the times at which the watchdog looks: never before
  \<^verbatim>\<open>until\<close>, and after the attempt number \<^verbatim>\<open>k\<close> not for \<^verbatim>\<open>lo * 2 ^ k\<close>, at most \<^verbatim>\<open>hi\<close>.\<close>

fun attempts :: "int \<Rightarrow> int \<Rightarrow> nat \<Rightarrow> int \<Rightarrow> int list \<Rightarrow> int list" where
  "attempts lo hi k until [] = []"
| "attempts lo hi k until (t # ts) =
     (if t < until then attempts lo hi k until ts
      else t # attempts lo hi (Suc k) (t + min (lo * 2 ^ k) hi) ts)"

lemma crash_simps [simp]: "\<not> Alive (crash c)" "Desired (crash c) = Desired c"
  by (auto simp: crash_def Alive_def Desired_def aliveLocked_def split: option.splits)

lemma wd_tick_frames [frame_simps]:
  "minBackoff (fst (core_tick now sp (w, c))) = minBackoff w" "maxBackoff (fst (core_tick now sp (w, c))) = maxBackoff w"
  by (auto simp: core_tick_def tick_def clearBackoff_def settle_def charge_Some undo_charge_def
      split: option.splits prod.splits bool.splits)

lemma crash_loop_step:
  assumes "core_tick now sp (w, crash c) = (w', c')" and "Desired c" and "\<not> in_window now w"
  shows "restarts w' = Suc (restarts w)" and "backoff w' = next_backoff w"
    and "nextAttempt w' = Some (now + backoff w')" and "lastRestart w' = Some now" and "Desired c'"
    and "minBackoff w' = minBackoff w" and "maxBackoff w' = maxBackoff w"
  using core_tick_crashed(2) [OF assms(1)] sb.tick_spec(4) [of "(now, sp)" now w "crash c" w' c'] assms
    wd_tick_frames [of now sp w "crash c"]
  by (simp_all add: core_tick_def)

lemma crash_loop_attempts:
  assumes "Desired c" and "0 < minBackoff w" and "minBackoff w \<le> maxBackoff w"
    and "backoff w = min (minBackoff w * 2 ^ n) (maxBackoff w)" and "lastRestart w = Some t"
    and "nextAttempt w = Some (t + backoff w)"
    and "ts = attempts (minBackoff w) (maxBackoff w) (Suc n) (t + backoff w) (map fst xs)"
    and "w' = fst (crash_loop xs (w, c))"
  shows "restarts w' = restarts w + length ts \<and> backoff w' = min (minBackoff w * 2 ^ (n + length ts)) (maxBackoff w) \<and>
     lastRestart w' = Some (last (t # ts)) \<and> nextAttempt w' = Some (last (t # ts) + backoff w')"
  using assms
proof (induction xs arbitrary: w c t n ts w')
  case (Cons x xs)
  obtain now sp where x: "x = (now, sp)" by fastforce
  obtain w1 c1 where k: "core_tick now sp (w, crash c) = (w1, c1)" by fastforce
  show ?case
  proof (cases "now < t + backoff w")
    case True
    then have "w1 = w" "c1 = crash c" using core_tick_crashed(1) [OF k] Cons.prems by (auto simp: in_window_def)
    with Cons.IH [of "crash c" w n t ts w'] Cons.prems True x k show ?thesis by simp
  next
    case False
    then have out: "\<not> in_window now w" using Cons.prems by (simp add: in_window_def)
    note st = crash_loop_step [OF k Cons.prems(1) out]
    have b: "backoff w1 = min (minBackoff w1 * 2 ^ Suc n) (maxBackoff w1)"
      using next_backoff_power [OF Cons.prems(2-4)] st by simp
    let ?ts = "attempts (minBackoff w1) (maxBackoff w1) (Suc (Suc n)) (now + backoff w1) (map fst xs)"
    have ts: "ts = now # ?ts" using Cons.prems(7) False x st(6,7) b by simp
    have "w' = fst (crash_loop xs (w1, c1))" using Cons.prems(8) x k by simp
    from Cons.IH [OF st(5) _ _ b st(4,3) refl this] Cons.prems(2,3) ts st(1,6,7) show ?thesis by simp
  qed
qed simp

text \<open>C35. A crash loop backs off exponentially, whenever the watchdog looks. Suppose no backoff is
  pending, the core is wanted, the configured bounds are sane, and the core is found dead at the check
  at time \<^verbatim>\<open>t\<close> and at every later check. Then a restart is tried at \<^verbatim>\<open>t\<close> and at those later checks that
  come when the wait is over, where the wait is the minimum after the first restart, doubles with every
  further one and is capped at the maximum: the restarts are counted, the last restart is the last of
  these times, and after \<^verbatim>\<open>n\<close> restarts the backoff is \<^verbatim>\<open>min * 2 ^ (n - 1)\<close>, at most the maximum, and bars
  the next attempt for that long.\<close>

theorem crash_loop_backs_off:
  assumes "backoff w = 0" and "nextAttempt w = None" and "0 < minBackoff w" and "minBackoff w \<le> maxBackoff w"
    and "Desired c"
  shows "let w' = fst (crash_loop ((t, sp) # xs) (w, c));
             ts = t # attempts (minBackoff w) (maxBackoff w) 1 (t + minBackoff w) (map fst xs) in
    restarts w' = restarts w + length ts \<and> backoff w' = min (minBackoff w * 2 ^ (length ts - 1)) (maxBackoff w) \<and>
    lastRestart w' = Some (last ts) \<and> nextAttempt w' = Some (last ts + backoff w')"
proof -
  obtain w1 c1 where k: "core_tick t sp (w, crash c) = (w1, c1)" by fastforce
  have "\<not> in_window t w" using assms by (simp add: in_window_def)
  note st = crash_loop_step [OF k assms(5) this]
  have b: "backoff w1 = minBackoff w" using st(2) assms by (simp add: next_backoff_def)
  have "crash_loop ((t, sp) # xs) (w, c) = crash_loop xs (w1, c1)" using k by simp
  then show ?thesis
    using crash_loop_attempts [of c1 w1 0 t _ xs, OF st(5) _ _ _ st(4,3) refl refl] st(1,6,7) assms(3,4) b
    by (simp add: Let_def)
qed

subsection \<open>Deliberate stops between the reads of a tick\<close>

text \<open>The tick reads \<^verbatim>\<open>Desired\<close>, then \<^verbatim>\<open>Alive\<close>, then charges the backoff, then restarts, then keeps the
  books, taking and releasing locks in between; the users of the supervisor start and stop the core at
  any of these points. \<^verbatim>\<open>atomic\<close> says whether the supervisor offers \<^verbatim>\<open>StartIfDesiredDead\<close>.\<close>

datatype wpc =
    WIdle | WSawDesired | WSawDead int | WCharged int core_wd
  | WRestarted int core_wd "core_err option \<times> bool"

datatype intent = UserStart | UserStop | WatchdogStart

record wsys =
  wd :: core_wd
  co :: core
  wpc :: wpc
  history :: "intent list"   \<comment> \<open>newest first\<close>

definition init_wsys :: wsys where
  "init_wsys = \<lparr>wd = new_watchdog, co = new_core, wpc = WIdle, history = []\<rparr>"

definition wrestart :: "bool \<Rightarrow> int \<Rightarrow> spawn \<Rightarrow> core \<Rightarrow> (core_err option \<times> bool) \<times> core" where
  "wrestart atomic now sp =
     (if atomic then restart_atomic (StartIfDesiredDead now sp) else restart_legacy (Start now sp))"

inductive wstep :: "bool \<Rightarrow> wsys \<Rightarrow> wsys \<Rightarrow> bool" for atomic where
  user_start: "Start now sp (co s) = (None, c) \<Longrightarrow> wstep atomic s (s\<lparr>co := c, history := UserStart # history s\<rparr>)"
| user_stop: "stop_begin (co s) = (p, c) \<Longrightarrow> wstep atomic s (s\<lparr>co := c, history := UserStop # history s\<rparr>)"
| reload_failed: "wstep atomic s (s\<lparr>co := (co s)\<lparr>desired := True\<rparr>, history := UserStart # history s\<rparr>)"
| exits: "wstep atomic s (s\<lparr>co := process_exit p e (co s)\<rparr>)"
| see_desired: "wpc s = WIdle \<Longrightarrow>
    wstep atomic s (if Desired (co s) then s\<lparr>wpc := WSawDesired\<rparr> else s\<lparr>wd := clearBackoff (wd s)\<rparr>)"
| see_alive: "wpc s = WSawDesired \<Longrightarrow>
    wstep atomic s (if Alive (co s) then s\<lparr>wd := settle now (wd s), wpc := WIdle\<rparr> else s\<lparr>wpc := WSawDead now\<rparr>)"
| wait: "wpc s = WSawDead now \<Longrightarrow> charge now (wd s) = None \<Longrightarrow> wstep atomic s (s\<lparr>wpc := WIdle\<rparr>)"
| charged: "wpc s = WSawDead now \<Longrightarrow> charge now (wd s) = Some w1 \<Longrightarrow>
    wstep atomic s (s\<lparr>wd := w1, wpc := WCharged now (wd s)\<rparr>)"
| restarted: "wpc s = WCharged now prev \<Longrightarrow> wrestart atomic now sp (co s) = (r, c) \<Longrightarrow>
    wstep atomic s (s\<lparr>co := c, wpc := WRestarted now prev r,
      history := (if next_pid c = next_pid (co s) then history s else WatchdogStart # history s)\<rparr>)"
| deliberate: "wpc s = WRestarted now prev (err, True) \<Longrightarrow>
    wstep atomic s (s\<lparr>wd := undo_charge prev (wd s), wpc := WIdle\<rparr>)"
| accounted: "wpc s = WRestarted now prev (err, False) \<Longrightarrow>
    wstep atomic s (s\<lparr>wd := account now err (wd s), wpc := WIdle\<rparr>)"

inductive wreach :: "bool \<Rightarrow> wsys \<Rightarrow> bool" for atomic where
  wstart: "wreach atomic init_wsys"
| wnext: "wreach atomic s \<Longrightarrow> wstep atomic s s' \<Longrightarrow> wreach atomic s'"

inductive_cases wstepE: "wstep atomic s s'"

text \<open>What the user last asked for.\<close>

fun wanted :: "intent list \<Rightarrow> bool" where
  "wanted [] = False"
| "wanted (UserStart # _) = True"
| "wanted (UserStop # _) = False"
| "wanted (WatchdogStart # hs) = wanted hs"

fun obeys :: "intent list \<Rightarrow> bool" where
  "obeys [] = True"
| "obeys (WatchdogStart # hs) = (wanted hs \<and> obeys hs)"
| "obeys (_ # hs) = obeys hs"

lemma Start_ok_desired: "Start now sp c = (None, c') \<Longrightarrow> desired c'"
  by (auto simp: Start_def startLocked_def split: if_splits spawn.splits)

lemma atomic_restart_intent:
  assumes "restart_atomic (StartIfDesiredDead now sp) c = (r, c')"
  shows "desired c' = desired c" and "next_pid c' \<noteq> next_pid c \<Longrightarrow> desired c"
  using assms by (auto simp: restart_atomic_def StartIfDesiredDead_def startLocked_def split: if_splits spawn.splits)

lemma wstep_obeys:
  assumes "wstep True s s'" and "desired (co s) = wanted (history s) \<and> obeys (history s)"
  shows "desired (co s') = wanted (history s') \<and> obeys (history s')"
  using assms
proof (induction rule: wstep.induct)
  case (restarted s now prev sp r c)
  from restarted(2) have r: "restart_atomic (StartIfDesiredDead now sp) (co s) = (r, c)" by (simp add: wrestart_def)
  show ?case using atomic_restart_intent [OF r] restarted(3) by auto
qed (auto simp: stop_begin_def process_exit_def dest: Start_ok_desired)

lemma wreach_obeys: "wreach True s \<Longrightarrow> desired (co s) = wanted (history s) \<and> obeys (history s)"
proof (induction rule: wreach.induct)
  case wstart
  then show ?case by (simp add: init_wsys_def new_core_def)
next
  case (wnext s s')
  then show ?case using wstep_obeys by blast
qed

lemma obeys_split: "obeys (later @ WatchdogStart # earlier) \<Longrightarrow> wanted earlier"
  by (induction later rule: obeys.induct) auto

text \<open>C19. The watchdog never brings back a core that was deliberately stopped: at whatever point of its tick
  the stop lands, every process it has started was started at a time when the last thing the users had
  asked for was to run.\<close>

theorem watchdog_never_resurrects:
  assumes "wreach True s" and "history s = later @ WatchdogStart # earlier"
  shows "wanted earlier"
  using wreach_obeys [OF assms(1)] obeys_split [of later earlier] unfolding assms(2) by blast

text \<open>The start, the crash and the first half of a tick, up to the charged backoff.\<close>

definition crashed_core :: core where
  "crashed_core = process_exit 0 None (snd (Start 0 Spawned new_core))"

definition example_charged :: wsys where
  "example_charged = \<lparr>wd = new_watchdog\<lparr>backoff := 1000000000, nextAttempt := Some 1000000005\<rparr>, co = crashed_core,
     wpc = WCharged 5 new_watchdog, history = [UserStart]\<rparr>"

lemmas wtrace_simps = init_wsys_def crashed_core_def example_charged_def new_core_def new_watchdog_def Start_def
  startLocked_def process_exit_def aliveLocked_def Alive_def Desired_def stop_begin_def

lemma example_charged_reach: "wreach atomic example_charged"
proof -
  let ?c0 = "snd (Start 0 Spawned new_core)"
  let ?s1 = "init_wsys\<lparr>co := ?c0, history := [UserStart]\<rparr>"
  let ?s2 = "?s1\<lparr>co := crashed_core\<rparr>"
  let ?s3 = "?s2\<lparr>wpc := WSawDesired\<rparr>"
  let ?s4 = "?s2\<lparr>wpc := WSawDead 5\<rparr>"
  have 1: "wreach atomic ?s1"
    using wnext [OF wstart user_start [of 0 Spawned init_wsys ?c0]] by (simp add: init_wsys_def Start_def startLocked_def new_core_def aliveLocked_def)
  have 2: "wreach atomic ?s2" using wnext [OF 1 exits [of _ ?s1 0 None]] by (simp add: crashed_core_def)
  have 3: "wreach atomic ?s3" using wnext [OF 2 see_desired [of ?s2]] by (simp add: wtrace_simps)
  have 4: "wreach atomic ?s4" using wnext [OF 3 see_alive [of ?s3 _ 5]] by (simp add: wtrace_simps)
  have c: "charge 5 (wd ?s4) = Some (new_watchdog\<lparr>backoff := 1000000000, nextAttempt := Some 1000000005\<rparr>)"
    by (simp add: wtrace_simps charge_def in_window_def next_backoff_def)
  have "wstep atomic ?s4 (?s4\<lparr>wd := new_watchdog\<lparr>backoff := 1000000000, nextAttempt := Some 1000000005\<rparr>, wpc := WCharged 5 (wd ?s4)\<rparr>)"
    by (rule charged [OF _ c]) simp
  from wnext [OF 4 this] show ?thesis by (simp add: example_charged_def init_wsys_def)
qed

text \<open>The optional interface is what makes this safe: with the legacy path that calls \<^verbatim>\<open>Start\<close>
  unconditionally, a stop that lands between the liveness check and the restart is overtaken, and the
  stopped core is running again.\<close>

theorem legacy_restart_resurrects:
  "\<exists>s earlier. wreach False s \<and> history s = WatchdogStart # earlier \<and> \<not> wanted earlier \<and> Alive (co s)"
proof -
  let ?stop = "snd (stop_begin crashed_core)"
  let ?s1 = "example_charged\<lparr>co := ?stop, history := [UserStop, UserStart]\<rparr>"
  let ?c = "snd (Start 5 Spawned ?stop)"
  have "stop_begin (co example_charged) = (fst (stop_begin crashed_core), ?stop)" by (simp add: example_charged_def)
  from wnext [OF example_charged_reach user_stop [OF this]] have 1: "wreach False ?s1"
    by (simp add: example_charged_def)
  have r: "wrestart False 5 Spawned (co ?s1) = ((None, False), ?c)"
    by (simp add: wrestart_def restart_legacy_def wtrace_simps)
  let ?s2 = "?s1\<lparr>co := ?c, wpc := WRestarted 5 new_watchdog (None, False), history := [WatchdogStart, UserStop, UserStart]\<rparr>"
  have "wstep False ?s1 ?s2"
    using restarted [OF _ r, of new_watchdog] by (simp add: wtrace_simps)
  from wnext [OF 1 this] have "wreach False ?s2" .
  moreover have "Alive (co ?s2)" by (simp add: wtrace_simps)
  ultimately show ?thesis by (intro exI [of _ ?s2] exI [of _ "[UserStop, UserStart]"]) simp
qed

subsection \<open>Witnesses\<close>

theorem watchdog_restarts_crashed_core_witness:
  "let (w', c') = core_tick 7 Spawned (new_watchdog, crashed_core)
   in Desired crashed_core \<and> \<not> Alive crashed_core \<and> restarts w' = 1 \<and> backoff w' \<le> 60000000000 \<and> Alive c'"
proof -
  obtain w' c' where t: "core_tick 7 Spawned (new_watchdog, crashed_core) = (w', c')" by fastforce
  have d: "Desired crashed_core" "\<not> Alive crashed_core" "backoff_ok (new_watchdog :: core_wd)"
    by (simp_all add: wtrace_simps backoff_ok_def)
  have "lastErr w' = None"
    using t by (auto simp: core_tick_def tick_def charge_def in_window_def restart_atomic_def StartIfDesiredDead_def wtrace_simps account_def Let_def)
  moreover have "\<not> in_window 7 (new_watchdog :: core_wd)" by (simp add: in_window_def new_watchdog_def)
  ultimately show ?thesis
    using watchdog_restarts_crashed_core [OF t d] d t by (simp add: new_watchdog_def)
qed

text \<open>Checks every three seconds: the core is restarted at 0, 3, 6 and 12 seconds, and next at 20.\<close>

theorem crash_loop_backs_off_witness:
  "let w' = fst (crash_loop [(0, Spawned), (3000000000, Spawned), (6000000000, SpawnFails), (9000000000, Spawned),
       (12000000000, Spawned), (15000000000, Spawned), (18000000000, Spawned)] (new_watchdog, crashed_core)) in
     restarts w' = 4 \<and> backoff w' = 8000000000 \<and> nextAttempt w' = Some 20000000000"
proof -
  have p: "backoff (new_watchdog :: core_wd) = 0" "nextAttempt (new_watchdog :: core_wd) = None"
    "0 < minBackoff (new_watchdog :: core_wd)" "minBackoff (new_watchdog :: core_wd) \<le> maxBackoff (new_watchdog :: core_wd)"
    "Desired crashed_core"
    by (simp_all add: wtrace_simps)
  show ?thesis
    using crash_loop_backs_off [OF p, of 0 Spawned "[(3000000000, Spawned), (6000000000, SpawnFails), (9000000000, Spawned),
      (12000000000, Spawned), (15000000000, Spawned), (18000000000, Spawned)]"]
    by (simp add: new_watchdog_def Let_def del: crash_loop.simps)
qed

theorem watchdog_never_resurrects_witness:
  "\<exists>s. wreach True s \<and> history s = [] @ WatchdogStart # [UserStart] \<and> wanted [UserStart]"
proof -
  let ?c = "snd (Start 5 Spawned crashed_core)"
  have r: "wrestart True 5 Spawned (co example_charged) = ((None, False), ?c)"
    by (simp add: wrestart_def restart_atomic_def StartIfDesiredDead_def wtrace_simps)
  let ?s = "example_charged\<lparr>co := ?c, wpc := WRestarted 5 new_watchdog (None, False), history := [WatchdogStart, UserStart]\<rparr>"
  have "wstep True example_charged ?s"
    using restarted [OF _ r, of new_watchdog] by (simp add: wtrace_simps)
  from wnext [OF example_charged_reach this] have s: "wreach True ?s" .
  have h: "history ?s = [] @ WatchdogStart # [UserStart]" by simp
  from s h watchdog_never_resurrects [OF s h] show ?thesis by blast
qed

end
