(* ===== verification/Pbr_Prefix.thy ===== *)
theory Pbr_Prefix
  imports Netip
begin

text \<open>
  The set algebra of \<^verbatim>\<open>internal/pbr/pbr.go\<close>: classifying list entries into prefixes, collapsing
  overlapping prefixes into the disjoint sorted set that an nftables interval set requires, normalising
  domains and making ids safe as nftables identifiers.
\<close>

subsection \<open>collapsePrefixes\<close>

definition by_bits :: "prefix \<Rightarrow> nat \<times> nat \<times> nat \<times> string" where
  "by_bits p = (pfx_bits p, addr_key (pfx_addr p))"

definition by_addr :: "prefix \<Rightarrow> (nat \<times> nat \<times> string) \<times> nat" where
  "by_addr p = (addr_key (pfx_addr p), pfx_bits p)"

definition covers :: "prefix \<Rightarrow> prefix \<Rightarrow> bool" where
  "covers q p = (pfx_bits q \<le> pfx_bits p \<and> prefix_contains q (pfx_addr p))"

fun keep_uncovered :: "prefix list \<Rightarrow> prefix list \<Rightarrow> prefix list" where
  "keep_uncovered kept [] = kept"
| "keep_uncovered kept (p # ps) =
     (if list_ex (\<lambda>q. covers q p) kept then keep_uncovered kept ps else keep_uncovered (kept @ [p]) ps)"

definition collapsePrefixes :: "prefix list \<Rightarrow> prefix list" where
  "collapsePrefixes ps = sort_key by_addr (keep_uncovered [] (sort_key by_bits ps))"

text \<open>No address lies in both.\<close>

definition apart :: "prefix \<Rightarrow> prefix \<Rightarrow> bool" where
  "apart p q = (\<forall>a. \<not> (prefix_contains p a \<and> prefix_contains q a))"

definition disjoint_list :: "prefix list \<Rightarrow> bool" where
  "disjoint_list ps = (distinct ps \<and> (\<forall>p \<in> set ps. \<forall>q \<in> set ps. p \<noteq> q \<longrightarrow> apart p q))"

lemma apart_sym: "apart p q \<Longrightarrow> apart q p"
  by (auto simp: apart_def)

lemma covers_contains: "covers q p \<Longrightarrow> prefix_contains p a \<Longrightarrow> prefix_contains q a"
  using contains_mono by (auto simp: covers_def)

lemma uncovered_apart:
  assumes "\<not> covers q p" and "pfx_bits q \<le> pfx_bits p" and "zone (pfx_addr p) = []"
  shows "apart q p"
  using assms share_nested [of p _ q] by (auto simp: apart_def covers_def)

lemma set_keep_subset: "set (keep_uncovered kept ps) \<subseteq> set kept \<union> set ps"
  by (induction kept ps rule: keep_uncovered.induct) auto

lemma kept_in_keep: "set kept \<subseteq> set (keep_uncovered kept ps)"
  by (induction kept ps rule: keep_uncovered.induct) auto

lemma keep_covers: "p \<in> set ps \<Longrightarrow> \<exists>q \<in> set (keep_uncovered kept ps). q = p \<or> covers q p"
proof (induction kept ps rule: keep_uncovered.induct)
  case (2 kept x ps)
  show ?case
  proof (cases "list_ex (\<lambda>q. covers q x) kept")
    case True
    then obtain q where q: "q \<in> set kept" "covers q x" by (auto simp: list_ex_iff)
    then have "q \<in> set (keep_uncovered kept ps)" using kept_in_keep by blast
    with 2 True q show ?thesis by (cases "p = x") auto
  next
    case False
    have "x \<in> set (keep_uncovered (kept @ [x]) ps)" using kept_in_keep by fastforce
    with 2 False show ?thesis by (cases "p = x") auto
  qed
qed simp

lemma keep_disjoint:
  assumes "disjoint_list kept" and "\<forall>p \<in> set ps. prefix_wf p"
    and "\<forall>q \<in> set kept. \<forall>p \<in> set ps. pfx_bits q \<le> pfx_bits p" and "sorted (map by_bits ps)"
  shows "disjoint_list (keep_uncovered kept ps)"
  using assms
proof (induction kept ps rule: keep_uncovered.induct)
  case (2 kept p ps)
  show ?case
  proof (cases "list_ex (\<lambda>q. covers q p) kept")
    case True
    with 2 show ?thesis by simp
  next
    case False
    have wf: "prefix_wf p" using 2(4) by simp
    have ap: "apart q p" if "q \<in> set kept" for q
      using that False 2(5) wf by (intro uncovered_apart) (auto simp: list_ex_iff prefix_wf_def)
    have "p \<notin> set kept"
      using False contains_own_addr [OF wf] by (auto simp: list_ex_iff covers_def)
    with ap 2(3) have "disjoint_list (kept @ [p])"
      by (auto simp: disjoint_list_def intro: apart_sym)
    moreover have "\<forall>x \<in> set ps. pfx_bits p \<le> pfx_bits x"
      using 2(6) by (auto simp: by_bits_def less_eq_prod_def)
    ultimately show ?thesis using False 2 by auto
  qed
qed simp

lemma disjoint_perm: "set ps = set qs \<Longrightarrow> distinct qs \<Longrightarrow> disjoint_list ps \<Longrightarrow> disjoint_list qs"
  by (simp add: disjoint_list_def)

lemma collapse_disjoint:
  assumes "\<forall>p \<in> set ps. prefix_wf p"
  shows "disjoint_list (collapsePrefixes ps)"
proof -
  have "disjoint_list (keep_uncovered [] (sort_key by_bits ps))"
    by (rule keep_disjoint) (use assms in \<open>auto simp: disjoint_list_def\<close>)
  then show ?thesis unfolding collapsePrefixes_def
    by (rule disjoint_perm [rotated 2]) (use \<open>disjoint_list (keep_uncovered [] (sort_key by_bits ps))\<close> in \<open>simp_all add: disjoint_list_def\<close>)
qed

lemma collapse_subset: "set (collapsePrefixes ps) \<subseteq> set ps"
  using set_keep_subset [of "[]" "sort_key by_bits ps"] by (auto simp: collapsePrefixes_def)

lemma collapse_union:
  "(\<exists>p \<in> set (collapsePrefixes ps). prefix_contains p a) \<longleftrightarrow> (\<exists>p \<in> set ps. prefix_contains p a)"
proof
  assume "\<exists>p \<in> set ps. prefix_contains p a"
  then obtain p where p: "p \<in> set ps" "prefix_contains p a" by blast
  then obtain q where "q \<in> set (collapsePrefixes ps)" "q = p \<or> covers q p"
    using keep_covers [of p "sort_key by_bits ps" "[]"] by (auto simp: collapsePrefixes_def)
  then show "\<exists>p \<in> set (collapsePrefixes ps). prefix_contains p a" using p covers_contains by blast
qed (use collapse_subset in blast)

text \<open>Collapsing yields a set that an nftables interval set accepts and that matches exactly the same
  traffic: the kept prefixes are among the given ones, pairwise disjoint and in ascending order, and an
  address is matched by one of them if and only if it was matched by one of the given prefixes.\<close>

theorem collapsePrefixes_correct:
  assumes "\<forall>p \<in> set ps. prefix_wf p"
  shows "set (collapsePrefixes ps) \<subseteq> set ps \<and> disjoint_list (collapsePrefixes ps) \<and>
    sorted (map by_addr (collapsePrefixes ps)) \<and>
    (\<forall>a. (\<exists>p \<in> set (collapsePrefixes ps). prefix_contains p a) \<longleftrightarrow> (\<exists>p \<in> set ps. prefix_contains p a))"
  using collapse_subset collapse_disjoint [OF assms] collapse_union by (simp add: collapsePrefixes_def)

definition example_prefixes :: "prefix list" where
  "example_prefixes = [Prefix (V4 1297625856) 24, Prefix (V4 1297612800) 16, Prefix (V4 167772160) 8]"

theorem collapsePrefixes_correct_witness:
  "list_all prefix_wf example_prefixes \<and>
   collapsePrefixes example_prefixes = [Prefix (V4 167772160) 8, Prefix (V4 1297612800) 16] \<and>
   disjoint_list (collapsePrefixes example_prefixes)"
proof -
  have wf: "\<forall>p \<in> set example_prefixes. prefix_wf p" by code_simp
  moreover have "collapsePrefixes example_prefixes = [Prefix (V4 167772160) 8, Prefix (V4 1297612800) 16]" by code_simp
  ultimately show ?thesis using collapsePrefixes_correct [OF wf] by (simp add: list_all_iff)
qed

subsection \<open>classifyCIDRs\<close>

datatype entry = Blank_Entry | Bad_Entry string | Pfx_Entry prefix

definition classify_entry :: "string \<Rightarrow> entry" where
  "classify_entry s0 =
     (let s = trim_space s0 in
      if s = [] then Blank_Entry
      else if contains_str s ''/'' then
        (case parse_prefix s of None \<Rightarrow> Bad_Entry s | Some p \<Rightarrow> Pfx_Entry (masked p))
      else
        (case parse_addr s of
           None \<Rightarrow> Bad_Entry s
         | Some a \<Rightarrow> Pfx_Entry (prefix_from a (if is6 a then 128 else 32))))"

fun entry_prefixes :: "entry list \<Rightarrow> prefix list" where
  "entry_prefixes [] = []"
| "entry_prefixes (Pfx_Entry p # es) = p # entry_prefixes es"
| "entry_prefixes (_ # es) = entry_prefixes es"

fun entry_bads :: "entry list \<Rightarrow> string list" where
  "entry_bads [] = []"
| "entry_bads (Bad_Entry s # es) = s # entry_bads es"
| "entry_bads (_ # es) = entry_bads es"

definition family_prefixes :: "bool \<Rightarrow> string list \<Rightarrow> prefix list" where
  "family_prefixes six ss =
     dedup_seen show_prefix [] (filter (\<lambda>p. is6 (pfx_addr p) = six) (entry_prefixes (map classify_entry ss)))"

definition classifyCIDRs :: "string list \<Rightarrow> string list \<times> string list \<times> string list" where
  "classifyCIDRs ss =
     (map show_prefix (collapsePrefixes (family_prefixes False ss)),
      map show_prefix (collapsePrefixes (family_prefixes True ss)),
      entry_bads (map classify_entry ss))"

text \<open>For evaluation: the entries are parsed once.\<close>

definition family_texts :: "prefix list \<Rightarrow> bool \<Rightarrow> string list" where
  "family_texts ps six = map show_prefix (collapsePrefixes (dedup_seen show_prefix [] (filter (\<lambda>p. is6 (pfx_addr p) = six) ps)))"

definition entry_classes :: "entry list \<Rightarrow> string list \<times> string list \<times> string list" where
  "entry_classes es = (family_texts (entry_prefixes es) False, family_texts (entry_prefixes es) True, entry_bads es)"

lemma classifyCIDRs_code [code]: "classifyCIDRs ss = entry_classes (map classify_entry ss)"
  by (simp add: classifyCIDRs_def family_prefixes_def family_texts_def entry_classes_def)

abbreviation cidrs4 :: "string list \<Rightarrow> string list" where "cidrs4 ss \<equiv> fst (classifyCIDRs ss)"
abbreviation cidrs6 :: "string list \<Rightarrow> string list" where "cidrs6 ss \<equiv> fst (snd (classifyCIDRs ss))"
abbreviation bad_cidrs :: "string list \<Rightarrow> string list" where "bad_cidrs ss \<equiv> snd (snd (classifyCIDRs ss))"

lemma set_entry_prefixes: "set (entry_prefixes es) = {p. Pfx_Entry p \<in> set es}"
  by (induction es rule: entry_prefixes.induct) auto

text \<open>The entry matches the address.\<close>

definition entry_matches :: "string \<Rightarrow> addr \<Rightarrow> bool" where
  "entry_matches s a = (case classify_entry s of Pfx_Entry p \<Rightarrow> prefix_contains p a | _ \<Rightarrow> False)"

lemma entry_matches_iff: "entry_matches s a \<longleftrightarrow> (\<exists>p. classify_entry s = Pfx_Entry p \<and> prefix_contains p a)"
  by (simp add: entry_matches_def split: entry.splits)

lemma parse_addr_v4_wf:
  assumes "parse_addr s = Some a" and "\<not> is6 a"
  shows "addr_wf a"
proof (cases a)
  case (V4 n)
  with assms(1) have "parse_ipv4 s = Some n"
    by (auto simp: parse_addr_def parse_ipv6_def Let_def split: option.splits if_splits)
  with V4 show ?thesis using parse_ipv4_bound [of s n] by (simp add: addr_wf_def)
qed (use assms in simp)

lemma parse_prefix_v4_wf: "parse_prefix s = Some p \<Longrightarrow> \<not> is6 (pfx_addr p) \<Longrightarrow> prefix_wf p"
proof -
  assume "parse_prefix s = Some p" "\<not> is6 (pfx_addr p)"
  then obtain a b n where "parse_addr a = Some n" "p = prefix_from n b" "b \<le> bit_len n" "\<not> is6 n"
    by (auto simp: parse_prefix_def prefix_from_def split: option.splits prod.splits if_splits)
  then show ?thesis
    using parse_addr_v4_wf by (auto simp: prefix_wf_def prefix_from_def addr_wf_def)
qed

lemma classify_entry_v4_wf:
  assumes "classify_entry s = Pfx_Entry p" and "\<not> is6 (pfx_addr p)"
  shows "prefix_wf p"
proof -
  have "prefix_wf (prefix_from a 32)" if "parse_addr t = Some a" "\<not> is6 a" for t a
    using that parse_addr_v4_wf [OF that] by (simp add: prefix_wf_def prefix_from_def bit_len_eq addr_wf_def)
  with assms show ?thesis
    by (auto simp: classify_entry_def Let_def prefix_from_def masked_wf parse_prefix_v4_wf
        split: if_splits option.splits)
qed

lemma family4_wf: "p \<in> set (family_prefixes False ss) \<Longrightarrow> prefix_wf p \<and> \<not> is6 (pfx_addr p)"
  using set_dedup_seen_subset [of show_prefix "[]"] classify_entry_v4_wf
  by (fastforce simp: family_prefixes_def set_entry_prefixes)

lemma set_family4:
  "set (family_prefixes False ss) = {p. Pfx_Entry p \<in> classify_entry ` set ss \<and> \<not> is6 (pfx_addr p)}"
proof -
  let ?ps = "filter (\<lambda>p. is6 (pfx_addr p) = False) (entry_prefixes (map classify_entry ss))"
  have "inj_on show_prefix (set ?ps)"
    by (rule inj_onI) (auto simp: set_entry_prefixes intro: show_prefix_v4_inj classify_entry_v4_wf [OF sym])
  then show ?thesis
    unfolding family_prefixes_def by (subst set_dedup_seen_inj) (auto simp: set_entry_prefixes)
qed

lemma classifyCIDRs_v4_spec:
  "\<exists>ps. map parse_prefix (cidrs4 ss) = map Some ps \<and> disjoint_list ps \<and>
     (\<forall>n. (\<exists>p \<in> set ps. prefix_contains p (V4 n)) \<longleftrightarrow> (\<exists>s \<in> set ss. entry_matches s (V4 n)))"
proof -
  let ?ps = "collapsePrefixes (family_prefixes False ss)"
  have wf: "\<forall>p \<in> set ?ps. prefix_wf p \<and> \<not> is6 (pfx_addr p)" using collapse_subset family4_wf by blast
  then have "map parse_prefix (cidrs4 ss) = map Some ?ps"
    by (simp add: classifyCIDRs_def parse_show_prefix_v4)
  moreover have "disjoint_list ?ps" using collapse_disjoint family4_wf by blast
  moreover have "(\<exists>p \<in> set ?ps. prefix_contains p (V4 n)) \<longleftrightarrow> (\<exists>s \<in> set ss. entry_matches s (V4 n))" for n
  proof -
    have "prefix_contains p (V4 n) \<Longrightarrow> \<not> is6 (pfx_addr p)" for p by (simp add: prefix_contains_def)
    then show ?thesis
      unfolding collapse_union set_family4 entry_matches_iff by (simp add: image_iff) metis
  qed
  ultimately show ?thesis by blast
qed

text \<open>The IPv4 set of a list matches what the list says: whatever the entries, every element of the
  compiled set is a well-formed IPv4 prefix, the elements are pairwise disjoint, and an IPv4 address is in
  the set if and only if it is matched by some entry of the list.\<close>

theorem classifyCIDRs_v4_exact:
  "\<exists>ps. map parse_prefix (cidrs4 ss) = map Some ps \<and> disjoint_list ps \<and>
     (\<forall>n. (\<exists>p \<in> set ps. prefix_contains p (V4 n)) \<longleftrightarrow> (\<exists>s \<in> set ss. entry_matches s (V4 n)))"
  by (rule classifyCIDRs_v4_spec)

subsection \<open>normalizeDomains and nftName\<close>

definition domain_ok :: "string \<Rightarrow> bool" where
  "domain_ok s = (s \<noteq> [] \<and> \<not> list_ex (\<lambda>c. List.member [CHR '' '', CHR 0x09, CHR ''#'', CHR ''!'', CHR ''/''] c) s \<and>
     contains_str s ''.'')"

definition normalize_domain :: "string \<Rightarrow> string" where
  "normalize_domain s = trim_prefix (trim_prefix (to_lower (trim_space s)) ''*.'') ''.''"

definition normalizeDomains :: "string list \<Rightarrow> string list" where
  "normalizeDomains ss = sort (dedup_seen (\<lambda>s. s) [] (filter domain_ok (map normalize_domain ss)))"

text \<open>The length of the first rune of a string, one for an invalid byte: how \<^verbatim>\<open>range\<close> walks a Go
  string.\<close>

definition byte_in :: "nat \<Rightarrow> nat \<Rightarrow> string \<Rightarrow> nat \<Rightarrow> bool" where
  "byte_in lo hi s i = (i < length s \<and> lo \<le> of_char (s ! i) \<and> of_char (s ! i) \<le> hi)"

definition rune_len :: "string \<Rightarrow> nat" where
  "rune_len s =
     (let cont = byte_in 0x80 0xBF s; first = (\<lambda>lo hi. byte_in lo hi s 0); second = (\<lambda>lo hi. byte_in lo hi s 1) in
      if first 0xC2 0xDF \<and> cont 1 then 2
      else if (first 0xE0 0xE0 \<and> second 0xA0 0xBF \<or> first 0xE1 0xEC \<and> cont 1 \<or> first 0xED 0xED \<and> second 0x80 0x9F \<or>
               first 0xEE 0xEF \<and> cont 1) \<and> cont 2 then 3
      else if (first 0xF0 0xF0 \<and> second 0x90 0xBF \<or> first 0xF1 0xF3 \<and> cont 1 \<or> first 0xF4 0xF4 \<and> second 0x80 0x8F) \<and>
              cont 2 \<and> cont 3 then 4
      else 1)"

definition nft_char :: "char \<Rightarrow> bool" where
  "nft_char c = (in_range (CHR ''a'') (CHR ''z'') c \<or> in_range (CHR ''A'') (CHR ''Z'') c \<or> is_digit c \<or> c = CHR ''_'')"

function nftName :: "string \<Rightarrow> string" where
  "nftName [] = []"
| "nftName (c # s) =
     (let n = rune_len (c # s) in
      (if n = 1 \<and> nft_char c then c else CHR ''_'') # nftName (drop (n - 1) s))"
  by pat_completeness auto
termination by (relation "measure length") auto

lemma nftName_chars: "list_all nft_char (nftName s)"
proof (induction s rule: nftName.induct)
  case (2 c s)
  then show ?case by (simp add: Let_def nft_char_def)
qed simp

lemma normalizeDomains_props:
  "distinct (normalizeDomains ss) \<and> sorted (normalizeDomains ss) \<and> list_all domain_ok (normalizeDomains ss)"
  using distinct_dedup_seen [of "\<lambda>s. s" "[]"] set_dedup_seen_subset [of "\<lambda>s. s" "[]"]
  by (fastforce simp: normalizeDomains_def list_all_iff)

end
