(* ===== verification/Pbr.thy ===== *)
theory Pbr
  imports Pbr_Prefix Validate "HOL-Library.Word"
begin

text \<open>
  \<^verbatim>\<open>internal/pbr/pbr.go\<close>: compiling a profile into the kernel policy-routing plan. Firewall marks are
  32-bit words, so their multiplication wraps as in Go. The compiler's local state (zones, names and
  egresses used so far, warnings) is a record that its closures thread through.
\<close>

subsection \<open>Data\<close>

datatype egress_kind = EgressNone | EgressWAN | EgressInterface | EgressBlackhole

record egress =
  eg_tag :: string
  eg_kind :: egress_kind
  eg_iface :: string
  eg_mark :: "32 word"
  eg_table :: int
  eg_fail_closed :: bool

record zone =
  z_name :: string
  z_egress :: string
  z_mark :: "32 word"
  z_v4 :: "string list"
  z_v6 :: "string list"
  z_domains :: "string list"
  z_src_v4 :: "string list"
  z_src_v6 :: "string list"
  z_src_mac :: "string list"
  z_src_iface :: "string list"
  z_src_port :: "int list"
  z_src_scoped :: bool

datatype warn_msg =
    ProxyNotRouted string | GroupPrimary string string | GroupNoKernel string | UnknownOutbound string
  | SkippedEntry string | NameCollided string | DomainNotRouted | GeoipNotRouted | RemoteNotRouted string
  | OffloadNoDevices | OffloadUnknown string

type_synonym warning = "string \<times> warn_msg"

record flowtable =
  ft_devices :: "string list"
  ft_hw :: bool

record plan =
  pl_table :: string
  pl_mask :: "32 word"
  pl_egresses :: "egress list"
  pl_zones :: "zone list"
  pl_bypass_v4 :: "string list"
  pl_bypass_v6 :: "string list"
  pl_flowtable :: "flowtable option"
  pl_masq :: "string list"

record options =
  o_table :: string
  o_mask :: "32 word"
  o_step :: "32 word"
  o_table_base :: int
  o_wan_table :: int
  o_rule_pref :: int
  o_offload :: string
  o_devices :: "string list"
  o_collect :: bool

definition no_options :: options where
  "no_options = \<lparr>o_table = [], o_mask = 0, o_step = 0, o_table_base = 0, o_wan_table = 0, o_rule_pref = 0,
     o_offload = [], o_devices = [], o_collect = False\<rparr>"

definition withDefaults :: "options \<Rightarrow> options" where
  "withDefaults o1 = o1\<lparr>
     o_table := (if o_table o1 = [] then ''velinx_pbr'' else o_table o1),
     o_mask := (if o_mask o1 = 0 then 0x00ff0000 else o_mask o1),
     o_step := (if o_step o1 = 0 then 0x00010000 else o_step o1),
     o_table_base := (if o_table_base o1 = 0 then 151 else o_table_base o1),
     o_wan_table := (if o_wan_table o1 = 0 then 254 else o_wan_table o1),
     o_rule_pref := (if o_rule_pref o1 = 0 then 150 else o_rule_pref o1)\<rparr>"

subsection \<open>Interfaces and postures\<close>

definition kernelIface :: "endpoint \<Rightarrow> string" where
  "kernelIface e =
     (if ep_engine e = EngineExternal then str_param (ep_params e) ''interface''
      else if ep_engine e = EngineAmneziaWG then AWGIface (ep_id e)
      else [])"

definition isExternalEndpoint :: "profile \<Rightarrow> string \<Rightarrow> bool" where
  "isExternalEndpoint p tag =
     (case EndpointByID p tag of None \<Rightarrow> False | Some e \<Rightarrow> ep_engine e = EngineExternal)"

definition localAddrDeclaresV6 :: "endpoint \<Rightarrow> bool \<times> bool" where
  "localAddrDeclaresV6 e =
     (case ep_params e ''local_address'' of
        None \<Rightarrow> (False, False)
      | Some raw \<Rightarrow>
          (let addrs = (case raw of PStrs ss \<Rightarrow> ss | PList vs \<Rightarrow> any_strings vs | _ \<Rightarrow> []) in
           if addrs = [] then (False, False)
           else (True, list_ex (\<lambda>a. contains_str a '':'') addrs)))"

definition egressV4OnlyPosture :: "profile \<Rightarrow> string \<Rightarrow> bool" where
  "egressV4OnlyPosture p tag =
     (if isExternalEndpoint p tag then True
      else (case EndpointByID p tag of
          None \<Rightarrow> False
        | Some e \<Rightarrow>
            if ep_engine e \<noteq> EngineAmneziaWG then False
            else (case localAddrDeclaresV6 e of (known, hasV6) \<Rightarrow> known \<and> \<not> hasV6)))"

subsection \<open>Egress resolution\<close>

fun first_kernel_member :: "profile \<Rightarrow> string list \<Rightarrow> string option" where
  "first_kernel_member p [] = None"
| "first_kernel_member p (m # ms) =
     (case EndpointByID p m of
        None \<Rightarrow> first_kernel_member p ms
      | Some e \<Rightarrow> if kernelIface e \<noteq> [] then Some (kernelIface e) else first_kernel_member p ms)"

definition resolveEgress :: "profile \<Rightarrow> string \<Rightarrow> string \<Rightarrow> (egress_kind \<times> string \<times> bool) \<times> warning list" where
  "resolveEgress p scope tag =
     (if tag = OutboundDirect \<or> tag = [] then ((EgressWAN, [], True), [])
      else if tag = OutboundBlock then ((EgressBlackhole, [], True), [])
      else case EndpointByID p tag of
        Some e \<Rightarrow>
          if kernelIface e \<noteq> [] then ((EgressInterface, kernelIface e, True), [])
          else ((EgressNone, [], False), [(scope, ProxyNotRouted tag)])
      | None \<Rightarrow>
          (case GroupByID p tag of
             Some g \<Rightarrow>
               (case first_kernel_member p (gr_members g) of
                  Some ifc \<Rightarrow> ((EgressInterface, ifc, True), [(scope, GroupPrimary tag ifc)])
                | None \<Rightarrow> ((EgressNone, [], False), [(scope, GroupNoKernel tag)]))
           | None \<Rightarrow> ((EgressNone, [], False), [(scope, UnknownOutbound tag)])))"

subsection \<open>Zones\<close>

record cstate =
  c_zones :: "zone list"
  c_names :: "string list"
  c_used :: "string list"
  c_warns :: "warning list"

record src_spec =
  ss_cidrs :: "string list"
  ss_mac :: "string list"
  ss_iface :: "string list"
  ss_port :: "int list"

definition warn :: "warning list \<Rightarrow> cstate \<Rightarrow> cstate" where
  "warn ws st = st\<lparr>c_warns := c_warns st @ ws\<rparr>"

text \<open>The loop that numbers a colliding set name. It ends because the numbered names differ and only
  finitely many are taken.\<close>

definition numbered :: "string \<Rightarrow> nat \<Rightarrow> string" where
  "numbered base i = base @ ''_'' @ dec_of_nat i"

lemma numbered_inj: "numbered base i = numbered base j \<longleftrightarrow> i = j"
proof -
  have "dec_of_nat i = dec_of_nat j \<Longrightarrow> i = j" by (metis parse_bits_dec option.inject)
  then show ?thesis by (auto simp: numbered_def)
qed

definition names_from :: "string list \<Rightarrow> string \<Rightarrow> nat \<Rightarrow> string set" where
  "names_from used base i = {n \<in> set used. \<exists>j \<ge> i. n = numbered base j}"

lemma names_from_less:
  assumes "numbered base i \<in> set used"
  shows "card (names_from used base (Suc i)) < card (names_from used base i)"
proof (rule psubset_card_mono)
  show "finite (names_from used base i)" by (simp add: names_from_def)
  have "numbered base i \<notin> names_from used base (Suc i)" by (auto simp: names_from_def numbered_inj)
  moreover have "numbered base i \<in> names_from used base i" using assms by (auto simp: names_from_def)
  moreover have "names_from used base (Suc i) \<subseteq> names_from used base i"
    by (auto simp: names_from_def intro: Suc_leD)
  ultimately show "names_from used base (Suc i) \<subset> names_from used base i" by blast
qed

function fresh_from :: "string list \<Rightarrow> string \<Rightarrow> nat \<Rightarrow> string" where
  "fresh_from used base i =
     (if List.member used (numbered base i) then fresh_from used base (Suc i) else numbered base i)"
  by pat_completeness auto
termination
  by (relation "measure (\<lambda>(used, base, i). card (names_from used base i))") (auto simp: names_from_less)

declare fresh_from.simps [simp del]

definition zone_name :: "string list \<Rightarrow> string \<Rightarrow> string" where
  "zone_name used name = (if List.member used name then fresh_from used name 2 else name)"

text \<open>The entries that are no addresses are domains for the DNS-driven plane, or skipped with a
  warning.\<close>

definition zone_domains :: "options \<Rightarrow> string list \<Rightarrow> string list" where
  "zone_domains opt cidrs = (if o_collect opt then normalizeDomains (bad_cidrs cidrs) else [])"

definition skip_warnings :: "options \<Rightarrow> string \<Rightarrow> string list \<Rightarrow> warning list" where
  "skip_warnings opt scope cidrs =
     (if o_collect opt then [] else map (\<lambda>b. (scope, SkippedEntry b)) (bad_cidrs cidrs))"

definition src_scoped :: "src_spec option \<Rightarrow> bool" where
  "src_scoped src =
     (case src of
        None \<Rightarrow> False
      | Some s \<Rightarrow> cidrs4 (ss_cidrs s) \<noteq> [] \<or> cidrs6 (ss_cidrs s) \<noteq> [] \<or>
          ss_mac s \<noteq> [] \<or> ss_iface s \<noteq> [] \<or> ss_port s \<noteq> [])"

definition new_zone :: "options \<Rightarrow> string \<Rightarrow> string \<Rightarrow> string list \<Rightarrow> src_spec option \<Rightarrow> zone" where
  "new_zone opt nm egTag cidrs src =
     (let z = \<lparr>z_name = nm, z_egress = egTag, z_mark = 0, z_v4 = cidrs4 cidrs, z_v6 = cidrs6 cidrs,
               z_domains = zone_domains opt cidrs, z_src_v4 = [], z_src_v6 = [], z_src_mac = [],
               z_src_iface = [], z_src_port = [], z_src_scoped = False\<rparr>
      in case src of
           None \<Rightarrow> z
         | Some s \<Rightarrow>
             if src_scoped src then
               z\<lparr>z_src_v4 := cidrs4 (ss_cidrs s), z_src_v6 := cidrs6 (ss_cidrs s), z_src_mac := ss_mac s,
                 z_src_iface := ss_iface s, z_src_port := ss_port s, z_src_scoped := True\<rparr>
             else z)"

definition addZone :: "options \<Rightarrow> string \<Rightarrow> string \<Rightarrow> string list \<Rightarrow> src_spec option \<Rightarrow> string \<Rightarrow> cstate \<Rightarrow> cstate" where
  "addZone opt name egTag cidrs src scope st =
     (let st1 = warn (skip_warnings opt scope cidrs) st in
      if cidrs4 cidrs = [] \<and> cidrs6 cidrs = [] \<and> zone_domains opt cidrs = [] \<and> \<not> src_scoped src then st1
      else
        (let nm = zone_name (c_names st1) name;
             st2 = (if List.member (c_names st1) name then warn [(scope, NameCollided nm)] st1 else st1)
         in st2\<lparr>c_names := nm # c_names st2,
                c_used := (if List.member (c_used st2) egTag then c_used st2 else egTag # c_used st2),
                c_zones := c_zones st2 @ [new_zone opt nm egTag cidrs src]\<rparr>))"

text \<open>For evaluation: each list of entries is classified once.\<close>

lemma addZone_code [code]:
  "addZone opt name egTag cidrs src scope st =
     (case classifyCIDRs cidrs of (c4, c6, bad) \<Rightarrow>
       (let doms = (if o_collect opt then normalizeDomains bad else []);
            st1 = warn (if o_collect opt then [] else map (\<lambda>b. (scope, SkippedEntry b)) bad) st;
            src_cls = (case src of None \<Rightarrow> ([], [], []) | Some s \<Rightarrow> classifyCIDRs (ss_cidrs s)) in
        case src_cls of (s4, s6, _) \<Rightarrow>
          (let scoped = (case src of None \<Rightarrow> False
              | Some s \<Rightarrow> s4 \<noteq> [] \<or> s6 \<noteq> [] \<or> ss_mac s \<noteq> [] \<or> ss_iface s \<noteq> [] \<or> ss_port s \<noteq> []) in
           if c4 = [] \<and> c6 = [] \<and> doms = [] \<and> \<not> scoped then st1
           else
             (let nm = zone_name (c_names st1) name;
                  st2 = (if List.member (c_names st1) name then warn [(scope, NameCollided nm)] st1 else st1);
                  z = \<lparr>z_name = nm, z_egress = egTag, z_mark = 0, z_v4 = c4, z_v6 = c6, z_domains = doms, z_src_v4 = [],
                    z_src_v6 = [], z_src_mac = [], z_src_iface = [], z_src_port = [], z_src_scoped = False\<rparr>;
                  z' = (case src of None \<Rightarrow> z
                    | Some s \<Rightarrow> if scoped then z\<lparr>z_src_v4 := s4, z_src_v6 := s6, z_src_mac := ss_mac s,
                        z_src_iface := ss_iface s, z_src_port := ss_port s, z_src_scoped := True\<rparr> else z)
              in st2\<lparr>c_names := nm # c_names st2,
                     c_used := (if List.member (c_used st2) egTag then c_used st2 else egTag # c_used st2),
                     c_zones := c_zones st2 @ [z']\<rparr>))))"
  by (cases "classifyCIDRs cidrs"; cases src)
    (auto simp: addZone_def new_zone_def zone_domains_def skip_warnings_def src_scoped_def Let_def split: prod.splits)

subsection \<open>The two loops\<close>

definition rule_warnings :: "rule \<Rightarrow> warning list" where
  "rule_warnings r =
     (if length (ru_domain r) + length (ru_domain_suffix r) + length (ru_geosite r) > 0
      then [(ru_id r, DomainNotRouted)] else []) @
     (if ru_geoip r \<noteq> [] then [(ru_id r, GeoipNotRouted)] else [])"

text \<open>The v4-only posture applies to tunnels only.\<close>

definition strips_v6 :: "profile \<Rightarrow> egress_kind \<Rightarrow> string \<Rightarrow> bool" where
  "strips_v6 p k tag = (k = EgressInterface \<and> egressV4OnlyPosture p tag)"

definition rule_dest :: "profile \<Rightarrow> egress_kind \<Rightarrow> rule \<Rightarrow> string list" where
  "rule_dest p k r = (if strips_v6 p k (ru_outbound r) then cidrs4 (ru_ip_cidr r) else ru_ip_cidr r)"

definition rule_src :: "profile \<Rightarrow> egress_kind \<Rightarrow> rule \<Rightarrow> src_spec option" where
  "rule_src p k r =
     (if HasSourceMatcher r then
        Some \<lparr>ss_cidrs = (if strips_v6 p k (ru_outbound r) then cidrs4 (ru_source_ip_cidr r) else ru_source_ip_cidr r),
              ss_mac = ru_source_mac r, ss_iface = ru_source_iface r, ss_port = ru_source_port r\<rparr>
      else None)"

definition compile_rule :: "options \<Rightarrow> profile \<Rightarrow> cstate \<Rightarrow> rule \<Rightarrow> cstate" where
  "compile_rule opt p st r =
     (if ru_disabled r then st
      else if ru_default r then st
      else
        (let st1 = warn (rule_warnings r) st in
         if ru_ip_cidr r = [] \<and> \<not> HasSourceMatcher r then st1
         else (case resolveEgress p (ru_id r) (ru_outbound r) of
             ((k, _, ok1), ws) \<Rightarrow>
               (let st2 = warn ws st1 in
                if ok1 \<and> k \<noteq> EgressNone \<and> (rule_dest p k r \<noteq> [] \<or> rule_src p k r \<noteq> None)
                then addZone opt (''rule_'' @ nftName (ru_id r)) (ru_outbound r) (rule_dest p k r) (rule_src p k r) (ru_id r) st2
                else st2))))"

definition list_warnings :: "routing_list \<Rightarrow> warning list" where
  "list_warnings rl = (if rl_source rl \<noteq> [] then [(rl_id rl, RemoteNotRouted (rl_source rl))] else [])"

definition list_cidrs :: "routing_list \<Rightarrow> string list" where
  "list_cidrs rl = (if rl_cidr_cache rl \<noteq> [] then rl_manual rl @ rl_cidr_cache rl else rl_manual rl)"

definition list_dest :: "profile \<Rightarrow> egress_kind \<Rightarrow> routing_list \<Rightarrow> string list" where
  "list_dest p k rl = (if strips_v6 p k (rl_outbound rl) then cidrs4 (list_cidrs rl) else list_cidrs rl)"

definition compile_list :: "options \<Rightarrow> profile \<Rightarrow> cstate \<Rightarrow> routing_list \<Rightarrow> cstate" where
  "compile_list opt p st rl =
     (if \<not> rl_enabled rl then st
      else
        (let st1 = warn (list_warnings rl) st in
         if list_cidrs rl = [] then st1
         else (case resolveEgress p (rl_id rl) (rl_outbound rl) of
             ((k, _, ok1), ws) \<Rightarrow>
               (let st2 = warn ws st1 in
                if ok1 \<and> k \<noteq> EgressNone \<and> list_dest p k rl \<noteq> []
                then addZone opt (''list_'' @ nftName (rl_id rl)) (rl_outbound rl) (list_dest p k rl) None (rl_id rl) st2
                else st2))))"

lemma compile_rule_code [code]:
  "compile_rule opt p st r =
     (if ru_disabled r then st
      else if ru_default r then st
      else
        (let st1 = warn (rule_warnings r) st in
         if ru_ip_cidr r = [] \<and> \<not> HasSourceMatcher r then st1
         else (case resolveEgress p (ru_id r) (ru_outbound r) of
             ((k, _, ok1), ws) \<Rightarrow>
               (let st2 = warn ws st1 in
                if ok1 \<and> k \<noteq> EgressNone
                then (let dest = rule_dest p k r; src = rule_src p k r in
                      if dest \<noteq> [] \<or> src \<noteq> None
                      then addZone opt (''rule_'' @ nftName (ru_id r)) (ru_outbound r) dest src (ru_id r) st2 else st2)
                else st2))))"
  by (simp add: compile_rule_def Let_def split: prod.splits)

lemma compile_list_code [code]:
  "compile_list opt p st rl =
     (if \<not> rl_enabled rl then st
      else
        (let st1 = warn (list_warnings rl) st in
         if list_cidrs rl = [] then st1
         else (case resolveEgress p (rl_id rl) (rl_outbound rl) of
             ((k, _, ok1), ws) \<Rightarrow>
               (let st2 = warn ws st1 in
                if ok1 \<and> k \<noteq> EgressNone
                then (let dest = list_dest p k rl in
                      if dest \<noteq> [] then addZone opt (''list_'' @ nftName (rl_id rl)) (rl_outbound rl) dest None (rl_id rl) st2
                      else st2)
                else st2))))"
  by (simp add: compile_list_def Let_def split: prod.splits)

subsection \<open>Bypass, masquerade, egresses\<close>

definition endpoint_bypass :: "endpoint \<Rightarrow> string list" where
  "endpoint_bypass e =
     (if \<not> ep_enabled e \<or> kernelIface e = [] then []
      else (if ep_server e \<noteq> [] then [ep_server e] else []) @
           (if str_param (ep_params e) ''endpoint_ip'' \<noteq> [] then [str_param (ep_params e) ''endpoint_ip''] else []))"

definition masq_ifaces :: "endpoint list \<Rightarrow> string list" where
  "masq_ifaces es =
     dedup_seen (\<lambda>i. i) [] (filter (\<lambda>i. i \<noteq> []) (map kernelIface (filter ep_enabled es)))"

definition other_egress :: "options \<Rightarrow> profile \<Rightarrow> nat \<Rightarrow> string \<Rightarrow> egress" where
  "other_egress opt p i tag =
     (case resolveEgress p tag tag of
        ((k, ifc, _), _) \<Rightarrow>
          \<lparr>eg_tag = tag, eg_kind = k, eg_iface = ifc, eg_mark = of_nat (i + 2) * o_step opt,
           eg_table = o_table_base opt + int i,
           eg_fail_closed = (k = EgressInterface \<and>
             (case GroupByID p tag of None \<Rightarrow> False | Some g \<Rightarrow> gr_kill_switch g))\<rparr>)"

definition other_tags :: "string list \<Rightarrow> string list" where
  "other_tags used = sort (filter (\<lambda>t. t \<noteq> OutboundDirect) used)"

definition assign_egresses :: "options \<Rightarrow> profile \<Rightarrow> string list \<Rightarrow> egress list" where
  "assign_egresses opt p tags =
     \<lparr>eg_tag = OutboundDirect, eg_kind = EgressWAN, eg_iface = [], eg_mark = o_step opt,
      eg_table = o_wan_table opt, eg_fail_closed = False\<rparr>
     # map (\<lambda>(i, tag). other_egress opt p i tag) (enumerate 0 tags)"

text \<open>\<^verbatim>\<open>markByTag\<close>: the last egress with the tag wins, zero if there is none.\<close>

definition mark_of :: "egress list \<Rightarrow> string \<Rightarrow> 32 word" where
  "mark_of es tag = (case lookup_by eg_tag tag (rev es) of None \<Rightarrow> 0 | Some e \<Rightarrow> eg_mark e)"

definition compile_offload :: "options \<Rightarrow> flowtable option \<times> warning list" where
  "compile_offload opt =
     (if o_offload opt = ''sw'' \<or> o_offload opt = ''hw'' then
        (if o_devices opt \<noteq> []
         then (Some \<lparr>ft_devices = sort (o_devices opt), ft_hw = (o_offload opt = ''hw'')\<rparr>, [])
         else (None, [(''offload'', OffloadNoDevices)]))
      else if o_offload opt = [] \<or> o_offload opt = ''off'' then (None, [])
      else (None, [(''offload'', OffloadUnknown (o_offload opt))]))"

definition compile_zones :: "options \<Rightarrow> profile \<Rightarrow> cstate" where
  "compile_zones opt p =
     foldl (compile_list opt p)
       (foldl (compile_rule opt p) \<lparr>c_zones = [], c_names = [], c_used = [], c_warns = []\<rparr> (rules p))
       (routing_lists p)"

definition Compile :: "profile \<Rightarrow> options \<Rightarrow> plan \<times> warning list" where
  "Compile p opt0 =
     (let opt = withDefaults opt0;
          st = compile_zones opt p;
          (b4, b6, _) = classifyCIDRs (concat (map endpoint_bypass (endpoints p)));
          tags = other_tags (c_used st);
          egs = assign_egresses opt p tags;
          zs = map (\<lambda>z. z\<lparr>z_mark := mark_of egs (z_egress z)\<rparr>) (c_zones st);
          (ft, fw) = compile_offload opt;
          rw = concat (map (\<lambda>t. snd (resolveEgress p t t)) tags)
      in (\<lparr>pl_table = o_table opt, pl_mask = o_mask opt, pl_egresses = egs, pl_zones = sort_key z_name zs,
           pl_bypass_v4 = b4, pl_bypass_v6 = b6, pl_flowtable = ft, pl_masq = masq_ifaces (endpoints p)\<rparr>,
          c_warns st @ rw @ fw))"

end
