(* ===== verification/Pbr_Render.thy ===== *)
theory Pbr_Render
  imports Pbr
begin

unbundle bit_operations_syntax

text \<open>
  \<^verbatim>\<open>internal/pbr/render.go\<close> and \<^verbatim>\<open>apply.go\<close>: the plan as the text of an nftables ruleset and of the
  \<^verbatim>\<open>ip rule\<close> and \<^verbatim>\<open>ip route\<close> commands, and running them. The text is produced byte for byte as the code
  writes it. The command runner is an argument: it maps the standard input, the program and its arguments
  to an optional error and the next state of the world.
\<close>

subsection \<open>Text\<close>

definition nl :: string where "nl = [CHR 0x0A]"
definition tab :: string where "tab = [CHR 0x09]"
definition quoted :: "string \<Rightarrow> string" where "quoted s = CHR 0x22 # s @ [CHR 0x22]"

definition line1 :: "string \<Rightarrow> string" where "line1 s = tab @ s @ nl"
definition line2 :: "string \<Rightarrow> string" where "line2 s = tab @ tab @ s @ nl"

definition hexMark :: "32 word \<Rightarrow> string" where
  "hexMark v = ''0x'' @ hex8 (unat v)"

definition markSet :: "plan \<Rightarrow> 32 word \<Rightarrow> string" where
  "markSet pl m = ''meta mark set meta mark & '' @ hexMark (NOT (pl_mask pl)) @ '' | '' @ hexMark m"

definition restore_egresses :: "plan \<Rightarrow> egress list" where
  "restore_egresses pl = dedup_seen eg_mark [] (filter (\<lambda>e. eg_mark e \<noteq> 0) (pl_egresses pl))"

definition connmarkRestoreLines :: "plan \<Rightarrow> string list" where
  "connmarkRestoreLines pl =
     map (\<lambda>e. ''ct mark & '' @ hexMark (pl_mask pl) @ '' == '' @ hexMark (eg_mark e) @ '' '' @ markSet pl (eg_mark e) @ '' accept'')
       (restore_egresses pl)"

definition nftElements :: "string list \<Rightarrow> string" where
  "nftElements cidrs = join_with '', '' cidrs"

definition nftStrSet :: "string list \<Rightarrow> string" where
  "nftStrSet ss = ''{ '' @ join_with '', '' (map quoted ss) @ '' }''"

definition nftRawSet :: "string list \<Rightarrow> string" where
  "nftRawSet ss = ''{ '' @ join_with '', '' ss @ '' }''"

definition nftIntSet :: "int list \<Rightarrow> string" where
  "nftIntSet ns = ''{ '' @ join_with '', '' (map itoa ns) @ '' }''"

definition src_parts :: "zone \<Rightarrow> string list" where
  "src_parts z =
     (if z_src_iface z \<noteq> [] then [''iifname '' @ nftStrSet (z_src_iface z)] else []) @
     (if z_src_mac z \<noteq> [] then [''ether saddr '' @ nftRawSet (z_src_mac z)] else []) @
     (if z_src_port z \<noteq> [] then [''meta l4proto { tcp, udp } th sport '' @ nftIntSet (z_src_port z)] else [])"

definition srcMatchPrefix :: "zone \<Rightarrow> string" where
  "srcMatchPrefix z = (if src_parts z = [] then [] else join_with '' '' (src_parts z) @ '' '')"

subsection \<open>Facts about the plan\<close>

definition markByKind :: "plan \<Rightarrow> egress_kind \<Rightarrow> 32 word" where
  "markByKind pl k = (case find (\<lambda>e. eg_kind e = k) (pl_egresses pl) of None \<Rightarrow> 0 | Some e \<Rightarrow> eg_mark e)"

definition both_families :: "zone \<Rightarrow> bool" where
  "both_families z = (z_src_scoped z \<and> z_v4 z = [] \<and> z_v6 z = [] \<and> z_src_v4 z = [] \<and> z_src_v6 z = [])"

definition hasV6Zone :: "plan \<Rightarrow> bool" where
  "hasV6Zone pl = list_ex (\<lambda>z. (z_v6 z \<noteq> [] \<or> z_src_v6 z \<noteq> []) \<or> both_families z) (pl_zones pl)"

definition hasV6 :: "plan \<Rightarrow> bool" where
  "hasV6 pl = (pl_bypass_v6 pl \<noteq> [] \<or> hasV6Zone pl)"

definition nonWanEgresses :: "plan \<Rightarrow> egress list" where
  "nonWanEgresses pl = sort_key eg_mark (filter (\<lambda>e. eg_kind e \<noteq> EgressWAN) (pl_egresses pl))"

definition masqIfaces :: "plan \<Rightarrow> string list" where
  "masqIfaces pl = pl_masq pl"

definition masqWanIfaces :: "plan \<Rightarrow> string list \<Rightarrow> string list" where
  "masqWanIfaces pl skip =
     sort (dedup_seen (\<lambda>i. i) [] (filter (\<lambda>i. \<not> List.member skip i)
       (map eg_iface (filter (\<lambda>e. eg_kind e = EgressWAN \<and> eg_iface e \<noteq> []) (pl_egresses pl)))))"

definition mssIfaces :: "plan \<Rightarrow> string list" where
  "mssIfaces pl =
     sort (dedup_seen (\<lambda>i. i) []
       (map eg_iface (filter (\<lambda>e. eg_kind e = EgressInterface \<and> eg_iface e \<noteq> []) (pl_egresses pl))))"

subsection \<open>RenderNft\<close>

definition nft_head :: "plan \<Rightarrow> string" where
  "nft_head pl = ''table inet '' @ pl_table pl @ '' {}'' @ nl @ ''delete table inet '' @ pl_table pl @ nl @
     ''table inet '' @ pl_table pl @ '' {'' @ nl"

definition has_flowtable :: "plan \<Rightarrow> flowtable option" where
  "has_flowtable pl = (case pl_flowtable pl of None \<Rightarrow> None | Some ft \<Rightarrow> if ft_devices ft \<noteq> [] then Some ft else None)"

definition nft_flowtable :: "plan \<Rightarrow> string" where
  "nft_flowtable pl =
     (case has_flowtable pl of
        None \<Rightarrow> []
      | Some ft \<Rightarrow>
          line1 ''flowtable ft {'' @ line2 ''hook ingress priority filter - 1;'' @
          line2 (''devices = { '' @ join_with '', '' (ft_devices ft) @ '' };'') @
          (if ft_hw ft then line2 ''flags offload;'' else []) @ line1 ''}'')"

definition set_line :: "string \<Rightarrow> bool \<Rightarrow> string list \<Rightarrow> string" where
  "set_line name v6 elems =
     (if elems = [] then []
      else line1 (''set '' @ name @ '' { type '' @ (if v6 then ''ipv6_addr'' else ''ipv4_addr'') @
        ''; flags interval; elements = { '' @ nftElements elems @ '' } }''))"

definition nft_sets :: "plan \<Rightarrow> string" where
  "nft_sets pl =
     set_line ''bypass4'' False (pl_bypass_v4 pl) @ set_line ''bypass6'' True (pl_bypass_v6 pl) @
     concat (map (\<lambda>z. set_line (z_name z @ ''_4'') False (z_v4 z) @ set_line (z_name z @ ''_6'') True (z_v6 z) @
       set_line (z_name z @ ''_s4'') False (z_src_v4 z) @ set_line (z_name z @ ''_s6'') True (z_src_v6 z)) (pl_zones pl))"

definition bypass_lines :: "plan \<Rightarrow> string \<Rightarrow> string" where
  "bypass_lines pl verdict =
     (if pl_bypass_v4 pl \<noteq> [] then line2 (''ip daddr @bypass4 '' @ markSet pl (markByKind pl EgressWAN) @ verdict) else []) @
     (if pl_bypass_v6 pl \<noteq> [] then line2 (''ip6 daddr @bypass6 '' @ markSet pl (markByKind pl EgressWAN) @ verdict) else [])"

text \<open>The lines of one zone: the destination lines of the two families, each guarded against a source
  of the other family, and the lines of a zone without destination.\<close>

definition dest_lines :: "plan \<Rightarrow> zone \<Rightarrow> string" where
  "dest_lines pl z =
     (let pre = srcMatchPrefix z in
      (if z_v4 z \<noteq> [] \<and> (z_src_v4 z \<noteq> [] \<or> z_src_v6 z = []) then
         (let src = (if z_src_v4 z \<noteq> [] then ''ip saddr @'' @ z_name z @ ''_s4 '' else [])
          in line2 (pre @ src @ ''ip daddr @'' @ z_name z @ ''_4 '' @ markSet pl (z_mark z)))
       else []) @
      (if z_v6 z \<noteq> [] \<and> (z_src_v6 z \<noteq> [] \<or> z_src_v4 z = []) then
         (let src = (if z_src_v6 z \<noteq> [] then ''ip6 saddr @'' @ z_name z @ ''_s6 '' else [])
          in line2 (pre @ src @ ''ip6 daddr @'' @ z_name z @ ''_6 '' @ markSet pl (z_mark z)))
       else []))"

definition source_only_lines :: "plan \<Rightarrow> zone \<Rightarrow> string \<times> bool" where
  "source_only_lines pl z =
     (if z_v4 z = [] \<and> z_v6 z = [] \<and> z_src_scoped z then
        (let pre = srcMatchPrefix z;
             l4 = (if z_src_v4 z \<noteq> [] then line2 (pre @ ''ip saddr @'' @ z_name z @ ''_s4 '' @ markSet pl (z_mark z)) else []);
             l6 = (if z_src_v6 z \<noteq> [] then line2 (pre @ ''ip6 saddr @'' @ z_name z @ ''_s6 '' @ markSet pl (z_mark z)) else []);
             wrote = (z_src_v4 z \<noteq> [] \<or> z_src_v6 z \<noteq> []);
             any1 = (if \<not> wrote \<and> pre \<noteq> [] then line2 (pre @ markSet pl (z_mark z)) else [])
         in (l4 @ l6 @ any1, wrote \<or> pre \<noteq> []))
      else ([], False))"

definition nft_mark_chain :: "plan \<Rightarrow> string" where
  "nft_mark_chain pl =
     line1 ''chain wr_mark {'' @ line2 ''type filter hook prerouting priority mangle; policy accept;'' @
     bypass_lines pl '' accept'' @
     concat (map line2 (connmarkRestoreLines pl)) @
     concat (map (\<lambda>z. dest_lines pl z @ fst (source_only_lines pl z)) (pl_zones pl)) @
     (if list_ex (\<lambda>z. snd (source_only_lines pl z)) (pl_zones pl) then bypass_lines pl [] else []) @
     line2 ''ct mark set meta mark'' @ line1 ''}''"

definition nft_offload_chain :: "plan \<Rightarrow> string" where
  "nft_offload_chain pl =
     (case has_flowtable pl of
        None \<Rightarrow> []
      | Some _ \<Rightarrow>
          line1 ''chain wr_offload {'' @ line2 ''type filter hook forward priority filter - 1; policy accept;'' @
          line2 (''meta mark & '' @ hexMark (pl_mask pl) @ '' != 0x0 return'') @
          line2 ''meta l4proto { tcp, udp } flow add @ft'' @ line1 ''}'')"

definition nft_mss_chain :: "plan \<Rightarrow> string" where
  "nft_mss_chain pl =
     (if mssIfaces pl = [] then []
      else line1 ''chain wr_mss {'' @ line2 ''type filter hook forward priority mangle; policy accept;'' @
        line2 (''oifname '' @ nftStrSet (mssIfaces pl) @
          '' tcp flags & (fin|syn|rst|ack) == syn tcp option maxseg size set rt mtu'') @ line1 ''}'')"

definition nft_nat_chain :: "plan \<Rightarrow> string" where
  "nft_nat_chain pl =
     (let tun = masqIfaces pl; wan = masqWanIfaces pl tun in
      if tun = [] \<and> wan = [] then []
      else line1 ''chain wr_nat {'' @ line2 ''type nat hook postrouting priority srcnat; policy accept;'' @
        concat (map (\<lambda>i. line2 (''meta nfproto ipv4 oifname '' @ quoted i @ '' masquerade'')) (tun @ wan)) @ line1 ''}'')"

definition RenderNft :: "plan \<Rightarrow> string" where
  "RenderNft pl =
     nft_head pl @ nft_flowtable pl @ nft_sets pl @ nft_mark_chain pl @ nft_offload_chain pl @ nft_mss_chain pl @
     nft_nat_chain pl @ ''}'' @ nl"

subsection \<open>RenderIP and its inverse\<close>

definition excludesFor :: "options \<Rightarrow> string list \<Rightarrow> (string \<times> int) list" where
  "excludesFor opt cidrs =
     map (\<lambda>(j, c). (c, o_rule_pref (withDefaults opt) - int (length cidrs) + int j)) (enumerate 0 cidrs)"

definition privateExcludes :: "options \<Rightarrow> (string \<times> int) list" where
  "privateExcludes opt = excludesFor opt [''10.0.0.0/8'', ''172.16.0.0/12'', ''192.168.0.0/16'']"

definition privateExcludesV6 :: "options \<Rightarrow> (string \<times> int) list" where
  "privateExcludesV6 opt = excludesFor opt [''fc00::/7'', ''fe80::/10'']"

definition failClosedMetric :: int where "failClosedMetric = 1000"

definition exclude_cmd :: "string \<Rightarrow> string \<Rightarrow> string \<times> int \<Rightarrow> string" where
  "exclude_cmd ip verb x = ip @ '' rule '' @ verb @ '' to '' @ fst x @ '' lookup main priority '' @ itoa (snd x)"

definition fwmark_cmd :: "string \<Rightarrow> string \<Rightarrow> plan \<Rightarrow> egress \<Rightarrow> int \<Rightarrow> string" where
  "fwmark_cmd ip verb pl e pref =
     ip @ '' rule '' @ verb @ '' fwmark '' @ hexMark (eg_mark e) @ ''/'' @ hexMark (pl_mask pl) @
     '' table '' @ itoa (eg_table e) @ '' priority '' @ itoa pref"

definition both_cmds :: "bool \<Rightarrow> (string \<Rightarrow> string) \<Rightarrow> string list" where
  "both_cmds v6 c = c ''ip'' # (if v6 then [c ''ip -6''] else [])"

definition route_cmds :: "bool \<Rightarrow> egress \<Rightarrow> string list" where
  "route_cmds v6 e =
     (case eg_kind e of
        EgressInterface \<Rightarrow>
          both_cmds v6 (\<lambda>ip. ip @ '' route replace default dev '' @ eg_iface e @ '' table '' @ itoa (eg_table e)) @
          (if eg_fail_closed e
           then both_cmds v6 (\<lambda>ip. ip @ '' route replace blackhole default metric '' @ itoa failClosedMetric @ '' table '' @ itoa (eg_table e))
           else [])
      | EgressBlackhole \<Rightarrow> both_cmds v6 (\<lambda>ip. ip @ '' route replace blackhole default table '' @ itoa (eg_table e))
      | _ \<Rightarrow> [])"

definition RenderIP :: "plan \<Rightarrow> options \<Rightarrow> string list" where
  "RenderIP pl opt0 =
     (let opt = withDefaults opt0; v6 = hasV6 pl in
      map (exclude_cmd ''ip'' ''add'') (privateExcludes opt) @
      (if v6 then map (exclude_cmd ''ip -6'' ''add'') (privateExcludesV6 opt) else []) @
      concat (map (\<lambda>(i, e). both_cmds v6 (\<lambda>ip. fwmark_cmd ip ''add'' pl e (o_rule_pref opt + int i)) @ route_cmds v6 e)
        (enumerate 0 (nonWanEgresses pl))))"

definition ipTeardown :: "plan \<Rightarrow> options \<Rightarrow> string list" where
  "ipTeardown pl opt0 =
     (let opt = withDefaults opt0; v6 = hasV6 pl in
      concat (map (\<lambda>(i, e). both_cmds v6 (\<lambda>ip. fwmark_cmd ip ''del'' pl e (o_rule_pref opt + int i)) @
          both_cmds v6 (\<lambda>ip. ip @ '' route flush table '' @ itoa (eg_table e)))
        (enumerate 0 (nonWanEgresses pl))) @
      map (exclude_cmd ''ip'' ''del'') (privateExcludes opt) @
      (if v6 then map (exclude_cmd ''ip -6'' ''del'') (privateExcludesV6 opt) else []))"

definition RenderTeardown :: "plan \<Rightarrow> options \<Rightarrow> string list" where
  "RenderTeardown pl opt = (''nft delete table inet '' @ pl_table pl) # ipTeardown pl opt"

subsection \<open>Running the commands\<close>

type_synonym ('e, 'w) runner = "string \<Rightarrow> string \<Rightarrow> string list \<Rightarrow> 'w \<Rightarrow> 'e option \<times> 'w"

text \<open>\<^verbatim>\<open>strings.Fields\<close>: the maximal runs without white space.\<close>

function fields_from :: "string \<Rightarrow> string \<Rightarrow> string list" where
  "fields_from word [] = (if word = [] then [] else [rev word])"
| "fields_from word (c # s) =
     (let n = space_len spaces (c # s) in
      if n = 0 then fields_from (c # word) s
      else (if word = [] then [] else [rev word]) @ fields_from [] (drop n (c # s)))"
  by pat_completeness auto
termination by (relation "measure (\<lambda>(w, s). length s)") auto

definition str_fields :: "string \<Rightarrow> string list" where
  "str_fields s = fields_from [] s"

definition splitCmd :: "string \<Rightarrow> string \<times> string list" where
  "splitCmd s = (case str_fields s of [] \<Rightarrow> ([], []) | w # ws \<Rightarrow> (w, ws))"

definition run_cmd :: "('e, 'w) runner \<Rightarrow> string \<Rightarrow> 'w \<Rightarrow> 'e option \<times> 'w" where
  "run_cmd run c w = (case splitCmd c of (name, args) \<Rightarrow> run [] name args w)"

definition run_ignoring :: "('e, 'w) runner \<Rightarrow> string list \<Rightarrow> 'w \<Rightarrow> 'w" where
  "run_ignoring run cs w = fold (\<lambda>c w. snd (run_cmd run c w)) cs w"

datatype 'e apply_err = NftLoad 'e | CmdFailed string 'e

fun run_until_error :: "('e, 'w) runner \<Rightarrow> string list \<Rightarrow> 'w \<Rightarrow> 'e apply_err option \<times> 'w" where
  "run_until_error run [] w = (None, w)"
| "run_until_error run (c # cs) w =
     (case run_cmd run c w of
        (None, w') \<Rightarrow> run_until_error run cs w'
      | (Some e, w') \<Rightarrow> (Some (CmdFailed c e), w'))"

definition Apply :: "('e, 'w) runner \<Rightarrow> plan \<Rightarrow> options \<Rightarrow> 'w \<Rightarrow> 'e apply_err option \<times> 'w" where
  "Apply run pl opt0 w =
     (let opt = withDefaults opt0 in
      case run (RenderNft pl) ''nft'' [''-f'', ''-''] w of
        (Some e, w1) \<Rightarrow> (Some (NftLoad e), w1)
      | (None, w1) \<Rightarrow> run_until_error run (RenderIP pl opt) (run_ignoring run (ipTeardown pl opt) w1))"

definition Teardown :: "('e, 'w) runner \<Rightarrow> plan \<Rightarrow> options \<Rightarrow> 'w \<Rightarrow> 'w" where
  "Teardown run pl opt0 w = run_ignoring run (RenderTeardown pl (withDefaults opt0)) w"

definition DryRun :: "plan \<Rightarrow> options \<Rightarrow> string list" where
  "DryRun pl opt0 = (let opt = withDefaults opt0 in RenderNft pl # RenderIP pl opt)"

end
