(* ===== verification/Pbr_Spec.thy ===== *)
theory Pbr_Spec
  imports Pbr Validate_Spec
begin

unbundle bit_operations_syntax

text \<open>
  What the compiled plan guarantees: the ruleset is loadable (set names distinct and safe, interval sets
  disjoint), every zone carries the mark of its own egress, marks and tables do not collide, v4-only
  tunnels never receive v6 destinations, and every active rule is routed.
\<close>

subsection \<open>The compiler's loops keep what every zone addition keeps\<close>

text \<open>The calls of \<^verbatim>\<open>addZone\<close> that the two loops make.\<close>

definition routable :: "profile \<Rightarrow> string \<Rightarrow> bool" where
  "routable p tag = (case resolveEgress p tag tag of ((k, _, ok1), _) \<Rightarrow> ok1 \<and> k \<noteq> EgressNone)"

definition is_tunnel :: "profile \<Rightarrow> string \<Rightarrow> bool" where
  "is_tunnel p tag = (fst (fst (resolveEgress p tag tag)) = EgressInterface)"

definition good_call :: "profile \<Rightarrow> string \<Rightarrow> string \<Rightarrow> string list \<Rightarrow> src_spec option \<Rightarrow> bool" where
  "good_call p name tag cidrs src =
     (list_all nft_char name \<and> routable p tag \<and>
      (is_tunnel p tag \<and> egressV4OnlyPosture p tag \<longrightarrow>
         cidrs6 cidrs = [] \<and> (case src of None \<Rightarrow> True | Some s \<Rightarrow> cidrs6 (ss_cidrs s) = [])))"

lemma resolveEgress_scope: "fst (resolveEgress p scope tag) = fst (resolveEgress p tag tag)"
  by (simp add: resolveEgress_def split: option.splits)

lemma show_prefix_plain:
  assumes "\<not> is6 (pfx_addr p)"
  shows "trim_space (show_prefix p) = show_prefix p"
proof -
  obtain n b where p: "p = Prefix (V4 n) b" using assms by (cases p; cases "pfx_addr p") auto
  have plain: "is_digit c \<Longrightarrow> plain_char c" for c
    by (cases "of_char c :: nat" rule: nat.exhaust) (auto simp: is_digit_def plain_char_def less_eq_char_def)
  have h: "hd (show_prefix p) \<in> set (dec_of_nat (n div 16777216 mod 256))"
    using dec_of_nat_nonempty [of "n div 16777216 mod 256"] by (cases "dec_of_nat (n div 16777216 mod 256)")
      (auto simp: show_prefix_def p show_ipv4_def)
  have l: "last (show_prefix p) \<in> set (dec_of_nat b)"
    using dec_of_nat_nonempty [of b] by (simp add: show_prefix_def p)
  show ?thesis
    by (rule trim_space_plain) (use h l plain dec_of_nat_digits in \<open>auto simp: show_prefix_def\<close>)
qed

lemma classify_shown:
  assumes "prefix_wf p" and "\<not> is6 (pfx_addr p)"
  shows "classify_entry (show_prefix p) = Pfx_Entry (masked p)"
proof -
  have "contains_str (show_prefix p) ''/''"
  proof -
    have "contains_str (a @ CHR ''/'' # b) ''/''" for a b by (induction a) auto
    then show ?thesis by (simp add: show_prefix_def)
  qed
  with assms show ?thesis
    by (auto simp: classify_entry_def Let_def show_prefix_plain parse_show_prefix_v4)
qed

text \<open>The IPv4 part of a list, classified again, has no IPv6 part and no bad entries.\<close>

lemma cidrs4_shown: "s \<in> set (cidrs4 ss) \<Longrightarrow> \<exists>p. s = show_prefix p \<and> prefix_wf p \<and> \<not> is6 (pfx_addr p)"
  using collapse_subset [of "family_prefixes False ss"] family4_wf by (auto simp: classifyCIDRs_def)

lemma cidrs6_cidrs4 [simp]: "cidrs6 (cidrs4 ss) = []"
proof -
  have "\<not> is6 (pfx_addr p)" if "Pfx_Entry p \<in> classify_entry ` set (cidrs4 ss)" for p
    using that cidrs4_shown classify_shown by fastforce
  then have "filter (\<lambda>p. is6 (pfx_addr p) = True) (entry_prefixes (map classify_entry (cidrs4 ss))) = []"
    by (auto simp: filter_empty_conv set_entry_prefixes)
  then have "family_prefixes True (cidrs4 ss) = []" by (simp add: family_prefixes_def)
  then show ?thesis by (simp add: classifyCIDRs_def [of "cidrs4 ss"] collapsePrefixes_def)
qed

subsection \<open>Rule induction over the zones\<close>

lemma nft_char_lits [simp]:
  "nft_char (CHR ''r'')" "nft_char (CHR ''u'')" "nft_char (CHR ''l'')" "nft_char (CHR ''e'')"
  "nft_char (CHR ''i'')" "nft_char (CHR ''s'')" "nft_char (CHR ''t'')" "nft_char (CHR ''_'')"
  by (simp_all add: nft_char_def in_range_def less_eq_char_def)

lemma resolve_routable:
  "resolveEgress p scope tag = ((k, ifc, True), ws) \<Longrightarrow> k \<noteq> EgressNone \<Longrightarrow> routable p tag"
  "resolveEgress p scope tag = ((k, ifc, b), ws) \<Longrightarrow> is_tunnel p tag \<longleftrightarrow> k = EgressInterface"
  using resolveEgress_scope [of p scope tag] by (auto simp: routable_def is_tunnel_def case_prod_beta dest: sym)

text \<open>One pass of a loop only warns, or warns and adds one zone by a good call.\<close>

inductive pass :: "options \<Rightarrow> profile \<Rightarrow> cstate \<Rightarrow> cstate \<Rightarrow> bool" for opt p where
  pass_warn: "pass opt p st (warn ws st)"
| pass_add: "good_call p name tag cidrs src \<Longrightarrow> pass opt p st (addZone opt name tag cidrs src scope (warn ws st))"

lemma warn_warn [simp]: "warn ws (warn vs st) = warn (vs @ ws) st" "warn [] st = st"
  by (simp_all add: warn_def)

lemma pass_refl: "pass opt p st st"
  using pass_warn [of opt p st "[]"] by simp

lemma rule_call_good:
  assumes "resolveEgress p scope (ru_outbound r) = ((k, ifc, True), ws)" and "k \<noteq> EgressNone"
  shows "good_call p (''rule_'' @ nftName (ru_id r)) (ru_outbound r) (rule_dest p k r) (rule_src p k r)"
  using resolve_routable(1) [OF assms] resolve_routable(2) [OF assms(1)]
  by (auto simp: good_call_def nftName_chars rule_dest_def rule_src_def strips_v6_def)

lemma list_call_good:
  assumes "resolveEgress p scope (rl_outbound rl) = ((k, ifc, True), ws)" and "k \<noteq> EgressNone"
  shows "good_call p (''list_'' @ nftName (rl_id rl)) (rl_outbound rl) (list_dest p k rl) None"
  using resolve_routable(1) [OF assms] resolve_routable(2) [OF assms(1)]
  by (auto simp: good_call_def nftName_chars list_dest_def strips_v6_def)

lemma compile_rule_pass: "pass opt p st (compile_rule opt p st r)"
  using rule_call_good [of p "ru_id r" r]
  by (auto simp: compile_rule_def Let_def intro: pass_refl pass_warn pass_add split: prod.splits)

lemma compile_list_pass: "pass opt p st (compile_list opt p st rl)"
  using list_call_good [of p "rl_id rl" rl]
  by (auto simp: compile_list_def Let_def intro: pass_refl pass_warn pass_add split: prod.splits)

text \<open>So whatever warnings and good calls keep holds of the compiled zones.\<close>

definition start_state :: cstate where
  "start_state = \<lparr>c_zones = [], c_names = [], c_used = [], c_warns = []\<rparr>"

locale zone_invariant =
  fixes opt :: options and p :: profile and inv :: "cstate \<Rightarrow> bool"
  assumes inv_start: "inv start_state"
    and inv_warn: "inv st \<Longrightarrow> inv (warn ws st)"
    and inv_add: "inv st \<Longrightarrow> good_call p name tag cidrs src \<Longrightarrow> inv (addZone opt name tag cidrs src scope st)"
begin

lemma inv_pass: "pass opt p st st' \<Longrightarrow> inv st \<Longrightarrow> inv st'"
  by (induction rule: pass.induct) (auto intro: inv_warn inv_add)

lemma inv_rules: "inv st \<Longrightarrow> inv (foldl (compile_rule opt p) st rs)"
  by (induction rs arbitrary: st) (auto intro: inv_pass [OF compile_rule_pass])

lemma inv_lists: "inv st \<Longrightarrow> inv (foldl (compile_list opt p) st ls)"
  by (induction ls arbitrary: st) (auto intro: inv_pass [OF compile_list_pass])

lemma inv_compiled: "inv (compile_zones opt p)"
  unfolding compile_zones_def by (intro inv_lists inv_rules) (use inv_start in \<open>simp add: start_state_def\<close>)

end

subsection \<open>What a zone addition does\<close>

lemma warn_frames [frame_simps, simp]:
  "c_zones (warn ws st) = c_zones st" "c_names (warn ws st) = c_names st" "c_used (warn ws st) = c_used st"
  by (simp_all add: warn_def)

lemma addZone_cases:
  obtains (skip) "c_zones (addZone opt name tag cidrs src scope st) = c_zones st"
      "c_names (addZone opt name tag cidrs src scope st) = c_names st" "c_used (addZone opt name tag cidrs src scope st) = c_used st"
      "cidrs4 cidrs = []"
  | (add) "c_zones (addZone opt name tag cidrs src scope st) = c_zones st @ [new_zone opt (zone_name (c_names st) name) tag cidrs src]"
      "c_names (addZone opt name tag cidrs src scope st) = zone_name (c_names st) name # c_names st"
      "c_used (addZone opt name tag cidrs src scope st) = (if List.member (c_used st) tag then c_used st else tag # c_used st)"
proof (cases "cidrs4 cidrs = [] \<and> cidrs6 cidrs = [] \<and> zone_domains opt cidrs = [] \<and> \<not> src_scoped src")
  case True
  then show thesis by (intro skip) (simp_all add: addZone_def Let_def)
next
  case False
  then have "addZone opt name tag cidrs src scope st = (let st1 = warn (skip_warnings opt scope cidrs) st; nm = zone_name (c_names st1) name;
             st2 = (if List.member (c_names st1) name then warn [(scope, NameCollided nm)] st1 else st1)
         in st2\<lparr>c_names := nm # c_names st2,
                c_used := (if List.member (c_used st2) tag then c_used st2 else tag # c_used st2),
                c_zones := c_zones st2 @ [new_zone opt nm tag cidrs src]\<rparr>)"
    unfolding addZone_def Let_def by (rule if_not_P)
  then show thesis by (intro add) (simp_all add: Let_def)
qed

lemma new_zone_simps [simp]:
  "z_name (new_zone opt nm tag cidrs src) = nm" "z_egress (new_zone opt nm tag cidrs src) = tag"
  "z_v4 (new_zone opt nm tag cidrs src) = cidrs4 cidrs" "z_v6 (new_zone opt nm tag cidrs src) = cidrs6 cidrs"
  "z_src_v6 (new_zone opt nm tag cidrs src) = (case src of None \<Rightarrow> [] | Some s \<Rightarrow> if src_scoped src then cidrs6 (ss_cidrs s) else [])"
  by (simp_all add: new_zone_def Let_def split: option.splits)

lemma fresh_from_fresh: "fresh_from used base i \<notin> set used \<and> (\<exists>j. fresh_from used base i = numbered base j)"
proof (induction used base i rule: fresh_from.induct)
  case (1 used base i)
  then show ?case by (cases "List.member used (numbered base i)") (auto simp: fresh_from.simps [of used base i])
qed

lemma zone_name_fresh: "zone_name used name \<notin> set used"
  using fresh_from_fresh [of used name 2] by (auto simp: zone_name_def)

lemma digit_nft: "is_digit c \<Longrightarrow> nft_char c"
  by (simp add: nft_char_def)

lemma zone_name_chars: "list_all nft_char name \<Longrightarrow> list_all nft_char (zone_name used name)"
proof -
  assume n: "list_all nft_char name"
  obtain j where j: "fresh_from used name 2 = numbered name j" using fresh_from_fresh by blast
  have "list_all nft_char (dec_of_nat j)" using dec_of_nat_digits [of j] digit_nft by (auto simp: list_all_iff)
  with n j show ?thesis by (simp add: zone_name_def numbered_def)
qed

subsection \<open>Invariants of the compiled zones\<close>

definition names_inv :: "cstate \<Rightarrow> bool" where
  "names_inv st = (distinct (map z_name (c_zones st)) \<and> z_name ` set (c_zones st) = set (c_names st) \<and>
     (\<forall>z \<in> set (c_zones st). list_all nft_char (z_name z)))"

definition egress_inv :: "profile \<Rightarrow> cstate \<Rightarrow> bool" where
  "egress_inv p st = (distinct (c_used st) \<and> (\<forall>z \<in> set (c_zones st). z_egress z \<in> set (c_used st)) \<and>
     (\<forall>t \<in> set (c_used st). routable p t))"

definition posture_inv :: "profile \<Rightarrow> cstate \<Rightarrow> bool" where
  "posture_inv p st = (\<forall>z \<in> set (c_zones st). is_tunnel p (z_egress z) \<and> egressV4OnlyPosture p (z_egress z) \<longrightarrow>
     z_v6 z = [] \<and> z_src_v6 z = [])"

definition sets_inv :: "cstate \<Rightarrow> bool" where
  "sets_inv st = (\<forall>z \<in> set (c_zones st). \<exists>cs. z_v4 z = cidrs4 cs)"

interpretation names: zone_invariant opt p names_inv
proof
  fix st name tag cidrs src scope
  assume i: "names_inv st" and "good_call p name tag cidrs src"
  then have c: "list_all nft_char (zone_name (c_names st) name)" by (simp add: good_call_def zone_name_chars)
  show "names_inv (addZone opt name tag cidrs src scope st)"
    using i c zone_name_fresh [of "c_names st" name]
    by (cases rule: addZone_cases [of opt name tag cidrs src scope st]) (auto simp: names_inv_def)
qed (simp_all add: names_inv_def start_state_def)

interpretation egs: zone_invariant opt p "egress_inv p"
proof
  fix st name tag cidrs src scope
  assume "egress_inv p st" "good_call p name tag cidrs src"
  then show "egress_inv p (addZone opt name tag cidrs src scope st)"
    by (cases rule: addZone_cases [of opt name tag cidrs src scope st]) (auto simp: egress_inv_def good_call_def)
qed (simp_all add: egress_inv_def start_state_def)

interpretation posture: zone_invariant opt p "posture_inv p"
proof
  fix st name tag cidrs src scope
  assume "posture_inv p st" "good_call p name tag cidrs src"
  then show "posture_inv p (addZone opt name tag cidrs src scope st)"
    by (cases rule: addZone_cases [of opt name tag cidrs src scope st])
      (auto simp: posture_inv_def good_call_def split: option.splits)
qed (simp_all add: posture_inv_def start_state_def)

interpretation sets: zone_invariant opt p sets_inv
proof
  fix st name tag cidrs src scope
  assume "sets_inv st"
  then show "sets_inv (addZone opt name tag cidrs src scope st)"
    by (cases rule: addZone_cases [of opt name tag cidrs src scope st]) (auto simp: sets_inv_def)
qed (simp_all add: sets_inv_def start_state_def)

subsection \<open>The plan\<close>

lemma Compile_zones:
  "pl_zones (fst (Compile p opt)) =
     sort_key z_name (map (\<lambda>z. z\<lparr>z_mark := mark_of (pl_egresses (fst (Compile p opt))) (z_egress z)\<rparr>)
       (c_zones (compile_zones (withDefaults opt) p)))"
  by (simp add: Compile_def Let_def split: prod.splits)

lemma Compile_egresses:
  "pl_egresses (fst (Compile p opt)) =
     assign_egresses (withDefaults opt) p (other_tags (c_used (compile_zones (withDefaults opt) p)))"
  by (simp add: Compile_def Let_def split: prod.splits)

lemma map_sort_key: "map f (sort_key f xs) = sort (map f xs)"
proof -
  have "map f (insort_key f x ys) = insort (f x) (map f ys)" for x ys by (induction ys) auto
  then show ?thesis by (induction xs) simp_all
qed

lemma zone_from_state:
  assumes "z \<in> set (pl_zones (fst (Compile p opt)))"
  obtains z0 where "z0 \<in> set (c_zones (compile_zones (withDefaults opt) p))"
    "z = z0\<lparr>z_mark := mark_of (pl_egresses (fst (Compile p opt))) (z_egress z0)\<rparr>"
  using assms unfolding Compile_zones by auto

lemma compiled_names:
  "distinct (map z_name (pl_zones (fst (Compile p opt)))) \<and> sorted (map z_name (pl_zones (fst (Compile p opt)))) \<and>
   (\<forall>z \<in> set (pl_zones (fst (Compile p opt))). list_all nft_char (z_name z) \<and>
      (\<exists>ps. map parse_prefix (z_v4 z) = map Some ps \<and> disjoint_list ps))"
proof -
  let ?st = "compile_zones (withDefaults opt) p"
  have n: "names_inv ?st" and s: "sets_inv ?st" by (rule names.inv_compiled, rule sets.inv_compiled)
  have d: "distinct (map z_name (pl_zones (fst (Compile p opt))))"
    using n unfolding Compile_zones map_sort_key by (simp add: names_inv_def comp_def)
  have "list_all nft_char (z_name z) \<and> (\<exists>ps. map parse_prefix (z_v4 z) = map Some ps \<and> disjoint_list ps)"
    if z: "z \<in> set (pl_zones (fst (Compile p opt)))" for z
  proof -
    obtain z0 where z0: "z0 \<in> set (c_zones ?st)" "z_name z = z_name z0" "z_v4 z = z_v4 z0"
      by (rule zone_from_state [OF z]) simp
    then obtain cs where "z_v4 z = cidrs4 cs" using s by (auto simp: sets_inv_def)
    then show ?thesis using classifyCIDRs_v4_spec [of cs] n z0 by (auto simp: names_inv_def)
  qed
  with d show ?thesis unfolding Compile_zones by simp
qed

text \<open>The generated ruleset can be loaded: whatever the profile, the set names are pairwise distinct and
  consist of letters, digits and underscores, they are in ascending order, and the elements of every
  IPv4 set parse and are pairwise disjoint, as an nftables interval set without auto-merge demands.\<close>

theorem Compile_ruleset_loadable:
  "distinct (map z_name (pl_zones (fst (Compile p opt)))) \<and> sorted (map z_name (pl_zones (fst (Compile p opt)))) \<and>
   (\<forall>z \<in> set (pl_zones (fst (Compile p opt))). list_all nft_char (z_name z) \<and>
      (\<exists>ps. map parse_prefix (z_v4 z) = map Some ps \<and> disjoint_list ps))"
  by (rule compiled_names)

subsection \<open>Marks and tables\<close>

lemma assign_tags: "map eg_tag (assign_egresses opt p tags) = OutboundDirect # tags"
  by (simp add: assign_egresses_def other_egress_def comp_def case_prod_beta split_def)

lemma distinct_tags: "distinct (map eg_tag (pl_egresses (fst (Compile p opt))))"
proof -
  have "egress_inv p (compile_zones (withDefaults opt) p)" by (rule egs.inv_compiled)
  then show ?thesis by (simp add: Compile_egresses assign_tags other_tags_def egress_inv_def)
qed

lemma mark_of_tag: "distinct (map eg_tag es) \<Longrightarrow> e \<in> set es \<Longrightarrow> mark_of es (eg_tag e) = eg_mark e"
  using lookup_by_distinct [of eg_tag "rev es" e] by (simp add: mark_of_def rev_map [symmetric])

lemma compiled_zone_marks:
  "distinct (map eg_tag (pl_egresses (fst (Compile p opt)))) \<and>
   (\<forall>z \<in> set (pl_zones (fst (Compile p opt))). \<exists>e \<in> set (pl_egresses (fst (Compile p opt))).
      eg_tag e = z_egress z \<and> eg_mark e = z_mark z)"
proof -
  let ?st = "compile_zones (withDefaults opt) p" let ?es = "pl_egresses (fst (Compile p opt))"
  have i: "egress_inv p ?st" by (rule egs.inv_compiled)
  have "\<exists>e \<in> set ?es. eg_tag e = z_egress z \<and> eg_mark e = z_mark z"
    if z: "z \<in> set (pl_zones (fst (Compile p opt)))" for z
  proof -
    obtain z0 where z0: "z0 \<in> set (c_zones ?st)" "z = z0\<lparr>z_mark := mark_of ?es (z_egress z0)\<rparr>"
      by (rule zone_from_state [OF z])
    have "z_egress z0 \<in> set (map eg_tag ?es)"
      using i z0(1) by (auto simp: Compile_egresses assign_tags other_tags_def egress_inv_def)
    then obtain e where "e \<in> set ?es" "eg_tag e = z_egress z0" by auto
    with z0(2) mark_of_tag [OF distinct_tags, of e p opt] show ?thesis by auto
  qed
  with distinct_tags show ?thesis by blast
qed

text \<open>Every zone carries the mark of its own egress: the egress tags of a plan are pairwise distinct, and
  for each zone the plan has an egress with the zone's tag whose mark is the zone's mark.\<close>

theorem Compile_zone_marks:
  "distinct (map eg_tag (pl_egresses (fst (Compile p opt)))) \<and>
   (\<forall>z \<in> set (pl_zones (fst (Compile p opt))). \<exists>e \<in> set (pl_egresses (fst (Compile p opt))).
      eg_tag e = z_egress z \<and> eg_mark e = z_mark z)"
  by (rule compiled_zone_marks)

lemma map_enumerate: "map (\<lambda>x. f (fst x)) (enumerate k ts) = map f [k..<k + length ts]"
  by (induction ts arbitrary: k) (auto simp: upt_rec)

lemma assign_marks:
  "map eg_mark (assign_egresses opt p tags) = map (\<lambda>i. of_nat (Suc i) * o_step opt) [0..<Suc (length tags)]"
proof -
  have "map (\<lambda>i. of_nat (Suc i) * o_step opt) [0..<Suc n] = o_step opt # map (\<lambda>i. of_nat (i + 2) * o_step opt) [0..<n]" for n
    by (simp add: upt_rec [of 0] map_Suc_upt [symmetric] comp_def del: upt_Suc)
  moreover have "map (\<lambda>x. eg_mark (other_egress opt p (fst x) (snd x))) (enumerate 0 tags) = map (\<lambda>i. of_nat (i + 2) * o_step opt) [0..<length tags]"
    using map_enumerate [of "\<lambda>i. of_nat (i + 2) * o_step opt" 0 tags]
    by (simp add: other_egress_def case_prod_beta)
  ultimately show ?thesis by (simp add: assign_egresses_def comp_def case_prod_beta)
qed

lemma assign_tables:
  "map eg_table (assign_egresses opt p tags) = o_wan_table opt # map (\<lambda>i. o_table_base opt + int i) [0..<length tags]"
  using map_enumerate [of "\<lambda>i. o_table_base opt + int i" 0 tags]
  by (simp add: assign_egresses_def other_egress_def comp_def case_prod_beta)

definition default_marks :: "options \<Rightarrow> bool" where
  "default_marks opt = (o_step opt = 0 \<and> o_mask opt = 0 \<and> o_table_base opt = 0 \<and> o_wan_table opt = 0)"

lemma step_mark_in_mask:
  assumes "n < 256"
  shows "(of_nat n * 0x10000 :: 32 word) AND 0xff0000 = of_nat n * 0x10000"
proof -
  have w: "(of_nat n * 0x10000 :: 32 word) = push_bit 16 (of_nat n)" by (simp add: push_bit_eq_mult)
  have k: "(0xff0000 :: 32 word) = push_bit 16 (mask 8)" by (simp add: push_bit_eq_mult mask_eq_exp_minus_1)
  have "(of_nat n :: 32 word) AND mask 8 = of_nat (take_bit 8 n)" by (simp add: take_bit_of_nat flip: take_bit_eq_mask)
  also have "take_bit 8 n = n" using assms by (simp add: take_bit_nat_eq_self)
  finally show ?thesis unfolding w k push_bit_and [symmetric] by simp
qed

lemma unat_step_mark: "n < 256 \<Longrightarrow> unat (of_nat n * 0x10000 :: 32 word) = n * 65536"
proof -
  assume "n < 256"
  moreover have "(of_nat n * 0x10000 :: 32 word) = of_nat (n * 65536)" by simp
  ultimately show ?thesis by (simp only: unat_of_nat) simp
qed

lemma withDefaults_marks [simp]:
  "default_marks opt \<Longrightarrow> o_step (withDefaults opt) = 0x10000" "default_marks opt \<Longrightarrow> o_mask (withDefaults opt) = 0xff0000"
  "default_marks opt \<Longrightarrow> o_table_base (withDefaults opt) = 151" "default_marks opt \<Longrightarrow> o_wan_table (withDefaults opt) = 254"
  by (simp_all add: default_marks_def withDefaults_def)

lemma length_assign [simp]: "length (assign_egresses opt p tags) = Suc (length tags)"
  by (simp add: assign_egresses_def)

lemma compiled_marks:
  assumes "default_marks opt" and "length (pl_egresses (fst (Compile p opt))) \<le> 255"
  shows "distinct (map eg_mark (pl_egresses (fst (Compile p opt)))) \<and>
    (\<forall>e \<in> set (pl_egresses (fst (Compile p opt))). eg_mark e \<noteq> 0 \<and> eg_mark e AND pl_mask (fst (Compile p opt)) = eg_mark e) \<and>
    (length (pl_egresses (fst (Compile p opt))) \<le> 104 \<longrightarrow> distinct (map eg_table (pl_egresses (fst (Compile p opt)))))"
proof -
  let ?opt = "withDefaults opt" let ?tags = "other_tags (c_used (compile_zones ?opt p))"
  have len: "length ?tags < 255" using assms(2) by (simp add: Compile_egresses)
  have mask: "pl_mask (fst (Compile p opt)) = 0xff0000"
    using assms(1) by (simp add: Compile_def Let_def split: prod.splits)
  have marks: "map eg_mark (pl_egresses (fst (Compile p opt))) = map (\<lambda>i. of_nat (Suc i) * 0x10000) [0..<Suc (length ?tags)]"
    using assms(1) by (simp add: Compile_egresses assign_marks del: upt_Suc of_nat_Suc)
  have "inj_on (\<lambda>i. of_nat (Suc i) * 0x10000 :: 32 word) {0..<Suc (length ?tags)}"
  proof (rule inj_onI)
    fix i j assume "i \<in> {0..<Suc (length ?tags)}" "j \<in> {0..<Suc (length ?tags)}"
      and e: "(of_nat (Suc i) * 0x10000 :: 32 word) = of_nat (Suc j) * 0x10000"
    then have "Suc i < 256" "Suc j < 256" using len by auto
    note unat_step_mark [OF this(1)] unat_step_mark [OF this(2)]
    then have "Suc i * 65536 = Suc j * 65536" unfolding e by (rule trans [OF sym])
    then show "i = j" by simp
  qed
  then have d: "distinct (map eg_mark (pl_egresses (fst (Compile p opt))))"
    unfolding marks by (simp add: distinct_map del: upt_Suc of_nat_Suc)
  have "eg_mark e \<noteq> 0 \<and> eg_mark e AND 0xff0000 = eg_mark e" if "e \<in> set (pl_egresses (fst (Compile p opt)))" for e
  proof -
    have "eg_mark e \<in> set (map (\<lambda>i. of_nat (Suc i) * 0x10000) [0..<Suc (length ?tags)])"
      unfolding marks [symmetric] using that by simp
    then obtain n where n: "eg_mark e = of_nat (Suc n) * 0x10000" "Suc n < 256" using len by (auto simp del: upt_Suc of_nat_Suc)
    then have "unat (eg_mark e) \<noteq> 0" using unat_step_mark [OF n(2)] by (simp del: of_nat_Suc)
    with n step_mark_in_mask [OF n(2)] show ?thesis by (auto simp del: of_nat_Suc)
  qed
  moreover have "distinct (map eg_table (pl_egresses (fst (Compile p opt))))"
    if "length (pl_egresses (fst (Compile p opt))) \<le> 104"
    using that assms(1) by (simp add: Compile_egresses assign_tables distinct_map inj_on_def) auto
  ultimately show ?thesis using d mask by simp
qed

text \<open>With the default layout the firewall marks do not collide as long as there are at most 255
  egresses: they are pairwise distinct, none is zero, and all lie inside the plan's mask. The routing
  tables are pairwise distinct, and distinct from the main table, for at most 104 egresses.\<close>

theorem Compile_marks_distinct:
  assumes "default_marks opt" and "length (pl_egresses (fst (Compile p opt))) \<le> 255"
  shows "distinct (map eg_mark (pl_egresses (fst (Compile p opt)))) \<and>
    (\<forall>e \<in> set (pl_egresses (fst (Compile p opt))). eg_mark e \<noteq> 0 \<and> eg_mark e AND pl_mask (fst (Compile p opt)) = eg_mark e) \<and>
    (length (pl_egresses (fst (Compile p opt))) \<le> 104 \<longrightarrow> distinct (map eg_table (pl_egresses (fst (Compile p opt)))))"
  using assms by (rule compiled_marks)

subsection \<open>Inactive rules, postures, completeness\<close>

lemma resolve_cong:
  "endpoints p = endpoints q \<Longrightarrow> groups p = groups q \<Longrightarrow> resolveEgress p = resolveEgress q"
proof -
  assume e: "endpoints p = endpoints q" "groups p = groups q"
  then have l: "EndpointByID p = EndpointByID q" "GroupByID p = GroupByID q"
    by (auto simp: EndpointByID_def GroupByID_def)
  have k: "first_kernel_member p ms = first_kernel_member q ms" for ms
    by (induction ms) (simp_all add: l split: option.splits)
  show ?thesis unfolding fun_eq_iff resolveEgress_def l k by simp
qed

lemma posture_cong: "endpoints p = endpoints q \<Longrightarrow> egressV4OnlyPosture p = egressV4OnlyPosture q"
  by (simp add: egressV4OnlyPosture_def isExternalEndpoint_def EndpointByID_def fun_eq_iff)

definition active :: "rule \<Rightarrow> bool" where
  "active r = (\<not> ru_disabled r \<and> \<not> ru_default r)"

text \<open>Disabled rules and default rules leave no trace in the plan: compiling a profile without them
  gives the same plan and the same warnings.\<close>

theorem Compile_ignores_inactive_rules:
  "Compile (p\<lparr>rules := filter active (rules p)\<rparr>) opt = Compile p opt"
proof -
  let ?q = "p\<lparr>rules := filter active (rules p)\<rparr>"
  have r: "resolveEgress ?q = resolveEgress p" by (rule resolve_cong) simp_all
  have v: "egressV4OnlyPosture ?q = egressV4OnlyPosture p" by (rule posture_cong) simp
  have sv: "strips_v6 ?q = strips_v6 p" by (simp add: fun_eq_iff strips_v6_def v)
  have rd: "rule_dest ?q = rule_dest p" "rule_src ?q = rule_src p" "list_dest ?q = list_dest p"
    by (simp_all add: fun_eq_iff rule_dest_def rule_src_def list_dest_def sv)
  have cr: "compile_rule o1 ?q = compile_rule o1 p" "compile_list o1 ?q = compile_list o1 p" for o1
    unfolding fun_eq_iff compile_rule_def compile_list_def r rd by simp_all
  have "foldl (compile_rule o1 p) st (filter active rs) = foldl (compile_rule o1 p) st rs" for o1 st rs
  proof (induction rs arbitrary: st)
    case (Cons x rs)
    have "\<not> active x \<Longrightarrow> compile_rule o1 p st x = st" by (auto simp: active_def compile_rule_def)
    with Cons show ?case by simp
  qed simp
  then have cz: "compile_zones o1 ?q = compile_zones o1 p" for o1
    unfolding compile_zones_def cr by simp
  have "GroupByID ?q = GroupByID p" by (simp add: GroupByID_def fun_eq_iff)
  then have ae: "assign_egresses o1 ?q = assign_egresses o1 p" for o1
    unfolding fun_eq_iff assign_egresses_def other_egress_def r by simp
  show ?thesis unfolding Compile_def cz ae r by simp
qed

text \<open>A tunnel that cannot be trusted with IPv6 never gets it: a zone that leads into an adopted tunnel,
  or into an AmneziaWG tunnel that declares only IPv4 addresses, has no IPv6 destinations and no IPv6
  sources.\<close>

theorem v4_only_tunnel_gets_no_v6:
  assumes "z \<in> set (pl_zones (fst (Compile p opt)))" and "is_tunnel p (z_egress z)" and "egressV4OnlyPosture p (z_egress z)"
  shows "z_v6 z = [] \<and> z_src_v6 z = []"
proof -
  have "posture_inv p (compile_zones (withDefaults opt) p)" by (rule posture.inv_compiled)
  then show ?thesis using assms by (auto simp: posture_inv_def elim!: zone_from_state)
qed

text \<open>The zone's IPv4 set matches the address.\<close>

definition zone_matches :: "zone \<Rightarrow> nat \<Rightarrow> bool" where
  "zone_matches z n = (\<exists>s \<in> set (z_v4 z). \<exists>q. parse_prefix s = Some q \<and> prefix_contains q (V4 n))"

lemma cidrs4_matches:
  "(\<exists>s \<in> set (cidrs4 ss). \<exists>q. parse_prefix s = Some q \<and> prefix_contains q (V4 n)) \<longleftrightarrow> (\<exists>s \<in> set ss. entry_matches s (V4 n))"
proof -
  obtain ps where ps: "map parse_prefix (cidrs4 ss) = map Some ps"
    and m: "\<And>n. (\<exists>p \<in> set ps. prefix_contains p (V4 n)) \<longleftrightarrow> (\<exists>s \<in> set ss. entry_matches s (V4 n))"
    using classifyCIDRs_v4_spec [of ss] by blast
  have img: "parse_prefix ` set (cidrs4 ss) = Some ` set ps" using arg_cong [OF ps, of set] by simp
  have "(\<exists>s \<in> set (cidrs4 ss). \<exists>q. parse_prefix s = Some q \<and> prefix_contains q (V4 n)) \<longleftrightarrow>
      (\<exists>x \<in> parse_prefix ` set (cidrs4 ss). \<exists>q. x = Some q \<and> prefix_contains q (V4 n))" by blast
  also have "\<dots> \<longleftrightarrow> (\<exists>p \<in> set ps. prefix_contains p (V4 n))" unfolding img by blast
  finally show ?thesis using m by simp
qed

lemma entry_matches_shown: "s \<in> set (cidrs4 ss) \<Longrightarrow> entry_matches s a \<longleftrightarrow> (\<exists>q. parse_prefix s = Some q \<and> prefix_contains q a)"
  using cidrs4_shown [of s ss] by (auto simp: entry_matches_iff classify_shown parse_show_prefix_v4)

lemma cidrs4_twice:
  "(\<exists>s \<in> set (cidrs4 (cidrs4 ss)). \<exists>q. parse_prefix s = Some q \<and> prefix_contains q (V4 n)) \<longleftrightarrow> (\<exists>s \<in> set ss. entry_matches s (V4 n))"
  unfolding cidrs4_matches [of "cidrs4 ss"] cidrs4_matches [of ss, symmetric] using entry_matches_shown by blast

lemma pass_zones: "pass opt p st st' \<Longrightarrow> set (c_zones st) \<subseteq> set (c_zones st')"
proof (induction rule: pass.induct)
  case (pass_add name tag cidrs src st scope ws)
  show ?case by (cases rule: addZone_cases [of opt name tag cidrs src scope "warn ws st"]) auto
qed simp

lemma folds_zones:
  "set (c_zones st) \<subseteq> set (c_zones (foldl (compile_rule opt p) st rs))"
  "set (c_zones st) \<subseteq> set (c_zones (foldl (compile_list opt p) st ls))"
  by (induction rs arbitrary: st; use pass_zones [OF compile_rule_pass] in fastforce)
    (induction ls arbitrary: st; use pass_zones [OF compile_list_pass] in fastforce)

lemma cidrs4_Nil: "cidrs4 [] = []"
  by (simp add: classifyCIDRs_def family_prefixes_def collapsePrefixes_def)

lemma compile_rule_adds:
  assumes "active r" and "routable p (ru_outbound r)" and "s \<in> set (ru_ip_cidr r)" and "entry_matches s (V4 n)"
  shows "\<exists>z \<in> set (c_zones (compile_rule opt p st r)). z_egress z = ru_outbound r \<and> zone_matches z n"
proof -
  obtain k ifc ws where r: "resolveEgress p (ru_id r) (ru_outbound r) = ((k, ifc, True), ws)" and k: "k \<noteq> EgressNone"
    using assms(2) resolveEgress_scope [of p "ru_id r" "ru_outbound r"]
    by (cases "resolveEgress p (ru_id r) (ru_outbound r)") (auto simp: routable_def split: prod.splits)
  let ?d = "rule_dest p k r" let ?src = "rule_src p k r" let ?name = "''rule_'' @ nftName (ru_id r)"
  let ?st = "warn ws (warn (rule_warnings r) st)"
  have m: "\<exists>s \<in> set (cidrs4 ?d). \<exists>q. parse_prefix s = Some q \<and> prefix_contains q (V4 n)"
    using assms(3,4) cidrs4_matches [of "ru_ip_cidr r" n] cidrs4_twice [of "ru_ip_cidr r" n] by (auto simp: rule_dest_def)
  then have "cidrs4 ?d \<noteq> []" by fastforce
  then have "?d \<noteq> []" using cidrs4_Nil by metis
  have "ru_ip_cidr r \<noteq> []" using assms(3) by auto
  with \<open>?d \<noteq> []\<close> have c: "compile_rule opt p st r = addZone opt ?name (ru_outbound r) ?d ?src (ru_id r) ?st"
    using r k assms(1) by (simp add: compile_rule_def active_def)
  show ?thesis unfolding c
    using m \<open>cidrs4 ?d \<noteq> []\<close>
    by (cases rule: addZone_cases [of opt ?name "ru_outbound r" ?d ?src "ru_id r" ?st]) (auto simp: zone_matches_def)
qed

lemma rule_zone_exists:
  assumes "r \<in> set (rules p)" and "active r" and "routable p (ru_outbound r)"
    and "s \<in> set (ru_ip_cidr r)" and "entry_matches s (V4 n)"
  shows "\<exists>z \<in> set (pl_zones (fst (Compile p opt))). z_egress z = ru_outbound r \<and> zone_matches z n"
proof -
  let ?o = "withDefaults opt"
  obtain xs ys where rs: "rules p = xs @ r # ys" using split_list [OF assms(1)] by blast
  let ?st = "foldl (compile_rule ?o p) \<lparr>c_zones = [], c_names = [], c_used = [], c_warns = []\<rparr> xs"
  obtain z where z: "z \<in> set (c_zones (compile_rule ?o p ?st r))" "z_egress z = ru_outbound r" "zone_matches z n"
    using compile_rule_adds [OF assms(2-5)] by blast
  have "set (c_zones (compile_rule ?o p ?st r)) \<subseteq> set (c_zones (compile_zones ?o p))"
    unfolding compile_zones_def rs foldl_append foldl.simps using folds_zones by (rule subset_trans)
  with z(1) have "z \<in> set (c_zones (compile_zones ?o p))" by blast
  then have "z\<lparr>z_mark := mark_of (pl_egresses (fst (Compile p opt))) (z_egress z)\<rparr> \<in> set (pl_zones (fst (Compile p opt)))"
    unfolding Compile_zones by simp
  with z(2,3) show ?thesis by (intro bexI) (auto simp: zone_matches_def)
qed

text \<open>No active rule is lost: if a rule is enabled and not the default, its outbound resolves to a kernel
  egress, and one of its entries matches an IPv4 address, then the plan has a zone for that outbound whose
  set contains the address.\<close>

theorem active_rule_is_routed:
  assumes "r \<in> set (rules p)" and "active r" and "routable p (ru_outbound r)"
    and "s \<in> set (ru_ip_cidr r)" and "entry_matches s (V4 n)"
  shows "\<exists>z \<in> set (pl_zones (fst (Compile p opt))). z_egress z = ru_outbound r \<and> zone_matches z n"
  using assms by (rule rule_zone_exists)

subsection \<open>Where the code falls short\<close>

text \<open>A source restriction can be lost: for an adopted tunnel the IPv6 source prefixes of a rule are
  stripped, and when nothing else restricts the source, the zone is no longer restricted at all. There is
  a valid profile with a rule for one IPv6 source network whose compiled zone captures the traffic of
  every client.\<close>

theorem v6_source_rule_captures_everyone:
  "\<exists>p r z. Validate p = None \<and> r \<in> set (rules p) \<and> active r \<and> HasSourceMatcher r \<and>
     z \<in> set (pl_zones (fst (Compile p no_options))) \<and> z_egress z = ru_outbound r \<and> z_v4 z \<noteq> [] \<and> \<not> z_src_scoped z"
proof -
  let ?r = "base_rule\<lparr>ru_source_ip_cidr := [''2001:db8::/32'']\<rparr>"
  let ?p = "example_profile\<lparr>rules := [?r], routing_lists := []\<rparr>"
  have "Validate ?p = None" by code_simp
  moreover have "active ?r" "HasSourceMatcher ?r" by code_simp+
  moreover have "map (\<lambda>z. (z_egress z, z_v4 z, z_src_scoped z)) (pl_zones (fst (Compile ?p no_options))) = [(''awg'', [''203.0.113.0/24''], False)]"
    by code_simp
  then obtain z where "z \<in> set (pl_zones (fst (Compile ?p no_options)))" "z_egress z = ''awg''" "z_v4 z \<noteq> []" "\<not> z_src_scoped z"
    by (cases "pl_zones (fst (Compile ?p no_options))") auto
  moreover have "ru_outbound ?r = ''awg''" by (simp add: base_rule_def)
  moreover have "?r \<in> set (rules ?p)" by simp
  ultimately show ?thesis by metis
qed

text \<open>The validator and the compiler disagree on the builtin targets: validation ignores letter case, the
  compiler does not. There is a valid profile with an active address rule for \<^verbatim>\<open>Block\<close> that the plan does
  not route at all.\<close>

theorem capitalised_block_not_routed:
  "\<exists>p r. Validate p = None \<and> r \<in> set (rules p) \<and> active r \<and> ru_outbound r = ''Block'' \<and>
     (\<exists>n. \<exists>s \<in> set (ru_ip_cidr r). entry_matches s (V4 n)) \<and> pl_zones (fst (Compile p no_options)) = []"
proof -
  let ?r = "base_rule\<lparr>ru_outbound := ''Block''\<rparr>"
  let ?p = "example_profile\<lparr>rules := [?r], routing_lists := []\<rparr>"
  have "Validate ?p = None" by code_simp
  moreover have "active ?r" by code_simp
  moreover have "entry_matches ''203.0.113.0/24'' (V4 3405803777)" by code_simp
  then have "\<exists>n. \<exists>s \<in> set (ru_ip_cidr ?r). entry_matches s (V4 n)" by (auto simp: base_rule_def)
  moreover have "pl_zones (fst (Compile ?p no_options)) = []" by code_simp
  moreover have "?r \<in> set (rules ?p)" "ru_outbound ?r = ''Block''" by simp_all
  ultimately show ?thesis by blast
qed

text \<open>The numbering has no guard at its upper end: the egress numbered 104 (counting from one, after the
  WAN) gets the main routing table, and the mark of the one numbered 255 is zero under the plan's mask.\<close>

theorem egress_numbering_overflows:
  "eg_table (other_egress (withDefaults no_options) p 103 tag) = o_wan_table (withDefaults no_options) \<and>
   eg_mark (other_egress (withDefaults no_options) p 254 tag) AND o_mask (withDefaults no_options) = 0"
  by (simp add: other_egress_def withDefaults_def no_options_def split: prod.splits)

subsection \<open>Witnesses\<close>

lemma compiled_example: "fst (Compile example_profile no_options) =
  \<lparr>pl_table = ''velinx_pbr'', pl_mask = 0xff0000,
   pl_egresses = [\<lparr>eg_tag = ''direct'', eg_kind = EgressWAN, eg_iface = [], eg_mark = 0x10000, eg_table = 254, eg_fail_closed = False\<rparr>,
     \<lparr>eg_tag = ''awg'', eg_kind = EgressInterface, eg_iface = ''awg0'', eg_mark = 0x20000, eg_table = 151, eg_fail_closed = False\<rparr>],
   pl_zones = [
     \<lparr>z_name = ''list_l1'', z_egress = ''awg'', z_mark = 0x20000, z_v4 = [''10.20.0.0/16''], z_v6 = [], z_domains = [], z_src_v4 = [], z_src_v6 = [], z_src_mac = [], z_src_iface = [], z_src_port = [], z_src_scoped = False\<rparr>,
     \<lparr>z_name = ''rule_r1'', z_egress = ''awg'', z_mark = 0x20000, z_v4 = [''203.0.113.0/24''], z_v6 = [], z_domains = [], z_src_v4 = [], z_src_v6 = [], z_src_mac = [], z_src_iface = [], z_src_port = [], z_src_scoped = False\<rparr>],
   pl_bypass_v4 = [''198.51.100.7/32''], pl_bypass_v6 = [], pl_flowtable = None, pl_masq = [''awg0'']\<rparr>"
  by code_simp

lemma example_zones: "length (pl_zones (fst (Compile example_profile no_options))) = 2"
  by (simp add: compiled_example)

theorem Compile_ruleset_loadable_witness:
  "length (pl_zones (fst (Compile example_profile no_options))) = 2 \<and>
   distinct (map z_name (pl_zones (fst (Compile example_profile no_options)))) \<and>
   list_all (\<lambda>z. list_all nft_char (z_name z)) (pl_zones (fst (Compile example_profile no_options)))"
  using example_zones Compile_ruleset_loadable [of example_profile no_options] by (simp add: list_all_iff)

theorem Compile_zone_marks_witness:
  "length (pl_zones (fst (Compile example_profile no_options))) = 2 \<and>
   list_all (\<lambda>z. \<exists>e \<in> set (pl_egresses (fst (Compile example_profile no_options))). eg_tag e = z_egress z \<and> eg_mark e = z_mark z)
     (pl_zones (fst (Compile example_profile no_options)))"
  using example_zones Compile_zone_marks [of example_profile no_options] by (simp add: list_all_iff)

theorem Compile_marks_distinct_witness:
  "default_marks no_options \<and> length (pl_egresses (fst (Compile example_profile no_options))) = 2 \<and>
   distinct (map eg_mark (pl_egresses (fst (Compile example_profile no_options))))"
proof -
  have d: "default_marks no_options" by (simp add: default_marks_def no_options_def)
  have l: "length (pl_egresses (fst (Compile example_profile no_options))) = 2" by (simp add: compiled_example)
  then have "length (pl_egresses (fst (Compile example_profile no_options))) \<le> 255" by simp
  from d l Compile_marks_distinct [OF d this] show ?thesis by blast
qed

theorem v4_only_tunnel_gets_no_v6_witness:
  "let p = example_profile\<lparr>rules := [base_rule\<lparr>ru_ip_cidr := [''203.0.113.0/24'', ''2001:db8::/32'']\<rparr>]\<rparr>
   in \<exists>z \<in> set (pl_zones (fst (Compile p no_options))).
        is_tunnel p (z_egress z) \<and> egressV4OnlyPosture p (z_egress z) \<and> zone_matches z 3405803777 \<and> z_v6 z = [] \<and> z_src_v6 z = []"
proof -
  let ?r = "base_rule\<lparr>ru_ip_cidr := [''203.0.113.0/24'', ''2001:db8::/32'']\<rparr>"
  let ?p = "example_profile\<lparr>rules := [?r]\<rparr>"
  have o: "ru_outbound ?r = ''awg''" by (simp add: base_rule_def)
  have "?r \<in> set (rules ?p)" "active ?r" "routable ?p (ru_outbound ?r)" "''203.0.113.0/24'' \<in> set (ru_ip_cidr ?r)"
    "entry_matches ''203.0.113.0/24'' (V4 3405803777)" by code_simp+
  from rule_zone_exists [OF this, of no_options] obtain z
    where z: "z \<in> set (pl_zones (fst (Compile ?p no_options)))" "zone_matches z 3405803777" and a: "z_egress z = ''awg''"
    unfolding o by blast
  have t: "is_tunnel ?p (z_egress z)" unfolding a by code_simp
  have e: "egressV4OnlyPosture ?p (z_egress z)" unfolding a by code_simp
  from z t e v4_only_tunnel_gets_no_v6 [OF z(1) t e] show ?thesis unfolding Let_def by blast
qed

theorem active_rule_is_routed_witness:
  "base_rule \<in> set (rules example_profile) \<and> active base_rule \<and> routable example_profile ''awg'' \<and>
   entry_matches ''203.0.113.0/24'' (V4 3405803777) \<and>
   (\<exists>z \<in> set (pl_zones (fst (Compile example_profile no_options))). z_egress z = ''awg'' \<and> zone_matches z 3405803777)"
proof -
  have r: "base_rule \<in> set (rules example_profile)" by (simp add: example_profile_def)
  have a: "active base_rule" by code_simp
  have o: "ru_outbound base_rule = ''awg''" by (simp add: base_rule_def)
  have t: "routable example_profile (ru_outbound base_rule)" by code_simp
  have s: "''203.0.113.0/24'' \<in> set (ru_ip_cidr base_rule)" by (simp add: base_rule_def)
  have m: "entry_matches ''203.0.113.0/24'' (V4 3405803777)" by code_simp
  from r a t o m active_rule_is_routed [OF r a t s m, of no_options] show ?thesis by simp
qed

end
