(* ===== verification/Pbr_Nft.thy ===== *)
theory Pbr_Nft
  imports Pbr_Render Pbr_Spec
begin

unbundle bit_operations_syntax

text \<open>
  What the generated nftables ruleset does to a packet. The marking chain is given as a list of
  statements, the text of \<^verbatim>\<open>RenderNft\<close> is shown to be exactly their rendering, and running them is shown to
  implement the declarative meaning of the plan: bypassed destinations go to the WAN, a pinned flow keeps
  its egress, and otherwise the last zone that captures the packet decides.
\<close>

subsection \<open>Statements and their text\<close>

datatype matcher =
    MDaddr bool string | MSaddr bool string | MIif "string list" | MMac "string list" | MSport "int list"
  | MCt "32 word" "32 word"

datatype stmt = SMark "matcher list" "32 word" bool | SSave

definition ip_kw :: "bool \<Rightarrow> string" where
  "ip_kw v6 = (if v6 then ''ip6'' else ''ip'')"

fun show_matcher :: "matcher \<Rightarrow> string" where
  "show_matcher (MDaddr v6 s) = ip_kw v6 @ '' daddr @'' @ s"
| "show_matcher (MSaddr v6 s) = ip_kw v6 @ '' saddr @'' @ s"
| "show_matcher (MIif is1) = ''iifname '' @ nftStrSet is1"
| "show_matcher (MMac ms) = ''ether saddr '' @ nftRawSet ms"
| "show_matcher (MSport ps) = ''meta l4proto { tcp, udp } th sport '' @ nftIntSet ps"
| "show_matcher (MCt msk m) = ''ct mark & '' @ hexMark msk @ '' == '' @ hexMark m"

fun show_stmt :: "plan \<Rightarrow> stmt \<Rightarrow> string" where
  "show_stmt pl (SMark ms m acc) =
     line2 (concat (map (\<lambda>x. show_matcher x @ '' '') ms) @ markSet pl m @ (if acc then '' accept'' else []))"
| "show_stmt pl SSave = line2 ''ct mark set meta mark''"

definition bypass_stmts :: "plan \<Rightarrow> bool \<Rightarrow> stmt list" where
  "bypass_stmts pl acc =
     (if pl_bypass_v4 pl \<noteq> [] then [SMark [MDaddr False ''bypass4''] (markByKind pl EgressWAN) acc] else []) @
     (if pl_bypass_v6 pl \<noteq> [] then [SMark [MDaddr True ''bypass6''] (markByKind pl EgressWAN) acc] else [])"

definition restore_stmts :: "plan \<Rightarrow> stmt list" where
  "restore_stmts pl = map (\<lambda>e. SMark [MCt (pl_mask pl) (eg_mark e)] (eg_mark e) True) (restore_egresses pl)"

definition src_matchers :: "zone \<Rightarrow> matcher list" where
  "src_matchers z =
     (if z_src_iface z \<noteq> [] then [MIif (z_src_iface z)] else []) @
     (if z_src_mac z \<noteq> [] then [MMac (z_src_mac z)] else []) @
     (if z_src_port z \<noteq> [] then [MSport (z_src_port z)] else [])"

definition dest_stmts :: "zone \<Rightarrow> stmt list" where
  "dest_stmts z =
     (if z_v4 z \<noteq> [] \<and> (z_src_v4 z \<noteq> [] \<or> z_src_v6 z = [])
      then [SMark (src_matchers z @ (if z_src_v4 z \<noteq> [] then [MSaddr False (z_name z @ ''_s4'')] else []) @
              [MDaddr False (z_name z @ ''_4'')]) (z_mark z) False] else []) @
     (if z_v6 z \<noteq> [] \<and> (z_src_v6 z \<noteq> [] \<or> z_src_v4 z = [])
      then [SMark (src_matchers z @ (if z_src_v6 z \<noteq> [] then [MSaddr True (z_name z @ ''_s6'')] else []) @
              [MDaddr True (z_name z @ ''_6'')]) (z_mark z) False] else [])"

definition source_stmts :: "zone \<Rightarrow> stmt list" where
  "source_stmts z =
     (if z_v4 z = [] \<and> z_v6 z = [] \<and> z_src_scoped z then
        (if z_src_v4 z \<noteq> [] then [SMark (src_matchers z @ [MSaddr False (z_name z @ ''_s4'')]) (z_mark z) False] else []) @
        (if z_src_v6 z \<noteq> [] then [SMark (src_matchers z @ [MSaddr True (z_name z @ ''_s6'')]) (z_mark z) False] else []) @
        (if z_src_v4 z = [] \<and> z_src_v6 z = [] \<and> src_matchers z \<noteq> [] then [SMark (src_matchers z) (z_mark z) False] else [])
      else [])"

definition zone_stmts :: "zone \<Rightarrow> stmt list" where
  "zone_stmts z = dest_stmts z @ source_stmts z"

definition mark_chain :: "plan \<Rightarrow> stmt list" where
  "mark_chain pl =
     bypass_stmts pl True @ restore_stmts pl @ concat (map zone_stmts (pl_zones pl)) @
     (if list_ex (\<lambda>z. source_stmts z \<noteq> []) (pl_zones pl) then bypass_stmts pl False else []) @ [SSave]"

lemma join_spaced: "ws \<noteq> [] \<Longrightarrow> join_with '' '' ws @ '' '' = concat (map (\<lambda>w. w @ '' '') ws)"
  by (induction "'' ''" ws rule: join_with.induct) auto

lemma srcMatchPrefix_show: "srcMatchPrefix z = concat (map (\<lambda>x. show_matcher x @ '' '') (src_matchers z))"
proof -
  have "src_parts z = map show_matcher (src_matchers z)" by (simp add: src_parts_def src_matchers_def)
  then show ?thesis using join_spaced [of "src_parts z"] by (auto simp: srcMatchPrefix_def comp_def)
qed

lemma srcMatchPrefix_Nil: "srcMatchPrefix z = [] \<longleftrightarrow> src_matchers z = []"
  unfolding srcMatchPrefix_show by (cases "src_matchers z") auto

lemma bypass_lines_show:
  "bypass_lines pl (if acc then '' accept'' else []) = concat (map (show_stmt pl) (bypass_stmts pl acc))"
  by (simp add: bypass_lines_def bypass_stmts_def ip_kw_def)

lemma restore_lines_show: "concat (map line2 (connmarkRestoreLines pl)) = concat (map (show_stmt pl) (restore_stmts pl))"
  by (simp add: connmarkRestoreLines_def restore_stmts_def comp_def)

lemma dest_lines_show: "dest_lines pl z = concat (map (show_stmt pl) (dest_stmts z))"
  by (simp add: dest_lines_def dest_stmts_def srcMatchPrefix_show ip_kw_def Let_def)

lemma source_lines_show:
  "fst (source_only_lines pl z) = concat (map (show_stmt pl) (source_stmts z))"
  "snd (source_only_lines pl z) \<longleftrightarrow> source_stmts z \<noteq> []"
  by (cases "z_src_v4 z = []"; cases "z_src_v6 z = []"; cases "src_matchers z = []";
      auto simp: source_only_lines_def source_stmts_def srcMatchPrefix_Nil srcMatchPrefix_show ip_kw_def Let_def)+

lemma zone_lines_show:
  "concat (map (\<lambda>z. dest_lines pl z @ fst (source_only_lines pl z)) zs) = concat (map (show_stmt pl) (concat (map zone_stmts zs)))"
  by (induction zs) (simp_all add: zone_stmts_def dest_lines_show source_lines_show)

lemma mark_chain_show:
  "nft_mark_chain pl =
     line1 ''chain wr_mark {'' @ line2 ''type filter hook prerouting priority mangle; policy accept;'' @
     concat (map (show_stmt pl) (mark_chain pl)) @ line1 ''}''"
  using bypass_lines_show [of pl True] bypass_lines_show [of pl False]
  by (simp add: nft_mark_chain_def mark_chain_def restore_lines_show zone_lines_show source_lines_show(2))

subsection \<open>Declared sets\<close>

definition zone_sets :: "zone \<Rightarrow> (string \<times> bool \<times> string list) list" where
  "zone_sets z = [(z_name z @ ''_4'', False, z_v4 z), (z_name z @ ''_6'', True, z_v6 z),
     (z_name z @ ''_s4'', False, z_src_v4 z), (z_name z @ ''_s6'', True, z_src_v6 z)]"

definition declared_sets :: "plan \<Rightarrow> (string \<times> bool \<times> string list) list" where
  "declared_sets pl = filter (\<lambda>(n, v6, els). els \<noteq> [])
     ([(''bypass4'', False, pl_bypass_v4 pl), (''bypass6'', True, pl_bypass_v6 pl)] @ concat (map zone_sets (pl_zones pl)))"

definition elements_of :: "plan \<Rightarrow> string \<Rightarrow> string list" where
  "elements_of pl n = (case map_of (declared_sets pl) n of None \<Rightarrow> [] | Some (_, els) \<Rightarrow> els)"

fun set_refs :: "matcher \<Rightarrow> (string \<times> bool) list" where
  "set_refs (MDaddr v6 s) = [(s, v6)]"
| "set_refs (MSaddr v6 s) = [(s, v6)]"
| "set_refs _ = []"

fun stmt_refs :: "stmt \<Rightarrow> (string \<times> bool) list" where
  "stmt_refs (SMark ms _ _) = concat (map set_refs ms)"
| "stmt_refs SSave = []"

lemma concat_filter_map: "concat (map f xs) = concat (map f (filter (\<lambda>x. f x \<noteq> []) xs))"
  by (induction xs) auto

lemma set_lines_show:
  "nft_sets pl = concat (map (\<lambda>(n, v6, els). set_line n v6 els) (declared_sets pl))"
proof -
  let ?f = "\<lambda>(n, v6, els). set_line n v6 els"
  let ?all = "[(''bypass4'', False, pl_bypass_v4 pl), (''bypass6'', True, pl_bypass_v6 pl)] @ concat (map zone_sets (pl_zones pl))"
  have "concat (map ?f (concat (map zone_sets zs))) = concat (map (\<lambda>z. concat (map ?f (zone_sets z))) zs)" for zs
    by (induction zs) simp_all
  then have "nft_sets pl = concat (map ?f ?all)" by (simp add: nft_sets_def zone_sets_def)
  also have "\<dots> = concat (map ?f (filter (\<lambda>x. ?f x \<noteq> []) ?all))" by (rule concat_filter_map)
  also have "filter (\<lambda>x. ?f x \<noteq> []) ?all = declared_sets pl"
    unfolding declared_sets_def by (rule filter_cong) (auto simp: set_line_def line1_def nl_def)
  finally show ?thesis .
qed

lemma append_eq_rev: "x @ s = y @ t \<longleftrightarrow> rev s @ rev x = rev t @ rev y"
  by (metis rev_append rev_rev_ident)

lemma zone_set_names:
  assumes "(n, v6, els) \<in> set (zone_sets z)" and "(n, v6', els') \<in> set (zone_sets z')"
  shows "z_name z = z_name z'"
  using assms by (auto simp: zone_sets_def append_eq_rev simp del: append_same_eq rev_append)


lemma zone_names_distinct:
  "distinct (map z_name zs) \<Longrightarrow> distinct (map fst (concat (map zone_sets zs)))"
proof (induction zs)
  case (Cons z zs)
  have "distinct (map fst (zone_sets z))" by (simp add: zone_sets_def append_eq_rev)
  moreover have "n \<notin> fst ` set (zone_sets z')" if "z' \<in> set zs" "n \<in> fst ` set (zone_sets z)" for n z'
  proof -
    have "z_name z \<noteq> z_name z'" using Cons.prems that(1) by auto
    then show ?thesis using that(2) by (auto dest: zone_set_names)
  qed
  then have "fst ` set (zone_sets z) \<inter> fst ` set (concat (map zone_sets zs)) = {}"
    unfolding set_concat set_map image_Union by blast
  ultimately show ?case using Cons by simp
qed simp

lemma bypass_not_zone: "n \<in> {''bypass4'', ''bypass6''} \<Longrightarrow> n \<notin> fst ` set (zone_sets z)"
proof -
  have "''bypass4'' \<noteq> x @ t" "''bypass6'' \<noteq> x @ t" if "t \<in> {''_4'', ''_6'', ''_s4'', ''_s6''}" for x t
    using that append_eq_rev [of "''bypass4''" "[]" x t] append_eq_rev [of "''bypass6''" "[]" x t] by auto
  then show "n \<in> {''bypass4'', ''bypass6''} \<Longrightarrow> n \<notin> fst ` set (zone_sets z)"
    by (auto simp: zone_sets_def)
qed

lemma distinct_map_filter_fst: "distinct (map fst xs) \<Longrightarrow> distinct (map fst (filter P xs))"
  by (induction xs) auto

lemma declared_distinct:
  assumes "distinct (map z_name (pl_zones pl))"
  shows "distinct (map fst (declared_sets pl))"
  unfolding declared_sets_def
  by (rule distinct_map_filter_fst) (use zone_names_distinct [OF assms] bypass_not_zone in auto)

lemma elements_of_declared:
  assumes "distinct (map z_name (pl_zones pl))" and "(n, v6, els) \<in> set (declared_sets pl)"
  shows "elements_of pl n = els"
  using map_of_is_SomeI [OF declared_distinct [OF assms(1)] assms(2)] by (simp add: elements_of_def)

lemma zone_elements:
  assumes "distinct (map z_name (pl_zones pl))" and "z \<in> set (pl_zones pl)"
  shows "z_v4 z \<noteq> [] \<Longrightarrow> elements_of pl (z_name z @ ''_4'') = z_v4 z"
    and "z_v6 z \<noteq> [] \<Longrightarrow> elements_of pl (z_name z @ ''_6'') = z_v6 z"
    and "z_src_v4 z \<noteq> [] \<Longrightarrow> elements_of pl (z_name z @ ''_s4'') = z_src_v4 z"
    and "z_src_v6 z \<noteq> [] \<Longrightarrow> elements_of pl (z_name z @ ''_s6'') = z_src_v6 z"
  using assms(2) by (auto intro!: elements_of_declared [OF assms(1)] simp: declared_sets_def zone_sets_def)

lemma bypass_elements:
  assumes "distinct (map z_name (pl_zones pl))"
  shows "pl_bypass_v4 pl \<noteq> [] \<Longrightarrow> elements_of pl ''bypass4'' = pl_bypass_v4 pl"
    and "pl_bypass_v6 pl \<noteq> [] \<Longrightarrow> elements_of pl ''bypass6'' = pl_bypass_v6 pl"
  by (auto intro!: elements_of_declared [OF assms] simp: declared_sets_def)

text \<open>Every set a statement refers to is declared, with the family the statement matches on.\<close>

lemma src_matchers_refs: "concat (map set_refs (src_matchers z)) = []"
  by (simp add: src_matchers_def)

lemma zone_refs_declared:
  assumes "z \<in> set (pl_zones pl)" and "st \<in> set (zone_stmts z)" and "(n, v6) \<in> set (stmt_refs st)"
  shows "\<exists>els. (n, v6, els) \<in> set (declared_sets pl)"
proof -
  have "\<exists>els. (n, v6, els) \<in> set (zone_sets z) \<and> els \<noteq> []"
    using assms(2,3)
    by (auto simp: zone_stmts_def dest_stmts_def source_stmts_def zone_sets_def src_matchers_refs split: if_splits)
  then show ?thesis using assms(1) by (auto simp: declared_sets_def)
qed

lemma refs_declared:
  assumes "st \<in> set (mark_chain pl)" and "(n, v6) \<in> set (stmt_refs st)"
  shows "\<exists>els. (n, v6, els) \<in> set (declared_sets pl)"
proof -
  have b: "\<exists>els. (n, v6, els) \<in> set (declared_sets pl)" if "st \<in> set (bypass_stmts pl acc)" for acc
    using that assms(2) by (auto simp: bypass_stmts_def declared_sets_def split: if_splits)
  have "st \<notin> set (restore_stmts pl)" using assms(2) by (auto simp: restore_stmts_def)
  with assms b show ?thesis using zone_refs_declared by (auto simp: mark_chain_def split: if_splits)
qed

subsection \<open>Running the chain\<close>

record packet =
  pk_src :: addr
  pk_dst :: addr
  pk_l4 :: bool
  pk_sport :: int
  pk_iif :: "string \<Rightarrow> bool"
  pk_mac :: "string \<Rightarrow> bool"
  pk_mark :: "32 word"
  pk_ct :: "32 word"

definition packet_wf :: "packet \<Rightarrow> bool" where
  "packet_wf pk = (is6 (pk_src pk) = is6 (pk_dst pk))"

definition in_cidrs :: "string list \<Rightarrow> addr \<Rightarrow> bool" where
  "in_cidrs els a = list_ex (\<lambda>s. case parse_prefix s of None \<Rightarrow> False | Some q \<Rightarrow> prefix_contains q a) els"

fun matches :: "plan \<Rightarrow> packet \<Rightarrow> matcher \<Rightarrow> bool" where
  "matches pl pk (MDaddr v6 s) = (is6 (pk_dst pk) = v6 \<and> in_cidrs (elements_of pl s) (pk_dst pk))"
| "matches pl pk (MSaddr v6 s) = (is6 (pk_src pk) = v6 \<and> in_cidrs (elements_of pl s) (pk_src pk))"
| "matches pl pk (MIif is1) = list_ex (pk_iif pk) is1"
| "matches pl pk (MMac ms) = list_ex (pk_mac pk) ms"
| "matches pl pk (MSport ps) = (pk_l4 pk \<and> List.member ps (pk_sport pk))"
| "matches pl pk (MCt msk m) = (pk_ct pk AND msk = m)"

text \<open>\<^verbatim>\<open>meta mark & ~mask | m\<close>.\<close>

definition put_mark :: "plan \<Rightarrow> 32 word \<Rightarrow> packet \<Rightarrow> packet" where
  "put_mark pl m pk = pk\<lparr>pk_mark := (pk_mark pk AND NOT (pl_mask pl)) OR m\<rparr>"

fun run_chain :: "plan \<Rightarrow> stmt list \<Rightarrow> packet \<Rightarrow> packet" where
  "run_chain pl [] pk = pk"
| "run_chain pl (SSave # ss) pk = run_chain pl ss (pk\<lparr>pk_ct := pk_mark pk\<rparr>)"
| "run_chain pl (SMark ms m acc # ss) pk =
     (if list_all (matches pl pk) ms
      then (if acc then put_mark pl m pk else run_chain pl ss (put_mark pl m pk))
      else run_chain pl ss pk)"

subsection \<open>What the plan means\<close>

definition of_family :: "addr \<Rightarrow> string list \<Rightarrow> string list \<Rightarrow> string list" where
  "of_family a c4 c6 = (if is6 a then c6 else c4)"

definition bypassed :: "plan \<Rightarrow> packet \<Rightarrow> bool" where
  "bypassed pl pk = in_cidrs (of_family (pk_dst pk) (pl_bypass_v4 pl) (pl_bypass_v6 pl)) (pk_dst pk)"

definition dest_ok :: "zone \<Rightarrow> packet \<Rightarrow> bool" where
  "dest_ok z pk = ((z_v4 z = [] \<and> z_v6 z = []) \<or> in_cidrs (of_family (pk_dst pk) (z_v4 z) (z_v6 z)) (pk_dst pk))"

definition link_ok :: "zone \<Rightarrow> packet \<Rightarrow> bool" where
  "link_ok z pk =
     ((z_src_iface z = [] \<or> list_ex (pk_iif pk) (z_src_iface z)) \<and>
      (z_src_mac z = [] \<or> list_ex (pk_mac pk) (z_src_mac z)) \<and>
      (z_src_port z = [] \<or> pk_l4 pk \<and> List.member (z_src_port z) (pk_sport pk)))"

definition source_ok :: "zone \<Rightarrow> packet \<Rightarrow> bool" where
  "source_ok z pk =
     (((z_src_v4 z = [] \<and> z_src_v6 z = []) \<or> in_cidrs (of_family (pk_src pk) (z_src_v4 z) (z_src_v6 z)) (pk_src pk)) \<and>
      link_ok z pk)"

text \<open>A zone captures a packet when all its conditions hold; one without destination must restrict the
  source.\<close>

definition zone_captures :: "zone \<Rightarrow> packet \<Rightarrow> bool" where
  "zone_captures z pk =
     (dest_ok z pk \<and> source_ok z pk \<and>
      (z_v4 z = [] \<and> z_v6 z = [] \<longrightarrow>
         z_src_scoped z \<and> (z_src_v4 z \<noteq> [] \<or> z_src_v6 z \<noteq> [] \<or> z_src_iface z \<noteq> [] \<or> z_src_mac z \<noteq> [] \<or> z_src_port z \<noteq> [])))"

definition pinned :: "plan \<Rightarrow> packet \<Rightarrow> egress option" where
  "pinned pl pk = find (\<lambda>e. pk_ct pk AND pl_mask pl = eg_mark e) (restore_egresses pl)"

definition last_capture :: "zone list \<Rightarrow> packet \<Rightarrow> zone option" where
  "last_capture zs pk = find (\<lambda>z. zone_captures z pk) (rev zs)"

definition verdict :: "plan \<Rightarrow> packet \<Rightarrow> 32 word option" where
  "verdict pl pk =
     (if bypassed pl pk then Some (markByKind pl EgressWAN)
      else case pinned pl pk of
             Some e \<Rightarrow> Some (eg_mark e)
           | None \<Rightarrow> map_option z_mark (last_capture (pl_zones pl) pk))"

subsection \<open>The chain implements the plan\<close>

lemma put_mark_simps [simp]:
  "pk_src (put_mark pl m pk) = pk_src pk" "pk_dst (put_mark pl m pk) = pk_dst pk" "pk_l4 (put_mark pl m pk) = pk_l4 pk"
  "pk_sport (put_mark pl m pk) = pk_sport pk" "pk_iif (put_mark pl m pk) = pk_iif pk" "pk_mac (put_mark pl m pk) = pk_mac pk"
  "pk_ct (put_mark pl m pk) = pk_ct pk" "pk_mark (put_mark pl m pk) = (pk_mark pk AND NOT (pl_mask pl)) OR m"
  by (simp_all add: put_mark_def)

lemma put_mark_blind [simp]:
  "matches pl (put_mark pl m pk) x = matches pl pk x" "zone_captures z (put_mark pl m pk) = zone_captures z pk"
  "bypassed pl (put_mark pl m pk) = bypassed pl pk" "packet_wf (put_mark pl m pk) = packet_wf pk"
  by (cases x; simp)
    (simp_all add: zone_captures_def dest_ok_def source_ok_def link_ok_def bypassed_def packet_wf_def)

lemma in_cidrs_Nil [simp]: "\<not> in_cidrs [] a"
  by (simp add: in_cidrs_def)

lemma src_matchers_ok:
  "list_all (matches pl pk) (src_matchers z) \<longleftrightarrow> link_ok z pk"
  by (simp add: src_matchers_def link_ok_def)

lemma src_matchers_Nil: "src_matchers z = [] \<longleftrightarrow> z_src_iface z = [] \<and> z_src_mac z = [] \<and> z_src_port z = []"
  by (simp add: src_matchers_def)

lemma run_zone:
  assumes "distinct (map z_name (pl_zones pl))" and "z \<in> set (pl_zones pl)" and "packet_wf pk"
  shows "run_chain pl (zone_stmts z @ ss) pk =
    run_chain pl ss (if zone_captures z pk then put_mark pl (z_mark z) pk else pk)"
proof -
  note els = zone_elements [OF assms(1,2)]
  have fam: "is6 (pk_src pk) \<longleftrightarrow> is6 (pk_dst pk)" using assms(3) by (simp add: packet_wf_def)
  show ?thesis
  proof (cases "z_v4 z = [] \<and> z_v6 z = []")
    case True
    then show ?thesis using fam
      by (cases "is6 (pk_dst pk)"; cases "z_src_v4 z = []"; cases "z_src_v6 z = []")
        (simp_all add: zone_stmts_def dest_stmts_def source_stmts_def zone_captures_def dest_ok_def source_ok_def
          src_matchers_ok src_matchers_Nil of_family_def els)
  next
    case False
    then show ?thesis using fam
      by (cases "is6 (pk_dst pk)"; cases "z_v4 z = []"; cases "z_v6 z = []"; cases "z_src_v4 z = []"; cases "z_src_v6 z = []")
        (simp_all add: zone_stmts_def dest_stmts_def source_stmts_def zone_captures_def dest_ok_def source_ok_def
          src_matchers_ok of_family_def els)
  qed
qed

lemma run_zones:
  assumes "distinct (map z_name (pl_zones pl))" and "set zs \<subseteq> set (pl_zones pl)" and "packet_wf pk"
  shows "run_chain pl (concat (map zone_stmts zs) @ ss) pk =
    run_chain pl ss (foldl (\<lambda>pk z. if zone_captures z pk then put_mark pl (z_mark z) pk else pk) pk zs)"
  using assms(2,3)
proof (induction zs arbitrary: pk)
  case (Cons z zs)
  then show ?case by (simp add: run_zone [OF assms(1)])
qed simp

definition in_mask :: "plan \<Rightarrow> 32 word \<Rightarrow> bool" where
  "in_mask pl m = (m AND NOT (pl_mask pl) = 0)"

lemma put_put: "in_mask pl m' \<Longrightarrow> put_mark pl m (put_mark pl m' pk) = put_mark pl m pk"
proof -
  assume "in_mask pl m'"
  then have "(w AND NOT (pl_mask pl) OR m') AND NOT (pl_mask pl) = w AND NOT (pl_mask pl)" for w
    by (simp add: in_mask_def bit.conj_disj_distrib2 and.assoc)
  then show ?thesis by (simp add: put_mark_def)
qed

lemma fold_last_capture:
  assumes "\<forall>z \<in> set zs. in_mask pl (z_mark z)"
  shows "foldl (\<lambda>pk z. if zone_captures z pk then put_mark pl (z_mark z) pk else pk) pk zs =
    (case last_capture zs pk of None \<Rightarrow> pk | Some z \<Rightarrow> put_mark pl (z_mark z) pk)"
  using assms
proof (induction zs rule: rev_induct)
  case (snoc z zs)
  have "last_capture zs pk = Some z' \<Longrightarrow> z' \<in> set zs" for z'
    by (auto simp: last_capture_def find_Some_iff) (metis nth_mem rev_nth set_rev length_rev)
  with snoc show ?case by (auto simp: last_capture_def put_put split: option.splits)
qed (simp add: last_capture_def)

definition plan_ok :: "plan \<Rightarrow> bool" where
  "plan_ok pl = (distinct (map z_name (pl_zones pl)) \<and> (\<forall>z \<in> set (pl_zones pl). in_mask pl (z_mark z)))"

lemma run_bypass:
  assumes "distinct (map z_name (pl_zones pl))"
  shows "run_chain pl (bypass_stmts pl True @ ss) pk =
      (if bypassed pl pk then put_mark pl (markByKind pl EgressWAN) pk else run_chain pl ss pk)"
    and "\<not> bypassed pl pk \<Longrightarrow> run_chain pl (bypass_stmts pl acc @ ss) pk = run_chain pl ss pk"
  using bypass_elements [OF assms] by (auto simp: bypass_stmts_def bypassed_def of_family_def)

lemma run_restore:
  "run_chain pl (restore_stmts pl @ ss) pk =
    (case pinned pl pk of Some e \<Rightarrow> put_mark pl (eg_mark e) pk | None \<Rightarrow> run_chain pl ss pk)"
proof -
  have "run_chain pl (map (\<lambda>e. SMark [MCt (pl_mask pl) (eg_mark e)] (eg_mark e) True) es @ ss) pk =
    (case find (\<lambda>e. pk_ct pk AND pl_mask pl = eg_mark e) es of Some e \<Rightarrow> put_mark pl (eg_mark e) pk | None \<Rightarrow> run_chain pl ss pk)" for es
    by (induction es) auto
  then show ?thesis by (simp add: restore_stmts_def pinned_def)
qed

definition captured :: "plan \<Rightarrow> packet \<Rightarrow> packet" where
  "captured pl pk = (case last_capture (pl_zones pl) pk of None \<Rightarrow> pk | Some z \<Rightarrow> put_mark pl (z_mark z) pk)"

lemma captured_blind [simp]: "bypassed pl (captured pl pk) = bypassed pl pk"
  by (simp add: captured_def split: option.splits)

lemma run_mark_chain:
  assumes "plan_ok pl" and "packet_wf pk"
  shows "run_chain pl (mark_chain pl) pk =
    (if bypassed pl pk then put_mark pl (markByKind pl EgressWAN) pk
     else case pinned pl pk of
            Some e \<Rightarrow> put_mark pl (eg_mark e) pk
          | None \<Rightarrow> (captured pl pk)\<lparr>pk_ct := pk_mark (captured pl pk)\<rparr>)"
proof -
  have d: "distinct (map z_name (pl_zones pl))" and m: "\<forall>z \<in> set (pl_zones pl). in_mask pl (z_mark z)"
    using assms(1) by (simp_all add: plan_ok_def)
  have "run_chain pl (concat (map zone_stmts (pl_zones pl)) @
      (if list_ex (\<lambda>z. source_stmts z \<noteq> []) (pl_zones pl) then bypass_stmts pl False else []) @ [SSave]) pk =
    (captured pl pk)\<lparr>pk_ct := pk_mark (captured pl pk)\<rparr>" if "\<not> bypassed pl pk"
    using that by (simp add: run_zones [OF d order.refl assms(2)] fold_last_capture [OF m] run_bypass(2) [OF d] flip: captured_def)
  then show ?thesis unfolding mark_chain_def run_bypass(1) [OF d] run_restore by (auto split: option.splits)
qed

lemma put_verdict:
  assumes "plan_ok pl" and "packet_wf pk"
  shows "pk_mark (run_chain pl (mark_chain pl) pk) =
    (case verdict pl pk of None \<Rightarrow> pk_mark pk | Some m \<Rightarrow> (pk_mark pk AND NOT (pl_mask pl)) OR m)"
  unfolding run_mark_chain [OF assms] by (simp add: verdict_def captured_def split: option.splits)

end
