(* ===== verification/Ip_Cmd.thy ===== *)
theory Ip_Cmd
  imports Pbr_Nft
begin

unbundle bit_operations_syntax

text \<open>
  The \<^verbatim>\<open>ip rule\<close> and \<^verbatim>\<open>ip route\<close> commands as data, their words, and a small model of the kernel's routing
  policy that runs them: rules in priority order, routing tables, and which links are up. The runner
  \<^verbatim>\<open>kernel_run\<close> reads the words of a command the way the \<^verbatim>\<open>ip\<close> tool does, so the command text of
  \<^verbatim>\<open>render.go\<close> can be run on it.
\<close>

subsection \<open>Commands and their words\<close>

datatype rule_body = ToMain string | MarkTable "32 word" "32 word" int

record ip_rule =
  r_v6 :: bool
  r_body :: rule_body
  r_prio :: int

datatype ip_cmd =
    RuleAdd ip_rule | RuleDel ip_rule
  | RouteDev bool string int | RouteBlackhole bool "int option" int | RouteFlush bool int

definition ip_words :: "bool \<Rightarrow> string list" where
  "ip_words v6 = ''ip'' # (if v6 then [''-6''] else [])"

definition rule_words :: "ip_rule \<Rightarrow> string list" where
  "rule_words r =
     (case r_body r of
        ToMain c \<Rightarrow> [''to'', c, ''lookup'', ''main'']
      | MarkTable m k t \<Rightarrow> [''fwmark'', hexMark m @ ''/'' @ hexMark k, ''table'', itoa t]) @ [''priority'', itoa (r_prio r)]"

fun cmd_words :: "ip_cmd \<Rightarrow> string list" where
  "cmd_words (RuleAdd r) = ip_words (r_v6 r) @ [''rule'', ''add''] @ rule_words r"
| "cmd_words (RuleDel r) = ip_words (r_v6 r) @ [''rule'', ''del''] @ rule_words r"
| "cmd_words (RouteDev v6 i t) = ip_words v6 @ [''route'', ''replace'', ''default'', ''dev'', i, ''table'', itoa t]"
| "cmd_words (RouteBlackhole v6 m t) = ip_words v6 @ [''route'', ''replace'', ''blackhole'', ''default''] @
     (case m of None \<Rightarrow> [] | Some n \<Rightarrow> [''metric'', itoa n]) @ [''table'', itoa t]"
| "cmd_words (RouteFlush v6 t) = ip_words v6 @ [''route'', ''flush'', ''table'', itoa t]"

definition show_cmd :: "ip_cmd \<Rightarrow> string" where
  "show_cmd c = join_with '' '' (cmd_words c)"

subsection \<open>Words are recovered from the text\<close>

definition plain_word :: "string \<Rightarrow> bool" where
  "plain_word w = (w \<noteq> [] \<and> list_all plain_char w)"

lemma fields_plain:
  assumes "list_all plain_char w"
  shows "fields_from a (w @ s) = fields_from (rev w @ a) s"
  using assms
proof (induction w arbitrary: a)
  case (Cons c w)
  then show ?case using space_len_cons_plain [OF spaces_not_plain, of c] by (simp add: Let_def)
qed simp

lemma fields_space: "fields_from a (CHR '' '' # s) = (if a = [] then [] else [rev a]) @ fields_from [] s"
proof -
  have "space_len spaces (CHR '' '' # s) = 1" by (simp add: spaces_def ascii_spaces_def)
  then show ?thesis by (simp add: Let_def)
qed

lemma fields_join: "list_all plain_word ws \<Longrightarrow> str_fields (join_with '' '' ws) = ws"
proof (induction "'' ''" ws rule: join_with.induct)
  case (2 w)
  then show ?case using fields_plain [of w "[]" "[]"] by (simp add: str_fields_def plain_word_def)
next
  case (3 w v vs)
  then show ?case
    using fields_plain [of w "[]" "CHR '' '' # join_with '' '' (v # vs)"]
    by (simp add: str_fields_def plain_word_def fields_space del: fields_from.simps(2))
qed (simp add: str_fields_def)

subsection \<open>Numbers\<close>

definition parse_int :: "string \<Rightarrow> int" where
  "parse_int s = (case s of [] \<Rightarrow> 0 | c # cs \<Rightarrow> if c = CHR ''-'' then - int (nat_of_dec cs) else int (nat_of_dec s))"

lemma parse_int_itoa [simp]: "parse_int (itoa i) = i"
proof -
  have "\<not> is_digit (CHR ''-'')" by code_simp
  then have "hd (dec_of_nat n) \<noteq> CHR ''-''" for n
    using dec_chars [OF hd_in_set [OF dec_of_nat_nonempty [of n]]] by auto
  then have "dec_of_nat n = c # cs \<Longrightarrow> c \<noteq> CHR ''-''" for n c cs by (metis list.sel(1))
  then have "parse_int (dec_of_nat n) = int (nat_of_dec (dec_of_nat n))" for n
    using dec_of_nat_nonempty [of n] unfolding parse_int_def by (simp split: list.split del: nat_of_dec_of_nat)
  then show ?thesis by (simp add: itoa_def parse_int_def)
qed

lemma hex_val_char: "d < 16 \<Longrightarrow> hex_val (hex_char d) = d"
proof -
  have "list_all (\<lambda>d. hex_val (hex_char d) = d) [0..<16]" by code_simp
  then show "d < 16 \<Longrightarrow> hex_val (hex_char d) = d" by (simp add: list_all_iff)
qed

lemma hex_num_append: "hex_num (s @ [c]) = hex_num s * 16 + hex_val c"
  by (simp add: hex_num_def)

lemma hex_num_of_nat: "hex_num (hex_of_nat n) = n"
proof (induction n rule: hex_of_nat.induct)
  case (1 n)
  then show ?case
    using hex_num_append [of "[]" "hex_char n"] hex_num_append [of "hex_of_nat (n div 16)" "hex_char (n mod 16)"]
    by (subst hex_of_nat.simps) (auto simp: hex_val_char hex_num_def [of "[]"])
qed

lemma hex_num_hex8 [simp]: "hex_num (hex8 n) = n"
proof -
  have z: "hex_val (CHR ''0'') = 0" by code_simp
  have "hex_num (replicate k (CHR ''0'') @ s) = hex_num s" for k s
    by (induction k) (simp_all add: hex_num_def z)
  then show ?thesis by (simp add: hex8_def Let_def hex_num_of_nat)
qed

definition parse_mark :: "string \<Rightarrow> 32 word" where
  "parse_mark s = of_nat (hex_num (drop 2 s))"

lemma parse_mark_hexMark [simp]: "parse_mark (hexMark m) = m"
  by (simp add: parse_mark_def hexMark_def)

lemma plain_digit: "is_digit c \<Longrightarrow> plain_char c"
  by (cases "of_char c :: nat" rule: nat.exhaust) (auto simp: is_digit_def plain_char_def less_eq_char_def)

lemma plain_itoa [simp]: "plain_word (itoa i)"
proof -
  have "list_all plain_char (dec_of_nat n)" for n using dec_of_nat_digits [of n] plain_digit by (auto simp: list_all_iff)
  moreover have "plain_char (CHR ''-'')" by code_simp
  ultimately show ?thesis by (simp add: plain_word_def itoa_def)
qed

lemma hex_chars: "c \<in> set (hex8 n) \<Longrightarrow> plain_char c \<and> c \<noteq> CHR ''/''"
proof -
  have d: "list_all (\<lambda>d. plain_char (hex_char d) \<and> hex_char d \<noteq> CHR ''/'') [0..<16]" by code_simp
  have "c \<in> set (hex_of_nat n) \<Longrightarrow> plain_char c \<and> c \<noteq> CHR ''/''" for c n
  proof (induction n rule: hex_of_nat.induct)
    case (1 n)
    then show ?case using d by (cases "n < 16") (auto simp: hex_of_nat.simps [of n] list_all_iff)
  qed
  moreover have "plain_char (CHR ''0'')" by code_simp
  ultimately show "c \<in> set (hex8 n) \<Longrightarrow> plain_char c \<and> c \<noteq> CHR ''/''" by (auto simp: hex8_def Let_def)
qed

lemma hexMark_chars: "c \<in> set (hexMark m) \<Longrightarrow> plain_char c \<and> c \<noteq> CHR ''/''"
proof -
  have "plain_char (CHR ''0'') \<and> plain_char (CHR ''x'')" by code_simp
  then show "c \<in> set (hexMark m) \<Longrightarrow> plain_char c \<and> c \<noteq> CHR ''/''" using hex_chars by (auto simp: hexMark_def)
qed

lemma plain_marks [simp]: "plain_word (hexMark m @ ''/'' @ hexMark k)"
proof -
  have "plain_char (CHR ''/'')" by code_simp
  then show ?thesis using hexMark_chars by (auto simp: plain_word_def list_all_iff)
qed

lemma split_marks [simp]: "split_on (CHR ''/'') (hexMark m @ CHR ''/'' # hexMark k) = [hexMark m, hexMark k]"
proof -
  have "CHR ''/'' \<notin> set (hexMark x)" for x using hexMark_chars by blast
  then show ?thesis by (simp add: split_on_append split_on_no_sep)
qed

subsection \<open>Reading the words\<close>

definition read_rule :: "bool \<Rightarrow> string list \<Rightarrow> ip_cmd option" where
  "read_rule v6 ws =
     (case ws of
        [verb, k, x, l, t, q, n] \<Rightarrow>
          (let body = (if k = ''to'' \<and> l = ''lookup'' \<and> t = ''main'' then Some (ToMain x)
                       else if k = ''fwmark'' \<and> l = ''table'' then
                         (case split_on (CHR ''/'') x of
                            [a, b] \<Rightarrow> Some (MarkTable (parse_mark a) (parse_mark b) (parse_int t)) | _ \<Rightarrow> None)
                       else None)
           in case body of
                None \<Rightarrow> None
              | Some b \<Rightarrow>
                  (let r = \<lparr>r_v6 = v6, r_body = b, r_prio = parse_int n\<rparr> in
                   if q \<noteq> ''priority'' then None
                   else if verb = ''add'' then Some (RuleAdd r)
                   else if verb = ''del'' then Some (RuleDel r) else None))
      | _ \<Rightarrow> None)"

definition read_route :: "bool \<Rightarrow> string list \<Rightarrow> ip_cmd option" where
  "read_route v6 ws =
     (case ws of
        [a, b, t] \<Rightarrow> if a = ''flush'' \<and> b = ''table'' then Some (RouteFlush v6 (parse_int t)) else None
      | [a, b, c, d, t] \<Rightarrow>
          if [a, b, c, d] = [''replace'', ''blackhole'', ''default'', ''table''] then Some (RouteBlackhole v6 None (parse_int t)) else None
      | [a, b, c, i, d, t] \<Rightarrow>
          if [a, b, c, d] = [''replace'', ''default'', ''dev'', ''table''] then Some (RouteDev v6 i (parse_int t)) else None
      | [a, b, c, d, m, e, t] \<Rightarrow>
          if [a, b, c, d, e] = [''replace'', ''blackhole'', ''default'', ''metric'', ''table'']
          then Some (RouteBlackhole v6 (Some (parse_int m)) (parse_int t)) else None
      | _ \<Rightarrow> None)"

definition read_object :: "bool \<Rightarrow> string list \<Rightarrow> ip_cmd option" where
  "read_object v6 ws =
     (case ws of [] \<Rightarrow> None
      | w # ws \<Rightarrow> if w = ''rule'' then read_rule v6 ws else if w = ''route'' then read_route v6 ws else None)"

definition read_ip :: "string list \<Rightarrow> ip_cmd option" where
  "read_ip ws = (case ws of [] \<Rightarrow> None | w # ws' \<Rightarrow> if w = ''-6'' then read_object True ws' else read_object False ws)"

lemma read_cmd_words: "cmd_words c = ''ip'' # ws \<Longrightarrow> read_ip ws = Some c"
  by (cases c)
    (auto simp: ip_words_def rule_words_def split_marks read_ip_def read_object_def read_rule_def read_route_def Let_def
      split: rule_body.splits option.splits if_splits)

subsection \<open>The kernel's routing policy\<close>

datatype route = Dev string | Blackhole

record kernel =
  k_rules :: "ip_rule list"
  k_routes :: "((bool \<times> int \<times> int) \<times> route) list"
  k_links :: "string list"
  k_nft :: "string option"

datatype kernel_err = RuleExists | NoSuchRule | NoDevice | NoSuchTable | BadCommand

definition put_route :: "bool \<times> int \<times> int \<Rightarrow> route \<Rightarrow> kernel \<Rightarrow> kernel" where
  "put_route key rt k = k\<lparr>k_routes := filter (\<lambda>x. fst x \<noteq> key) (k_routes k) @ [(key, rt)]\<rparr>"

fun exec_cmd :: "ip_cmd \<Rightarrow> kernel \<Rightarrow> kernel_err option \<times> kernel" where
  "exec_cmd (RuleAdd r) k =
     (if List.member (k_rules k) r then (Some RuleExists, k) else (None, k\<lparr>k_rules := k_rules k @ [r]\<rparr>))"
| "exec_cmd (RuleDel r) k =
     (if List.member (k_rules k) r then (None, k\<lparr>k_rules := remove1 r (k_rules k)\<rparr>) else (Some NoSuchRule, k))"
| "exec_cmd (RouteDev v6 i t) k =
     (if List.member (k_links k) i then (None, put_route (v6, t, 0) (Dev i) k) else (Some NoDevice, k))"
| "exec_cmd (RouteBlackhole v6 m t) k = (None, put_route (v6, t, case m of None \<Rightarrow> 0 | Some n \<Rightarrow> n) Blackhole k)"
| "exec_cmd (RouteFlush v6 t) k =
     (None, k\<lparr>k_routes := filter (\<lambda>x. \<not> (fst (fst x) = v6 \<and> fst (snd (fst x)) = t)) (k_routes k)\<rparr>)"

text \<open>The runner: \<^verbatim>\<open>nft -f -\<close> loads the ruleset as one transaction.\<close>

definition kernel_run :: "(kernel_err, kernel) runner" where
  "kernel_run stdin name args k =
     (if name = ''nft'' then
        (if args = [''-f'', ''-''] then (None, k\<lparr>k_nft := Some stdin\<rparr>)
         else if take 3 args = [''delete'', ''table'', ''inet''] then
           (if k_nft k = None then (Some NoSuchTable, k) else (None, k\<lparr>k_nft := None\<rparr>))
         else (Some BadCommand, k))
      else if name = ''ip'' then (case read_ip args of None \<Rightarrow> (Some BadCommand, k) | Some c \<Rightarrow> exec_cmd c k)
      else (Some BadCommand, k))"

fun plain_cmd :: "ip_cmd \<Rightarrow> bool" where
  "plain_cmd (RuleAdd r) = (case r_body r of ToMain c \<Rightarrow> plain_word c | _ \<Rightarrow> True)"
| "plain_cmd (RuleDel r) = (case r_body r of ToMain c \<Rightarrow> plain_word c | _ \<Rightarrow> True)"
| "plain_cmd (RouteDev v6 i t) = plain_word i"
| "plain_cmd _ = True"

lemma plain_keywords [simp]:
  "list_all plain_word [''ip'', ''-6'', ''rule'', ''route'', ''add'', ''del'', ''to'', ''lookup'', ''main'', ''fwmark'', ''table'',
     ''priority'', ''replace'', ''default'', ''dev'', ''blackhole'', ''metric'', ''flush'']"
  by code_simp

lemma cmd_words_plain: "plain_cmd c \<Longrightarrow> list_all plain_word (cmd_words c)"
  using plain_keywords plain_marks
  by (cases c) (auto simp: ip_words_def rule_words_def simp del: plain_keywords plain_marks split: rule_body.splits option.splits)

lemma run_cmd_show:
  assumes "plain_cmd c"
  shows "run_cmd kernel_run (show_cmd c) k = exec_cmd c k"
proof -
  obtain ws where ws: "cmd_words c = ''ip'' # ws" by (cases c) (auto simp: ip_words_def)
  have "str_fields (show_cmd c) = ''ip'' # ws"
    unfolding show_cmd_def ws [symmetric] by (rule fields_join [OF cmd_words_plain [OF assms]])
  then show ?thesis by (simp add: run_cmd_def splitCmd_def kernel_run_def read_cmd_words [OF ws])
qed

subsection \<open>Forwarding\<close>

datatype hop = Via string | Dropped | MainTable

text \<open>The best live route of a table: a device route is dead while its link is down.\<close>

definition live :: "kernel \<Rightarrow> route \<Rightarrow> bool" where
  "live k rt = (case rt of Dev i \<Rightarrow> List.member (k_links k) i | Blackhole \<Rightarrow> True)"

definition table_hop :: "kernel \<Rightarrow> bool \<Rightarrow> int \<Rightarrow> hop option" where
  "table_hop k v6 t =
     (case sort_key (\<lambda>x. snd (snd (fst x))) (filter (\<lambda>x. fst (fst x) = v6 \<and> fst (snd (fst x)) = t \<and> live k (snd x)) (k_routes k)) of
        [] \<Rightarrow> None
      | x # _ \<Rightarrow> Some (case snd x of Dev i \<Rightarrow> Via i | Blackhole \<Rightarrow> Dropped))"

fun walk_rules :: "kernel \<Rightarrow> addr \<Rightarrow> 32 word \<Rightarrow> ip_rule list \<Rightarrow> hop" where
  "walk_rules k dst m [] = MainTable"
| "walk_rules k dst m (r # rs) =
     (case r_body r of
        ToMain c \<Rightarrow> if in_cidrs [c] dst then MainTable else walk_rules k dst m rs
      | MarkTable v msk t \<Rightarrow>
          if m AND msk = v
          then (case table_hop k (is6 dst) t of None \<Rightarrow> walk_rules k dst m rs | Some h \<Rightarrow> h)
          else walk_rules k dst m rs)"

definition route_of :: "kernel \<Rightarrow> 32 word \<Rightarrow> addr \<Rightarrow> hop" where
  "route_of k m dst = walk_rules k dst m (sort_key r_prio (filter (\<lambda>r. r_v6 r = is6 dst) (k_rules k)))"

end
