(* ===== verification/Pbr_Kernel.thy ===== *)
theory Pbr_Kernel
  imports Ip_Cmd
begin

unbundle bit_operations_syntax

text \<open>
  Installing a plan on the kernel model: the command text of \<^verbatim>\<open>RenderIP\<close> and \<^verbatim>\<open>ipTeardown\<close> is the rendering of
  lists of commands, \<^verbatim>\<open>Apply\<close> leaves exactly the plan's rules and routes whatever it finds, \<^verbatim>\<open>Teardown\<close> undoes
  it, and a packet that a zone captures leaves the router through the zone's egress.
\<close>

subsection \<open>The commands of a plan\<close>

definition fams :: "plan \<Rightarrow> bool list" where
  "fams pl = False # (if hasV6 pl then [True] else [])"

definition excludes :: "options \<Rightarrow> bool \<Rightarrow> ip_rule list" where
  "excludes opt v6 = map (\<lambda>(c, n). \<lparr>r_v6 = v6, r_body = ToMain c, r_prio = n\<rparr>)
     (if v6 then privateExcludesV6 opt else privateExcludes opt)"

definition mark_rule :: "plan \<Rightarrow> options \<Rightarrow> nat \<times> egress \<Rightarrow> bool \<Rightarrow> ip_rule" where
  "mark_rule pl opt x v6 =
     \<lparr>r_v6 = v6, r_body = MarkTable (eg_mark (snd x)) (pl_mask pl) (eg_table (snd x)), r_prio = o_rule_pref opt + int (fst x)\<rparr>"

definition route_asts :: "plan \<Rightarrow> egress \<Rightarrow> ip_cmd list" where
  "route_asts pl e =
     (case eg_kind e of
        EgressInterface \<Rightarrow>
          map (\<lambda>f. RouteDev f (eg_iface e) (eg_table e)) (fams pl) @
          (if eg_fail_closed e then map (\<lambda>f. RouteBlackhole f (Some failClosedMetric) (eg_table e)) (fams pl) else [])
      | EgressBlackhole \<Rightarrow> map (\<lambda>f. RouteBlackhole f None (eg_table e)) (fams pl)
      | _ \<Rightarrow> [])"

definition numbered_egresses :: "plan \<Rightarrow> (nat \<times> egress) list" where
  "numbered_egresses pl = enumerate 0 (nonWanEgresses pl)"

definition install_cmds :: "plan \<Rightarrow> options \<Rightarrow> ip_cmd list" where
  "install_cmds pl opt =
     map RuleAdd (concat (map (excludes opt) (fams pl))) @
     concat (map (\<lambda>x. map (\<lambda>f. RuleAdd (mark_rule pl opt x f)) (fams pl) @ route_asts pl (snd x)) (numbered_egresses pl))"

definition remove_cmds :: "plan \<Rightarrow> options \<Rightarrow> ip_cmd list" where
  "remove_cmds pl opt =
     concat (map (\<lambda>x. map (\<lambda>f. RuleDel (mark_rule pl opt x f)) (fams pl) @ map (\<lambda>f. RouteFlush f (eg_table (snd x))) (fams pl))
       (numbered_egresses pl)) @
     map RuleDel (concat (map (excludes opt) (fams pl)))"

lemma withDefaults_idem [simp]: "withDefaults (withDefaults opt) = withDefaults opt"
  by (simp add: withDefaults_def)

lemma show_exclude:
  "exclude_cmd (if v6 then ''ip -6'' else ''ip'') ''add'' (c, n) = show_cmd (RuleAdd \<lparr>r_v6 = v6, r_body = ToMain c, r_prio = n\<rparr>)"
  "exclude_cmd (if v6 then ''ip -6'' else ''ip'') ''del'' (c, n) = show_cmd (RuleDel \<lparr>r_v6 = v6, r_body = ToMain c, r_prio = n\<rparr>)"
  by (simp_all add: exclude_cmd_def show_cmd_def ip_words_def rule_words_def)

lemma show_excludes:
  "map (exclude_cmd ''ip'' ''add'') (privateExcludes opt) = map show_cmd (map RuleAdd (excludes opt False))"
  "map (exclude_cmd ''ip -6'' ''add'') (privateExcludesV6 opt) = map show_cmd (map RuleAdd (excludes opt True))"
  "map (exclude_cmd ''ip'' ''del'') (privateExcludes opt) = map show_cmd (map RuleDel (excludes opt False))"
  "map (exclude_cmd ''ip -6'' ''del'') (privateExcludesV6 opt) = map show_cmd (map RuleDel (excludes opt True))"
  using show_exclude [of False] show_exclude [of True] by (auto simp: excludes_def)

lemma show_marks:
  "both_cmds (hasV6 pl) (\<lambda>ip. fwmark_cmd ip ''add'' pl e (o_rule_pref opt + int i)) =
     map show_cmd (map (\<lambda>f. RuleAdd (mark_rule pl opt (i, e) f)) (fams pl))"
  "both_cmds (hasV6 pl) (\<lambda>ip. fwmark_cmd ip ''del'' pl e (o_rule_pref opt + int i)) =
     map show_cmd (map (\<lambda>f. RuleDel (mark_rule pl opt (i, e) f)) (fams pl))"
  by (simp_all add: both_cmds_def fams_def fwmark_cmd_def show_cmd_def ip_words_def rule_words_def mark_rule_def)

lemma show_routes:
  "route_cmds (hasV6 pl) e = map show_cmd (route_asts pl e)"
  "both_cmds (hasV6 pl) (\<lambda>ip. ip @ '' route flush table '' @ itoa (eg_table e)) = map show_cmd (map (\<lambda>f. RouteFlush f (eg_table e)) (fams pl))"
  by (simp_all add: route_cmds_def route_asts_def both_cmds_def fams_def show_cmd_def ip_words_def split: egress_kind.splits)

lemma map_concat_map: "map f (concat (map g xs)) = concat (map (\<lambda>x. map f (g x)) xs)"
  by (induction xs) simp_all

lemma RenderIP_show: "RenderIP pl opt = map show_cmd (install_cmds pl (withDefaults opt))"
  unfolding RenderIP_def Let_def install_cmds_def show_excludes show_marks show_routes numbered_egresses_def
  by (simp add: fams_def map_concat_map split_def comp_def del: map_map)

lemma ipTeardown_show: "ipTeardown pl opt = map show_cmd (remove_cmds pl (withDefaults opt))"
  unfolding ipTeardown_def Let_def remove_cmds_def show_excludes show_marks show_routes numbered_egresses_def
  by (simp add: fams_def map_concat_map split_def comp_def del: map_map)

subsection \<open>Running a list of commands\<close>

fun added :: "ip_cmd \<Rightarrow> ip_rule list" where
  "added (RuleAdd r) = [r]"
| "added _ = []"

fun entries :: "ip_cmd \<Rightarrow> ((bool \<times> int \<times> int) \<times> route) list" where
  "entries (RouteDev v6 i t) = [((v6, t, 0), Dev i)]"
| "entries (RouteBlackhole v6 m t) = [((v6, t, case m of None \<Rightarrow> 0 | Some n \<Rightarrow> n), Blackhole)]"
| "entries _ = []"

fun installs :: "kernel \<Rightarrow> ip_cmd \<Rightarrow> bool" where
  "installs k (RuleAdd r) = (r \<notin> set (k_rules k))"
| "installs k (RouteDev v6 i t) = (i \<in> set (k_links k))"
| "installs k (RouteBlackhole v6 m t) = True"
| "installs k _ = False"

fun removes :: "ip_cmd \<Rightarrow> bool" where
  "removes (RuleDel r) = True"
| "removes (RouteFlush v6 t) = True"
| "removes _ = False"

definition set_route :: "(bool \<times> int \<times> int) \<times> route \<Rightarrow> ((bool \<times> int \<times> int) \<times> route) list \<Rightarrow> ((bool \<times> int \<times> int) \<times> route) list" where
  "set_route x rs = filter (\<lambda>y. fst y \<noteq> fst x) rs @ [x]"

lemma run_installs:
  assumes "list_all plain_cmd cs" and "\<forall>c \<in> set cs. installs k c" and "distinct (concat (map added cs))"
  shows "run_until_error kernel_run (map show_cmd cs) k =
    (None, k\<lparr>k_rules := k_rules k @ concat (map added cs), k_routes := fold set_route (concat (map entries cs)) (k_routes k)\<rparr>)"
  using assms
proof (induction cs arbitrary: k)
  case (Cons c cs)
  let ?k = "snd (exec_cmd c k)"
  have e: "exec_cmd c k = (None, k\<lparr>k_rules := k_rules k @ added c, k_routes := fold set_route (entries c) (k_routes k)\<rparr>)"
    using Cons.prems(2) by (cases c) (auto simp: put_route_def set_route_def)
  then have "installs ?k d" if "d \<in> set cs" for d
    using Cons.prems(2,3) that by (cases d; cases c) force+
  moreover have "distinct (concat (map added cs))" using Cons.prems(3) by simp
  ultimately have "run_until_error kernel_run (map show_cmd cs) ?k =
    (None, ?k\<lparr>k_rules := k_rules ?k @ concat (map added cs), k_routes := fold set_route (concat (map entries cs)) (k_routes ?k)\<rparr>)"
    using Cons.IH [of ?k] Cons.prems(1) by simp
  moreover have "run_cmd kernel_run (show_cmd c) k = exec_cmd c k"
    by (rule run_cmd_show) (use Cons.prems(1) in simp)
  ultimately show ?case using e by simp
qed simp

definition without_rules :: "ip_cmd list \<Rightarrow> ip_rule list \<Rightarrow> ip_rule list" where
  "without_rules cs rs = filter (\<lambda>r. RuleDel r \<notin> set cs) rs"

definition without_routes :: "ip_cmd list \<Rightarrow> ((bool \<times> int \<times> int) \<times> route) list \<Rightarrow> ((bool \<times> int \<times> int) \<times> route) list" where
  "without_routes cs rs = filter (\<lambda>x. RouteFlush (fst (fst x)) (fst (snd (fst x))) \<notin> set cs) rs"

lemma filter_neq_remove1: "distinct xs \<Longrightarrow> filter (\<lambda>r. r \<noteq> x) xs = remove1 x xs"
  by (induction xs) (auto simp: filter_id_conv)

lemma run_removes:
  assumes "list_all plain_cmd cs" and "list_all removes cs" and "distinct (k_rules k)"
  shows "run_ignoring kernel_run (map show_cmd cs) k =
    k\<lparr>k_rules := without_rules cs (k_rules k), k_routes := without_routes cs (k_routes k)\<rparr>"
  using assms
proof (induction cs arbitrary: k)
  case Nil
  then show ?case by (simp add: run_ignoring_def without_rules_def without_routes_def)
next
  case (Cons c cs)
  let ?k = "snd (exec_cmd c k)"
  have c: "run_cmd kernel_run (show_cmd c) k = exec_cmd c k" by (rule run_cmd_show) (use Cons.prems(1) in simp)
  have e: "?k = k\<lparr>k_rules := without_rules [c] (k_rules k), k_routes := without_routes [c] (k_routes k)\<rparr>"
    using Cons.prems(2,3)
    by (cases c) (simp_all add: without_rules_def without_routes_def filter_neq_remove1 remove1_idem)
  then have "distinct (k_rules ?k)" using Cons.prems(3) by (simp add: without_rules_def)
  then have "run_ignoring kernel_run (map show_cmd cs) ?k =
    ?k\<lparr>k_rules := without_rules cs (k_rules ?k), k_routes := without_routes cs (k_routes ?k)\<rparr>"
    using Cons.IH [of ?k] Cons.prems(1,2) by simp
  moreover have "without_rules cs (without_rules [c] rs) = without_rules (c # cs) rs"
    "without_routes cs (without_routes [c] xs) = without_routes (c # cs) xs" for rs xs
    by (auto simp: without_rules_def without_routes_def intro!: filter_cong)
  ultimately show ?case using c e by (simp add: run_ignoring_def)
qed

subsection \<open>The plan's rules and routes\<close>

definition plan_rules :: "plan \<Rightarrow> options \<Rightarrow> ip_rule list" where
  "plan_rules pl opt = concat (map (excludes opt) (fams pl)) @
     concat (map (\<lambda>x. map (mark_rule pl opt x) (fams pl)) (numbered_egresses pl))"

definition plan_routes :: "plan \<Rightarrow> ((bool \<times> int \<times> int) \<times> route) list" where
  "plan_routes pl = concat (map (\<lambda>e. concat (map entries (route_asts pl e))) (nonWanEgresses pl))"

definition plan_table :: "plan \<Rightarrow> bool \<Rightarrow> int \<Rightarrow> bool" where
  "plan_table pl v6 t = (v6 \<in> set (fams pl) \<and> t \<in> eg_table ` set (nonWanEgresses pl))"

lemma numbered_snd: "map snd (numbered_egresses pl) = nonWanEgresses pl" "set (map snd (numbered_egresses pl)) = set (nonWanEgresses pl)"
  by (simp_all add: numbered_egresses_def)

lemma route_asts_added [simp]: "concat (map added (route_asts pl e)) = []"
  by (auto simp: route_asts_def split: egress_kind.splits)

lemma map_RuleAdd [simp]:
  "concat (map (\<lambda>x. added (RuleAdd x)) rs) = rs" "concat (map (\<lambda>x. [f x]) xs) = map f xs" "concat (map (\<lambda>x. []) xs) = []"
  by (induction rs) auto

lemma concat_map_concat: "concat (map f (concat (map g xs))) = concat (map (\<lambda>x. concat (map f (g x))) xs)"
  by (induction xs) simp_all

lemma install_added: "concat (map added (install_cmds pl opt)) = plan_rules pl opt"
  by (simp add: install_cmds_def plan_rules_def concat_map_concat comp_def)

lemma install_entries: "concat (map entries (install_cmds pl opt)) = plan_routes pl"
  by (simp add: install_cmds_def plan_routes_def concat_map_concat comp_def flip: numbered_snd(1))

lemma removes_rule: "RuleDel r \<in> set (remove_cmds pl opt) \<longleftrightarrow> r \<in> set (plan_rules pl opt)"
  by (auto simp: remove_cmds_def plan_rules_def)

lemma removes_table: "RouteFlush v6 t \<in> set (remove_cmds pl opt) \<longleftrightarrow> plan_table pl v6 t"
proof -
  have "RouteFlush v6 t \<in> set (remove_cmds pl opt) \<longleftrightarrow> v6 \<in> set (fams pl) \<and> t \<in> eg_table ` set (map snd (numbered_egresses pl))"
    by (auto simp: remove_cmds_def)
  then show ?thesis by (simp only: numbered_snd plan_table_def)
qed

lemma removes_remove_cmds: "list_all removes (remove_cmds pl opt)"
  by (auto simp: remove_cmds_def list_all_iff)

text \<open>The rules of a plan are pairwise distinct: priorities separate the egresses and the exclusions.\<close>

lemma excludes_simps:
  "excludes opt False = map (\<lambda>(c, n). \<lparr>r_v6 = False, r_body = ToMain c, r_prio = o_rule_pref (withDefaults opt) + n\<rparr>)
     [(''10.0.0.0/8'', -3), (''172.16.0.0/12'', -2), (''192.168.0.0/16'', -1)]"
  "excludes opt True = map (\<lambda>(c, n). \<lparr>r_v6 = True, r_body = ToMain c, r_prio = o_rule_pref (withDefaults opt) + n\<rparr>)
     [(''fc00::/7'', -2), (''fe80::/10'', -1)]"
  by (simp_all add: excludes_def privateExcludes_def privateExcludesV6_def excludesFor_def)

lemma distinct_mark_rules:
  "distinct (map fst xs) \<Longrightarrow> distinct (concat (map (\<lambda>x. map (mark_rule pl opt x) (fams pl)) xs))"
proof (induction xs)
  case (Cons x xs)
  have "distinct (map (mark_rule pl opt x) (fams pl))" by (auto simp: fams_def mark_rule_def)
  moreover have "mark_rule pl opt x f \<noteq> mark_rule pl opt y g" if "y \<in> set xs" for y f g
    using Cons.prems that by (auto simp: mark_rule_def)
  ultimately show ?case using Cons by auto
qed simp

lemma plan_rules_distinct: "distinct (plan_rules pl opt)"
proof -
  have "distinct (concat (map (excludes opt) (fams pl)))" by (auto simp: fams_def excludes_simps)
  moreover have "distinct (concat (map (\<lambda>x. map (mark_rule pl opt x) (fams pl)) (numbered_egresses pl)))"
    by (rule distinct_mark_rules) (simp add: numbered_egresses_def)
  moreover have "mark_rule pl opt x g \<notin> set (excludes opt f)" for f x g
    by (cases f) (auto simp: excludes_simps mark_rule_def)
  ultimately show ?thesis by (auto simp: plan_rules_def)
qed

subsection \<open>Apply and Teardown\<close>

definition tunnels_up :: "plan \<Rightarrow> kernel \<Rightarrow> bool" where
  "tunnels_up pl k = list_all (\<lambda>e. eg_kind e = EgressInterface \<longrightarrow> plain_word (eg_iface e) \<and> List.member (k_links k) (eg_iface e)) (pl_egresses pl)"

definition cleared :: "plan \<Rightarrow> options \<Rightarrow> kernel \<Rightarrow> kernel" where
  "cleared pl opt k =
     k\<lparr>k_rules := filter (\<lambda>r. r \<notin> set (plan_rules pl opt)) (k_rules k),
       k_routes := filter (\<lambda>x. \<not> plan_table pl (fst (fst x)) (fst (snd (fst x)))) (k_routes k)\<rparr>"

definition installed :: "plan \<Rightarrow> options \<Rightarrow> kernel \<Rightarrow> kernel" where
  "installed pl opt k =
     (let c = cleared pl opt k
      in c\<lparr>k_nft := Some (RenderNft pl), k_rules := k_rules c @ plan_rules pl opt,
           k_routes := fold set_route (plan_routes pl) (k_routes c)\<rparr>)"

lemma nonWan_in: "set (nonWanEgresses pl) = {e \<in> set (pl_egresses pl). eg_kind e \<noteq> EgressWAN}"
  by (auto simp: nonWanEgresses_def)

lemma excludes_plain: "r \<in> set (excludes opt f) \<Longrightarrow> case r_body r of ToMain c \<Rightarrow> plain_word c | _ \<Rightarrow> True"
proof -
  have "list_all plain_word [''10.0.0.0/8'', ''172.16.0.0/12'', ''192.168.0.0/16'', ''fc00::/7'', ''fe80::/10'']" by code_simp
  then show "r \<in> set (excludes opt f) \<Longrightarrow> case r_body r of ToMain c \<Rightarrow> plain_word c | _ \<Rightarrow> True"
    by (cases f) (auto simp: excludes_simps)
qed

lemma route_asts_plain:
  assumes "tunnels_up pl k" and "e \<in> set (nonWanEgresses pl)" and "c \<in> set (route_asts pl e)"
  shows "plain_cmd c \<and> installs k c"
  using assms by (auto simp: route_asts_def tunnels_up_def list_all_iff nonWan_in split: egress_kind.splits if_splits)

lemma install_cmds_plain:
  assumes "tunnels_up pl k"
  shows "list_all plain_cmd (install_cmds pl opt)"
    and "set (plan_rules pl opt) \<inter> set (k_rules k) = {} \<Longrightarrow> \<forall>c \<in> set (install_cmds pl opt). installs k c"
proof -
  have n: "x \<in> set (numbered_egresses pl) \<Longrightarrow> snd x \<in> set (nonWanEgresses pl)" for x
    using numbered_snd(2) [of pl] by auto
  show "list_all plain_cmd (install_cmds pl opt)"
    using route_asts_plain [OF assms n] excludes_plain
    by (fastforce simp: install_cmds_def list_all_iff mark_rule_def)
  assume "set (plan_rules pl opt) \<inter> set (k_rules k) = {}"
  then show "\<forall>c \<in> set (install_cmds pl opt). installs k c"
    using route_asts_plain [OF assms n] by (fastforce simp: install_cmds_def plan_rules_def)
qed

lemma remove_cmds_plain: "list_all plain_cmd (remove_cmds pl opt)"
  using excludes_plain by (fastforce simp: remove_cmds_def list_all_iff mark_rule_def)

lemma run_teardown:
  "distinct (k_rules k) \<Longrightarrow> run_ignoring kernel_run (ipTeardown pl opt) k = cleared pl (withDefaults opt) k"
  unfolding ipTeardown_show
  by (simp add: run_removes [OF remove_cmds_plain removes_remove_cmds] cleared_def without_rules_def without_routes_def
    removes_rule removes_table)

lemma Apply_installed:
  assumes "distinct (k_rules k)" and "tunnels_up pl k"
  shows "Apply kernel_run pl opt k = (None, installed pl (withDefaults opt) k)"
proof -
  let ?o = "withDefaults opt" let ?k = "k\<lparr>k_nft := Some (RenderNft pl)\<rparr>"
  have "Apply kernel_run pl opt k = run_until_error kernel_run (RenderIP pl ?o) (run_ignoring kernel_run (ipTeardown pl ?o) ?k)"
    by (simp add: Apply_def kernel_run_def Let_def)
  also have "run_ignoring kernel_run (ipTeardown pl ?o) ?k = cleared pl ?o ?k"
    using run_teardown [of ?k pl ?o] assms(1) by simp
  also have "run_until_error kernel_run (RenderIP pl ?o) (cleared pl ?o ?k) = (None, installed pl ?o k)"
  proof -
    have up: "tunnels_up pl (cleared pl ?o ?k)" using assms(2) by (simp add: tunnels_up_def cleared_def)
    have "set (plan_rules pl ?o) \<inter> set (k_rules (cleared pl ?o ?k)) = {}" by (auto simp: cleared_def)
    from run_installs [OF install_cmds_plain(1) [OF up] install_cmds_plain(2) [OF up this]] plan_rules_distinct [of pl ?o]
    show ?thesis unfolding RenderIP_show withDefaults_idem by (simp add: install_added install_entries installed_def cleared_def)
  qed
  finally show ?thesis .
qed

definition route_entries :: "plan \<Rightarrow> egress \<Rightarrow> ((bool \<times> int \<times> int) \<times> route) list" where
  "route_entries pl e = concat (map entries (route_asts pl e))"

lemma plan_routes_entries: "plan_routes pl = concat (map (route_entries pl) (nonWanEgresses pl))"
  unfolding plan_routes_def route_entries_def ..

lemma route_entries_keys:
  "x \<in> set (route_entries pl e) \<Longrightarrow> fst (fst x) \<in> set (fams pl) \<and> fst (snd (fst x)) = eg_table e"
  by (cases "eg_kind e") (auto simp: route_entries_def route_asts_def split: if_splits)

lemma routes_in_plan_tables: "x \<in> set (plan_routes pl) \<Longrightarrow> plan_table pl (fst (fst x)) (fst (snd (fst x)))"
proof -
  assume "x \<in> set (plan_routes pl)"
  then obtain e where e: "e \<in> set (nonWanEgresses pl)" "x \<in> set (route_entries pl e)" by (auto simp: plan_routes_entries)
  with route_entries_keys [OF e(2)] show ?thesis by (simp add: plan_table_def)
qed

lemma filter_set_routes:
  "\<forall>x \<in> set xs. \<not> Q (fst x) \<Longrightarrow> filter (\<lambda>y. Q (fst y)) (fold set_route xs rs) = filter (\<lambda>y. Q (fst y)) rs"
proof (induction xs arbitrary: rs)
  case (Cons x xs)
  have "filter (\<lambda>y. Q (fst y)) (set_route x rs) = filter (\<lambda>y. Q (fst y)) rs"
    using Cons.prems by (auto simp: set_route_def intro!: filter_cong)
  then show ?case using Cons by simp
qed simp

lemma cleared_installed: "cleared pl opt (installed pl opt k) = (cleared pl opt k)\<lparr>k_nft := Some (RenderNft pl)\<rparr>"
proof -
  let ?Q = "\<lambda>key. \<not> plan_table pl (fst key) (fst (snd key))"
  have "filter (\<lambda>y. ?Q (fst y)) (fold set_route (plan_routes pl) rs) = filter (\<lambda>y. ?Q (fst y)) rs" for rs
    by (rule filter_set_routes) (use routes_in_plan_tables in auto)
  then show ?thesis by (simp add: cleared_def installed_def Let_def)
qed

lemma installed_installed: "installed pl opt (installed pl opt k) = installed pl opt k"
  unfolding installed_def [of pl opt "installed pl opt k"] cleared_installed by (simp add: installed_def Let_def cleared_def)

subsection \<open>Forwarding under an installed plan\<close>

definition egress_hop :: "string list \<Rightarrow> egress \<Rightarrow> hop" where
  "egress_hop links e =
     (case eg_kind e of
        EgressInterface \<Rightarrow>
          if List.member links (eg_iface e) then Via (eg_iface e) else if eg_fail_closed e then Dropped else MainTable
      | EgressBlackhole \<Rightarrow> Dropped
      | _ \<Rightarrow> MainTable)"

lemma set_routes_fresh:
  assumes "distinct (map fst xs)" and "fst ` set xs \<inter> fst ` set rs = {}"
  shows "fold set_route xs rs = rs @ xs"
  using assms
proof (induction xs arbitrary: rs)
  case (Cons x xs)
  have "\<forall>y \<in> set rs. fst y \<noteq> fst x" using Cons.prems(2) by (metis disjoint_iff image_eqI list.set_intros(1))
  then have "set_route x rs = rs @ [x]" by (simp add: set_route_def filter_id_conv)
  then show ?case using Cons by (simp add: Int_Un_distrib)
qed simp

lemma route_entries_distinct: "distinct (map fst (route_entries pl e))"
  by (cases "eg_kind e") (auto simp: route_entries_def route_asts_def fams_def failClosedMetric_def)

lemma plan_routes_distinct:
  assumes "distinct (map eg_table es)"
  shows "distinct (map fst (concat (map (route_entries pl) es)))"
  using assms
proof (induction es)
  case (Cons e es)
  have "fst ` set (route_entries pl e) \<inter> fst ` set (concat (map (route_entries pl) es)) = {}"
  proof (rule ccontr)
    assume "\<not> ?thesis"
    then obtain key where key: "key \<in> fst ` set (route_entries pl e)" "key \<in> fst ` set (concat (map (route_entries pl) es))" by blast
    from key(1) have "fst (snd key) = eg_table e" by (elim imageE) (use route_entries_keys in blast)
    moreover from key(2) obtain y d where d: "d \<in> set es" "y \<in> set (route_entries pl d)" "key = fst y" by force
    ultimately have "eg_table e = eg_table d" using route_entries_keys [OF d(2)] by simp
    then show False using Cons.prems d(1) by force
  qed
  then show ?case using Cons route_entries_distinct by simp
qed simp

lemma filter_table:
  assumes "distinct (map eg_table es)" and "e \<in> set es"
  shows "filter (\<lambda>x. fst (fst x) = v6 \<and> fst (snd (fst x)) = eg_table e \<and> P x) (concat (map (route_entries pl) es)) =
    filter (\<lambda>x. fst (fst x) = v6 \<and> P x) (route_entries pl e)"
  using assms
proof (induction es)
  case (Cons d es)
  let ?F = "\<lambda>x. fst (fst x) = v6 \<and> fst (snd (fst x)) = eg_table e \<and> P x"
  have other: "filter ?F (route_entries pl c) = []" if "eg_table c \<noteq> eg_table e" for c
    using that route_entries_keys by (fastforce simp: filter_empty_conv)
  have own: "filter ?F (route_entries pl e) = filter (\<lambda>x. fst (fst x) = v6 \<and> P x) (route_entries pl e)"
    using route_entries_keys by (intro filter_cong) auto
  show ?case
  proof (cases "d = e")
    case True
    then have "eg_table e \<notin> eg_table ` set es" using Cons.prems(1) by simp
    then have "eg_table c \<noteq> eg_table e" if "c \<in> set es" for c using that by (metis image_eqI)
    then have "filter ?F (concat (map (route_entries pl) es)) = []" using other unfolding filter_concat by simp
    then show ?thesis using True own by simp
  next
    case False
    then have "eg_table d \<noteq> eg_table e" using Cons.prems by auto
    then show ?thesis using Cons False other by simp
  qed
qed simp

lemma plan_table_hop:
  assumes "distinct (map eg_table (nonWanEgresses pl))" and "e \<in> set (nonWanEgresses pl)" and "v6 \<in> set (fams pl)"
  shows "table_hop ((installed pl opt k)\<lparr>k_links := ls\<rparr>) v6 (eg_table e) =
    (case egress_hop ls e of MainTable \<Rightarrow> None | h \<Rightarrow> Some h)"
proof -
  let ?k = "(installed pl opt k)\<lparr>k_links := ls\<rparr>" let ?rs = "k_routes (cleared pl opt k)"
  have p: "plan_table pl v6 (eg_table e)" using assms(2,3) by (simp add: plan_table_def)
  have "fst ` set (plan_routes pl) \<inter> fst ` set ?rs = {}"
    using routes_in_plan_tables by (fastforce simp: cleared_def)
  then have r: "k_routes ?k = ?rs @ plan_routes pl"
    using set_routes_fresh plan_routes_distinct [OF assms(1)] by (simp add: installed_def Let_def plan_routes_entries)
  have "filter (\<lambda>x. fst (fst x) = v6 \<and> fst (snd (fst x)) = eg_table e \<and> P x) ?rs = []" for P
  proof (unfold filter_empty_conv, intro ballI notI)
    fix x assume x: "x \<in> set ?rs" and h: "fst (fst x) = v6 \<and> fst (snd (fst x)) = eg_table e \<and> P x"
    from h p have "plan_table pl (fst (fst x)) (fst (snd (fst x)))" by simp
    moreover from x have "\<not> plan_table pl (fst (fst x)) (fst (snd (fst x)))" by (simp add: cleared_def)
    ultimately show False by simp
  qed
  then have "filter (\<lambda>x. fst (fst x) = v6 \<and> fst (snd (fst x)) = eg_table e \<and> live ?k (snd x)) (k_routes ?k) =
    filter (\<lambda>x. fst (fst x) = v6 \<and> live ?k (snd x)) (route_entries pl e)"
    unfolding r plan_routes_entries filter_append filter_table [OF assms(1,2)] by simp
  then show ?thesis using assms(3)
    by (cases "eg_kind e"; cases v6)
      (auto simp: table_hop_def route_entries_def route_asts_def fams_def egress_hop_def live_def failClosedMetric_def split: if_splits)
qed

text \<open>A destination that one of the exclusions keeps on the main table.\<close>

definition private_dst :: "addr \<Rightarrow> bool" where
  "private_dst a = in_cidrs (if is6 a then [''fc00::/7'', ''fe80::/10''] else [''10.0.0.0/8'', ''172.16.0.0/12'', ''192.168.0.0/16'']) a"

definition egress_for :: "plan \<Rightarrow> 32 word \<Rightarrow> egress option" where
  "egress_for pl m = find (\<lambda>e. m AND pl_mask pl = eg_mark e) (nonWanEgresses pl)"

lemma walk_excludes:
  "walk_rules k dst m (excludes opt (is6 dst) @ rs) = (if private_dst dst then MainTable else walk_rules k dst m rs)"
  by (cases "is6 dst") (auto simp: excludes_simps private_dst_def in_cidrs_def)

lemma walk_marks:
  assumes "distinct (map (\<lambda>x. eg_mark (snd x)) xs)"
  shows "walk_rules k dst m (map (\<lambda>x. mark_rule pl opt x v6) xs) =
    (case find (\<lambda>x. m AND pl_mask pl = eg_mark (snd x)) xs of
       None \<Rightarrow> MainTable
     | Some x \<Rightarrow> (case table_hop k (is6 dst) (eg_table (snd x)) of None \<Rightarrow> MainTable | Some h \<Rightarrow> h))"
  using assms
proof (induction xs)
  case (Cons x xs)
  have "find (\<lambda>x. m AND pl_mask pl = eg_mark (snd x)) xs = None" if "m AND pl_mask pl = eg_mark (snd x)"
    using Cons.prems that by (auto simp: find_None_iff image_iff)
  then show ?case using Cons by (auto simp: mark_rule_def split: option.splits)
qed simp

lemma sorted_plan_rules: "sorted (map r_prio (excludes (withDefaults opt) v6 @ map (\<lambda>x. mark_rule pl (withDefaults opt) x v6) (enumerate 0 es)))"
proof -
  have "sorted (map (\<lambda>x. o_rule_pref (withDefaults opt) + int (fst x)) (enumerate n es))" for n
    by (induction es arbitrary: n) (auto simp: in_set_enumerate_eq)
  then have "sorted (map (\<lambda>x. r_prio (mark_rule pl (withDefaults opt) x v6)) (enumerate 0 es))" by (simp add: mark_rule_def)
  then show ?thesis by (cases v6) (auto simp: sorted_append excludes_simps mark_rule_def comp_def)
qed

lemma plan_rules_of_family:
  assumes "v6 \<in> set (fams pl)"
  shows "filter (\<lambda>r. r_v6 r = v6) (plan_rules pl opt) = excludes opt v6 @ map (\<lambda>x. mark_rule pl opt x v6) (numbered_egresses pl)"
proof -
  have "filter (\<lambda>r. r_v6 r = v6) (excludes opt f) = (if f = v6 then excludes opt f else [])" for f
    by (cases f; cases v6) (auto simp: excludes_simps)
  moreover have "filter (\<lambda>r. r_v6 r = v6) (concat (map (\<lambda>x. map (mark_rule pl opt x) (fams pl)) xs)) = map (\<lambda>x. mark_rule pl opt x v6) xs" for xs
    using assms by (induction xs) (auto simp: fams_def mark_rule_def)
  ultimately show ?thesis using assms by (auto simp: plan_rules_def fams_def)
qed

lemma route_installed:
  assumes "distinct (map eg_table (nonWanEgresses pl))" and "distinct (map eg_mark (nonWanEgresses pl))"
    and "k_rules k = []" and "is6 dst \<in> set (fams pl)"
  shows "route_of ((installed pl (withDefaults opt) k)\<lparr>k_links := ls\<rparr>) m dst =
    (if private_dst dst then MainTable
     else case egress_for pl m of None \<Rightarrow> MainTable | Some e \<Rightarrow> egress_hop ls e)"
proof -
  let ?k = "(installed pl (withDefaults opt) k)\<lparr>k_links := ls\<rparr>" let ?o = "withDefaults opt"
  have "k_rules ?k = plan_rules pl ?o" using assms(3) by (simp add: installed_def cleared_def Let_def)
  moreover have "sort_key r_prio (excludes ?o (is6 dst) @ map (\<lambda>x. mark_rule pl ?o x (is6 dst)) (numbered_egresses pl)) =
    excludes ?o (is6 dst) @ map (\<lambda>x. mark_rule pl ?o x (is6 dst)) (numbered_egresses pl)"
    unfolding numbered_egresses_def by (rule sort_key_id_if_sorted) (rule sorted_plan_rules)
  ultimately have "route_of ?k m dst = walk_rules ?k dst m (excludes ?o (is6 dst) @ map (\<lambda>x. mark_rule pl ?o x (is6 dst)) (numbered_egresses pl))"
    by (simp add: route_of_def plan_rules_of_family [OF assms(4)])
  also have "\<dots> = (if private_dst dst then MainTable
     else case egress_for pl m of None \<Rightarrow> MainTable | Some e \<Rightarrow> egress_hop ls e)"
  proof -
    have d: "distinct (map (\<lambda>x. eg_mark (snd x)) (numbered_egresses pl))"
      using assms(2) unfolding numbered_snd(1) [symmetric] by (simp add: comp_def)
    have f: "map_option snd (find (\<lambda>x. Q (snd x)) xs) = find Q (map snd xs)" for Q and xs :: "(nat \<times> egress) list"
      by (induction xs) auto
    have "x \<in> set (numbered_egresses pl)" if "find (\<lambda>x. Q (snd x)) (numbered_egresses pl) = Some x" for Q x
      using that by (auto simp: find_Some_iff)
    then have "snd x \<in> set (nonWanEgresses pl)" if "find (\<lambda>x. Q (snd x)) (numbered_egresses pl) = Some x" for Q x
      using that numbered_snd(2) [of pl] by (metis image_eqI set_map)
    then show ?thesis
      using f [of "\<lambda>e. m AND pl_mask pl = eg_mark e" "numbered_egresses pl"] plan_table_hop [OF assms(1) _ assms(4)]
      unfolding walk_excludes walk_marks [OF d] egress_for_def numbered_snd(1) [symmetric]
      by (auto split: option.splits hop.splits)
  qed
  finally show ?thesis .
qed

end
