(* ===== verification/Pbr_Path.thy ===== *)
theory Pbr_Path
  imports Pbr_Kernel
begin

unbundle bit_operations_syntax

text \<open>
  The path of a packet through the router, from the profile to the outgoing interface: the compiled plan is
  rendered, loaded into the kernel model and run on packets. The properties of the routing plane as a whole
  are here.
\<close>

subsection \<open>Compiled plans\<close>

lemma find_Some_in: "find P xs = Some x \<Longrightarrow> x \<in> set xs \<and> P x"
  by (induction xs) (auto split: if_splits)

lemma in_mask_iff: "in_mask pl m \<longleftrightarrow> m AND pl_mask pl = m"
proof -
  let ?M = "pl_mask pl"
  have split1: "(m AND ?M) OR (m AND NOT ?M) = m" by (simp flip: bit.conj_disj_distrib)
  have "m AND ?M = m" if "m AND NOT ?M = 0" using split1 unfolding that by simp
  moreover have "m AND NOT ?M = 0" if "m AND ?M = m"
    by (subst that [symmetric]) (simp add: and.assoc)
  ultimately show ?thesis unfolding in_mask_def by blast
qed

definition marks_ok :: "plan \<Rightarrow> bool" where
  "marks_ok pl = (distinct (map eg_mark (pl_egresses pl)) \<and> distinct (map eg_table (pl_egresses pl)) \<and>
     (\<forall>e \<in> set (pl_egresses pl). eg_mark e \<noteq> 0 \<and> in_mask pl (eg_mark e)) \<and>
     distinct (map eg_tag (pl_egresses pl)) \<and>
     (\<forall>z \<in> set (pl_zones pl). \<exists>e \<in> set (pl_egresses pl). eg_tag e = z_egress z \<and> eg_mark e = z_mark z) \<and>
     distinct (map z_name (pl_zones pl)) \<and> (\<exists>e \<in> set (pl_egresses pl). eg_kind e = EgressWAN))"

lemma compiled_marks_ok:
  assumes "default_marks opt" and "length (pl_egresses (fst (Compile p opt))) \<le> 104"
  shows "marks_ok (fst (Compile p opt))"
proof -
  have "length (pl_egresses (fst (Compile p opt))) \<le> 255" using assms(2) by simp
  note m = compiled_marks [OF assms(1) this]
  have "\<exists>e \<in> set (pl_egresses (fst (Compile p opt))). eg_kind e = EgressWAN"
    by (simp add: Compile_egresses assign_egresses_def)
  then show ?thesis
    using m assms(2) compiled_zone_marks [of p opt] compiled_names [of p opt] by (simp add: marks_ok_def in_mask_iff)
qed

lemma marks_ok_plan_ok: "marks_ok pl \<Longrightarrow> plan_ok pl"
  by (fastforce simp: marks_ok_def plan_ok_def)





lemma put_mark_owned: "in_mask pl m \<Longrightarrow> pk_mark (put_mark pl m pk) AND pl_mask pl = m"
  by (simp add: in_mask_iff bit.conj_disj_distrib2 and.assoc)

lemma put_mark_foreign: "in_mask pl m \<Longrightarrow> pk_mark (put_mark pl m pk) AND NOT (pl_mask pl) = pk_mark pk AND NOT (pl_mask pl)"
  by (simp add: in_mask_def bit.conj_disj_distrib2 and.assoc)

subsection \<open>From packet to interface\<close>

lemma captured_v6:
  assumes "zone_captures z pk" and "z \<in> set (pl_zones pl)" and "is6 (pk_dst pk)" and "packet_wf pk"
  shows "hasV6 pl"
proof -
  have "z_v6 z \<noteq> [] \<or> z_src_v6 z \<noteq> [] \<or> both_families z"
    using assms(1,3,4)
    by (auto simp: zone_captures_def dest_ok_def source_ok_def of_family_def both_families_def packet_wf_def)
  then show ?thesis using assms(2) by (auto simp: hasV6_def hasV6Zone_def list_ex_iff)
qed

lemma last_capture_in: "last_capture zs pk = Some z \<Longrightarrow> z \<in> set zs \<and> zone_captures z pk"
  unfolding last_capture_def by (drule find_Some_in) simp

lemma restore_in: "pinned pl pk = Some e \<Longrightarrow> e \<in> set (pl_egresses pl) \<and> eg_mark e \<noteq> 0 \<and> pk_ct pk AND pl_mask pl = eg_mark e"
  using set_dedup_seen_subset [of eg_mark "[]" "filter (\<lambda>e. eg_mark e \<noteq> 0) (pl_egresses pl)"]
  by (auto simp: pinned_def restore_egresses_def dest!: find_Some_in)


definition zone_hop :: "plan \<Rightarrow> string list \<Rightarrow> zone \<Rightarrow> hop" where
  "zone_hop pl links z = (case lookup_by eg_tag (z_egress z) (pl_egresses pl) of None \<Rightarrow> MainTable | Some e \<Rightarrow> egress_hop links e)"

definition planned_hop :: "plan \<Rightarrow> string list \<Rightarrow> packet \<Rightarrow> hop" where
  "planned_hop pl links pk =
     (if private_dst (pk_dst pk) \<or> bypassed pl pk then MainTable
      else case pinned pl pk of
             Some e \<Rightarrow> egress_hop links e
           | None \<Rightarrow> (case last_capture (pl_zones pl) pk of None \<Rightarrow> MainTable | Some z \<Rightarrow> zone_hop pl links z))"



lemma no_v6_unplanned:
  assumes "packet_wf pk" and "is6 (pk_dst pk)" and "\<not> hasV6 pl"
  shows "\<not> bypassed pl pk" and "last_capture (pl_zones pl) pk = None"
proof -
  show "\<not> bypassed pl pk" using assms(2,3) by (simp add: bypassed_def of_family_def hasV6_def)
  show "last_capture (pl_zones pl) pk = None"
    using last_capture_in [of "pl_zones pl" pk] captured_v6 [OF _ _ assms(2,1)] assms(3) by (cases "last_capture (pl_zones pl) pk") auto
qed

lemma zero_not_pinned: "pk_ct pk AND pl_mask pl = 0 \<Longrightarrow> pinned pl pk = None"
  using restore_in [of pl pk] by (cases "pinned pl pk") auto




lemma run_delete_table:
  assumes "plain_word (pl_table pl)" and "k_nft k \<noteq> None"
  shows "run_cmd kernel_run (''nft delete table inet '' @ pl_table pl) k = (None, k\<lparr>k_nft := None\<rparr>)"
proof -
  have "list_all plain_word [''nft'', ''delete'', ''table'', ''inet'']" by code_simp
  with assms(1) have "list_all plain_word [''nft'', ''delete'', ''table'', ''inet'', pl_table pl]" by simp
  from fields_join [OF this] assms(2) show ?thesis by (auto simp: run_cmd_def splitCmd_def kernel_run_def)
qed

text \<open>C14. Installing is idempotent and reversible. On a kernel without duplicate rules on which the devices of the
  plan's tunnels exist, applying a plan twice is the same as applying it once, whatever other rules and routes there
  are; and when the kernel had no rules, tables or ruleset of the plan, whose table name is a plain word, a teardown
  after an apply gives back exactly the kernel before it.\<close>

theorem Apply_idempotent_Teardown_restores:
  assumes "distinct (k_rules k)" and "tunnels_up pl k"
  shows "Apply kernel_run pl opt (snd (Apply kernel_run pl opt k)) = Apply kernel_run pl opt k \<and>
    (cleared pl (withDefaults opt) k = k \<and> k_nft k = None \<and> plain_word (pl_table pl) \<longrightarrow>
       Teardown kernel_run pl opt (snd (Apply kernel_run pl opt k)) = k)"
proof -
  let ?o = "withDefaults opt" let ?k = "installed pl ?o k"
  have a: "Apply kernel_run pl opt k = (None, ?k)" by (rule Apply_installed [OF assms])
  have d: "distinct (k_rules ?k)" and u: "tunnels_up pl ?k"
    using assms plan_rules_distinct [of pl ?o] by (auto simp: installed_def cleared_def Let_def tunnels_up_def)
  have "Teardown kernel_run pl opt ?k = k"
    if c: "cleared pl ?o k = k" "k_nft k = None" "plain_word (pl_table pl)"
  proof -
    have "run_cmd kernel_run (''nft delete table inet '' @ pl_table pl) ?k = (None, ?k\<lparr>k_nft := None\<rparr>)"
      by (rule run_delete_table [OF c(3)]) (simp add: installed_def Let_def)
    then have "Teardown kernel_run pl opt ?k = run_ignoring kernel_run (ipTeardown pl ?o) (?k\<lparr>k_nft := None\<rparr>)"
      by (simp add: Teardown_def RenderTeardown_def run_ignoring_def)
    also have "\<dots> = cleared pl ?o (?k\<lparr>k_nft := None\<rparr>)" using run_teardown [of "?k\<lparr>k_nft := None\<rparr>" pl ?o] d by simp
    also have "\<dots> = (cleared pl ?o ?k)\<lparr>k_nft := None\<rparr>" by (simp add: cleared_def)
    also have "\<dots> = k" using c by (simp add: cleared_installed)
    finally show ?thesis .
  qed
  with a Apply_installed [OF d u] show ?thesis by (simp add: installed_installed)
qed

text \<open>The generated ruleset is well formed: the set declarations and the marking chain are, byte for byte,
  the rendering of a list of sets and of a list of statements; no set is declared twice; and every set a
  statement refers to is declared, not empty, and of the address family the statement matches.\<close>

theorem RenderNft_well_formed:
  "(\<exists>rest. RenderNft (fst (Compile p opt)) =
      nft_head (fst (Compile p opt)) @ nft_flowtable (fst (Compile p opt)) @
      concat (map (\<lambda>(n, v6, els). set_line n v6 els) (declared_sets (fst (Compile p opt)))) @
      line1 ''chain wr_mark {'' @ line2 ''type filter hook prerouting priority mangle; policy accept;'' @
      concat (map (show_stmt (fst (Compile p opt))) (mark_chain (fst (Compile p opt)))) @ line1 ''}'' @ rest) \<and>
   distinct (map fst (declared_sets (fst (Compile p opt)))) \<and>
   list_all (\<lambda>st. list_all (\<lambda>(n, v6). \<exists>els. els \<noteq> [] \<and> (n, v6, els) \<in> set (declared_sets (fst (Compile p opt)))) (stmt_refs st))
     (mark_chain (fst (Compile p opt)))"
proof -
  have "distinct (map fst (declared_sets (fst (Compile p opt))))" using compiled_names [of p opt] by (intro declared_distinct) blast
  moreover have ne: "els \<noteq> []" if "(n, v6, els) \<in> set (declared_sets pl)" for n v6 els pl
    using that unfolding declared_sets_def by (simp only: set_filter mem_Collect_eq case_prod_conv not_False_eq_True)
  moreover have "\<exists>els. els \<noteq> [] \<and> (n, v6, els) \<in> set (declared_sets pl)"
    if "st \<in> set (mark_chain pl)" "(n, v6) \<in> set (stmt_refs st)" for st n v6 pl
    using refs_declared [OF that] ne by blast
  ultimately show ?thesis unfolding RenderNft_def set_lines_show mark_chain_show list_all_iff by auto
qed

subsection \<open>Connections\<close>

text \<open>The packets of one connection pass the chain one after the other; the connection mark persists.\<close>

fun flow :: "plan \<Rightarrow> 32 word \<Rightarrow> packet list \<Rightarrow> packet list" where
  "flow pl ct [] = []"
| "flow pl ct (pk # pks) =
     (let q = run_chain pl (mark_chain pl) (pk\<lparr>pk_ct := ct\<rparr>) in q # flow pl (pk_ct q) pks)"

lemma blind_ct [simp]:
  "packet_wf (pk\<lparr>pk_ct := c\<rparr>) = packet_wf pk" "zone_captures z (pk\<lparr>pk_ct := c\<rparr>) = zone_captures z pk"
  "bypassed pl (pk\<lparr>pk_ct := c\<rparr>) = bypassed pl pk"
  by (simp_all add: packet_wf_def zone_captures_def dest_ok_def source_ok_def link_ok_def bypassed_def)

lemma v6_packet_untouched:
  assumes "plan_ok pl" and "\<not> hasV6 pl" and "packet_wf pk" and "is6 (pk_dst pk)" and "pk_ct pk AND pl_mask pl = 0"
  shows "run_chain pl (mark_chain pl) pk = pk\<lparr>pk_ct := pk_mark pk\<rparr>"
  using no_v6_unplanned [OF assms(3,4,2)] zero_not_pinned [OF assms(5)]
  by (simp add: run_mark_chain [OF assms(1,3)] captured_def)

lemma flow_untouched:
  assumes "plan_ok pl" and "\<not> hasV6 pl"
  shows "list_all (\<lambda>pk. packet_wf pk \<and> is6 (pk_dst pk) \<and> pk_mark pk AND pl_mask pl = 0) pks \<Longrightarrow> ct AND pl_mask pl = 0 \<Longrightarrow>
    map pk_mark (flow pl ct pks) = map pk_mark pks"
proof (induction pks arbitrary: ct)
  case (Cons pk pks)
  then show ?case using v6_packet_untouched [OF assms, of "pk\<lparr>pk_ct := ct\<rparr>"] by (simp add: Let_def)
qed simp

text \<open>No IPv6 leak through a missing rule: the \<^verbatim>\<open>ip -6\<close> rules are only installed when \<^verbatim>\<open>hasV6\<close> holds, and when it
  does not, the marking chain never marks a packet of any IPv6 connection, at any point of the connection.\<close>

theorem v6_marks_need_v6_rules:
  assumes "default_marks opt" and "length (pl_egresses (fst (Compile p opt))) \<le> 104" and "\<not> hasV6 (fst (Compile p opt))"
    and "list_all (\<lambda>pk. packet_wf pk \<and> is6 (pk_dst pk) \<and> pk_mark pk AND pl_mask (fst (Compile p opt)) = 0) pks"
  shows "map pk_mark (flow (fst (Compile p opt)) 0 pks) = map pk_mark pks"
  using flow_untouched [OF marks_ok_plan_ok [OF compiled_marks_ok [OF assms(1,2)]] assms(3,4)] by simp

lemma pinned_unique:
  assumes "marks_ok pl" and "e \<in> set (pl_egresses pl)" and "pk_ct pk AND pl_mask pl = eg_mark e"
  shows "pinned pl pk = Some e"
proof -
  have "eg_mark e \<noteq> 0" using assms(1,2) by (simp add: marks_ok_def)
  then have "eg_mark e \<in> eg_mark ` set (restore_egresses pl)"
    using assms(2) by (simp add: restore_egresses_def keys_dedup_seen)
  then have "pinned pl pk \<noteq> None" using assms(3) by (auto simp: pinned_def find_None_iff)
  then obtain d where d: "pinned pl pk = Some d" by blast
  with restore_in [OF d] assms have "d = e" by (auto simp: marks_ok_def distinct_map dest: inj_onD)
  with d show ?thesis by simp
qed

lemma compiled_mask: "default_marks opt \<Longrightarrow> pl_mask (fst (Compile p opt)) = 0xff0000"
  by (simp add: Compile_def Let_def split: prod.splits)

text \<open>Marks go by position: plans that use the same egresses give them the same marks.\<close>

lemma same_tags_same_marks:
  assumes "map eg_tag (pl_egresses (fst (Compile p' opt))) = map eg_tag (pl_egresses (fst (Compile p opt)))"
    and "e \<in> set (pl_egresses (fst (Compile p opt)))"
  shows "\<exists>e' \<in> set (pl_egresses (fst (Compile p' opt))). eg_tag e' = eg_tag e \<and> eg_mark e' = eg_mark e"
proof -
  let ?es = "pl_egresses (fst (Compile p opt))" let ?es' = "pl_egresses (fst (Compile p' opt))"
  have l: "length ?es' = length ?es" using arg_cong [OF assms(1), of length] by simp
  then have m: "map eg_mark ?es' = map eg_mark ?es" unfolding Compile_egresses length_assign by (simp add: assign_marks)
  obtain i where i: "i < length ?es" "e = ?es ! i" using assms(2) by (auto simp: in_set_conv_nth)
  have "eg_tag (?es' ! i) = eg_tag (?es ! i)" "eg_mark (?es' ! i) = eg_mark (?es ! i)"
    using arg_cong [OF assms(1), of "\<lambda>xs. xs ! i"] arg_cong [OF m, of "\<lambda>xs. xs ! i"] i(1) l by simp_all
  then show ?thesis using i l by (intro bexI [of _ "?es' ! i"]) simp_all
qed

text \<open>C29. A connection keeps its egress over a refresh or a new apply that leaves the list of egresses in use as it
  was: let a zone of the old plan capture the first packet of a connection that carries no mark yet, and let a
  later packet of the connection reach the new plan, neither of them addressed to a tunnel peer, both plans with
  the default mark layout and at most 104 egresses. Whatever the zones have become, the later packet is pinned to
  the egress of the old zone's target, carries its mark, and is routed to that egress unless its destination is
  private. (When the list of egresses changes, the marks are renumbered: \<^verbatim>\<open>renumbering_moves_connections\<close>.)\<close>

theorem connection_keeps_its_egress:
  assumes "default_marks opt" and "length (pl_egresses (fst (Compile p opt))) \<le> 104"
    and "map eg_tag (pl_egresses (fst (Compile p' opt))) = map eg_tag (pl_egresses (fst (Compile p opt)))"
    and "packet_wf pk" and "pk_ct pk = 0" and "\<not> bypassed (fst (Compile p opt)) pk"
    and "last_capture (pl_zones (fst (Compile p opt))) pk = Some z"
    and "packet_wf pk'" and "pk_ct pk' = pk_ct (run_chain (fst (Compile p opt)) (mark_chain (fst (Compile p opt))) pk)"
    and "\<not> bypassed (fst (Compile p' opt)) pk'"
  shows "\<exists>e \<in> set (pl_egresses (fst (Compile p' opt))). eg_tag e = z_egress z \<and> eg_mark e = z_mark z \<and>
    pinned (fst (Compile p' opt)) pk' = Some e \<and>
    pk_mark (run_chain (fst (Compile p' opt)) (mark_chain (fst (Compile p' opt))) pk') AND pl_mask (fst (Compile p' opt)) = eg_mark e \<and>
    planned_hop (fst (Compile p' opt)) links pk' = (if private_dst (pk_dst pk') then MainTable else egress_hop links e)"
proof -
  let ?pl = "fst (Compile p opt)" let ?pl' = "fst (Compile p' opt)"
  have "length (pl_egresses ?pl') \<le> 104" using arg_cong [OF assms(3), of length] assms(2) by simp
  with assms(1,2) have m: "marks_ok ?pl" "marks_ok ?pl'" by (simp_all add: compiled_marks_ok)
  have zin: "z \<in> set (pl_zones ?pl)" using last_capture_in [OF assms(7)] by simp
  then have z: "in_mask ?pl (z_mark z)" using marks_ok_plan_ok [OF m(1)] by (simp add: plan_ok_def)
  obtain d where "d \<in> set (pl_egresses ?pl)" "eg_tag d = z_egress z" "eg_mark d = z_mark z" using m(1) zin by (auto simp: marks_ok_def)
  with same_tags_same_marks [OF assms(3)] obtain e where
    e: "e \<in> set (pl_egresses ?pl')" "eg_tag e = z_egress z" "eg_mark e = z_mark z" by metis
  have "pinned ?pl pk = None" using assms(5) by (intro zero_not_pinned) simp
  then have "pk_ct pk' = pk_mark (put_mark ?pl (z_mark z) pk)"
    using assms(6,7,9) by (simp add: run_mark_chain [OF marks_ok_plan_ok [OF m(1)] assms(4)] captured_def)
  then have "pk_ct pk' AND pl_mask ?pl' = eg_mark e"
    using put_mark_owned [OF z] assms(1) e(3) by (simp add: compiled_mask)
  then have p: "pinned ?pl' pk' = Some e" by (rule pinned_unique [OF m(2) e(1)])
  moreover have "in_mask ?pl' (eg_mark e)" using m(2) e(1) by (simp add: marks_ok_def)
  then have "pk_mark (run_chain ?pl' (mark_chain ?pl') pk') AND pl_mask ?pl' = eg_mark e"
    using p assms(10) put_mark_owned [of ?pl' "eg_mark e" pk'] by (simp add: run_mark_chain [OF marks_ok_plan_ok [OF m(2)] assms(8)])
  moreover have "planned_hop ?pl' links pk' = (if private_dst (pk_dst pk') then MainTable else egress_hop links e)"
    using p assms(10) by (simp add: planned_hop_def)
  ultimately show ?thesis using e by blast
qed

subsection \<open>Where the routing plane falls short\<close>

lemma map_eq_obtain: "map f xs = ys \<Longrightarrow> y \<in> set ys \<Longrightarrow> (\<And>x. x \<in> set xs \<Longrightarrow> f x = y \<Longrightarrow> thesis) \<Longrightarrow> thesis"
  by auto

definition example_packet :: packet where
  "example_packet = \<lparr>pk_src = V4 3232235786, pk_dst = V4 3405803777, pk_l4 = True, pk_sport = 40000,
     pk_iif = (\<lambda>_. False), pk_mac = (\<lambda>_. False), pk_mark = 0, pk_ct = 0\<rparr>"

definition second_tunnel :: endpoint where
  "second_tunnel = tunnel_endpoint\<lparr>ep_id := ''awa'', ep_params := [''interface'' \<mapsto> PStr ''awg1'']\<rparr>"

definition two_tunnels :: profile where
  "two_tunnels = example_profile\<lparr>endpoints := endpoints example_profile @ [second_tunnel], routing_lists := []\<rparr>"

definition second_rule :: rule where
  "second_rule = base_rule\<lparr>ru_id := ''r2'', ru_outbound := ''awa''\<rparr>"

text \<open>The kernel plane ignores the order of the rules: of two active rules for the same destination, the one
  whose set name is greater wins, also when it comes later in the profile, while the core takes the first rule
  that matches.\<close>

theorem later_rule_shadows_earlier:
  "\<exists>p r1 r2 pk. Validate p = None \<and> rules p = [r1, r2] \<and> active r1 \<and> active r2 \<and>
     in_cidrs (ru_ip_cidr r1) (pk_dst pk) \<and> \<not> HasSourceMatcher r1 \<and> ru_outbound r1 \<noteq> ru_outbound r2 \<and>
     map_option z_egress (last_capture (pl_zones (fst (Compile p no_options))) pk) = Some (ru_outbound r2)"
proof -
  let ?p = "two_tunnels\<lparr>rules := [base_rule, second_rule]\<rparr>"
  have "Validate ?p = None" "active base_rule" "active second_rule" "in_cidrs (ru_ip_cidr base_rule) (pk_dst example_packet)"
    "\<not> HasSourceMatcher base_rule" "ru_outbound base_rule \<noteq> ru_outbound second_rule"
    "map_option z_egress (last_capture (pl_zones (fst (Compile ?p no_options))) example_packet) = Some (ru_outbound second_rule)"
    by code_simp+
  moreover have "rules ?p = [base_rule, second_rule]" by simp
  ultimately show ?thesis by blast
qed

text \<open>Marks are renumbered when the set of egresses changes, and the connection marks are not: adding a rule
  for another tunnel can give the mark of an established connection to that tunnel, although the connection's
  own egress is still in use.\<close>

theorem renumbering_moves_connections:
  "\<exists>p r e e'. Validate p = None \<and> Validate (p\<lparr>rules := rules p @ [r]\<rparr>) = None \<and>
     e \<in> set (pl_egresses (fst (Compile p no_options))) \<and>
     e' \<in> set (pl_egresses (fst (Compile (p\<lparr>rules := rules p @ [r]\<rparr>) no_options))) \<and>
     eg_mark e' = eg_mark e \<and> eg_iface e' \<noteq> eg_iface e \<and> eg_kind e = EgressInterface \<and>
     eg_tag e \<in> eg_tag ` set (pl_egresses (fst (Compile (p\<lparr>rules := rules p @ [r]\<rparr>) no_options)))"
proof -
  let ?p = "two_tunnels\<lparr>rules := [base_rule]\<rparr>" let ?q = "two_tunnels\<lparr>rules := [base_rule, second_rule]\<rparr>"
  let ?f = "\<lambda>e. (eg_tag e, eg_iface e, unat (eg_mark e), eg_kind e = EgressInterface)"
  have v: "Validate ?p = None" "Validate ?q = None" by code_simp+
  have e1: "map ?f (pl_egresses (fst (Compile ?p no_options))) = [(''direct'', [], 65536, False), (''awg'', ''awg0'', 131072, True)]"
    by code_simp
  have e2: "map ?f (pl_egresses (fst (Compile ?q no_options))) =
    [(''direct'', [], 65536, False), (''awa'', ''awg1'', 131072, True), (''awg'', ''awg0'', 196608, True)]" by code_simp
  obtain e where e: "e \<in> set (pl_egresses (fst (Compile ?p no_options)))" "?f e = (''awg'', ''awg0'', 131072, True)"
    by (rule map_eq_obtain [OF e1, of "(''awg'', ''awg0'', 131072, True)"]) (simp, erule that, assumption)
  obtain e' where e': "e' \<in> set (pl_egresses (fst (Compile ?q no_options)))" "?f e' = (''awa'', ''awg1'', 131072, True)"
    by (rule map_eq_obtain [OF e2, of "(''awa'', ''awg1'', 131072, True)"]) (simp, erule that, assumption)
  have "map eg_tag (pl_egresses (fst (Compile ?q no_options))) = [''direct'', ''awa'', ''awg'']"
    using arg_cong [OF e2, of "map fst"] by (simp add: comp_def)
  from arg_cong [OF this, of set] have "''awg'' \<in> eg_tag ` set (pl_egresses (fst (Compile ?q no_options)))" by simp
  moreover have "?q = ?p\<lparr>rules := rules ?p @ [second_rule]\<rparr>" by simp
  moreover from e(2) e'(2) have "eg_mark e' = eg_mark e" "eg_iface e' \<noteq> eg_iface e" "eg_kind e = EgressInterface" "eg_tag e = ''awg''"
    by (simp_all add: word_unat_eq_iff)
  ultimately show ?thesis using v e(1) e'(1) by metis
qed

lemma dev_cmd_in:
  assumes "e \<in> set (pl_egresses pl)" and "eg_kind e = EgressInterface"
  shows "show_cmd (RouteDev False (eg_iface e) (eg_table e)) \<in> set (RenderIP pl opt)"
proof -
  have "e \<in> set (map snd (numbered_egresses pl))" unfolding numbered_snd using assms by (simp add: nonWan_in)
  then obtain x where "x \<in> set (numbered_egresses pl)" "snd x = e" by auto
  then show ?thesis using assms(2) unfolding RenderIP_show by (force simp: install_cmds_def route_asts_def fams_def)
qed

text \<open>The words of a command are not safe: \<^verbatim>\<open>splitCmd\<close> relies on commands without spaces in their arguments,
  but the interface name of an adopted tunnel is only checked to be non-blank. There is a valid profile whose
  tunnel route is installed with extra words of the name's choosing.\<close>

theorem interface_name_adds_words:
  "\<exists>p c. Validate p = None \<and> c \<in> set (RenderIP (fst (Compile p no_options)) no_options) \<and>
     splitCmd c = (''ip'', [''route'', ''replace'', ''default'', ''dev'', ''awg0'', ''via'', ''192.0.2.9'', ''table'', ''151''])"
proof -
  let ?p = "example_profile\<lparr>endpoints := [base_endpoint, tunnel_endpoint\<lparr>ep_params := [''interface'' \<mapsto> PStr ''awg0 via 192.0.2.9'']\<rparr>]\<rparr>"
  let ?c = "''ip route replace default dev awg0 via 192.0.2.9 table 151''"
  have v: "Validate ?p = None" by code_simp
  have e: "map (\<lambda>e. (eg_iface e, eg_table e, eg_kind e = EgressInterface)) (pl_egresses (fst (Compile ?p no_options))) =
    [([], 254, False), (''awg0 via 192.0.2.9'', 151, True)]" by code_simp
  obtain e where "e \<in> set (pl_egresses (fst (Compile ?p no_options)))" "eg_kind e = EgressInterface"
    "eg_iface e = ''awg0 via 192.0.2.9''" "eg_table e = 151"
    by (rule map_eq_obtain [OF e, of "(''awg0 via 192.0.2.9'', 151, True)"]) (simp, erule that, simp_all)
  moreover have "show_cmd (RouteDev False ''awg0 via 192.0.2.9'' 151) = ?c" by code_simp
  ultimately have "?c \<in> set (RenderIP (fst (Compile ?p no_options)) no_options)"
    using dev_cmd_in [of e "fst (Compile ?p no_options)" no_options] by simp
  moreover have "splitCmd ?c = (''ip'', [''route'', ''replace'', ''default'', ''dev'', ''awg0'', ''via'', ''192.0.2.9'', ''table'', ''151''])"
    by code_simp
  ultimately show ?thesis using v by blast
qed

subsection \<open>Witnesses\<close>

definition fresh_kernel :: kernel where
  "fresh_kernel = \<lparr>k_rules = [], k_routes = [], k_links = [''eth0'', ''awg0''], k_nft = None\<rparr>"

abbreviation example_plan :: plan where
  "example_plan \<equiv> fst (Compile example_profile no_options)"

lemma example_opts: "default_marks no_options"
  by (simp add: default_marks_def no_options_def)

lemma example_egresses: "length (pl_egresses example_plan) \<le> 104"
  by (simp add: compiled_example)

lemma example_up: "tunnels_up example_plan fresh_kernel"
  unfolding compiled_example by code_simp

lemma example_packet_wf: "packet_wf example_packet"
  by code_simp

lemma example_unpinned: "pk_mark example_packet = 0" "pk_ct example_packet = 0" "is6 (pk_dst example_packet) = False"
  by (simp_all add: example_packet_def)


theorem Apply_idempotent_Teardown_restores_witness:
  "distinct (k_rules fresh_kernel) \<and> tunnels_up example_plan fresh_kernel \<and>
   Teardown kernel_run example_plan no_options (snd (Apply kernel_run example_plan no_options fresh_kernel)) = fresh_kernel"
proof -
  have d: "distinct (k_rules fresh_kernel)" by (simp add: fresh_kernel_def)
  have "pl_table example_plan = ''velinx_pbr''" unfolding compiled_example by code_simp
  moreover have "plain_word ''velinx_pbr''" by code_simp
  moreover have "cleared example_plan (withDefaults no_options) fresh_kernel = fresh_kernel" "k_nft fresh_kernel = None"
    by (simp_all add: cleared_def fresh_kernel_def)
  ultimately show ?thesis using d example_up Apply_idempotent_Teardown_restores [OF d example_up, of no_options] by simp
qed

theorem v6_marks_need_v6_rules_witness:
  "\<not> hasV6 example_plan \<and>
   map pk_mark (flow example_plan 0 [example_packet\<lparr>pk_src := V6 1 [], pk_dst := V6 2 []\<rparr>]) = [0]"
proof -
  let ?pk = "example_packet\<lparr>pk_src := V6 1 [], pk_dst := V6 2 []\<rparr>"
  have h: "\<not> hasV6 example_plan" unfolding compiled_example by code_simp
  have "list_all (\<lambda>pk. packet_wf pk \<and> is6 (pk_dst pk) \<and> pk_mark pk AND pl_mask example_plan = 0) [?pk]"
    by (simp add: packet_wf_def example_packet_def)
  from v6_marks_need_v6_rules [OF example_opts example_egresses h this] h show ?thesis by (simp add: example_unpinned)
qed

theorem connection_keeps_its_egress_witness:
  "\<exists>e. eg_iface e = ''awg0'' \<and>
     pinned example_plan (example_packet\<lparr>pk_dst := V4 134744072, pk_ct := pk_ct (run_chain example_plan (mark_chain example_plan) example_packet)\<rparr>) = Some e"
proof -
  let ?pk = "example_packet\<lparr>pk_dst := V4 134744072, pk_ct := pk_ct (run_chain example_plan (mark_chain example_plan) example_packet)\<rparr>"
  have "map_option z_egress (last_capture (pl_zones example_plan) example_packet) = Some ''awg''" unfolding compiled_example by code_simp
  then obtain z where z: "last_capture (pl_zones example_plan) example_packet = Some z" "z_egress z = ''awg''" by auto
  have b: "\<not> bypassed example_plan example_packet" unfolding compiled_example by code_simp
  have "\<not> bypassed example_plan (example_packet\<lparr>pk_dst := V4 134744072\<rparr>)" unfolding compiled_example by code_simp
  then have b': "\<not> bypassed example_plan ?pk" by simp
  have w: "packet_wf ?pk" by (simp add: packet_wf_def example_packet_def)
  have "pk_ct ?pk = pk_ct (run_chain example_plan (mark_chain example_plan) example_packet)" by simp
  from connection_keeps_its_egress [OF example_opts example_egresses refl example_packet_wf example_unpinned(2) b z(1) w this b']
  obtain e where e: "e \<in> set (pl_egresses example_plan)" "eg_tag e = z_egress z" "pinned example_plan ?pk = Some e" by blast
  have i: "map (\<lambda>e. (eg_tag e, eg_iface e)) (pl_egresses example_plan) = [(''direct'', []), (''awg'', ''awg0'')]" unfolding compiled_example by code_simp
  have "(eg_tag e, eg_iface e) \<in> set (map (\<lambda>e. (eg_tag e, eg_iface e)) (pl_egresses example_plan))" using e(1) by simp
  then have "eg_iface e = ''awg0''" using e(2) z(2) unfolding i by simp
  with e(3) show ?thesis by blast
qed

end
