(* ===== verification/Go_Encoding.thy ===== *)
theory Go_Encoding
  imports Go_Strings
begin

text \<open>
  More of Go's standard library: \<^verbatim>\<open>strconv.Atoi\<close>, \<^verbatim>\<open>encoding/base64\<close> and \<^verbatim>\<open>time.ParseDuration\<close>, as the
  configuration generator calls them, with the round trip of the base64 encodings.
\<close>

subsection \<open>Integers\<close>

text \<open>\<^verbatim>\<open>strconv.Atoi\<close>: an optional sign and decimal digits, in the range of a 64-bit integer.\<close>

definition atoi :: "string \<Rightarrow> int option" where
  "atoi s =
     (let signed = (s \<noteq> [] \<and> (hd s = CHR ''-'' \<or> hd s = CHR ''+''));
          body = (if signed then tl s else s);
          v = (if signed \<and> hd s = CHR ''-'' then - int (nat_of_dec body) else int (nat_of_dec body))
      in if body \<noteq> [] \<and> list_all is_digit body \<and> - (2 ^ 63) \<le> v \<and> v < 2 ^ 63 then Some v else None)"

lemma atoi_dec_of_nat: "n < 2 ^ 63 \<Longrightarrow> atoi (dec_of_nat n) = Some (int n)"
proof -
  assume n: "n < 2 ^ 63"
  obtain c cs where d: "dec_of_nat n = c # cs" by (cases "dec_of_nat n") auto
  have digits: "list_all is_digit (dec_of_nat n)" using dec_of_nat_digits by (auto simp: list_all_iff)
  then have "is_digit c" by (simp add: d)
  then have "c \<noteq> CHR ''-''" "c \<noteq> CHR ''+''" by (auto simp: is_digit_def less_eq_char_def)
  with digits n show ?thesis using nat_of_dec_of_nat [of n] by (simp add: atoi_def d Let_def)
qed

subsection \<open>Base64\<close>

text \<open>Bytes are numbers below 256, base64 digits are numbers below 64. The flag selects the URL-safe
  alphabet.\<close>

definition b64_char :: "bool \<Rightarrow> nat \<Rightarrow> char" where
  "b64_char url d =
     (if d < 26 then char_of (65 + d) else if d < 52 then char_of (71 + d) else if d < 62 then char_of (d - 4)
      else if d = 62 then (if url then CHR ''-'' else CHR ''+'') else (if url then CHR ''_'' else CHR ''/''))"

definition b64_alpha :: "bool \<Rightarrow> char \<Rightarrow> bool" where
  "b64_alpha url = (if url then b64_url else b64_std)"

definition b64_val :: "char \<Rightarrow> nat" where
  "b64_val c =
     (if CHR ''A'' \<le> c \<and> c \<le> CHR ''Z'' then of_char c - 65
      else if CHR ''a'' \<le> c \<and> c \<le> CHR ''z'' then of_char c - 71
      else if is_digit c then of_char c + 4
      else if c = CHR ''+'' \<or> c = CHR ''-'' then 62 else 63)"

fun b64_bytes :: "nat list \<Rightarrow> nat list" where
  "b64_bytes (a # b # c # d # ds) =
     (a * 4 + b div 16) # (b mod 16 * 16 + c div 4) # (c mod 4 * 64 + d) # b64_bytes ds"
| "b64_bytes [a, b, c] = [a * 4 + b div 16, b mod 16 * 16 + c div 4]"
| "b64_bytes [a, b] = [a * 4 + b div 16]"
| "b64_bytes _ = []"

fun b64_digits :: "nat list \<Rightarrow> nat list" where
  "b64_digits (x # y # z # bs) =
     (x div 4) # (x mod 4 * 16 + y div 16) # (y mod 16 * 4 + z div 64) # (z mod 64) # b64_digits bs"
| "b64_digits [x, y] = [x div 4, x mod 4 * 16 + y div 16, y mod 16 * 4]"
| "b64_digits [x] = [x div 4, x mod 4 * 16]"
| "b64_digits [] = []"

definition b64_encode :: "bool \<Rightarrow> bool \<Rightarrow> nat list \<Rightarrow> string" where
  "b64_encode url padded bs =
     map (b64_char url) (b64_digits bs) @ (if padded then replicate ((3 - length bs mod 3) mod 3) (CHR ''='') else [])"

text \<open>\<^verbatim>\<open>DecodeString\<close>, with the acceptance test of \<^verbatim>\<open>b64_decode_len\<close>.\<close>

definition b64_decode :: "bool \<Rightarrow> bool \<Rightarrow> string \<Rightarrow> nat list option" where
  "b64_decode url padded s =
     (let t = filter (\<lambda>c. c \<noteq> CHR 0x0A \<and> c \<noteq> CHR 0x0D) s;
          pad = length (takeWhile (\<lambda>c. c = CHR ''='') (take 2 (rev t)));
          body = (if padded then take (length t - pad) t else t)
      in if list_all (b64_alpha url) body \<and> (if padded then length t mod 4 = 0 else length t mod 4 \<noteq> 1)
         then Some (b64_bytes (map b64_val body)) else None)"

lemma length_b64_bytes: "length ds mod 4 \<noteq> 1 \<Longrightarrow> length (b64_bytes ds) = length ds * 6 div 8"
  by (induction ds rule: b64_bytes.induct) auto

lemma quantum_len:
  assumes "pad \<le> 2" and "pad \<le> 4 * k"
  shows "(4 * k - pad) mod 4 \<noteq> (1 :: nat) \<and> (4 * k - pad) * 6 div 8 = 3 * k - pad"
proof (cases k)
  case (Suc j)
  from assms(1) consider "pad = 0" | "pad = 1" | "pad = 2" by linarith
  then show ?thesis
  proof cases
    case 1
    then show ?thesis by simp
  next
    case 2
    have "4 * Suc j - 1 = 3 + 4 * j" by simp
    then have "(4 * k - pad) mod 4 = 3" "4 * k - pad = 3 + 4 * j" by (simp_all add: Suc 2)
    then show ?thesis by (simp add: Suc 2)
  next
    case 3
    have "4 * Suc j - 2 = 2 + 4 * j" by simp
    then have *: "4 * k - pad = 2 + 4 * j" by (simp add: Suc 3)
    have "(2 + 4 * j) mod 4 = (2 :: nat)" "(2 + 4 * j) * 6 div 8 = 1 + 3 * j" by presburger+
    then show ?thesis unfolding * by (simp add: Suc 3)
  qed
qed (use assms in simp)

lemma b64_decode_length:
  "map_option length (b64_decode url padded s) = b64_decode_len (b64_alpha url) padded s"
proof -
  define t where "t = filter (\<lambda>c. c \<noteq> CHR 0x0A \<and> c \<noteq> CHR 0x0D) s"
  define pad where "pad = length (takeWhile (\<lambda>c. c = CHR ''='') (take 2 (rev t)))"
  have p: "pad \<le> 2" using length_takeWhile_le [of _ "take 2 (rev t)"] by (simp add: pad_def)
  have q: "pad \<le> length t" using length_takeWhile_le [of _ "take 2 (rev t)"] by (simp add: pad_def)
  show ?thesis
  proof (cases padded)
    case True
    have "length (b64_bytes (map b64_val (take (length t - pad) t))) = 3 * (length t div 4) - pad"
      if "length t mod 4 = 0"
    proof -
      from that obtain k where k: "length t = 4 * k" by (auto simp: mod_eq_0_iff_dvd elim: dvdE)
      have "length (map b64_val (take (length t - pad) t)) = 4 * k - pad" by (simp add: k)
      moreover have "(4 * k - pad) mod 4 \<noteq> 1 \<and> (4 * k - pad) * 6 div 8 = 3 * k - pad"
        by (rule quantum_len) (use p q k in auto)
      ultimately show ?thesis using k by (simp add: length_b64_bytes)
    qed
    then show ?thesis using True by (simp add: b64_decode_def b64_decode_len_def Let_def t_def pad_def)
  next
    case False
    then show ?thesis by (simp add: b64_decode_def b64_decode_len_def Let_def length_b64_bytes)
  qed
qed

lemma b64_chars: "d < 64 \<Longrightarrow> b64_alpha url (b64_char url d) \<and> b64_val (b64_char url d) = d \<and>
    b64_char url d \<noteq> CHR ''='' \<and> b64_char url d \<noteq> CHR 0x0A \<and> b64_char url d \<noteq> CHR 0x0D"
proof -
  have "\<forall>u \<in> set [True, False]. \<forall>d \<in> set [0..<64]. b64_alpha u (b64_char u d) \<and> b64_val (b64_char u d) = d \<and>
    b64_char u d \<noteq> CHR ''='' \<and> b64_char u d \<noteq> CHR 0x0A \<and> b64_char u d \<noteq> CHR 0x0D"
    by code_simp
  moreover assume "d < 64"
  ultimately show ?thesis by (cases url) simp_all
qed

lemma b64_digits_bound: "list_all (\<lambda>b. b < 256) bs \<Longrightarrow> list_all (\<lambda>d. d < 64) (b64_digits bs)"
  by (induction bs rule: b64_digits.induct) auto

lemma b64_pack:
  "y < 256 \<Longrightarrow> (m * 16 + y div 16) div 16 = m" "y < 256 \<Longrightarrow> (m * 16 + y div 16) mod 16 = y div 16"
  "z < 256 \<Longrightarrow> (m * 4 + z div 64) div 4 = m" "z < 256 \<Longrightarrow> (m * 4 + z div 64) mod 4 = z div 64"
  "y < 256 \<Longrightarrow> y div 16 div 16 = 0" "y < 256 \<Longrightarrow> y div 16 mod 16 = y div 16"
  "z < 256 \<Longrightarrow> z div 64 div 4 = 0" "z < 256 \<Longrightarrow> z div 64 mod 4 = z div 64"
  for m y z :: nat
  by simp_all

lemma b64_bytes_digits: "list_all (\<lambda>b. b < 256) bs \<Longrightarrow> b64_bytes (b64_digits bs) = bs"
  by (induction bs rule: b64_digits.induct) (simp_all add: b64_pack)

lemma length_b64_digits:
  "(length (b64_digits bs) + (3 - length bs mod 3) mod 3) mod 4 = 0 \<and> length (b64_digits bs) mod 4 \<noteq> 1"
proof (induction bs rule: b64_digits.induct)
  case (1 x y z bs)
  have "length (x # y # z # bs) mod 3 = length bs mod 3" by simp
  moreover have "length (b64_digits (x # y # z # bs)) = 4 + length (b64_digits bs)" by simp
  ultimately show ?case using 1 by (simp add: add.assoc del: b64_digits.simps)
qed simp_all

text \<open>Decoding inverts encoding, in each of the four encodings.\<close>

lemma b64_decode_encode:
  assumes "list_all (\<lambda>b. b < 256) bs"
  shows "b64_decode url padded (b64_encode url padded bs) = Some bs"
proof -
  let ?d = "map (b64_char url) (b64_digits bs)"
  define p where "p = (3 - length bs mod 3) mod 3"
  have d: "\<forall>x \<in> set (b64_digits bs). x < 64" using b64_digits_bound [OF assms] by (simp add: list_all_iff)
  have vals: "map b64_val ?d = b64_digits bs" using d b64_chars by (induction "b64_digits bs") (auto simp: map_idI)
  have alpha: "list_all (b64_alpha url) ?d" using d b64_chars by (auto simp: list_all_iff)
  have clean: "filter (\<lambda>c. c \<noteq> CHR 0x0A \<and> c \<noteq> CHR 0x0D) ?d = ?d" using d b64_chars by (auto simp: filter_id_conv)
  have noeq: "takeWhile (\<lambda>c. c = CHR ''='') (take n (rev ?d)) = []" for n
  proof (cases "take n (rev ?d)")
    case (Cons c cs)
    then have "c \<in> set (take n (rev ?d))" by simp
    then have "c \<in> set ?d" using set_take_subset by fastforce
    then have "c \<noteq> CHR ''=''" using d b64_chars by auto
    then show ?thesis by (simp add: Cons)
  next
    case Nil
    then show ?thesis by (simp only: takeWhile.simps)
  qed
  have ends: "length (takeWhile (\<lambda>c. c = CHR ''='') (take 2 (rev (?d @ replicate p (CHR ''=''))))) = p"
  proof -
    have "p \<in> {0, 1, 2}" by (auto simp: p_def)
    then show ?thesis using noeq [of 2] noeq [of 1] noeq [of 0] by (auto simp: numeral_2_eq_2)
  qed
  have len: "(length (b64_digits bs) + p) mod 4 = 0 \<and> length (b64_digits bs) mod 4 \<noteq> 1"
    using length_b64_digits [of bs] by (simp add: p_def)
  have "b64_bytes (map b64_val ?d) = bs" by (simp only: vals b64_bytes_digits [OF assms])
  then show ?thesis using alpha clean ends len
    by (auto simp: b64_decode_def b64_encode_def Let_def p_def [symmetric] filter_replicate)
qed

subsection \<open>Durations\<close>

text \<open>\<^verbatim>\<open>time.ParseDuration\<close> in nanoseconds. The code adds the fraction of a unit in floating point; here it
  is exact, rounded down.\<close>

definition dur_unit :: "string \<Rightarrow> nat option" where
  "dur_unit u = map_of
     [(''ns'', 1), (''us'', 1000), ([CHR 0xC2, CHR 0xB5, CHR ''s''], 1000), ([CHR 0xCE, CHR 0xBC, CHR ''s''], 1000),
      (''ms'', 1000000), (''s'', 1000000000), (''m'', 60000000000), (''h'', 3600000000000)] u"

definition dur_stop :: "char \<Rightarrow> bool" where
  "dur_stop c = (c = CHR ''.'' \<or> is_digit c)"

function dur_loop :: "string \<Rightarrow> nat \<Rightarrow> nat option" where
  "dur_loop s d =
     (if s = [] then Some d
      else
        (let whole = takeWhile is_digit s; s1 = dropWhile is_digit s;
             dotted = (s1 \<noteq> [] \<and> hd s1 = CHR ''.'');
             frac = (if dotted then takeWhile is_digit (tl s1) else []);
             s2 = (if dotted then dropWhile is_digit (tl s1) else s1);
             u = takeWhile (\<lambda>c. \<not> dur_stop c) s2; s3 = dropWhile (\<lambda>c. \<not> dur_stop c) s2;
             v = nat_of_dec whole
         in if (whole = [] \<and> frac = []) \<or> v > 2 ^ 63 \<or> u = [] then None
            else (case dur_unit u of
                None \<Rightarrow> None
              | Some unit \<Rightarrow>
                  (let d' = d + v * unit + nat_of_dec frac * unit div 10 ^ length frac
                   in if d' > 2 ^ 63 then None else dur_loop s3 d'))))"
  by pat_completeness auto
termination
proof (relation "measure (\<lambda>(s, d). length s)", goal_cases)
  case (2 s d whole s1 dotted frac s2 u s3 v unit d')
  have "length s3 < length s2"
    using 2 by (metis append_self_conv2 le_neq_implies_less length_dropWhile_le takeWhile_dropWhile_id same_append_eq append_eq_append_conv length_0_conv add_cancel_left_left length_append)
  moreover have "length s2 \<le> length s1"
    using 2 by (auto intro: le_trans [OF length_dropWhile_le])
  moreover have "length s1 \<le> length s" using 2 length_dropWhile_le by simp
  ultimately show ?case by simp
qed simp

declare dur_loop.simps [simp del]

definition parse_duration :: "string \<Rightarrow> int option" where
  "parse_duration s0 =
     (let signed = (s0 \<noteq> [] \<and> (hd s0 = CHR ''-'' \<or> hd s0 = CHR ''+''));
          neg = (signed \<and> hd s0 = CHR ''-''); s = (if signed then tl s0 else s0)
      in if s = ''0'' then Some 0
         else if s = [] then None
         else (case dur_loop s 0 of
             None \<Rightarrow> None
           | Some d \<Rightarrow> if neg then Some (- int d) else if d \<ge> 2 ^ 63 then None else Some (int d)))"

end
