(* ===== verification/Gen_Outbound.thy ===== *)
theory Gen_Outbound
  imports Validate Go_Encoding
begin

text \<open>
  The per-endpoint part of \<^verbatim>\<open>internal/generator/singbox.go\<close>: one sing-box outbound, endpoint or group object for
  each endpoint and group of the profile, as JSON objects.
\<close>

subsection \<open>JSON objects\<close>

text \<open>A \<^verbatim>\<open>map[string]any\<close> the generator builds is a list of keys and values in which assigning a key replaces
  its value. A raw value is a parameter passed through unread.\<close>

datatype json =
    JStr string | JInt int | JBool bool | JStrs "string list" | JInts "int list"
  | JObj "(string \<times> json) list" | JObjs "(string \<times> json) list list" | JRaw pval

type_synonym jobj = "(string \<times> json) list"

definition jput :: "string \<Rightarrow> json \<Rightarrow> jobj \<Rightarrow> jobj" where
  "jput k v ob = upsert_by fst (k, v) ob"

definition jput_if :: "bool \<Rightarrow> string \<Rightarrow> json \<Rightarrow> jobj \<Rightarrow> jobj" where
  "jput_if b k v ob = (if b then jput k v ob else ob)"

definition jput_str :: "string \<Rightarrow> string \<Rightarrow> jobj \<Rightarrow> jobj" where
  "jput_str k s ob = jput_if (s \<noteq> []) k (JStr s) ob"

definition jget :: "jobj \<Rightarrow> string \<Rightarrow> json option" where
  "jget ob k = map_option snd (lookup_by fst k ob)"

definition jdel :: "string \<Rightarrow> jobj \<Rightarrow> jobj" where
  "jdel k ob = delete_by fst k ob"

fun as_str :: "json option \<Rightarrow> string" where
  "as_str (Some (JStr s)) = s"
| "as_str _ = []"

lemma jget_jput [simp]: "jget (jput k v ob) k' = (if k' = k then Some v else jget ob k')"
  by (simp add: jget_def jput_def lookup_upsert_by)

lemma jget_jput_if [simp]: "jget (jput_if b k v ob) k' = (if b \<and> k' = k then Some v else jget ob k')"
  by (simp add: jput_if_def)

lemma jget_jput_str [simp]: "jget (jput_str k s ob) k' = (if s \<noteq> [] \<and> k' = k then Some (JStr s) else jget ob k')"
  by (simp add: jput_str_def)

lemma jget_jdel [simp]: "jget (jdel k ob) k' = (if k' = k then None else jget ob k')"
  by (simp add: jget_def jdel_def lookup_delete_by)

lemma jget_simps [simp]: "jget [] k = None" "jget ((k', v) # ob) k = (if k' = k then Some v else jget ob k)"
  by (simp_all add: jget_def)

subsection \<open>Reading parameters\<close>

text \<open>\<^verbatim>\<open>str\<close> is \<^verbatim>\<open>str_param\<close>. Converting a \<^verbatim>\<open>float64\<close> to \<^verbatim>\<open>int\<close> truncates towards zero.\<close>

definition trunc :: "rat \<Rightarrow> int" where
  "trunc x = (if x \<ge> 0 then \<lfloor>x\<rfloor> else \<lceil>x\<rceil>)"

definition intp :: "params \<Rightarrow> string \<Rightarrow> int" where
  "intp ps k = (case ps k of Some (PNum x) \<Rightarrow> trunc x | _ \<Rightarrow> 0)"

definition boolp :: "params \<Rightarrow> string \<Rightarrow> bool" where
  "boolp ps k =
     (case ps k of
        Some (PBool b) \<Rightarrow> b
      | Some (PStr s) \<Rightarrow> s = ''true'' \<or> s = ''1'' \<or> s = ''yes''
      | _ \<Rightarrow> False)"

definition anyToStrings :: "pval option \<Rightarrow> string list" where
  "anyToStrings v = clean_addrs (case v of Some (PStrs ss) \<Rightarrow> ss | Some (PList vs) \<Rightarrow> any_strings vs | _ \<Rightarrow> [])"

subsection \<open>Accepted values\<close>

definition knownFlows :: "string list" where "knownFlows = [''xtls-rprx-vision'']"
definition knownSSPlugins :: "string list" where "knownSSPlugins = [''obfs-local'', ''v2ray-plugin'']"
definition knownTUICCC :: "string list" where "knownTUICCC = [''cubic'', ''new_reno'', ''bbr'']"
definition knownTUICRelay :: "string list" where "knownTUICRelay = [''native'', ''quic'']"
definition knownHy2Obfs :: "string list" where "knownHy2Obfs = [''salamander'']"
definition knownVMessSec :: "string list" where
  "knownVMessSec = [''auto'', ''none'', ''zero'', ''aes-128-gcm'', ''chacha20-poly1305'']"
definition knownPacketEnc :: "string list" where "knownPacketEnc = [''xudp'', ''packetaddr'']"
definition knownUTLSFinger :: "string list" where
  "knownUTLSFinger =
     [''chrome'', ''firefox'', ''edge'', ''safari'', ''ios'', ''android'', ''360'', ''qq'', ''random'', ''randomized'']"

definition safeEnum :: "string \<Rightarrow> string list \<Rightarrow> string" where
  "safeEnum v allowed = (if v \<in> set allowed then v else [])"

definition normalizeUTLSFinger :: "string \<Rightarrow> string" where
  "normalizeUTLSFinger v = (if v = ''randomizedalpn'' \<or> v = ''randomizednoalpn'' then ''randomized'' else v)"

text \<open>\<^verbatim>\<open>strings.SplitN(r, "-", 2)\<close> and \<^verbatim>\<open>strings.Cut\<close>: the text before the first separator and, if there is one,
  the text after it.\<close>

definition cut_at :: "char \<Rightarrow> string \<Rightarrow> string \<times> string option" where
  "cut_at c s =
     (case dropWhile (\<lambda>x. x \<noteq> c) s of [] \<Rightarrow> (s, None) | _ # t \<Rightarrow> (takeWhile (\<lambda>x. x \<noteq> c) s, Some t))"

definition port_num :: "string \<Rightarrow> int option" where
  "port_num s = (case atoi (trim_space s) of Some n \<Rightarrow> if n < 1 \<or> n > 65535 then None else Some n | None \<Rightarrow> None)"

definition singBoxPortRange :: "string \<Rightarrow> string" where
  "singBoxPortRange r0 =
     (let r = trim_space r0 in
      if r = [] then []
      else (case cut_at (CHR ''-'') r of
          (a, Some b) \<Rightarrow>
            (case (port_num a, port_num b) of
               (Some x, Some y) \<Rightarrow> itoa (min x y) @ '':'' @ itoa (max x y)
             | _ \<Rightarrow> [])
        | (a, None) \<Rightarrow>
            (case port_num a of
               Some x \<Rightarrow> trim_space a @ '':'' @ trim_space a
             | None \<Rightarrow> [])))"

subsection \<open>Keys\<close>

text \<open>The first of the four base64 encodings that decodes the string at all decides whether it is a WireGuard
  key; a Reality key may be decoded by any of them.\<close>

definition wg_encodings :: "(bool \<times> bool) list" where
  "wg_encodings = [(False, True), (False, False), (True, True), (True, False)]"

definition reality_encodings :: "(bool \<times> bool) list" where
  "reality_encodings = [(True, False), (False, True), (False, False), (True, True)]"

definition decode_any :: "(bool \<times> bool) list \<Rightarrow> string \<Rightarrow> nat list option" where
  "decode_any encs s = first_some (\<lambda>(url, padded). b64_decode url padded s) encs"

definition decode32 :: "(bool \<times> bool) list \<Rightarrow> string \<Rightarrow> nat list option" where
  "decode32 encs s = first_some (\<lambda>(url, padded).
     case b64_decode url padded s of Some b \<Rightarrow> if length b = 32 then Some b else None | None \<Rightarrow> None) encs"

definition validWGKey :: "string \<Rightarrow> bool" where
  "validWGKey s =
     (if s = [] then False else (case decode_any wg_encodings s of Some b \<Rightarrow> length b = 32 | None \<Rightarrow> False))"

definition normalizeWGKey :: "string \<Rightarrow> string" where
  "normalizeWGKey s = (case decode32 wg_encodings s of Some b \<Rightarrow> b64_encode False True b | None \<Rightarrow> s)"

definition validRealityPubKey :: "string \<Rightarrow> bool" where
  "validRealityPubKey s = (if s = [] then False else decode32 reality_encodings s \<noteq> None)"

definition normalizeRealityPubKey :: "string \<Rightarrow> string" where
  "normalizeRealityPubKey s = (case decode32 reality_encodings s of Some b \<Rightarrow> b64_encode True False b | None \<Rightarrow> s)"

definition validShortID :: "string \<Rightarrow> bool" where
  "validShortID s =
     (if s = [] \<or> length s > 16 \<or> length s mod 2 \<noteq> 0 then False
      else list_all (\<lambda>c. in_range (CHR ''0'') (CHR ''9'') c \<or> in_range (CHR ''a'') (CHR ''f'') c \<or>
                         in_range (CHR ''A'') (CHR ''F'') c) s)"

subsection \<open>Transport and TLS\<close>

definition transportCapable :: "protocol \<Rightarrow> bool" where
  "transportCapable p = (p = ProtoVLESS \<or> p = ProtoVMess \<or> p = ProtoTrojan)"

definition tlsCapable :: "protocol \<Rightarrow> bool" where
  "tlsCapable p =
     (p = ProtoVLESS \<or> p = ProtoVMess \<or> p = ProtoTrojan \<or> p = ProtoHysteria2 \<or> p = ProtoTUIC \<or>
      p = ProtoHTTP \<or> p = ProtoAnyTLS)"

definition splitHosts :: "string \<Rightarrow> string list" where
  "splitHosts s = filter (\<lambda>p. p \<noteq> []) (map trim_space (split_on (CHR '','') s))"

definition early_data :: "string \<Rightarrow> int option" where
  "early_data kv =
     (case cut_at (CHR ''='') kv of
        (k, Some v) \<Rightarrow>
          if k \<noteq> ''ed'' then None
          else (case atoi v of Some n \<Rightarrow> if n > 0 then Some n else None | None \<Rightarrow> None)
      | (_, None) \<Rightarrow> None)"

definition splitEarlyDataHint :: "string \<Rightarrow> string \<times> int" where
  "splitEarlyDataHint p =
     (case cut_at (CHR ''?'') p of
        (_, None) \<Rightarrow> (p, 0)
      | (path, Some q) \<Rightarrow>
          (case first_some early_data (split_on (CHR ''&'') q) of
             Some n \<Rightarrow> (path, n)
           | None \<Rightarrow> (p, 0)))"

definition transportJSON :: "transport option \<Rightarrow> jobj option" where
  "transportJSON t0 =
     (case t0 of
        None \<Rightarrow> None
      | Some t \<Rightarrow>
          if tr_type t = [] then None
          else
            (let out = [(''type'', JStr (tr_type t))] in
             Some (
               if tr_type t = ''ws'' then
                 (case splitEarlyDataHint (tr_path t) of (path, med) \<Rightarrow>
                    jput_if (tr_host t \<noteq> []) ''headers'' (JObj [(''Host'', JStr (tr_host t))])
                     (jput_if (med > 0) ''early_data_header_name'' (JStr ''Sec-WebSocket-Protocol'')
                       (jput_if (med > 0) ''max_early_data'' (JInt med) (jput_str ''path'' path out))))
               else if tr_type t = ''grpc'' then jput_str ''service_name'' (tr_service_name t) out
               else if tr_type t = ''http'' then
                 jput_if (splitHosts (tr_host t) \<noteq> []) ''host'' (JStrs (splitHosts (tr_host t)))
                   (jput_str ''path'' (tr_path t) out)
               else if tr_type t = ''httpupgrade'' then
                 jput_str ''host'' (tr_host t) (jput_str ''path'' (fst (splitEarlyDataHint (tr_path t))) out)
               else out)))"

definition utls_block :: "string \<Rightarrow> json" where
  "utls_block fp = JObj [(''enabled'', JBool True), (''fingerprint'', JStr fp)]"

definition reality_block :: "tls \<Rightarrow> jobj" where
  "reality_block t =
     jput_if (validShortID (tls_short_id t)) ''short_id'' (JStr (tls_short_id t))
       [(''enabled'', JBool True), (''public_key'', JStr (normalizeRealityPubKey (tls_public_key t)))]"

definition tlsJSON :: "tls option \<Rightarrow> jobj option" where
  "tlsJSON t0 =
     (case t0 of
        None \<Rightarrow> None
      | Some t \<Rightarrow>
          if \<not> tls_enabled t then None
          else
            (let fp = safeEnum (normalizeUTLSFinger (tls_fingerprint t)) knownUTLSFinger;
                 out = jput_if (fp \<noteq> []) ''utls'' (utls_block fp)
                   (jput_if (tls_alpn t \<noteq> []) ''alpn'' (JStrs (tls_alpn t))
                     (jput_if (tls_insecure t) ''insecure'' (JBool True)
                       (jput_str ''server_name'' (tls_sni t) [(''enabled'', JBool True)])));
                 isReality = (tls_type t = ''reality'' \<and> validRealityPubKey (tls_public_key t))
             in Some (
               if isReality then
                 jput ''reality'' (JObj (reality_block t))
                   (jput_if (jget out ''utls'' = None) ''utls'' (utls_block ''chrome'') out)
               else
                 jput_if (tls_record_fragment t) ''record_fragment'' (JBool True)
                   (jput_if (tls_fragment t) ''fragment'' (JBool True) out))))"

text \<open>The value of \<^verbatim>\<open>tl["alpn"].([]string)\<close>, and keeping some of its entries.\<close>

definition alpn_of :: "jobj \<Rightarrow> string list option" where
  "alpn_of tb = (case jget tb ''alpn'' of Some (JStrs a) \<Rightarrow> Some a | _ \<Rightarrow> None)"

definition keep_alpn :: "(string \<Rightarrow> bool) \<Rightarrow> jobj \<Rightarrow> jobj" where
  "keep_alpn P tb =
     (case alpn_of tb of
        None \<Rightarrow> tb
      | Some a \<Rightarrow> if filter P a \<noteq> [] then jput ''alpn'' (JStrs (filter P a)) tb else jdel ''alpn'' tb)"

definition transport_type :: "endpoint \<Rightarrow> string" where
  "transport_type e = (case ep_transport e of Some t \<Rightarrow> tr_type t | None \<Rightarrow> [])"

definition h3_family :: "string \<Rightarrow> bool" where
  "h3_family p = (p = ''h3'' \<or> has_prefix p ''h3-'')"

definition fit_alpn :: "endpoint \<Rightarrow> jobj \<Rightarrow> jobj" where
  "fit_alpn e tb0 =
     (let tb1 = (if ep_protocol e = ProtoTUIC then
                   (let kept = (case alpn_of tb0 of Some a \<Rightarrow> filter h3_family a | None \<Rightarrow> [])
                    in jput ''alpn'' (JStrs (if kept = [] then [''h3''] else kept)) tb0)
                 else tb0);
          tb2 = (if transport_type e = ''ws'' \<or> transport_type e = ''httpupgrade'' then keep_alpn (\<lambda>p. p \<noteq> ''h2'') tb1 else tb1);
          tb3 = (if transport_type e = ''grpc'' \<or> transport_type e = ''http'' then keep_alpn (\<lambda>p. p = ''h2'') tb2 else tb2)
      in if ep_protocol e \<noteq> ProtoTUIC \<and> ep_protocol e \<noteq> ProtoHysteria2 then keep_alpn (\<lambda>p. p \<noteq> ''h3'') tb3 else tb3)"


subsection \<open>Outbounds\<close>

datatype gen_err =
    InvalidProfile verr
  | UnsupportedProtocol string protocol
  | BadPrivateKey string string
  | BadPeerKey string string

definition proxyAuth :: "endpoint \<Rightarrow> jobj \<Rightarrow> jobj" where
  "proxyAuth e ob =
     jput_str ''password'' (str_param (ep_params e) ''password'')
       (jput_str ''username'' (str_param (ep_params e) ''username'') ob)"

definition vless_fields :: "endpoint \<Rightarrow> jobj \<Rightarrow> jobj" where
  "vless_fields e ob =
     (let ps = ep_params e;
          tlsOn = (case ep_tls e of Some t \<Rightarrow> tls_enabled t | None \<Rightarrow> False);
          hasTransport = (transport_type e \<noteq> []);
          f = safeEnum (str_param ps ''flow'') knownFlows
      in jput_str ''packet_encoding'' (safeEnum (str_param ps ''packet_encoding'') knownPacketEnc)
          (jput_if (f \<noteq> [] \<and> tlsOn \<and> \<not> hasTransport) ''flow'' (JStr f)
            (jput ''uuid'' (JStr (str_param ps ''uuid'')) (jput ''type'' (JStr ''vless'') ob))))"

definition vmess_fields :: "endpoint \<Rightarrow> jobj \<Rightarrow> jobj" where
  "vmess_fields e ob =
     (let ps = ep_params e; sec = safeEnum (str_param ps ''security'') knownVMessSec
      in jput ''security'' (JStr (if sec \<noteq> [] then sec else ''auto''))
          (jput ''alter_id'' (JInt (intp ps ''alter_id''))
            (jput ''uuid'' (JStr (str_param ps ''uuid'')) (jput ''type'' (JStr ''vmess'') ob))))"

definition shadowsocks_fields :: "endpoint \<Rightarrow> jobj \<Rightarrow> jobj" where
  "shadowsocks_fields e ob =
     (let ps = ep_params e; pl = safeEnum (str_param ps ''plugin'') knownSSPlugins;
          ob1 = jput_if (boolp ps ''udp_over_tcp'') ''udp_over_tcp'' (JBool True)
            (jput ''password'' (JStr (str_param ps ''password''))
              (jput ''method'' (JStr (str_param ps ''method'')) (jput ''type'' (JStr ''shadowsocks'') ob)))
      in if pl \<noteq> [] then jput_str ''plugin_opts'' (str_param ps ''plugin_opts'') (jput ''plugin'' (JStr pl) ob1) else ob1)"

definition hop_ports :: "string \<Rightarrow> string list" where
  "hop_ports hp = filter (\<lambda>r. r \<noteq> []) (map singBoxPortRange (split_on (CHR '','') hp))"

definition hysteria2_fields :: "endpoint \<Rightarrow> jobj \<Rightarrow> jobj" where
  "hysteria2_fields e ob =
     (let ps = ep_params e; obf = safeEnum (str_param ps ''obfs'') knownHy2Obfs; pw = str_param ps ''obfs_password'';
          hp = str_param ps ''hop_ports''
      in jput_if (hp \<noteq> [] \<and> hop_ports hp \<noteq> []) ''server_ports'' (JStrs (hop_ports hp))
          (jput_if (obf \<noteq> [] \<and> pw \<noteq> []) ''obfs'' (JObj [(''type'', JStr obf), (''password'', JStr pw)])
            (jput ''password'' (JStr (str_param ps ''password'')) (jput ''type'' (JStr ''hysteria2'') ob))))"

definition good_heartbeat :: "string \<Rightarrow> bool" where
  "good_heartbeat hb = (hb \<noteq> [] \<and> (case parse_duration hb of Some d \<Rightarrow> d > 0 | None \<Rightarrow> False))"

definition tuic_fields :: "endpoint \<Rightarrow> jobj \<Rightarrow> jobj" where
  "tuic_fields e ob =
     (let ps = ep_params e;
          ob1 = jput_str ''congestion_control'' (safeEnum (str_param ps ''congestion_control'') knownTUICCC)
            (jput ''password'' (JStr (str_param ps ''password''))
              (jput ''uuid'' (JStr (str_param ps ''uuid'')) (jput ''type'' (JStr ''tuic'') ob)));
          ob2 = (if boolp ps ''udp_over_stream'' then jput ''udp_over_stream'' (JBool True) ob1
                 else jput_str ''udp_relay_mode'' (safeEnum (str_param ps ''udp_relay_mode'') knownTUICRelay) ob1);
          hb = str_param ps ''heartbeat''
      in jput_if (boolp ps ''zero_rtt_handshake'') ''zero_rtt_handshake'' (JBool True)
          (jput_if (good_heartbeat hb) ''heartbeat'' (JStr hb) ob2))"

definition protocol_fields :: "endpoint \<Rightarrow> jobj \<Rightarrow> jobj option" where
  "protocol_fields e ob =
     (let pr = ep_protocol e; pw = JStr (str_param (ep_params e) ''password'') in
      if pr = ProtoVLESS then Some (vless_fields e ob)
      else if pr = ProtoVMess then Some (vmess_fields e ob)
      else if pr = ProtoTrojan then Some (jput ''password'' pw (jput ''type'' (JStr ''trojan'') ob))
      else if pr = ProtoAnyTLS then Some (jput ''password'' pw (jput ''type'' (JStr ''anytls'') ob))
      else if pr = ProtoShadowsocks then Some (shadowsocks_fields e ob)
      else if pr = ProtoHysteria2 then Some (hysteria2_fields e ob)
      else if pr = ProtoTUIC then Some (tuic_fields e ob)
      else if pr = ProtoSOCKS then Some (proxyAuth e (jput ''version'' (JStr ''5'') (jput ''type'' (JStr ''socks'') ob)))
      else if pr = ProtoHTTP then Some (proxyAuth e (jput ''type'' (JStr ''http'') ob))
      else None)"

definition base_fields :: "endpoint \<Rightarrow> jobj" where
  "base_fields e = [(''tag'', JStr (ep_id e)), (''server'', JStr (ep_server e)), (''server_port'', JInt (ep_port e))]"

definition outboundFor :: "endpoint \<Rightarrow> (gen_err, jobj) res" where
  "outboundFor e =
     (case protocol_fields e (base_fields e) of
        None \<Rightarrow> Inl (UnsupportedProtocol (ep_id e) (ep_protocol e))
      | Some ob \<Rightarrow>
          (let ob1 = (case transportJSON (ep_transport e) of
                 Some t \<Rightarrow> jput_if (transportCapable (ep_protocol e)) ''transport'' (JObj t) ob
               | None \<Rightarrow> ob)
           in Inr (case tlsJSON (ep_tls e) of
                Some tb \<Rightarrow> jput_if (tlsCapable (ep_protocol e)) ''tls'' (JObj (fit_alpn e tb)) ob1
              | None \<Rightarrow> ob1)))"

subsection \<open>WireGuard endpoints\<close>

definition full_tunnel :: json where
  "full_tunnel = JStrs [''0.0.0.0/0'', ''::/0'']"

definition put_raw :: "string \<Rightarrow> pval option \<Rightarrow> jobj \<Rightarrow> jobj" where
  "put_raw k v ob = (case v of Some x \<Rightarrow> jput k (JRaw x) ob | None \<Rightarrow> ob)"

definition wg_peer_entry :: "params \<Rightarrow> params \<Rightarrow> jobj" where
  "wg_peer_entry ps p =
     (let peer = [(''address'', JStr (str_param p ''server'')), (''port'', JInt (intp p ''port'')),
                  (''public_key'', JStr (normalizeWGKey (str_param p ''public_key''))), (''allowed_ips'', full_tunnel)];
          aips = anyToStrings (p ''allowed_ips''); psk = str_param p ''pre_shared_key''; ka = intp p ''persistent_keepalive''
      in put_raw ''reserved'' (ps ''reserved'')
          (jput_if (ka > 0) ''persistent_keepalive_interval'' (JInt ka)
            (jput_if (psk \<noteq> []) ''pre_shared_key'' (JStr (normalizeWGKey psk))
              (jput_if (aips \<noteq> []) ''allowed_ips'' (JStrs aips) peer))))"

fun map_values :: "pval list \<Rightarrow> params list" where
  "map_values [] = []"
| "map_values (PMap kvs # vs) = map_of kvs # map_values vs"
| "map_values (_ # vs) = map_values vs"

definition wgPeers :: "params \<Rightarrow> jobj list" where
  "wgPeers ps =
     (let ms = (case ps ''peers'' of
            Some (PMaps kvss) \<Rightarrow> map map_of kvss
          | Some (PList vs) \<Rightarrow> map_values vs
          | _ \<Rightarrow> [])
      in map (wg_peer_entry ps)
          (filter (\<lambda>p. str_param p ''server'' \<noteq> [] \<and> validWGKey (str_param p ''public_key'')) ms))"

definition endpointFor :: "endpoint \<Rightarrow> (gen_err, jobj) res" where
  "endpointFor e =
     (let ps = ep_params e; priv = str_param ps ''private_key''; pub = str_param ps ''peer_public_key'';
          psk = str_param ps ''pre_shared_key''
      in if \<not> validWGKey priv then Inl (BadPrivateKey (ep_id e) priv)
         else if \<not> validWGKey pub then Inl (BadPeerKey (ep_id e) pub)
         else
           (let ka = (if ep_keepalive e > 0 then ep_keepalive e else intp ps ''persistent_keepalive'');
                peer = jput_if (ka > 0) ''persistent_keepalive_interval'' (JInt ka)
                  (put_raw ''reserved'' (ps ''reserved'')
                    (jput_if (psk \<noteq> []) ''pre_shared_key'' (JStr (normalizeWGKey psk))
                      [(''address'', JStr (ep_server e)), (''port'', JInt (ep_port e)),
                       (''public_key'', JStr (normalizeWGKey pub)), (''allowed_ips'', full_tunnel)]));
                peers = (if length (wgPeers ps) > 1 then wgPeers ps else [peer]);
                mtu = (if ep_mtu e > 0 then ep_mtu e else intp ps ''mtu'')
            in Inr (jput_if (mtu > 0) ''mtu'' (JInt mtu)
                 (put_raw ''address'' (ps ''local_address'')
                   [(''type'', JStr ''wireguard''), (''tag'', JStr (ep_id e)),
                    (''private_key'', JStr (normalizeWGKey priv)), (''peers'', JObjs peers)]))))"

subsection \<open>Groups\<close>

definition defaultHealthURL :: string where
  "defaultHealthURL = ''http://cp.cloudflare.com/generate_204''"

definition test_url :: "health option \<Rightarrow> string" where
  "test_url h = (case h of Some t \<Rightarrow> if h_url t \<noteq> [] then h_url t else defaultHealthURL | None \<Rightarrow> defaultHealthURL)"

definition test_interval :: "health option \<Rightarrow> string" where
  "test_interval h =
     (case h of
        Some t \<Rightarrow> if h_interval t > 0 then itoa (max 5 (h_interval t)) @ ''s'' else ''1m''
      | None \<Rightarrow> ''1m'')"

definition test_tolerance :: "health option \<Rightarrow> int" where
  "test_tolerance h = (case h of Some t \<Rightarrow> if h_tolerance t > 0 then h_tolerance t else 50 | None \<Rightarrow> 50)"

definition groupOutbound :: "group \<Rightarrow> jobj" where
  "groupOutbound g =
     (let ob = [(''tag'', JStr (gr_id g)), (''outbounds'', JStrs (gr_members g))];
          ob1 = (if gr_type g = GroupURLTest \<or> gr_type g = GroupFallback
                 then jput ''tolerance'' (JInt (test_tolerance (gr_test g)))
                   (jput ''interval'' (JStr (test_interval (gr_test g)))
                     (jput ''url'' (JStr (test_url (gr_test g))) (jput ''type'' (JStr ''urltest'') ob)))
                 else jput ''type'' (JStr ''selector'') ob)
      in jput_if (gr_interrupt g) ''interrupt_exist_connections'' (JBool True) ob1)"

end
