(* ===== verification/Generator.thy ===== *)
theory Generator
  imports Gen_Outbound Pbr
begin

text \<open>
  \<^verbatim>\<open>internal/generator/singbox.go\<close>: the sing-box configuration of a profile. Outbounds, endpoints, inbounds,
  route and rule sets, in the order of the source, with the hybrid mode in which the kernel carries part of
  the traffic. \<^verbatim>\<open>internal/generator/native_only.go\<close>: when the kernel can carry all of it.
\<close>

subsection \<open>The two planes\<close>

definition isBlock :: "string \<Rightarrow> bool" where
  "isBlock t = (to_lower t = OutboundBlock)"

definition canonicalOutbound :: "string \<Rightarrow> string" where
  "canonicalOutbound t =
     (if to_lower t = OutboundDirect then OutboundDirect else if to_lower t = OutboundBlock then OutboundBlock else t)"

definition kernelEgress :: "profile \<Rightarrow> string \<Rightarrow> bool" where
  "kernelEgress p tag =
     (if tag = OutboundDirect \<or> tag = OutboundBlock \<or> tag = [] then False
      else (case EndpointByID p tag of
          Some e \<Rightarrow> kernelIface e \<noteq> []
        | None \<Rightarrow>
            (case GroupByID p tag of
               Some g \<Rightarrow> list_ex (\<lambda>m. case EndpointByID p m of Some e \<Rightarrow> kernelIface e \<noteq> [] | None \<Rightarrow> False) (gr_members g)
             | None \<Rightarrow> False)))"

definition ipOnlyKernelRule :: "rule \<Rightarrow> bool" where
  "ipOnlyKernelRule r =
     (ru_ip_cidr r \<noteq> [] \<and> ru_domain r = [] \<and> ru_domain_suffix r = [] \<and> ru_geosite r = [] \<and> ru_geoip r = [] \<and>
      ru_port r = [] \<and> ru_source_ip_cidr r = [] \<and> ru_source_mac r = [] \<and> ru_source_iface r = [] \<and> ru_source_port r = [])"

text \<open>\<^verbatim>\<open>net.ParseIP\<close> gives a 16-byte address; \<^verbatim>\<open>To4\<close> also succeeds on an IPv4-mapped one, and \<^verbatim>\<open>String\<close> then prints
  it in dotted form.\<close>

fun to4 :: "addr \<Rightarrow> nat option" where
  "to4 (V4 n) = Some n"
| "to4 (V6 n _) = (if n div 2 ^ 32 = 65535 then Some (n mod 2 ^ 32) else None)"

definition net_ip :: "string \<Rightarrow> addr option" where
  "net_ip s = (case parse_addr s of Some a \<Rightarrow> if zone a = [] then Some a else None | None \<Rightarrow> None)"

datatype manual_entry = Skip | Ip string | Domain string

definition classify_manual :: "string \<Rightarrow> manual_entry" where
  "classify_manual e0 =
     (let e = trim_space e0 in
      if e = [] \<or> has_prefix e ''#'' then Skip
      else if contains_str e ''/'' \<and> net_parse_cidr e then Ip e
      else (case net_ip e of
          Some a \<Rightarrow> Ip (e @ (if to4 a \<noteq> None then ''/32'' else ''/128''))
        | None \<Rightarrow> Domain e))"

definition splitDomainsIPs :: "string list \<Rightarrow> string list \<times> string list" where
  "splitDomainsIPs es =
     (let cs = map classify_manual es in
      (concat (map (\<lambda>c. case c of Domain d \<Rightarrow> [d] | _ \<Rightarrow> []) cs), concat (map (\<lambda>c. case c of Ip i \<Rightarrow> [i] | _ \<Rightarrow> []) cs)))"

text \<open>The rules and lists that hybrid mode leaves to the kernel.\<close>

definition kernel_rule :: "profile \<Rightarrow> rule \<Rightarrow> bool" where
  "kernel_rule p r = (kernelEgress p (ru_outbound r) \<and> ipOnlyKernelRule r)"

definition kernel_list :: "profile \<Rightarrow> routing_list \<Rightarrow> bool" where
  "kernel_list p rl =
     (kernelEgress p (rl_outbound rl) \<and> rl_source rl = [] \<and>
      (case splitDomainsIPs (rl_manual rl) of (domains, ips) \<Rightarrow> domains = [] \<and> ips \<noteq> []))"

subsection \<open>Reachability\<close>

definition is_root :: "string \<Rightarrow> bool" where
  "is_root tag = (canonicalOutbound tag \<noteq> OutboundDirect \<and> canonicalOutbound tag \<noteq> OutboundBlock \<and> canonicalOutbound tag \<noteq> [])"

definition hybrid_roots :: "profile \<Rightarrow> string list" where
  "hybrid_roots p =
     filter is_root
       (map ru_outbound (filter (\<lambda>r. \<not> ru_disabled r \<and> \<not> (\<not> ru_default r \<and> kernel_rule p r)) (rules p)) @
        map rl_outbound (filter (\<lambda>rl. rl_enabled rl \<and> \<not> kernel_list p rl) (routing_lists p)))"

definition members_of :: "profile \<Rightarrow> string \<Rightarrow> string list" where
  "members_of p tag = (case GroupByID p tag of Some g \<Rightarrow> gr_members g | None \<Rightarrow> [])"

definition all_members :: "profile \<Rightarrow> string set" where
  "all_members p = \<Union> (set ` gr_members ` set (groups p))"

lemma members_of_subset: "set (members_of p t) \<subseteq> all_members p"
  by (auto simp: members_of_def GroupByID_def all_members_def split: option.splits dest!: sym [THEN lookup_by_Some_in])

lemma all_members_finite [simp]: "finite (all_members p)"
  by (simp add: all_members_def)

text \<open>The recursive \<^verbatim>\<open>visit\<close>, with the tags still to visit as an explicit stack.\<close>

function visit_tags :: "profile \<Rightarrow> string list \<Rightarrow> string list \<Rightarrow> string list" where
  "visit_tags p [] reach = reach"
| "visit_tags p (t # ts) reach =
     (if t \<in> set reach then visit_tags p ts reach else visit_tags p (members_of p t @ ts) (t # reach))"
  by pat_completeness auto
termination
proof (relation "measures [\<lambda>(p, ts, reach). card ((set ts \<union> all_members p) - set reach), \<lambda>(p, ts, reach). length ts]", goal_cases)
  case (2 p t ts reach)
  have "(set ts \<union> all_members p) - set reach = (set (t # ts) \<union> all_members p) - set reach" using 2 by auto
  then show ?case by simp
next
  case (3 p t ts reach)
  have "(set (members_of p t @ ts) \<union> all_members p) - set (t # reach) \<subset> (set (t # ts) \<union> all_members p) - set reach"
    using 3 members_of_subset [of p t] by auto
  then have "card ((set (members_of p t @ ts) \<union> all_members p) - set (t # reach)) < card ((set (t # ts) \<union> all_members p) - set reach)"
    by (rule psubset_card_mono [rotated]) simp
  then show ?case by simp
qed simp

definition hybridReachable :: "profile \<Rightarrow> string list" where
  "hybridReachable p = visit_tags p (hybrid_roots p) []"

subsection \<open>Routing lists\<close>

definition strip_query :: "string \<Rightarrow> string" where
  "strip_query s = takeWhile (\<lambda>c. c \<noteq> CHR ''?'' \<and> c \<noteq> CHR ''#'') s"

definition ruleSetFormat :: "routing_list \<Rightarrow> string" where
  "ruleSetFormat rl =
     (if rl_format rl = ''binary'' \<or> rl_format rl = ''source'' then rl_format rl
      else if has_suffix (strip_query (rl_source rl)) ''.json'' then ''source'' else ''binary'')"

definition refreshInterval :: "int \<Rightarrow> string" where
  "refreshInterval hours = (if hours \<le> 0 then ''1d'' else itoa hours @ ''h'')"

definition remote_set :: "routing_list \<Rightarrow> jobj" where
  "remote_set rl =
     [(''tag'', JStr (''rs-'' @ rl_id rl)), (''type'', JStr ''remote''), (''url'', JStr (rl_source rl)),
      (''format'', JStr (ruleSetFormat rl)),
      (''download_detour'', JStr (if rl_download_via rl \<noteq> [] then canonicalOutbound (rl_download_via rl) else OutboundDirect)),
      (''update_interval'', JStr (refreshInterval (rl_refresh_hours rl)))]"

definition inline_set :: "routing_list \<Rightarrow> string list \<Rightarrow> string list \<Rightarrow> jobj" where
  "inline_set rl domains ips =
     [(''tag'', JStr (''rsm-'' @ rl_id rl)), (''type'', JStr ''inline''),
      (''rules'', JObjs [(if domains \<noteq> [] then [(''domain_suffix'', JStrs domains)] else []) @
                         (if ips \<noteq> [] then [(''ip_cidr'', JStrs ips)] else [])])]"

text \<open>The rule sets of one list.\<close>

definition list_sets :: "routing_list \<Rightarrow> jobj list" where
  "list_sets rl =
     (case splitDomainsIPs (rl_manual rl) of (domains, ips) \<Rightarrow>
        (if rl_source rl \<noteq> [] then [remote_set rl] else []) @
        (if domains \<noteq> [] \<or> ips \<noteq> [] then [inline_set rl domains ips] else []))"

definition tag_of :: "jobj \<Rightarrow> string" where
  "tag_of ob = as_str (jget ob ''tag'')"

definition with_action :: "string \<Rightarrow> jobj \<Rightarrow> jobj" where
  "with_action target rule =
     (if isBlock target then jput ''action'' (JStr ''reject'') rule
      else jput ''outbound'' (JStr (canonicalOutbound target)) (jput ''action'' (JStr ''route'') rule))"

definition emitted_lists :: "profile \<Rightarrow> bool \<Rightarrow> routing_list list" where
  "emitted_lists p hybrid = filter (\<lambda>rl. rl_enabled rl \<and> \<not> (hybrid \<and> kernel_list p rl)) (routing_lists p)"

definition list_rule :: "routing_list \<Rightarrow> jobj" where
  "list_rule rl = with_action (rl_outbound rl) [(''rule_set'', JStrs (map tag_of (list_sets rl)))]"

definition routingFrom :: "profile \<Rightarrow> bool \<Rightarrow> jobj list \<times> jobj list" where
  "routingFrom p hybrid =
     (let rls = emitted_lists p hybrid; used = filter (\<lambda>rl. list_sets rl \<noteq> []) rls in
      (concat (map list_sets rls),
       map list_rule (filter (\<lambda>rl. isBlock (rl_outbound rl)) used) @
       map list_rule (filter (\<lambda>rl. \<not> isBlock (rl_outbound rl)) used)))"

subsection \<open>Rules\<close>

definition addIf :: "string \<Rightarrow> string list \<Rightarrow> jobj \<Rightarrow> jobj" where
  "addIf k vals m = (let kept = filter (\<lambda>v. trim_space v \<noteq> []) vals in jput_if (kept \<noteq> []) k (JStrs kept) m)"

definition ruleMatch :: "rule \<Rightarrow> jobj" where
  "ruleMatch r =
     (let m = addIf ''ip_cidr'' (ru_ip_cidr r) (addIf ''domain'' (ru_domain r) (addIf ''domain_suffix'' (ru_domain_suffix r) []));
          m1 = addIf ''source_ip_cidr'' (ru_source_ip_cidr r) (jput_if (ru_port r \<noteq> []) ''port'' (JInts (ru_port r)) m)
      in jput_if (ru_source_port r \<noteq> []) ''source_port'' (JInts (ru_source_port r)) m1)"

definition geositeSRSBase :: string where
  "geositeSRSBase = ''https://raw.githubusercontent.com/SagerNet/sing-geosite/rule-set/geosite-''"

definition geoipSRSBase :: string where
  "geoipSRSBase = ''https://raw.githubusercontent.com/SagerNet/sing-geoip/rule-set/geoip-''"

definition geo_set :: "string \<Rightarrow> string \<Rightarrow> jobj" where
  "geo_set tag url =
     [(''tag'', JStr tag), (''type'', JStr ''remote''), (''format'', JStr ''binary''), (''url'', JStr url),
      (''download_detour'', JStr OutboundDirect), (''update_interval'', JStr ''1d'')]"

text \<open>The sets synthesised so far carry the tags seen so far.\<close>

definition add_geo :: "string \<times> string \<Rightarrow> jobj list \<Rightarrow> jobj list" where
  "add_geo x sets = (case x of (tag, url) \<Rightarrow> if tag \<in> set (map tag_of sets) then sets else sets @ [geo_set tag url])"

definition geo_names :: "string list \<Rightarrow> string list" where
  "geo_names vs = filter (\<lambda>v. v \<noteq> []) (map trim_space vs)"

definition geoRuleSets :: "rule \<Rightarrow> jobj list \<Rightarrow> (string list \<times> string list) \<times> jobj list" where
  "geoRuleSets r sets =
     (let gs = map (\<lambda>g. (''geosite-'' @ g, geositeSRSBase @ g @ ''.srs'')) (geo_names (ru_geosite r));
          gi = map (\<lambda>c. (''geoip-'' @ c, geoipSRSBase @ c @ ''.srs'')) (geo_names (ru_geoip r))
      in ((map fst gs, map fst gi), fold add_geo (gs @ gi) sets))"

definition matcher_of :: "rule \<Rightarrow> string list \<Rightarrow> string list \<Rightarrow> jobj" where
  "matcher_of r gs gi =
     (let rule = ruleMatch r in
      if gs \<noteq> [] \<and> gi \<noteq> [] then
        [(''type'', JStr ''logical''), (''mode'', JStr ''and''),
         (''rules'', JObjs ((if rule \<noteq> [] then [rule] else []) @ [[(''rule_set'', JStrs gs)], [(''rule_set'', JStrs gi)]]))]
      else if gs \<noteq> [] then jput ''rule_set'' (JStrs gs) rule
      else if gi \<noteq> [] then jput ''rule_set'' (JStrs gi) rule
      else rule)"

record route_state =
  rt_rules :: "jobj list"
  rt_geo :: "jobj list"
  rt_final :: string
  rt_block :: bool

definition route_rule :: "profile \<Rightarrow> bool \<Rightarrow> route_state \<Rightarrow> rule \<Rightarrow> route_state" where
  "route_rule p hybrid st r =
     (if ru_disabled r then st
      else if ru_default r then
        (if isBlock (ru_outbound r) then st\<lparr>rt_block := True\<rparr> else st\<lparr>rt_final := canonicalOutbound (ru_outbound r)\<rparr>)
      else if hybrid \<and> kernel_rule p r then st
      else
        (case geoRuleSets r (rt_geo st) of ((gs, gi), sets) \<Rightarrow>
           (let st1 = st\<lparr>rt_geo := sets\<rparr> in
            if ruleMatch r = [] \<and> gs = [] \<and> gi = [] then st1
            else st1\<lparr>rt_rules := rt_rules st @ [with_action (ru_outbound r) (matcher_of r gs gi)]\<rparr>)))"

definition routeFrom :: "profile \<Rightarrow> bool \<Rightarrow> route_state" where
  "routeFrom p hybrid =
     foldl (route_rule p hybrid) \<lparr>rt_rules = [], rt_geo = [], rt_final = OutboundDirect, rt_block = False\<rparr> (rules p)"

definition blockAllRule :: jobj where
  "blockAllRule = [(''network'', JStrs [''tcp'', ''udp'']), (''action'', JStr ''reject'')]"

subsection \<open>The whole configuration\<close>

definition ip_text :: "addr \<Rightarrow> string" where
  "ip_text a = (case to4 a of Some n \<Rightarrow> show_ipv4 n | None \<Rightarrow> show_ipv6 (addr_num a))"

definition bypass_cidr :: "string \<Rightarrow> string list" where
  "bypass_cidr s =
     (case net_ip (trim_space s) of
        None \<Rightarrow> []
      | Some a \<Rightarrow> [ip_text a @ (if to4 a = None then ''/128'' else ''/32'')])"

definition own_addresses :: "endpoint \<Rightarrow> string list" where
  "own_addresses e =
     (if \<not> ep_enabled e then []
      else bypass_cidr (ep_server e) @
        (case ep_params e ''endpoint_ip'' of Some (PStr s) \<Rightarrow> bypass_cidr s | _ \<Rightarrow> []))"

definition endpointBypass :: "profile \<Rightarrow> string list" where
  "endpointBypass p = dedup_seen (\<lambda>c. c) [] (concat (map own_addresses (endpoints p)))"

record gen_options =
  go_mixed_port :: int
  go_clash_addr :: string
  go_clash_secret :: string
  go_tun :: bool
  go_tun_mtu :: int
  go_tun_addr :: string
  go_cache_file :: string
  go_hybrid :: bool
  go_exclude_v4 :: "string list"
  go_exclude_v6 :: "string list"

record plugin =
  pg_endpoint :: endpoint
  pg_socks_port :: int

record gen_state =
  gs_outbounds :: "jobj list"
  gs_endpoints :: "jobj list"
  gs_plugins :: "plugin list"

definition basePluginPort :: int where "basePluginPort = 17900"

definition bound_outbound :: "string \<Rightarrow> string \<Rightarrow> jobj" where
  "bound_outbound i ifc = [(''type'', JStr ''direct''), (''tag'', JStr i), (''bind_interface'', JStr ifc)]"

definition socks_outbound :: "string \<Rightarrow> int \<Rightarrow> jobj" where
  "socks_outbound i port =
     [(''type'', JStr ''socks''), (''tag'', JStr i), (''server'', JStr ''127.0.0.1''), (''server_port'', JInt port), (''version'', JStr ''5'')]"

definition gen_endpoint :: "(string \<Rightarrow> bool) \<Rightarrow> gen_state \<Rightarrow> endpoint \<Rightarrow> (gen_err, gen_state) res" where
  "gen_endpoint omit st e =
     (if \<not> ep_enabled e then Inr st
      else if ep_engine e = EngineAmneziaWG then
        (let st1 = st\<lparr>gs_plugins := gs_plugins st @ [\<lparr>pg_endpoint = e, pg_socks_port = 0\<rparr>]\<rparr> in
         Inr (if \<not> omit (ep_id e) then st1\<lparr>gs_outbounds := gs_outbounds st @ [bound_outbound (ep_id e) (AWGIface (ep_id e))]\<rparr> else st1))
      else if ep_engine e = EngineExternal then
        Inr (if \<not> omit (ep_id e)
             then st\<lparr>gs_outbounds := gs_outbounds st @ [bound_outbound (ep_id e) (str_param (ep_params e) ''interface'')]\<rparr> else st)
      else if ep_engine e \<noteq> EngineSingBox then
        (let port = basePluginPort + int (length (gs_plugins st)) in
         Inr (st\<lparr>gs_plugins := gs_plugins st @ [\<lparr>pg_endpoint = e, pg_socks_port = port\<rparr>],
                 gs_outbounds := gs_outbounds st @ [socks_outbound (ep_id e) port]\<rparr>))
      else if ep_protocol e = ProtoWireGuard then
        (case endpointFor e of
           Inl err \<Rightarrow> Inl err
         | Inr ep \<Rightarrow> Inr (st\<lparr>gs_endpoints := gs_endpoints st @ [ep]\<rparr>))
      else
        (case outboundFor e of
           Inl err \<Rightarrow> Inl err
         | Inr ob \<Rightarrow> Inr (st\<lparr>gs_outbounds := gs_outbounds st @ [ob]\<rparr>)))"

definition omits :: "profile \<Rightarrow> bool \<Rightarrow> string \<Rightarrow> bool" where
  "omits p hybrid i = (hybrid \<and> i \<notin> set (hybridReachable p))"

definition gen_groups :: "profile \<Rightarrow> bool \<Rightarrow> group list" where
  "gen_groups p hybrid = filter (\<lambda>g. \<not> (hybrid \<and> kernelEgress p (gr_id g) \<and> gr_id g \<notin> set (hybridReachable p))) (groups p)"

definition gen_inbounds :: "gen_options \<Rightarrow> jobj list" where
  "gen_inbounds go =
     (let mixed = [(''type'', JStr ''mixed''), (''tag'', JStr ''mixed-in''), (''listen'', JStr ''127.0.0.1''), (''listen_port'', JInt (go_mixed_port go))];
          ex = go_exclude_v4 go @ go_exclude_v6 go;
          tun = [(''type'', JStr ''tun''), (''tag'', JStr ''tun-in''),
                 (''address'', JStrs [if go_tun_addr go = [] then ''172.19.0.1/30'' else go_tun_addr go]),
                 (''mtu'', JInt (if go_tun_mtu go \<le> 0 then 1500 else go_tun_mtu go)),
                 (''auto_route'', JBool True), (''auto_redirect'', JBool True), (''stack'', JStr ''system'')]
      in if go_tun go
         then [mixed, jput_if (go_hybrid go \<and> ex \<noteq> []) ''route_exclude_address'' (JStrs ex) tun]
         else [mixed])"

text \<open>The order of the route rules: sniffing, the endpoints' own addresses, the user's rules, the lists, and last
  the catch-all of a blocking default.\<close>

definition gen_rules :: "profile \<Rightarrow> gen_options \<Rightarrow> jobj list" where
  "gen_rules p go =
     (let rt = routeFrom p (go_hybrid go); bp = endpointBypass p in
      (if go_tun go then [[(''action'', JStr ''sniff'')]] else []) @
      (if bp \<noteq> [] then [[(''ip_cidr'', JStrs bp), (''action'', JStr ''route''), (''outbound'', JStr OutboundDirect)]] else []) @
      rt_rules rt @ snd (routingFrom p (go_hybrid go)) @
      (if rt_block rt then [blockAllRule] else []))"

definition gen_sets :: "profile \<Rightarrow> bool \<Rightarrow> jobj list" where
  "gen_sets p hybrid = rt_geo (routeFrom p hybrid) @ fst (routingFrom p hybrid)"

definition gen_route :: "profile \<Rightarrow> gen_options \<Rightarrow> jobj" where
  "gen_route p go =
     jput_if (gen_rules p go \<noteq> []) ''rules'' (JObjs (gen_rules p go))
       (jput_if (gen_sets p (go_hybrid go) \<noteq> []) ''rule_set'' (JObjs (gen_sets p (go_hybrid go)))
         [(''final'', JStr (rt_final (routeFrom p (go_hybrid go))))])"

definition gen_experimental :: "profile \<Rightarrow> gen_options \<Rightarrow> jobj" where
  "gen_experimental p go =
     (let cache = jput_str ''path'' (go_cache_file go) [(''enabled'', JBool True)] in
      jput_if (gen_sets p (go_hybrid go) \<noteq> [] \<or> gen_groups p (go_hybrid go) \<noteq> []) ''cache_file'' (JObj cache)
        (jput_if (go_clash_addr go \<noteq> []) ''clash_api''
          (JObj [(''external_controller'', JStr (go_clash_addr go)), (''secret'', JStr (go_clash_secret go))]) []))"

definition gen_config :: "profile \<Rightarrow> gen_options \<Rightarrow> gen_state \<Rightarrow> jobj" where
  "gen_config p go st =
     (let outbounds = gs_outbounds st @ map groupOutbound (gen_groups p (go_hybrid go)); ex = gen_experimental p go in
      jput_if (ex \<noteq> []) ''experimental'' (JObj ex)
        (jput ''log'' (JObj [(''level'', JStr ''warn''), (''timestamp'', JBool True)])
          (jput ''route'' (JObj (gen_route p go))
            (jput ''inbounds'' (JObjs (gen_inbounds go))
              (jput_if (gs_endpoints st \<noteq> []) ''endpoints'' (JObjs (gs_endpoints st))
                [(''outbounds'', JObjs outbounds)])))))"

definition start_gen :: gen_state where
  "start_gen = \<lparr>gs_outbounds = [[(''type'', JStr ''direct''), (''tag'', JStr OutboundDirect)]], gs_endpoints = [], gs_plugins = []\<rparr>"

definition Generate :: "profile \<Rightarrow> gen_options \<Rightarrow> (gen_err, jobj \<times> plugin list) res" where
  "Generate p go =
     (case Validate p of
        Some err \<Rightarrow> Inl (InvalidProfile err)
      | None \<Rightarrow>
          (case fold_res (gen_endpoint (omits p (go_hybrid go))) start_gen (endpoints p) of
             Inl err \<Rightarrow> Inl err
           | Inr st \<Rightarrow> Inr (gen_config p go st, gs_plugins st)))"

subsection \<open>Without the core\<close>

text \<open>The protocols that only the core can carry, whatever the engine.\<close>

definition SingboxRequiredProtocols :: "protocol list" where
  "SingboxRequiredProtocols = [ProtoVLESS, ProtoVMess, ProtoTrojan, ProtoShadowsocks, ProtoHysteria2, ProtoTUIC]"

definition ProtocolNeedsSingbox :: "protocol \<Rightarrow> bool" where
  "ProtocolNeedsSingbox pr = (pr \<in> set SingboxRequiredProtocols)"
definition EndpointNeedsSingbox :: "endpoint \<Rightarrow> bool" where
  "EndpointNeedsSingbox e =
     (if ep_engine e = EngineExternal \<or> ep_engine e = EngineAmneziaWG then False
      else if ep_engine e = EngineSingBox then ep_protocol e \<noteq> ProtoWireGuard
      else True)"

definition ProfileNativeOnly :: "profile \<Rightarrow> bool" where
  "ProfileNativeOnly p =
     (let es = filter ep_enabled (endpoints p) in \<not> list_ex EndpointNeedsSingbox es \<and> es \<noteq> [])"

definition anyV6CIDR :: "string list \<Rightarrow> bool" where
  "anyV6CIDR cs = list_ex (\<lambda>c. contains_str c '':'') cs"

definition ruleHasDomainOrGeo :: "rule \<Rightarrow> bool" where
  "ruleHasDomainOrGeo r = (ru_domain r \<noteq> [] \<or> ru_domain_suffix r \<noteq> [] \<or> ru_geosite r \<noteq> [] \<or> ru_geoip r \<noteq> [])"

definition default_is_direct :: "rule \<Rightarrow> bool" where
  "default_is_direct r = (canonicalOutbound (ru_outbound r) = OutboundDirect \<or> canonicalOutbound (ru_outbound r) = [])"

definition DatapathNativeOnly :: "profile \<Rightarrow> string \<Rightarrow> bool" where
  "DatapathNativeOnly p mode =
     (if \<not> ProfileNativeOnly p then False
      else if mode \<noteq> ''fast'' then False
      else if list_ex (\<lambda>r. ru_default r \<and> \<not> default_is_direct r) (rules p) then False
      else if hybridReachable p \<noteq> [] then False
      else if list_ex ruleHasDomainOrGeo (rules p) then False
      else if list_ex (\<lambda>rl. rl_enabled rl \<and> (rl_source rl \<noteq> [] \<or> fst (splitDomainsIPs (rl_manual rl)) \<noteq> [])) (routing_lists p) then False
      else if list_ex (\<lambda>e. ep_enabled e \<and> ep_engine e = EngineExternal) (endpoints p) then
        \<not> list_ex (\<lambda>r. anyV6CIDR (ru_ip_cidr r)) (rules p) \<and>
        \<not> list_ex (\<lambda>rl. rl_enabled rl \<and> (anyV6CIDR (rl_manual rl) \<or> anyV6CIDR (rl_cidr_cache rl))) (routing_lists p)
      else True)"

end
