(* ===== verification/Pbr_Server.thy ===== *)
theory Pbr_Server
  imports Pbr_Path Generator
begin

text \<open>
  The server's use of the routing plane, \<^verbatim>\<open>internal/server/profile.go\<close> and \<^verbatim>\<open>server/pbr.go\<close>: which plan is compiled
  for which routing mode, installing it in place of the previous one, and the baseline a rollback returns to.
  Each operation runs under \<^verbatim>\<open>pbrMu\<close>, so it is one step, except the teardown request, which takes the plan
  out under the lock and runs its commands after releasing it: it is two steps of a history, with any other
  operations between them, and \<^verbatim>\<open>handlePBRTeardown\<close> is the case where nothing comes between. The laws the operations
  need of the command runner are a locale, discharged by the kernel model.
\<close>

subsection \<open>Modes and generator options\<close>

text \<open>The cache path is the \<^verbatim>\<open>cache.db\<close> beside the sing-box configuration file.\<close>

record config =
  cf_routing_mode :: string
  cf_gateway :: bool
  cf_demo :: bool
  cf_offload :: string
  cf_offload_devices :: "string list"
  cf_mixed_port :: int
  cf_clash_controller :: string
  cf_clash_secret :: string
  cf_cache_path :: string
  cf_gateway_mtu :: int
  cf_gateway_addr :: string

definition routingMode :: "config \<Rightarrow> string" where
  "routingMode c =
     (if cf_routing_mode c = [] then (if cf_gateway c then ''tun'' else ''mixed'') else cf_routing_mode c)"

definition pbrCompileOptions :: "string list \<Rightarrow> config \<Rightarrow> options" where
  "pbrCompileOptions probed c =
     (if routingMode c \<noteq> ''fast'' then no_options
      else
        (let devs = (if (cf_offload c = ''sw'' \<or> cf_offload c = ''hw'') \<and> cf_offload_devices c = [] \<and> \<not> cf_demo c
                     then probed else cf_offload_devices c)
         in no_options\<lparr>o_offload := cf_offload c, o_devices := devs\<rparr>))"

definition excluded_zones :: "plan \<Rightarrow> zone list" where
  "excluded_zones pl =
     filter (\<lambda>z. \<not> list_ex (\<lambda>e. eg_kind e = EgressBlackhole \<and> eg_tag e = z_egress z) (pl_egresses pl) \<and> \<not> z_src_scoped z)
       (pl_zones pl)"

definition genOptionsWithPlan :: "string list \<Rightarrow> profile \<Rightarrow> config \<Rightarrow> gen_options \<times> plan option" where
  "genOptionsWithPlan probed p c =
     (let opts = \<lparr>go_mixed_port = cf_mixed_port c, go_clash_addr = cf_clash_controller c, go_clash_secret = cf_clash_secret c,
            go_tun = cf_gateway c, go_tun_mtu = cf_gateway_mtu c, go_tun_addr = cf_gateway_addr c, go_cache_file = cf_cache_path c,
            go_hybrid = False, go_exclude_v4 = [], go_exclude_v6 = []\<rparr>;
          mode = routingMode c in
      if mode \<noteq> ''hybrid'' \<and> mode \<noteq> ''fast'' then (opts, None)
      else
        (let pl = fst (Compile p (pbrCompileOptions probed c)); opts = opts\<lparr>go_hybrid := True\<rparr> in
         if mode = ''fast'' then (opts\<lparr>go_tun := False\<rparr>, Some pl)
         else (opts\<lparr>go_tun := True,
                 go_exclude_v4 := concat (map z_v4 (excluded_zones pl)) @ pl_bypass_v4 pl,
                 go_exclude_v6 := concat (map z_v6 (excluded_zones pl)) @ pl_bypass_v6 pl\<rparr>, Some pl)))"

definition entryIsDomain :: "string \<Rightarrow> bool" where
  "entryIsDomain s = (s \<noteq> [] \<and> \<not> net_parse_ip s \<and> \<not> net_parse_cidr s)"

definition domain_rule :: "rule \<Rightarrow> bool" where
  "domain_rule r = (\<not> ru_default r \<and> (ru_domain r \<noteq> [] \<or> ru_domain_suffix r \<noteq> [] \<or> ru_geosite r \<noteq> [] \<or> ru_geoip r \<noteq> []))"

definition domain_list :: "routing_list \<Rightarrow> bool" where
  "domain_list rl = (rl_enabled rl \<and> (rl_source rl \<noteq> [] \<or> list_ex entryIsDomain (rl_manual rl)))"

text \<open>The number the warning reports; no warning when it is zero.\<close>

definition fastModeDomainWarning :: "profile \<Rightarrow> string \<Rightarrow> nat" where
  "fastModeDomainWarning p mode =
     (if mode \<noteq> ''fast'' then 0 else length (filter domain_rule (rules p)) + length (filter domain_list (routing_lists p)))"

subsection \<open>Installing plans\<close>

record 'w pbr_state =
  ps_plan :: "plan option"
  ps_baseline :: "plan option"
  ps_world :: 'w

definition tear_old :: "('e, 'w) runner \<Rightarrow> 'w pbr_state \<Rightarrow> 'w" where
  "tear_old run s = (case ps_plan s of None \<Rightarrow> ps_world s | Some old \<Rightarrow> Teardown run old no_options (ps_world s))"

definition applyPBR :: "('e, 'w) runner \<Rightarrow> plan option \<Rightarrow> 'w pbr_state \<Rightarrow> 'e apply_err option \<times> 'w pbr_state" where
  "applyPBR run newPlan s =
     (if newPlan = ps_plan s then (None, s)
      else
        (let w = tear_old run s in
         case newPlan of
           None \<Rightarrow> (None, s\<lparr>ps_plan := None, ps_world := w\<rparr>)
         | Some pl \<Rightarrow>
             (case Apply run pl no_options w of
                (None, w') \<Rightarrow> (None, s\<lparr>ps_plan := Some pl, ps_world := w'\<rparr>)
              | (Some e, w') \<Rightarrow> (Some e, s\<lparr>ps_plan := None, ps_world := Teardown run pl no_options w'\<rparr>))))"

definition snapshotPBRBaseline :: "'w pbr_state \<Rightarrow> 'w pbr_state" where
  "snapshotPBRBaseline s = s\<lparr>ps_baseline := ps_plan s\<rparr>"

definition restorePBRBaseline :: "('e, 'w) runner \<Rightarrow> 'w pbr_state \<Rightarrow> 'w pbr_state" where
  "restorePBRBaseline run s =
     (let w = tear_old run s in
      case ps_baseline s of
        None \<Rightarrow> s\<lparr>ps_plan := None, ps_world := w\<rparr>
      | Some b \<Rightarrow>
          (case Apply run b no_options w of
             (None, w') \<Rightarrow> s\<lparr>ps_plan := Some b, ps_world := w'\<rparr>
           | (Some e, w') \<Rightarrow> s\<lparr>ps_plan := None, ps_world := Teardown run b no_options w'\<rparr>))"

text \<open>The teardown request takes the plan out under the lock and runs the commands after releasing it.\<close>

definition teardown_take :: "'w pbr_state \<Rightarrow> plan option \<times> 'w pbr_state" where
  "teardown_take s = (ps_plan s, s\<lparr>ps_plan := None\<rparr>)"

definition teardown_run :: "('e, 'w) runner \<Rightarrow> plan option \<Rightarrow> 'w pbr_state \<Rightarrow> 'w pbr_state" where
  "teardown_run run old s =
     (case old of None \<Rightarrow> s | Some pl \<Rightarrow> s\<lparr>ps_world := Teardown run pl no_options (ps_world s)\<rparr>)"

definition handlePBRTeardown :: "('e, 'w) runner \<Rightarrow> 'w pbr_state \<Rightarrow> 'w pbr_state" where
  "handlePBRTeardown run s = (case teardown_take s of (old, s1) \<Rightarrow> teardown_run run old s1)"

lemma handlePBRTeardown_eq: "handlePBRTeardown run s = s\<lparr>ps_plan := None, ps_world := tear_old run s\<rparr>"
  by (cases s) (simp add: handlePBRTeardown_def teardown_take_def teardown_run_def tear_old_def split: option.splits)

definition handlePBRApply :: "('e, 'w) runner \<Rightarrow> string list \<Rightarrow> profile \<Rightarrow> config \<Rightarrow> 'w pbr_state \<Rightarrow> 'e apply_err option \<times> 'w pbr_state" where
  "handlePBRApply run probed p c s =
     (if cf_demo c then (None, s)
      else if routingMode c \<noteq> ''hybrid'' \<and> routingMode c \<noteq> ''fast'' then applyPBR run None s
      else applyPBR run (Some (fst (Compile p (pbrCompileOptions probed c)))) s)"

text \<open>Whether the status reports the plane as stale: only the numbers of zones are compared.\<close>

definition handlePBRStatus :: "profile \<Rightarrow> 'w pbr_state \<Rightarrow> bool" where
  "handlePBRStatus p s =
     (case ps_plan s of
        None \<Rightarrow> True
      | Some pl \<Rightarrow> length (pl_zones pl) \<noteq> length (pl_zones (fst (Compile p no_options))))"

subsection \<open>Histories\<close>

text \<open>Any sequence of the operations, with the world drifting in between. A teardown request is pending from
  the moment it has taken its plan until its commands have run; \<^verbatim>\<open>py_overlap\<close> says that the recorded plan was
  put in place while one was pending. An apply of the recorded plan does nothing, so it does not count.\<close>

record 'w plane_sys =
  py :: "'w pbr_state"
  py_pending :: "plan list"
  py_overlap :: bool

definition fresh_plane :: "'w \<Rightarrow> 'w pbr_state" where
  "fresh_plane w = \<lparr>ps_plan = None, ps_baseline = None, ps_world = w\<rparr>"

definition fresh_sys :: "'w \<Rightarrow> 'w plane_sys" where
  "fresh_sys w = \<lparr>py = fresh_plane w, py_pending = [], py_overlap = False\<rparr>"

definition sys_apply :: "('e, 'w) runner \<Rightarrow> plan option \<Rightarrow> 'w plane_sys \<Rightarrow> 'w plane_sys" where
  "sys_apply run np y =
     y\<lparr>py := snd (applyPBR run np (py y)),
       py_overlap := (if np = ps_plan (py y) then py_overlap y else py_pending y \<noteq> [])\<rparr>"

definition sys_restore :: "('e, 'w) runner \<Rightarrow> 'w plane_sys \<Rightarrow> 'w plane_sys" where
  "sys_restore run y = y\<lparr>py := restorePBRBaseline run (py y), py_overlap := (py_pending y \<noteq> [])\<rparr>"

definition sys_take :: "'w plane_sys \<Rightarrow> 'w plane_sys" where
  "sys_take y = (case teardown_take (py y) of
     (None, s) \<Rightarrow> y\<lparr>py := s\<rparr> | (Some pl, s) \<Rightarrow> y\<lparr>py := s, py_pending := pl # py_pending y\<rparr>)"

definition sys_run :: "('e, 'w) runner \<Rightarrow> plan \<Rightarrow> 'w plane_sys \<Rightarrow> 'w plane_sys" where
  "sys_run run pl y = y\<lparr>py := teardown_run run (Some pl) (py y), py_pending := remove1 pl (py_pending y)\<rparr>"

inductive plane_history ::
    "('e, 'w) runner \<Rightarrow> (plan \<Rightarrow> bool) \<Rightarrow> ('w \<Rightarrow> 'w \<Rightarrow> bool) \<Rightarrow> 'w \<Rightarrow> 'w plane_sys \<Rightarrow> bool"
  for run good drift w0 where
  hist_start: "plane_history run good drift w0 (fresh_sys w0)"
| hist_apply: "plane_history run good drift w0 y \<Longrightarrow> (\<And>pl. np = Some pl \<Longrightarrow> good pl) \<Longrightarrow>
    plane_history run good drift w0 (sys_apply run np y)"
| hist_snapshot: "plane_history run good drift w0 y \<Longrightarrow>
    plane_history run good drift w0 (y\<lparr>py := snapshotPBRBaseline (py y)\<rparr>)"
| hist_restore: "plane_history run good drift w0 y \<Longrightarrow> plane_history run good drift w0 (sys_restore run y)"
| hist_take: "plane_history run good drift w0 y \<Longrightarrow> plane_history run good drift w0 (sys_take y)"
| hist_run: "plane_history run good drift w0 y \<Longrightarrow> pl \<in> set (py_pending y) \<Longrightarrow>
    plane_history run good drift w0 (sys_run run pl y)"
| hist_drift: "plane_history run good drift w0 y \<Longrightarrow> drift (ps_world (py y)) w \<Longrightarrow>
    plane_history run good drift w0 (y\<lparr>py := (py y)\<lparr>ps_world := w\<rparr>\<rparr>)"

text \<open>A request whose two halves follow each other.\<close>

lemma handlePBRTeardown_steps:
  assumes "ps_plan (py y) = Some pl"
  shows "sys_run run pl (sys_take y) = y\<lparr>py := handlePBRTeardown run (py y)\<rparr>"
  using assms by (simp add: sys_run_def sys_take_def handlePBRTeardown_def teardown_take_def)

text \<open>What holds between the operations: the world holds nothing but what the recorded plan and the plans of
  pending teardowns put there; and a plan recorded without overlap is there in full, with no teardown
  pending.\<close>

definition plan_list :: "'w plane_sys \<Rightarrow> plan list" where
  "plan_list y = (case ps_plan (py y) of None \<Rightarrow> [] | Some pl \<Rightarrow> [pl]) @ py_pending y"

definition plane_sync :: "(plan \<Rightarrow> bool) \<Rightarrow> (plan list \<Rightarrow> 'w \<Rightarrow> bool) \<Rightarrow> (plan \<Rightarrow> 'w \<Rightarrow> bool) \<Rightarrow> 'w plane_sys \<Rightarrow> bool" where
  "plane_sync good owned has y =
     (owned (plan_list y) (ps_world (py y)) \<and> list_all good (plan_list y) \<and>
      (case ps_plan (py y) of None \<Rightarrow> True
       | Some pl \<Rightarrow> \<not> py_overlap y \<longrightarrow> py_pending y = [] \<and> has pl (ps_world (py y))) \<and>
      (case ps_baseline (py y) of None \<Rightarrow> True | Some b \<Rightarrow> good b))"

subsection \<open>What the operations need of the runner\<close>

locale plane_runner =
  fixes run :: "('e, 'w) runner"
    and owned :: "plan list \<Rightarrow> 'w \<Rightarrow> bool"
    and has :: "plan \<Rightarrow> 'w \<Rightarrow> bool"
    and good :: "plan \<Rightarrow> bool"
    and drift :: "'w \<Rightarrow> 'w \<Rightarrow> bool"
  assumes apply_has: "good pl \<Longrightarrow> owned [] w \<Longrightarrow> Apply run pl no_options w = (None, w') \<Longrightarrow> has pl w'"
    and apply_owned: "good pl \<Longrightarrow> owned ps w \<Longrightarrow> owned (pl # ps) (snd (Apply run pl no_options w))"
    and teardown_owned: "good pl \<Longrightarrow> owned (pl # ps) w \<Longrightarrow> owned ps (Teardown run pl no_options w)"
    and owned_mono: "owned ps w \<Longrightarrow> set ps \<subseteq> set qs \<Longrightarrow> owned qs w"
    and drift_owned: "drift w w' \<Longrightarrow> owned ps w \<Longrightarrow> owned ps w'"
    and drift_has: "drift w w' \<Longrightarrow> has pl w \<Longrightarrow> has pl w'"
begin

lemma tear_old_owned: "plane_sync good owned has y \<Longrightarrow> owned (py_pending y) (tear_old run (py y))"
  by (cases "ps_plan (py y)") (auto simp: plane_sync_def plan_list_def tear_old_def teardown_owned)

lemma install_cases:
  assumes "good pl" and "owned ps w"
  obtains w' where "Apply run pl no_options w = (None, w')" "owned (pl # ps) w'" "ps = [] \<Longrightarrow> has pl w'"
  | e w' where "Apply run pl no_options w = (Some e, w')" "owned ps (Teardown run pl no_options w')"
proof (cases "Apply run pl no_options w")
  case (Pair e w')
  have o: "owned (pl # ps) w'" using apply_owned [OF assms] Pair by simp
  show ?thesis
  proof (cases e)
    case None
    with Pair o show ?thesis using assms by (intro that(1) [of w']) (auto intro: apply_has)
  next
    case (Some x)
    with Pair show ?thesis using teardown_owned [OF assms(1) o] by (intro that(2)) simp_all
  qed
qed

lemma apply_sync:
  assumes "plane_sync good owned has y" and "\<And>pl. np = Some pl \<Longrightarrow> good pl"
  shows "plane_sync good owned has (sys_apply run np y)"
proof (cases "np = ps_plan (py y)")
  case True
  then have "sys_apply run np y = y" by (simp add: sys_apply_def applyPBR_def)
  with assms show ?thesis by simp
next
  case False
  note o = tear_old_owned [OF assms(1)]
  have g: "list_all good (py_pending y)" "case ps_baseline (py y) of None \<Rightarrow> True | Some b \<Rightarrow> good b"
    using assms(1) by (simp_all add: plane_sync_def plan_list_def)
  show ?thesis
  proof (cases np)
    case None
    with False o g show ?thesis by (simp add: sys_apply_def applyPBR_def plane_sync_def plan_list_def Let_def)
  next
    case (Some pl)
    have "good pl" using assms(2) Some by simp
    from install_cases [OF this o] show ?thesis
    proof cases
      case (1 w')
      with False Some g \<open>good pl\<close> show ?thesis by (simp add: sys_apply_def applyPBR_def plane_sync_def plan_list_def Let_def)
    next
      case (2 e w')
      with False Some g show ?thesis by (simp add: sys_apply_def applyPBR_def plane_sync_def plan_list_def Let_def)
    qed
  qed
qed

lemma restore_sync:
  assumes "plane_sync good owned has y"
  shows "plane_sync good owned has (sys_restore run y)"
proof -
  note o = tear_old_owned [OF assms]
  have g: "list_all good (py_pending y)" "case ps_baseline (py y) of None \<Rightarrow> True | Some b \<Rightarrow> good b"
    using assms by (simp_all add: plane_sync_def plan_list_def)
  show ?thesis
  proof (cases "ps_baseline (py y)")
    case None
    with o g show ?thesis by (simp add: sys_restore_def restorePBRBaseline_def plane_sync_def plan_list_def Let_def)
  next
    case (Some b)
    then have "good b" using g by simp
    from install_cases [OF this o] show ?thesis
    proof cases
      case (1 w')
      with Some g show ?thesis by (simp add: sys_restore_def restorePBRBaseline_def plane_sync_def plan_list_def Let_def)
    next
      case (2 e w')
      with Some g show ?thesis by (simp add: sys_restore_def restorePBRBaseline_def plane_sync_def plan_list_def Let_def)
    qed
  qed
qed

lemma take_sync:
  assumes "plane_sync good owned has y"
  shows "plane_sync good owned has (sys_take y)"
  using assms
  by (cases "ps_plan (py y)") (simp_all add: plane_sync_def plan_list_def sys_take_def teardown_take_def)

lemma run_sync:
  assumes "plane_sync good owned has y" and "pl \<in> set (py_pending y)"
  shows "plane_sync good owned has (sys_run run pl y)"
proof -
  let ?rec = "case ps_plan (py y) of None \<Rightarrow> [] | Some pl \<Rightarrow> [pl]"
  have s: "owned (?rec @ py_pending y) (ps_world (py y))" "list_all good (py_pending y)"
    using assms(1) by (simp_all add: plane_sync_def plan_list_def)
  have "owned (pl # (?rec @ remove1 pl (py_pending y))) (ps_world (py y))"
    using assms(2) by (intro owned_mono [OF s(1)]) (auto simp: in_set_remove1)
  then have "owned (?rec @ remove1 pl (py_pending y)) (Teardown run pl no_options (ps_world (py y)))"
    using s(2) assms(2) by (intro teardown_owned) (auto simp: list_all_iff)
  moreover have "list_all good (remove1 pl (py_pending y))"
    using s(2) set_remove1_subset [of pl "py_pending y"] by (auto simp: list_all_iff)
  moreover have "py_overlap y" if "ps_plan (py y) \<noteq> None"
    using that assms by (auto simp: plane_sync_def)
  ultimately show ?thesis
    using assms(1) by (cases "ps_plan (py y)") (auto simp: plane_sync_def plan_list_def sys_run_def teardown_run_def)
qed

lemma history_sync:
  assumes "plane_history run good drift w y" and "owned [] w"
  shows "plane_sync good owned has y"
  using assms
proof (induction rule: plane_history.induct)
  case hist_start
  then show ?case by (simp add: plane_sync_def plan_list_def fresh_sys_def fresh_plane_def)
next
  case (hist_snapshot y)
  then show ?case by (simp add: plane_sync_def plan_list_def snapshotPBRBaseline_def split: option.splits)
next
  case (hist_drift y w)
  then show ?case
    by (cases "ps_plan (py y)") (auto simp: plane_sync_def plan_list_def intro: drift_owned drift_has)
qed (auto intro: apply_sync restore_sync take_sync run_sync)

text \<open>A rollback whose baseline can be applied ends on the baseline.\<close>

lemma restore_reaches_baseline:
  assumes "\<And>b. ps_baseline s = Some b \<Longrightarrow> fst (Apply run b no_options (tear_old run s)) = None"
  shows "ps_plan (restorePBRBaseline run s) = ps_baseline s"
  using assms by (fastforce simp: restorePBRBaseline_def Let_def split: option.splits prod.splits)

end

subsection \<open>The kernel as the world\<close>

abbreviation defaults :: options where "defaults \<equiv> withDefaults no_options"

definition clean_kernel :: "kernel \<Rightarrow> bool" where
  "clean_kernel k = (k_rules k = [] \<and> k_routes k = [] \<and> k_nft k = None)"

definition has_plan :: "plan \<Rightarrow> kernel \<Rightarrow> bool" where
  "has_plan pl k = (k_rules k = plan_rules pl defaults \<and> k_routes k = fold set_route (plan_routes pl) [] \<and> k_nft k = Some (RenderNft pl))"

definition good_plan :: "plan \<Rightarrow> bool" where
  "good_plan pl = (plain_word (pl_table pl) \<and>
     list_all (\<lambda>e. eg_kind e = EgressInterface \<longrightarrow> plain_word (eg_iface e)) (pl_egresses pl))"

definition links_change :: "kernel \<Rightarrow> kernel \<Rightarrow> bool" where
  "links_change k k' = (k' = k\<lparr>k_links := k_links k'\<rparr>)"

text \<open>Everything on the kernel is one of the plans': each rule, the table of each route and the ruleset.\<close>

definition owned_by :: "plan list \<Rightarrow> kernel \<Rightarrow> bool" where
  "owned_by ps k = (distinct (k_rules k) \<and>
     (\<forall>r \<in> set (k_rules k). \<exists>pl \<in> set ps. r \<in> set (plan_rules pl defaults)) \<and>
     (\<forall>x \<in> set (k_routes k). \<exists>pl \<in> set ps. plan_table pl (fst (fst x)) (fst (snd (fst x)))) \<and>
     (case k_nft k of None \<Rightarrow> True | Some d \<Rightarrow> \<exists>pl \<in> set ps. d = RenderNft pl))"

lemma owned_by_Nil [simp]: "owned_by [] k = clean_kernel k"
proof -
  have e: "(\<forall>x \<in> set xs. False) \<longleftrightarrow> xs = []" for xs :: "'a list" by (cases xs) auto
  show ?thesis unfolding owned_by_def clean_kernel_def list.set(1) bex_empty e by (cases "k_nft k") auto
qed

lemma owned_by_mono: "owned_by ps k \<Longrightarrow> set ps \<subseteq> set qs \<Longrightarrow> owned_by qs k"
  unfolding owned_by_def by (cases "k_nft k") (simp_all, blast+)

lemma run_delete_any:
  assumes "plain_word (pl_table pl)"
  shows "snd (run_cmd kernel_run (''nft delete table inet '' @ pl_table pl) k) = k\<lparr>k_nft := None\<rparr>"
proof (cases "k_nft k")
  case None
  have "list_all plain_word [''nft'', ''delete'', ''table'', ''inet'']" by code_simp
  with assms have "list_all plain_word [''nft'', ''delete'', ''table'', ''inet'', pl_table pl]" by simp
  from fields_join [OF this] None show ?thesis by (simp add: run_cmd_def splitCmd_def kernel_run_def)
qed (use run_delete_table [OF assms] in simp)

lemma Teardown_kernel:
  assumes "plain_word (pl_table pl)" and "distinct (k_rules k)"
  shows "Teardown kernel_run pl no_options k = cleared pl defaults (k\<lparr>k_nft := None\<rparr>)"
proof -
  have "Teardown kernel_run pl no_options k = run_ignoring kernel_run (ipTeardown pl defaults) (k\<lparr>k_nft := None\<rparr>)"
    using run_delete_any [OF assms(1), of k] by (simp add: Teardown_def RenderTeardown_def run_ignoring_def)
  also have "\<dots> = cleared pl defaults (k\<lparr>k_nft := None\<rparr>)"
    using run_teardown [of "k\<lparr>k_nft := None\<rparr>" pl defaults] assms(2) by simp
  finally show ?thesis .
qed

lemma Teardown_owned:
  assumes "plain_word (pl_table pl)" and "owned_by (pl # ps) k"
  shows "owned_by ps (Teardown kernel_run pl no_options k)"
proof -
  have "distinct (k_rules k)" using assms(2) by (simp add: owned_by_def)
  then show ?thesis using assms(2) unfolding Teardown_kernel [OF assms(1) \<open>distinct (k_rules k)\<close>]
    by (fastforce simp: owned_by_def cleared_def)
qed

lemma exec_owned:
  assumes "owned_by (pl # ps) k" and "c \<in> set (install_cmds pl defaults)"
  shows "owned_by (pl # ps) (snd (exec_cmd c k))"
proof -
  have r: "added c = [x] \<Longrightarrow> x \<in> set (plan_rules pl defaults)" for x
    using assms(2) unfolding install_added [symmetric] by (auto intro!: bexI [of _ c])
  have t: "entries c = [x] \<Longrightarrow> plan_table pl (fst (fst x)) (fst (snd (fst x)))" for x
    by (rule routes_in_plan_tables) (use assms(2) in \<open>auto simp: install_entries [symmetric, of pl defaults] intro!: bexI [of _ c]\<close>)
  show ?thesis using assms r t
    by (cases c) (auto simp: owned_by_def put_route_def install_cmds_def route_asts_def split: egress_kind.splits if_splits)
qed

lemma run_owned:
  assumes "set cs \<subseteq> set (install_cmds pl defaults)" and "list_all plain_cmd cs" and "owned_by (pl # ps) k"
  shows "owned_by (pl # ps) (snd (run_until_error kernel_run (map show_cmd cs) k))"
  using assms
proof (induction cs arbitrary: k)
  case (Cons c cs)
  then have "run_cmd kernel_run (show_cmd c) k = exec_cmd c k" "owned_by (pl # ps) (snd (exec_cmd c k))"
    using exec_owned [of pl ps k c] by (auto simp: run_cmd_show)
  with Cons show ?case by (auto split: prod.splits option.splits)
qed simp

lemma good_plain: "good_plan pl \<Longrightarrow> list_all plain_cmd (install_cmds pl opt)"
proof -
  assume g: "good_plan pl"
  let ?k = "\<lparr>k_rules = [], k_routes = [], k_links = map eg_iface (pl_egresses pl), k_nft = None\<rparr>"
  have "tunnels_up pl ?k" using g by (auto simp: tunnels_up_def good_plan_def list_all_iff)
  then show ?thesis by (rule install_cmds_plain(1))
qed

lemma Apply_runs:
  assumes "distinct (k_rules k)"
  shows "Apply kernel_run pl no_options k =
    run_until_error kernel_run (map show_cmd (install_cmds pl defaults)) (cleared pl defaults (k\<lparr>k_nft := Some (RenderNft pl)\<rparr>))"
  using run_teardown [of "k\<lparr>k_nft := Some (RenderNft pl)\<rparr>" pl defaults] assms
  by (simp add: Apply_def kernel_run_def Let_def RenderIP_show)

lemma Apply_owned:
  assumes "good_plan pl" and "owned_by ps k"
  shows "owned_by (pl # ps) (snd (Apply kernel_run pl no_options k))"
proof -
  have "distinct (k_rules k)" using assms(2) by (simp add: owned_by_def)
  moreover have "owned_by (pl # ps) (cleared pl defaults (k\<lparr>k_nft := Some (RenderNft pl)\<rparr>))"
    using assms(2) by (auto simp: owned_by_def cleared_def)
  ultimately show ?thesis unfolding Apply_runs [OF \<open>distinct (k_rules k)\<close>]
    by (intro run_owned [OF order.refl good_plain [OF assms(1)]])
qed

lemma Apply_clean:
  assumes "clean_kernel k"
  shows "Apply kernel_run pl no_options k = run_until_error kernel_run (map show_cmd (install_cmds pl defaults)) (k\<lparr>k_nft := Some (RenderNft pl)\<rparr>)"
proof -
  have "cleared pl defaults (k\<lparr>k_nft := Some (RenderNft pl)\<rparr>) = k\<lparr>k_nft := Some (RenderNft pl)\<rparr>"
    using assms by (simp add: cleared_def clean_kernel_def)
  then show ?thesis using Apply_runs [of k pl] assms by (simp add: clean_kernel_def)
qed

text \<open>A run without error has brought every tunnel's device up.\<close>

lemma run_no_error:
  assumes "list_all plain_cmd cs" and "fst (run_until_error kernel_run (map show_cmd cs) k) = None"
  shows "RouteDev v6 i t \<in> set cs \<Longrightarrow> i \<in> set (k_links k)"
  using assms
proof (induction cs arbitrary: k)
  case (Cons c cs)
  have e: "run_cmd kernel_run (show_cmd c) k = exec_cmd c k" using Cons.prems(2) by (simp add: run_cmd_show)
  then have ok: "fst (exec_cmd c k) = None" using Cons.prems(3) by (auto split: prod.splits option.splits)
  have l: "k_links (snd (exec_cmd c k)) = k_links k" by (cases c) (auto simp: put_route_def)
  show ?case
  proof (cases "c = RouteDev v6 i t")
    case True
    then show ?thesis using ok by (simp split: if_splits)
  next
    case False
    then show ?thesis using Cons.IH [of "snd (exec_cmd c k)"] Cons.prems ok e l by (auto split: prod.splits)
  qed
qed simp

lemma dev_in_install:
  assumes "e \<in> set (pl_egresses pl)" and "eg_kind e = EgressInterface"
  shows "RouteDev False (eg_iface e) (eg_table e) \<in> set (install_cmds pl opt)"
proof -
  have "e \<in> set (map snd (numbered_egresses pl))" unfolding numbered_snd using assms by (simp add: nonWan_in)
  then obtain x where "x \<in> set (numbered_egresses pl)" "snd x = e" by auto
  then show ?thesis using assms(2) by (force simp: install_cmds_def route_asts_def fams_def)
qed

lemma Apply_has:
  assumes "good_plan pl" and "clean_kernel k" and "Apply kernel_run pl no_options k = (None, k')"
  shows "has_plan pl k'"
proof -
  have "fst (run_until_error kernel_run (map show_cmd (install_cmds pl defaults)) (k\<lparr>k_nft := Some (RenderNft pl)\<rparr>)) = None"
    using assms(3) unfolding Apply_clean [OF assms(2)] by simp
  from run_no_error [OF good_plain [OF assms(1)] this] dev_in_install
  have "tunnels_up pl k" using assms(1) by (fastforce simp: tunnels_up_def good_plan_def list_all_iff)
  moreover have "distinct (k_rules k)" using assms(2) by (simp add: clean_kernel_def)
  ultimately have "k' = installed pl defaults k" using Apply_installed [of k pl no_options] assms(3) by simp
  then show ?thesis using assms(2) by (simp add: has_plan_def installed_def cleared_def clean_kernel_def Let_def)
qed

lemma links_change_frames:
  assumes "links_change k k'"
  shows "k_rules k' = k_rules k" and "k_routes k' = k_routes k" and "k_nft k' = k_nft k"
proof -
  have "k' = k\<lparr>k_links := k_links k'\<rparr>" using assms by (simp add: links_change_def)
  then show "k_rules k' = k_rules k" and "k_routes k' = k_routes k" and "k_nft k' = k_nft k"
    by (metis kernel.select_convs(1) kernel.surjective kernel.update_convs(3),
        metis kernel.select_convs(2) kernel.surjective kernel.update_convs(3),
        metis kernel.select_convs(4) kernel.surjective kernel.update_convs(3))
qed

interpretation kplane: plane_runner kernel_run owned_by has_plan good_plan links_change
proof
  show "good_plan pl \<Longrightarrow> owned_by [] w \<Longrightarrow> Apply kernel_run pl no_options w = (None, w') \<Longrightarrow> has_plan pl w'" for pl w w'
    using Apply_has by simp
  show "good_plan pl \<Longrightarrow> owned_by ps w \<Longrightarrow> owned_by (pl # ps) (snd (Apply kernel_run pl no_options w))" for pl ps w
    by (rule Apply_owned)
  show "good_plan pl \<Longrightarrow> owned_by (pl # ps) w \<Longrightarrow> owned_by ps (Teardown kernel_run pl no_options w)" for pl ps w
    by (rule Teardown_owned) (simp add: good_plan_def)
  show "owned_by ps w \<Longrightarrow> set ps \<subseteq> set qs \<Longrightarrow> owned_by qs w" for ps qs w
    by (rule owned_by_mono)
  show "links_change w w' \<Longrightarrow> owned_by ps w \<Longrightarrow> owned_by ps w'" for w w' ps
    using links_change_frames [of w w'] by (simp add: owned_by_def)
  show "links_change w w' \<Longrightarrow> has_plan pl w \<Longrightarrow> has_plan pl w'" for w w' pl
    using links_change_frames [of w w'] by (simp add: has_plan_def)
qed

subsection \<open>Properties\<close>


lemma exec_links: "k_links (snd (exec_cmd c k)) = k_links k"
  by (cases c) (auto simp: put_route_def)

lemma run_links: "k_links (snd (run_cmd kernel_run c k)) = k_links k"
  by (auto simp: run_cmd_def kernel_run_def exec_links split: prod.splits option.splits)

lemma ignoring_links: "k_links (run_ignoring kernel_run cs k) = k_links k"
  by (induction cs arbitrary: k) (simp_all add: run_ignoring_def run_links)

lemma tear_old_links: "k_links (tear_old kernel_run s) = k_links (ps_world s)"
  by (simp add: tear_old_def Teardown_def ignoring_links split: option.splits)

text \<open>A rollback really returns to the baseline: after any such history with no teardown request still to
  run, restoring with the baseline's tunnel devices present makes the baseline the recorded and the
  installed plan.\<close>

theorem rollback_restores_baseline:
  assumes "clean_kernel k" and "plane_history kernel_run good_plan links_change k y" and "py_pending y = []"
    and "\<And>b. ps_baseline (py y) = Some b \<Longrightarrow> tunnels_up b (ps_world (py y))"
  shows "ps_plan (restorePBRBaseline kernel_run (py y)) = ps_baseline (py y) \<and>
    (case ps_baseline (py y) of
       None \<Rightarrow> clean_kernel (ps_world (restorePBRBaseline kernel_run (py y)))
     | Some b \<Rightarrow> has_plan b (ps_world (restorePBRBaseline kernel_run (py y))))"
proof -
  have sync: "plane_sync good_plan owned_by has_plan y" using kplane.history_sync [OF assms(2)] assms(1) by simp
  have clean: "clean_kernel (tear_old kernel_run (py y))" using kplane.tear_old_owned [OF sync] assms(3) by simp
  have "fst (Apply kernel_run b no_options (tear_old kernel_run (py y))) = None" if "ps_baseline (py y) = Some b" for b
  proof -
    have "tunnels_up b (tear_old kernel_run (py y))" using assms(4) [OF that] by (simp add: tunnels_up_def tear_old_links)
    then show ?thesis using Apply_installed [of "tear_old kernel_run (py y)" b no_options] clean by (simp add: clean_kernel_def)
  qed
  then have p: "ps_plan (restorePBRBaseline kernel_run (py y)) = ps_baseline (py y)"
    by (rule kplane.restore_reaches_baseline)
  from kplane.restore_sync [OF sync] p assms(3) show ?thesis
    by (auto simp: plane_sync_def sys_restore_def plan_list_def split: option.splits)
qed

definition scoped_inv :: "cstate \<Rightarrow> bool" where
  "scoped_inv st = (\<forall>z \<in> set (c_zones st). \<not> z_src_scoped z \<longrightarrow>
     z_src_v4 z = [] \<and> z_src_v6 z = [] \<and> z_src_mac z = [] \<and> z_src_iface z = [] \<and> z_src_port z = [])"

lemma new_zone_scoped:
  "\<not> z_src_scoped (new_zone opt nm tag cidrs src) \<Longrightarrow> z_src_v4 (new_zone opt nm tag cidrs src) = [] \<and> z_src_v6 (new_zone opt nm tag cidrs src) = [] \<and>
     z_src_mac (new_zone opt nm tag cidrs src) = [] \<and> z_src_iface (new_zone opt nm tag cidrs src) = [] \<and> z_src_port (new_zone opt nm tag cidrs src) = []"
  unfolding new_zone_def Let_def by (auto split: option.splits if_splits)

interpretation scoped: zone_invariant opt p scoped_inv
proof
  fix st name tag cidrs src scope
  assume "scoped_inv st"
  then show "scoped_inv (addZone opt name tag cidrs src scope st)"
    using new_zone_scoped by (cases rule: addZone_cases [of opt name tag cidrs src scope st]) (auto simp: scoped_inv_def)
qed (simp_all add: scoped_inv_def start_state_def)

lemma compiled_scoped:
  assumes "z \<in> set (pl_zones (fst (Compile p opt)))" and "\<not> z_src_scoped z"
  shows "z_src_v4 z = [] \<and> z_src_v6 z = [] \<and> link_ok z pk"
proof -
  have "scoped_inv (compile_zones (withDefaults opt) p)" by (rule scoped.inv_compiled)
  then show ?thesis using assms by (auto simp: scoped_inv_def link_ok_def elim!: zone_from_state)
qed

lemma in_cidrs_member: "s \<in> set ss \<Longrightarrow> in_cidrs [s] a \<Longrightarrow> in_cidrs ss a"
  by (auto simp: in_cidrs_def list_ex_iff)

text \<open>What the tunnel device lets go, the kernel takes: in hybrid mode every IPv4 prefix that is excluded from
  the core's tunnel device is either a tunnel peer or in a zone that captures its traffic from every source
  and does not drop it.\<close>

theorem tun_excludes_are_routed:
  assumes "genOptionsWithPlan probed p c = (opts, Some pl)" and "s \<in> set (go_exclude_v4 opts)"
    and "in_cidrs [s] (pk_dst pk)" and "\<not> is6 (pk_dst pk)"
  shows "bypassed pl pk \<or>
    (\<exists>z \<in> set (pl_zones pl). zone_captures z pk \<and> \<not> list_ex (\<lambda>e. eg_tag e = z_egress z \<and> eg_kind e = EgressBlackhole) (pl_egresses pl))"
proof -
  from assms(1) have pl: "pl = fst (Compile p (pbrCompileOptions probed c))"
    and "go_exclude_v4 opts = [] \<or> go_exclude_v4 opts = concat (map z_v4 (excluded_zones pl)) @ pl_bypass_v4 pl"
    by (auto simp: genOptionsWithPlan_def Let_def split: if_splits)
  with assms(2) consider "s \<in> set (pl_bypass_v4 pl)" | z where "z \<in> set (excluded_zones pl)" "s \<in> set (z_v4 z)" by auto
  then show ?thesis
  proof cases
    case 1
    then show ?thesis using in_cidrs_member [OF 1 assms(3)] assms(4) by (simp add: bypassed_def of_family_def)
  next
    case 2
    have z: "z \<in> set (pl_zones pl)" "\<not> z_src_scoped z" "\<not> list_ex (\<lambda>e. eg_tag e = z_egress z \<and> eg_kind e = EgressBlackhole) (pl_egresses pl)"
      using 2(1) by (auto simp: excluded_zones_def list_ex_iff)
    have "z_src_v4 z = [] \<and> z_src_v6 z = [] \<and> link_ok z pk" using compiled_scoped z(1,2) unfolding pl by blast
    then have "zone_captures z pk"
      using in_cidrs_member [OF 2(2) assms(3)] 2(2) assms(4)
      by (auto simp: zone_captures_def dest_ok_def source_ok_def of_family_def)
    with z show ?thesis by blast
  qed
qed

subsection \<open>Witnesses\<close>

definition applied :: "kernel plane_sys" where
  "applied = sys_apply kernel_run (Some example_plan) (fresh_sys fresh_kernel)"

lemma example_good: "good_plan example_plan"
  unfolding compiled_example by code_simp

lemma fresh_clean: "clean_kernel fresh_kernel"
  by (simp add: clean_kernel_def fresh_kernel_def)

lemma applied_history: "plane_history kernel_run good_plan links_change fresh_kernel applied"
  unfolding applied_def by (rule hist_apply [OF hist_start]) (use example_good in simp)

lemma applied_plan:
  "ps_plan (py applied) = Some example_plan" "k_links (ps_world (py applied)) = k_links fresh_kernel"
  "py_pending applied = []" "\<not> py_overlap applied"
  using Apply_installed [of fresh_kernel example_plan no_options] example_up
  by (simp_all add: applied_def sys_apply_def fresh_sys_def applyPBR_def fresh_plane_def tear_old_def fresh_kernel_def
      installed_def cleared_def Let_def)


definition removed :: "kernel plane_sys" where
  "removed = sys_apply kernel_run None (applied\<lparr>py := snapshotPBRBaseline (py applied)\<rparr>)"

lemma removed_history: "plane_history kernel_run good_plan links_change fresh_kernel removed"
  unfolding removed_def by (rule hist_apply [OF hist_snapshot [OF applied_history]]) simp

lemma removed_state:
  "ps_baseline (py removed) = Some example_plan" "ps_plan (py removed) = None" "py_pending removed = []"
  "k_links (ps_world (py removed)) = k_links fresh_kernel"
  by (simp_all add: removed_def sys_apply_def applyPBR_def snapshotPBRBaseline_def applied_plan tear_old_links Let_def)

theorem rollback_restores_baseline_witness:
  "ps_plan (py removed) = None \<and> ps_plan (restorePBRBaseline kernel_run (py removed)) = Some example_plan"
proof -
  have "tunnels_up example_plan (ps_world (py removed))" using example_up removed_state(4) by (simp add: tunnels_up_def)
  then have "\<And>p. ps_baseline (py removed) = Some p \<Longrightarrow> tunnels_up p (ps_world (py removed))" using removed_state(1) by simp
  from rollback_restores_baseline [OF fresh_clean removed_history removed_state(3) this] removed_state(1,2) show ?thesis by simp
qed

definition hybrid_config :: config where
  "hybrid_config = \<lparr>cf_routing_mode = ''hybrid'', cf_gateway = False, cf_demo = False, cf_offload = [], cf_offload_devices = [],
     cf_mixed_port = 7890, cf_clash_controller = [], cf_clash_secret = [], cf_cache_path = [], cf_gateway_mtu = 0, cf_gateway_addr = []\<rparr>"

theorem tun_excludes_are_routed_witness:
  "snd (genOptionsWithPlan [] example_profile hybrid_config) = Some example_plan \<and>
   ''203.0.113.0/24'' \<in> set (go_exclude_v4 (fst (genOptionsWithPlan [] example_profile hybrid_config))) \<and>
   (\<exists>z \<in> set (pl_zones example_plan). zone_captures z example_packet)"
proof -
  have o: "pbrCompileOptions [] hybrid_config = no_options"
    by (simp add: pbrCompileOptions_def routingMode_def hybrid_config_def)
  then have g: "genOptionsWithPlan [] example_profile hybrid_config = (fst (genOptionsWithPlan [] example_profile hybrid_config), Some example_plan)"
    by (simp add: genOptionsWithPlan_def routingMode_def hybrid_config_def Let_def)
  have "''203.0.113.0/24'' \<in> set (concat (map z_v4 (excluded_zones example_plan)))"
    unfolding compiled_example by code_simp
  then have m: "''203.0.113.0/24'' \<in> set (go_exclude_v4 (fst (genOptionsWithPlan [] example_profile hybrid_config)))"
    using o by (simp add: genOptionsWithPlan_def routingMode_def hybrid_config_def Let_def)
  have d: "in_cidrs [''203.0.113.0/24''] (pk_dst example_packet)" by code_simp
  have i: "\<not> is6 (pk_dst example_packet)" by (simp add: example_packet_def)
  have "\<not> bypassed example_plan example_packet" unfolding compiled_example by code_simp
  with tun_excludes_are_routed [OF g m d i] have "\<exists>z \<in> set (pl_zones example_plan). zone_captures z example_packet" by blast
  with g m show ?thesis by (metis snd_conv)
qed

subsection \<open>A teardown request can destroy a newer plan\<close>

text \<open>The commands of a teardown request run outside the lock. When an apply comes between taking the plan and
  running them, they remove the plan that was just installed: it stays recorded, the kernel has nothing of it,
  and applying it again is skipped because the recorded plan is unchanged.\<close>

theorem teardown_races_apply:
  "\<exists>y. plane_history kernel_run good_plan links_change fresh_kernel y \<and> py_pending y = [] \<and> py_overlap y \<and>
     ps_plan (py y) = Some example_plan \<and> clean_kernel (ps_world (py y)) \<and>
     applyPBR kernel_run (Some example_plan) (py y) = (None, py y)"
proof -
  let ?k = "ps_world (py applied)" let ?p = example_plan
  let ?y1 = "sys_take applied"
  let ?y2 = "sys_apply kernel_run (Some ?p) ?y1"
  let ?y3 = "sys_run kernel_run ?p ?y2"
  have has: "has_plan ?p ?k" and owned: "owned_by [?p] ?k"
    using kplane.history_sync [OF applied_history] fresh_clean by (simp_all add: plane_sync_def plan_list_def applied_plan)
  have d: "distinct (k_rules ?k)" using has plan_rules_distinct by (simp add: has_plan_def)
  have u: "tunnels_up ?p ?k" using example_up by (simp add: tunnels_up_def applied_plan(2))
  have a: "Apply kernel_run ?p no_options ?k = (None, installed ?p defaults ?k)" by (rule Apply_installed [OF d u])
  have y1: "ps_plan (py ?y1) = None" "ps_world (py ?y1) = ?k" "py_pending ?y1 = [?p]"
    by (simp_all add: sys_take_def teardown_take_def applied_plan)
  have y2: "ps_plan (py ?y2) = Some ?p" "ps_world (py ?y2) = installed ?p defaults ?k" "py_pending ?y2 = [?p]" "py_overlap ?y2"
    using a y1 by (simp_all add: sys_apply_def applyPBR_def tear_old_def Let_def)
  have 2: "plane_history kernel_run good_plan links_change fresh_kernel ?y2"
    by (rule hist_apply [OF hist_take [OF applied_history]]) (use example_good in simp)
  have 3: "plane_history kernel_run good_plan links_change fresh_kernel ?y3" by (rule hist_run [OF 2]) (simp add: y2(3))
  have o2: "owned_by [?p] (installed ?p defaults ?k)"
    using kplane.owned_mono [OF kplane.apply_owned [OF example_good owned], of "[?p]"] a by simp
  have "plain_word (pl_table ?p)" using example_good by (simp add: good_plan_def)
  from Teardown_owned [OF this o2] have c: "clean_kernel (ps_world (py ?y3))"
    by (simp add: sys_run_def teardown_run_def y2(2))
  have p: "ps_plan (py ?y3) = Some ?p" "py_pending ?y3 = []" "py_overlap ?y3"
    by (simp_all add: sys_run_def teardown_run_def y2)
  then have "applyPBR kernel_run (Some ?p) (py ?y3) = (None, py ?y3)" by (simp add: applyPBR_def)
  with 3 c p show ?thesis by blast
qed

end
