(* ===== verification/Plugin.thy ===== *)
theory Plugin
  imports Gen_Outbound
begin

text \<open>
  \<^verbatim>\<open>internal/plugin/plugin.go\<close> and \<^verbatim>\<open>plugin/nfqws.go\<close>: the engines beside sing-box. The configuration text of each
  engine, and the manager that brings the engines of the current profile up and down, restarts crashed
  processes and keeps the AmneziaWG interfaces. The host (files, interfaces, processes) is explicit; the answers of the
  operating system are a record of functions.
\<close>

abbreviation EngineOlcRTC :: engine where "EngineOlcRTC \<equiv> ''olcrtc''"
abbreviation EngineNfqws :: engine where "EngineNfqws \<equiv> ''nfqws''"

subsection \<open>Engine configurations\<close>

definition numStr :: "pval option \<Rightarrow> string" where
  "numStr v = (case v of Some (PNum x) \<Rightarrow> itoa (trunc x) | Some (PStr s) \<Rightarrow> s | _ \<Rightarrow> [])"

definition mtuStr :: "endpoint \<Rightarrow> string" where
  "mtuStr e = (if ep_mtu e > 0 then itoa (ep_mtu e) else numStr (ep_params e ''mtu''))"

definition awgMTU :: "endpoint \<Rightarrow> string" where
  "awgMTU e = (if mtuStr e \<noteq> [] then mtuStr e else ''1280'')"

definition keepaliveStr :: "endpoint \<Rightarrow> string" where
  "keepaliveStr e = (if ep_keepalive e > 0 then itoa (ep_keepalive e) else numStr (ep_params e ''persistent_keepalive''))"

definition awgKeepalive :: "endpoint \<Rightarrow> string" where
  "awgKeepalive e = (if keepaliveStr e \<noteq> [] then keepaliveStr e else ''20'')"

definition awgOrder :: "(string \<times> string) list" where
  "awgOrder =
     [(''jc'', ''Jc''), (''jmin'', ''Jmin''), (''jmax'', ''Jmax''),
      (''s1'', ''S1''), (''s2'', ''S2''), (''s3'', ''S3''), (''s4'', ''S4''),
      (''h1'', ''H1''), (''h2'', ''H2''), (''h3'', ''H3''), (''h4'', ''H4''),
      (''i1'', ''I1''), (''i2'', ''I2''), (''i3'', ''I3''), (''i4'', ''I4''), (''i5'', ''I5'')]"

definition isIKey :: "string \<Rightarrow> bool" where
  "isIKey k = (case k of [c, d] \<Rightarrow> c = CHR ''i'' \<and> in_range (CHR ''1'') (CHR ''5'') d | _ \<Rightarrow> False)"

definition confLine :: "string \<Rightarrow> string" where
  "confLine s = takeWhile (\<lambda>c. \<not> (of_char c < (32 :: nat))) s"

text \<open>The package has its own copy of the generator's key normalisation.\<close>

definition awg_key :: "string \<Rightarrow> string" where
  "awg_key s = (case decode32 wg_encodings s of Some b \<Rightarrow> b64_encode False True b | None \<Rightarrow> s)"

abbreviation newline :: string where "newline \<equiv> [CHR 0x0A]"

definition conf_line :: "string \<Rightarrow> string \<Rightarrow> string" where
  "conf_line k v = k @ '' = '' @ v @ newline"

definition conf_opt :: "string \<Rightarrow> string \<Rightarrow> string" where
  "conf_opt k v = (if v \<noteq> [] then conf_line k v else [])"

definition junk_line :: "params \<Rightarrow> string \<times> string \<Rightarrow> string" where
  "junk_line ps j =
     (case j of (key, nm) \<Rightarrow>
        if isIKey key \<and> \<not> (case ps key of Some (PStr _) \<Rightarrow> True | _ \<Rightarrow> False) then []
        else conf_opt nm (numStr (ps key)))"

definition awgConfig :: "endpoint \<Rightarrow> string" where
  "awgConfig e =
     (let ps = ep_params e in
      ''[Interface]'' @ newline @
      conf_line ''PrivateKey'' (confLine (awg_key (str_param ps ''private_key''))) @
      conf_opt ''Address'' (LocalAddr ps) @
      conf_opt ''MTU'' (mtuStr e) @
      concat (map (junk_line ps) awgOrder) @
      newline @ ''[Peer]'' @ newline @
      conf_line ''PublicKey'' (confLine (awg_key (str_param ps ''peer_public_key''))) @
      conf_opt ''PresharedKey'' (confLine (awg_key (str_param ps ''pre_shared_key''))) @
      conf_line ''Endpoint'' (ep_server e @ '':'' @ itoa (ep_port e)) @
      conf_line ''AllowedIPs'' ''0.0.0.0/0'' @
      conf_line ''PersistentKeepalive'' (awgKeepalive e))"

definition yaml_escape :: "char \<Rightarrow> string" where
  "yaml_escape c =
     (if c = CHR 0x5C then [CHR 0x5C, CHR 0x5C] else if c = CHR 0x22 then [CHR 0x5C, CHR 0x22]
      else if c = CHR 0x0A then [CHR 0x5C, CHR ''n''] else if c = CHR 0x0D then [CHR 0x5C, CHR ''r'']
      else if c = CHR 0x09 then [CHR 0x5C, CHR ''t''] else [c])"

definition yamlDQ :: "string \<Rightarrow> string" where
  "yamlDQ s = [CHR 0x22] @ concat (map yaml_escape s) @ [CHR 0x22]"

definition olcConfig :: "endpoint \<Rightarrow> int \<Rightarrow> string" where
  "olcConfig e socksPort =
     (let ps = ep_params e;
          transport = (if str_param ps ''transport'' = [] then ''datachannel'' else str_param ps ''transport'');
          dns = (if str_param ps ''dns'' = [] then ''8.8.8.8:53'' else str_param ps ''dns'');
          port = (if socksPort \<le> 0 then 8808 else socksPort)
      in concat (map (\<lambda>l. l @ newline)
           [''mode: cnc'', ''auth:'', ''  provider: '' @ yamlDQ (str_param ps ''provider''),
            ''room:'', ''  id: '' @ yamlDQ (str_param ps ''room''),
            ''crypto:'', ''  key: '' @ yamlDQ (str_param ps ''key''),
            ''net:'', ''  transport: '' @ yamlDQ transport, ''  dns: '' @ yamlDQ dns,
            ''socks:'', ''  host: '' @ yamlDQ ''127.0.0.1'', ''  port: '' @ itoa port, ''data: data'']))"

definition nfqwsSafe :: "string \<Rightarrow> bool" where
  "nfqwsSafe v =
     (v \<noteq> [] \<and> list_all (\<lambda>c. in_range (CHR ''a'') (CHR ''z'') c \<or> in_range (CHR ''A'') (CHR ''Z'') c \<or> is_digit c \<or>
        c = CHR '','' \<or> c = CHR ''_'' \<or> c = CHR ''+'' \<or> c = CHR ''.'' \<or> c = CHR ''-'') v)"

definition intParam :: "params \<Rightarrow> string \<Rightarrow> int option" where
  "intParam ps k =
     (case ps k of Some (PNum x) \<Rightarrow> Some (trunc x) | Some (PStr s) \<Rightarrow> atoi (trim_space s) | _ \<Rightarrow> None)"

definition safe_arg :: "string \<Rightarrow> string \<Rightarrow> string list" where
  "safe_arg flag v = (if nfqwsSafe v then [flag @ v] else [])"

definition nfqwsArgs :: "endpoint \<Rightarrow> string list" where
  "nfqwsArgs e =
     (let ps = ep_params e;
          q = (case intParam ps ''qnum'' of Some n \<Rightarrow> if n \<ge> 0 \<and> n \<le> 65535 then n else 200 | None \<Rightarrow> 200)
      in [''--qnum='' @ itoa q] @
         safe_arg ''--dpi-desync='' (str_param ps ''dpi_desync'') @
         safe_arg ''--dpi-desync-fooling='' (str_param ps ''dpi_desync_fooling'') @
         (case intParam ps ''dpi_desync_ttl'' of
            Some n \<Rightarrow> if n > 0 \<and> n \<le> 255 then [''--dpi-desync-ttl='' @ itoa n] else []
          | None \<Rightarrow> []) @
         safe_arg ''--dpi-desync-split-pos='' (str_param ps ''dpi_desync_split_pos''))"

text \<open>The configuration text and the file name, when the engine has one.\<close>

definition NativeConfig :: "endpoint \<Rightarrow> int \<Rightarrow> (string \<times> string) option" where
  "NativeConfig e socksPort =
     (if ep_engine e = EngineAmneziaWG then Some (awgConfig e, ep_id e @ ''.conf'')
      else if ep_engine e = EngineOlcRTC then Some (olcConfig e socksPort, ep_id e @ ''.yaml'')
      else if ep_engine e = EngineNfqws then Some (join_with '' '' (nfqwsArgs e), ep_id e @ ''.nfqws'')
      else None)"

definition ip_layer :: "string \<Rightarrow> bool" where
  "ip_layer l =
     (let k = to_lower (trim_space l) in has_prefix k ''address'' \<or> has_prefix k ''dns'' \<or> has_prefix k ''mtu'')"

definition awgStrip :: "string \<Rightarrow> string" where
  "awgStrip conf = concat (map (\<lambda>l. l @ newline) (filter (\<lambda>l. \<not> ip_layer l) (split_on (CHR 0x0A) conf)))"

subsection \<open>The host\<close>

record iface_state =
  if_conf :: string
  if_addrs :: "string list"
  if_mtu :: string
  if_up :: bool

record host =
  h_files :: "string \<rightharpoonup> string"
  h_ifaces :: "string \<rightharpoonup> iface_state"
  h_procs :: "nat set"
  h_next :: nat

text \<open>The answers of the operating system: which binaries resolve, what a file write leaves when it fails, and which
  commands succeed.\<close>

datatype write_result = WriteOk | WriteLeft "string option"

record plug_env =
  en_bin :: "string \<Rightarrow> bool"
  en_write :: "string \<Rightarrow> write_result"
  en_remove :: "string \<Rightarrow> bool"
  en_spawn :: "string \<Rightarrow> string list \<Rightarrow> bool"
  en_del :: "string \<Rightarrow> bool"
  en_add :: "string \<Rightarrow> bool"
  en_setconf :: "string \<Rightarrow> string \<Rightarrow> bool"
  en_addr :: "string \<Rightarrow> string \<Rightarrow> bool"
  en_mtu :: "string \<Rightarrow> string \<Rightarrow> bool"
  en_up :: "string \<Rightarrow> bool"

definition write_file :: "plug_env \<Rightarrow> string \<Rightarrow> string \<Rightarrow> host \<Rightarrow> bool \<times> host" where
  "write_file env path text h =
     (case en_write env path of
        WriteOk \<Rightarrow> (True, h\<lparr>h_files := (h_files h)(path \<mapsto> text)\<rparr>)
      | WriteLeft None \<Rightarrow> (False, h)
      | WriteLeft (Some part) \<Rightarrow> (False, h\<lparr>h_files := (h_files h)(path \<mapsto> part)\<rparr>))"

definition delete_file :: "plug_env \<Rightarrow> string \<Rightarrow> host \<Rightarrow> host" where
  "delete_file env path h = (if en_remove env path then h\<lparr>h_files := (h_files h)(path := None)\<rparr> else h)"

definition link_del :: "plug_env \<Rightarrow> string \<Rightarrow> host \<Rightarrow> host" where
  "link_del env i h = (if en_del env i then h\<lparr>h_ifaces := (h_ifaces h)(i := None)\<rparr> else h)"

definition set_iface :: "string \<Rightarrow> iface_state \<Rightarrow> host \<Rightarrow> host" where
  "set_iface i st h = h\<lparr>h_ifaces := (h_ifaces h)(i \<mapsto> st)\<rparr>"

text \<open>\<^verbatim>\<open>filepath.Join\<close> of two elements, with the lexical cleaning of \<^verbatim>\<open>filepath.Clean\<close>; the components kept so far
  are in reverse.\<close>

fun clean_parts :: "bool \<Rightarrow> string list \<Rightarrow> string list \<Rightarrow> string list" where
  "clean_parts rooted acc [] = rev acc"
| "clean_parts rooted acc (c # cs) =
     (if c = [] \<or> c = ''.'' then clean_parts rooted acc cs
      else if c = ''..'' then
        (case acc of
           [] \<Rightarrow> clean_parts rooted (if rooted then [] else [''..'']) cs
         | a # as \<Rightarrow> if a = ''..'' then clean_parts rooted (''..'' # acc) cs else clean_parts rooted as cs)
      else clean_parts rooted (c # acc) cs)"

definition path_clean :: "string \<Rightarrow> string" where
  "path_clean s =
     (if s = [] then ''.''
      else
        (let rooted = (hd s = CHR ''/''); parts = clean_parts rooted [] (split_on (CHR ''/'') s) in
         if rooted then ''/'' @ join_with ''/'' parts
         else if parts = [] then ''.'' else join_with ''/'' parts))"

definition path_join :: "string \<Rightarrow> string \<Rightarrow> string" where
  "path_join a b = (if a = [] \<and> b = [] then [] else if a = [] then path_clean b else path_clean (a @ ''/'' @ b))"

subsection \<open>AmneziaWG interfaces\<close>

datatype plug_err = NeedsBinary string | FileError | LinkAddFailed | SetconfFailed | LinkUpFailed

text \<open>\<^verbatim>\<open>ip link add\<close> fails on a name that exists. Addresses and MTU are applied as far as the commands succeed.\<close>

definition awg_link :: "plug_env \<Rightarrow> endpoint \<Rightarrow> string \<Rightarrow> string \<Rightarrow> host \<Rightarrow> (plug_err, string) res \<times> host" where
  "awg_link env e i conf h0 =
     (let h = link_del env i h0 in
      if \<not> en_add env i \<or> h_ifaces h i \<noteq> None then (Inl LinkAddFailed, h)
      else if \<not> en_setconf env i conf then
        (Inl SetconfFailed, link_del env i (set_iface i \<lparr>if_conf = [], if_addrs = [], if_mtu = [], if_up = False\<rparr> h))
      else
        (let st = \<lparr>if_conf = conf, if_addrs = filter (en_addr env i) (LocalAddrs (ep_params e)),
                   if_mtu = (if en_mtu env i (awgMTU e) then awgMTU e else []), if_up = False\<rparr>
         in if \<not> en_up env i then (Inl LinkUpFailed, link_del env i (set_iface i st h))
            else (Inr i, set_iface i (st\<lparr>if_up := True\<rparr>) h)))"

definition awgUp :: "plug_env \<Rightarrow> string \<Rightarrow> endpoint \<Rightarrow> string \<Rightarrow> host \<Rightarrow> (plug_err, string) res \<times> host" where
  "awgUp env dir e cfgText h =
     (if \<not> en_bin env ''ip'' then (Inl (NeedsBinary ''ip''), h)
      else if \<not> en_bin env ''awg'' then (Inl (NeedsBinary ''awg''), h)
      else
        (let i = AWGIface (ep_id e); sf = path_join dir (i @ ''.setconf'') in
         case write_file env sf (awgStrip cfgText) h of
           (False, h1) \<Rightarrow> (Inl FileError, h1)
         | (True, h1) \<Rightarrow>
             (case awg_link env e i (awgStrip cfgText) h1 of (r, h2) \<Rightarrow> (r, delete_file env sf h2))))"

subsection \<open>Processes\<close>

datatype reason =
    NoReason | NoNativeConfig | ConfigNotWritten | StartFailed string | AwgUpFailed plug_err
  | CrashLooping string int | RestartFailed string

record proc =
  pr_engine :: engine
  pr_socks :: int
  pr_config :: string
  pr_cfgPath :: string
  pr_iface :: string
  pr_binName :: string
  pr_runArgs :: "string list"
  pr_cmd :: "nat option"
  pr_running :: bool
  pr_needsBin :: bool
  pr_reason :: reason
  pr_managed :: bool
  pr_restarts :: int
  pr_cooldown :: int

record spec =
  sp_id :: string
  sp_endpoint :: endpoint
  sp_socks :: int

record plug_manager =
  mg_dir :: string
  mg_procs :: "string \<rightharpoonup> proc"
  mg_specs :: "spec list"

definition new_manager :: "string \<Rightarrow> plug_manager" where
  "new_manager dir = \<lparr>mg_dir = dir, mg_procs = Map.empty, mg_specs = []\<rparr>"

definition launchProc :: "plug_env \<Rightarrow> string \<Rightarrow> proc \<Rightarrow> host \<Rightarrow> bool \<times> proc \<times> host" where
  "launchProc env bin p h =
     (if en_spawn env bin (pr_runArgs p)
      then (True, p\<lparr>pr_cmd := Some (h_next h), pr_running := True, pr_managed := True\<rparr>,
            h\<lparr>h_procs := insert (h_next h) (h_procs h), h_next := Suc (h_next h)\<rparr>)
      else (False, p, h))"

definition launch_engine :: "plug_env \<Rightarrow> string \<Rightarrow> string list \<Rightarrow> proc \<Rightarrow> host \<Rightarrow> proc \<times> host" where
  "launch_engine env bin args p h =
     (if \<not> en_bin env bin then (p\<lparr>pr_needsBin := True\<rparr>, h)
      else
        (case launchProc env bin (p\<lparr>pr_binName := bin, pr_runArgs := args\<rparr>) h of
           (True, p1, h1) \<Rightarrow> (p1, h1)
         | (False, p1, h1) \<Rightarrow> (p1\<lparr>pr_reason := StartFailed bin\<rparr>, h1)))"

definition fresh_proc :: "spec \<Rightarrow> string \<Rightarrow> proc" where
  "fresh_proc s cfg =
     \<lparr>pr_engine = ep_engine (sp_endpoint s), pr_socks = sp_socks s, pr_config = cfg, pr_cfgPath = [], pr_iface = [],
      pr_binName = [], pr_runArgs = [], pr_cmd = None, pr_running = False, pr_needsBin = False, pr_reason = NoReason,
      pr_managed = False, pr_restarts = 0, pr_cooldown = 0\<rparr>"

definition start_engine :: "plug_env \<Rightarrow> string \<Rightarrow> endpoint \<Rightarrow> proc \<Rightarrow> host \<Rightarrow> proc \<times> host" where
  "start_engine env dir e p h =
     (if ep_engine e = EngineOlcRTC then launch_engine env ''olcrtc'' [''-config'', pr_cfgPath p] p h
      else if ep_engine e = EngineNfqws then launch_engine env ''nfqws2'' (nfqwsArgs e) p h
      else if ep_engine e = EngineAmneziaWG then
        (case awgUp env dir e (pr_config p) h of
           (Inl err, h1) \<Rightarrow>
             (p\<lparr>pr_reason := AwgUpFailed err, pr_needsBin := (case err of NeedsBinary _ \<Rightarrow> True | _ \<Rightarrow> False)\<rparr>, h1)
         | (Inr i, h1) \<Rightarrow> (p\<lparr>pr_iface := i, pr_running := True\<rparr>, h1))
      else (p, h))"

definition start :: "plug_env \<Rightarrow> string \<Rightarrow> spec \<Rightarrow> host \<Rightarrow> proc \<times> host" where
  "start env dir s h =
     (case NativeConfig (sp_endpoint s) (sp_socks s) of
        None \<Rightarrow> ((fresh_proc s [])\<lparr>pr_reason := NoNativeConfig\<rparr>, h)
      | Some (cfg, fname) \<Rightarrow>
          (let p = (fresh_proc s cfg)\<lparr>pr_cfgPath := path_join dir fname\<rparr> in
           case write_file env (path_join dir fname) cfg h of
             (False, h1) \<Rightarrow> (p\<lparr>pr_reason := ConfigNotWritten\<rparr>, h1)
           | (True, h1) \<Rightarrow> start_engine env dir (sp_endpoint s) p h1))"

text \<open>\<^verbatim>\<open>stop\<close> kills the process and waits for it, deletes the interface and removes the configuration, which holds
  secrets.\<close>

definition stop :: "plug_env \<Rightarrow> proc \<Rightarrow> host \<Rightarrow> host" where
  "stop env p h =
     (let h1 = (case pr_cmd p of Some pid \<Rightarrow> h\<lparr>h_procs := h_procs h - {pid}\<rparr> | None \<Rightarrow> h);
          h2 = (if pr_engine p = EngineAmneziaWG \<and> pr_running p \<and> pr_iface p \<noteq> [] \<and> en_bin env ''ip''
                then link_del env (pr_iface p) h1 else h1)
      in if pr_cfgPath p \<noteq> [] then delete_file env (pr_cfgPath p) h2 else h2)"

subsection \<open>Reconciliation\<close>

text \<open>Go visits maps in an arbitrary order, so the orders of stopping and starting are arguments.\<close>

definition desired_of :: "spec list \<Rightarrow> string \<rightharpoonup> spec" where
  "desired_of specs = map_of (rev (map (\<lambda>s. (sp_id s, s)) specs))"

definition keeps :: "spec \<Rightarrow> proc \<Rightarrow> bool" where
  "keeps s p =
     ((case NativeConfig (sp_endpoint s) (sp_socks s) of Some (cfg, _) \<Rightarrow> cfg = pr_config p | None \<Rightarrow> True) \<and> pr_running p)"

definition sync_stop :: "plug_env \<Rightarrow> (string \<rightharpoonup> spec) \<Rightarrow> string \<Rightarrow> plug_manager \<times> host \<Rightarrow> plug_manager \<times> host" where
  "sync_stop env desired i st =
     (case st of (m, h) \<Rightarrow>
        (case mg_procs m i of
           None \<Rightarrow> st
         | Some p \<Rightarrow>
             if (case desired i of Some s \<Rightarrow> keeps s p | None \<Rightarrow> False)
             then (m\<lparr>mg_procs := (mg_procs m)(i \<mapsto> p\<lparr>pr_restarts := 0, pr_cooldown := 0\<rparr>)\<rparr>, h)
             else (m\<lparr>mg_procs := (mg_procs m)(i := None)\<rparr>, stop env p h)))"

definition sync_start :: "plug_env \<Rightarrow> (string \<rightharpoonup> spec) \<Rightarrow> string \<Rightarrow> plug_manager \<times> host \<Rightarrow> plug_manager \<times> host" where
  "sync_start env desired i st =
     (case st of (m, h) \<Rightarrow>
        (case desired i of
           None \<Rightarrow> st
         | Some s \<Rightarrow>
             if mg_procs m i \<noteq> None then st
             else (case start env (mg_dir m) s h of (p, h1) \<Rightarrow> (m\<lparr>mg_procs := (mg_procs m)(i \<mapsto> p)\<rparr>, h1))))"

definition Sync :: "plug_env \<Rightarrow> string list \<Rightarrow> string list \<Rightarrow> spec list \<Rightarrow> plug_manager \<times> host \<Rightarrow> plug_manager \<times> host" where
  "Sync env stops starts specs st =
     (case st of (m, h) \<Rightarrow>
        fold (sync_start env (desired_of specs)) starts
          (fold (sync_stop env (desired_of specs)) stops (m\<lparr>mg_specs := specs\<rparr>, h)))"

definition Specs :: "plug_manager \<Rightarrow> spec list" where
  "Specs m = mg_specs m"

definition StopAll :: "plug_env \<Rightarrow> string list \<Rightarrow> plug_manager \<times> host \<Rightarrow> plug_manager \<times> host" where
  "StopAll env stops st =
     (case st of (m, h) \<Rightarrow>
        (m\<lparr>mg_procs := Map.empty\<rparr>, fold (\<lambda>i h. case mg_procs m i of Some p \<Rightarrow> stop env p h | None \<Rightarrow> h) stops h))"

subsection \<open>Supervision\<close>

definition procDied :: "proc \<Rightarrow> host \<Rightarrow> bool" where
  "procDied p h = (case pr_cmd p of None \<Rightarrow> False | Some pid \<Rightarrow> pid \<notin> h_procs h)"

definition pluginBackoffTicks :: "int \<Rightarrow> int" where
  "pluginBackoffTicks restarts =
     (if restarts \<le> 3 then 0
      else (let shift = restarts - 3 - 1 in
            if shift \<ge> 31 then 20 else if 2 ^ nat shift < (20 :: int) then 2 ^ nat shift else 20))"

definition relaunchProc :: "plug_env \<Rightarrow> proc \<Rightarrow> host \<Rightarrow> proc \<times> host" where
  "relaunchProc env p h =
     (if \<not> en_bin env (pr_binName p) then (p\<lparr>pr_needsBin := True, pr_managed := False\<rparr>, h)
      else
        (let p1 = p\<lparr>pr_restarts := pr_restarts p + 1, pr_cooldown := pluginBackoffTicks (pr_restarts p + 1)\<rparr> in
         case launchProc env (pr_binName p) p1 h of
           (False, p2, h1) \<Rightarrow> (p2\<lparr>pr_reason := RestartFailed (pr_binName p)\<rparr>, h1)
         | (True, p2, h1) \<Rightarrow> (p2\<lparr>pr_reason := NoReason\<rparr>, h1)))"

definition supervise_proc :: "plug_env \<Rightarrow> proc \<Rightarrow> host \<Rightarrow> proc \<times> host" where
  "supervise_proc env p h =
     (if \<not> pr_managed p then (p, h)
      else if pr_running p \<and> \<not> procDied p h then (p\<lparr>pr_restarts := 0, pr_cooldown := 0\<rparr>, h)
      else
        (let p1 = (if pr_running p then p\<lparr>pr_running := False, pr_cmd := None\<rparr> else p) in
         if pr_cooldown p1 > 0
         then (p1\<lparr>pr_cooldown := pr_cooldown p1 - 1, pr_reason := CrashLooping (pr_binName p1) (pr_restarts p1)\<rparr>, h)
         else relaunchProc env p1 h))"

definition supervise_one :: "plug_env \<Rightarrow> string \<Rightarrow> plug_manager \<times> host \<Rightarrow> plug_manager \<times> host" where
  "supervise_one env i st =
     (case st of (m, h) \<Rightarrow>
        (case mg_procs m i of
           None \<Rightarrow> st
         | Some p \<Rightarrow> (case supervise_proc env p h of (p1, h1) \<Rightarrow> (m\<lparr>mg_procs := (mg_procs m)(i \<mapsto> p1)\<rparr>, h1))))"

text \<open>A tick that finds the lock taken does nothing.\<close>

definition Supervise :: "plug_env \<Rightarrow> bool \<Rightarrow> string list \<Rightarrow> plug_manager \<times> host \<Rightarrow> plug_manager \<times> host" where
  "Supervise env locked order st = (if locked then st else fold (supervise_one env) order st)"

end
