(* ===== verification/Server_Apply.thy ===== *)
theory Server_Apply
  imports Pbr_Server Plugin Core Failsafe
begin

text \<open>
  The Apply of \<^verbatim>\<open>internal/server/profile.go\<close> (\<^verbatim>\<open>handleApply\<close>, \<^verbatim>\<open>SyncPlugins\<close>) and the rollback of \<^verbatim>\<open>server/failsafe.go\<close>: the operation that
  drives every other component. One profile becomes a configuration file, a running core, running engines, a kernel
  plan and an armed fail-safe window. Both hold \<^verbatim>\<open>applyMu\<close> from beginning to end, so each is one function on the
  state of the server; the answers of the file system, of the processes and of the commands are arguments.
\<close>

subsection \<open>The server\<close>

text \<open>A configuration file holds a document, or nothing. The flag is what the closures of the current window captured.\<close>

record 'w server =
  sv_profile :: profile
  sv_fs :: "jobj option fs"
  sv_core :: core
  sv_pbr :: "'w pbr_state"
  sv_plug :: "plug_manager \<times> host"
  sv_plugin_baseline :: "spec list"
  sv_failsafe :: manager
  sv_window_native :: bool

text \<open>Whether the read of a copy fails, and how its write goes.\<close>

type_synonym copy_env = "bool \<times> jobj option faults"

datatype rb_err = RbCopy cp_err | RbCore core_err

record core_env =
  ce_stop :: stop_outcome
  ce_spawn :: spawn

record apply_env =
  ae_save :: bool
  ae_now :: int
  ae_probed :: "string list"
  ae_auto_reboot :: bool
  ae_available :: bool
  ae_mkdir_fails :: bool
  ae_write :: "jobj option faults"
  ae_check :: bool
  ae_backup :: copy_env
  ae_core :: core_env
  ae_plug :: plug_env
  ae_stops :: "string list"
  ae_starts :: "string list"
  ae_restore :: copy_env
  ae_core2 :: core_env
  ae_commit :: copy_env
  ae_err_text :: "rb_err \<Rightarrow> string"
datatype refusal = BadProfile gen_err | IoFailed | CheckRejected

record 'e outcome =
  ap_saved :: bool
  ap_checked :: bool
  ap_reloaded :: bool
  ap_backup_err :: "cp_err option"
  ap_core_err :: "core_err option"
  ap_commit_err :: "cp_err option"
  ap_pbr_err :: "'e apply_err option"
  ap_warning :: nat

datatype 'e response = Refused refusal | Aborted "'e apply_err" "cp_err option" | Done "'e outcome"

subsection \<open>Phases\<close>

record progress =
  ph_checked :: bool
  ph_reloaded :: bool
  ph_backup_err :: "cp_err option"
  ph_core_err :: "core_err option"

definition bring_up :: "bool \<Rightarrow> core_env \<Rightarrow> int \<Rightarrow> core \<Rightarrow> (bool \<times> core_err option) \<times> core" where
  "bring_up available ce now c =
     (if Running c then (case Reload (ce_stop ce) now (ce_spawn ce) c of (e, c1) \<Rightarrow> ((e = None, e), c1))
      else if available then (case Start now (ce_spawn ce) c of (e, c1) \<Rightarrow> ((e = None, e), c1))
      else ((False, None), c))"

text \<open>The rollback target is taken only when no window is open.\<close>

definition snapshot_baselines :: "apply_env \<Rightarrow> path \<Rightarrow> 'w server \<Rightarrow> cp_err option \<times> 'w server" where
  "snapshot_baselines env config s =
     (if pending (sv_failsafe s) then (None, s)
      else (case Backup None (fst (ae_backup env)) (snd (ae_backup env)) config (sv_fs s) of (f, e) \<Rightarrow>
        (e, s\<lparr>sv_fs := f, sv_pbr := snapshotPBRBaseline (sv_pbr s), sv_plugin_baseline := Specs (fst (sv_plug s))\<rparr>)))"

definition core_phase :: "apply_env \<Rightarrow> path \<Rightarrow> jobj \<Rightarrow> 'w server \<Rightarrow> (refusal, progress) res \<times> 'w server" where
  "core_phase env config cfg s =
     (if ae_mkdir_fails env then (Inl IoFailed, s)
      else
        (let tmp = config @ ''.tmp'' in
         case WriteSynced None (ae_write env) tmp (Some cfg) (sv_fs s) of
           (tr, Some _) \<Rightarrow> (Inl IoFailed, s\<lparr>sv_fs := last tr\<rparr>)
         | (tr, None) \<Rightarrow>
             (let s1 = s\<lparr>sv_fs := last tr\<rparr> in
              if ae_available env \<and> \<not> ae_check env then (Inl CheckRejected, s1\<lparr>sv_fs := remove_file tmp (sv_fs s1)\<rparr>)
              else
                (case snapshot_baselines env config s1 of (berr, s2) \<Rightarrow>
                   if rename_fails (ae_write env) then (Inl IoFailed, s2)
                   else
                     (case bring_up (ae_available env) (ae_core env) (ae_now env) (sv_core s2) of ((up, cerr), c) \<Rightarrow>
                        (Inr \<lparr>ph_checked = ae_available env, ph_reloaded = up, ph_backup_err = berr, ph_core_err = cerr\<rparr>,
                         s2\<lparr>sv_fs := SyncDir (ae_write env) (rename_file tmp config (sv_fs s2)), sv_core := c\<rparr>))))))"

definition native_phase :: "apply_env \<Rightarrow> path \<Rightarrow> 'w server \<Rightarrow> (refusal, progress) res \<times> 'w server" where
  "native_phase env config s =
     (case snapshot_baselines env config s of (berr, s1) \<Rightarrow>
        (Inr \<lparr>ph_checked = False, ph_reloaded = False, ph_backup_err = berr, ph_core_err = None\<rparr>, s1))"

definition spec_of :: "plugin \<Rightarrow> spec" where
  "spec_of pl = \<lparr>sp_id = ep_id (pg_endpoint pl), sp_endpoint = pg_endpoint pl, sp_socks = pg_socks_port pl\<rparr>"

definition syncPluginsFor :: "apply_env \<Rightarrow> plugin list \<Rightarrow> 'w server \<Rightarrow> 'w server" where
  "syncPluginsFor env pls s =
     s\<lparr>sv_plug := Sync (ae_plug env) (ae_stops env) (ae_starts env) (map spec_of pls) (sv_plug s)\<rparr>"

text \<open>An unsaved Apply whose kernel plan cannot be installed goes back.\<close>

definition abort_apply :: "('e, 'w) runner \<Rightarrow> apply_env \<Rightarrow> path \<Rightarrow> 'e apply_err \<Rightarrow> 'w server \<Rightarrow> 'e response \<times> 'w server" where
  "abort_apply run env config err s =
     (case Restore None (fst (ae_restore env)) (snd (ae_restore env)) config (sv_fs s) of (f, rerr) \<Rightarrow>
        (let c = sv_core s;
             c1 = (if rerr = None then snd (bring_up (ae_available env) (ae_core2 env) (ae_now env) c)
                   else if Running c then snd (Stop (ce_stop (ae_core2 env)) c) else c)
         in (Aborted err rerr, s\<lparr>sv_fs := f, sv_core := c1, sv_pbr := restorePBRBaseline run (sv_pbr s)\<rparr>)))"

definition stop_native :: "apply_env \<Rightarrow> bool \<Rightarrow> core_err option \<Rightarrow> core \<Rightarrow> core_err option \<times> core" where
  "stop_native env stopping cerr c =
     (if stopping then (case Stop (ce_stop (ae_core2 env)) c of (e, c1) \<Rightarrow> (case e of Some _ \<Rightarrow> (e, c1) | None \<Rightarrow> (cerr, c1)))
      else (cerr, c))"

definition finish_apply :: "apply_env \<Rightarrow> config \<Rightarrow> path \<Rightarrow> bool \<Rightarrow> progress \<Rightarrow> 'e apply_err option \<Rightarrow> 'w server \<Rightarrow> 'e response \<times> 'w server" where
  "finish_apply env c config nativeOnly ph perr s =
     (case stop_native env (nativeOnly \<and> perr = None) (ph_core_err ph) (sv_core s) of (cerr, c1) \<Rightarrow>
        (let s1 = s\<lparr>sv_core := c1\<rparr>;
             done = (\<lambda>commit. Done \<lparr>ap_saved = ae_save env, ap_checked = ph_checked ph, ap_reloaded = ph_reloaded ph,
               ap_backup_err = ph_backup_err ph, ap_core_err = cerr, ap_commit_err = commit, ap_pbr_err = perr,
               ap_warning = fastModeDomainWarning (sv_profile s) (routingMode c)\<rparr>)
         in if ae_save env then
              (case Commit None (fst (ae_commit env)) (snd (ae_commit env)) config (sv_fs s1) of (f, e) \<Rightarrow>
                 (done e, s1\<lparr>sv_fs := f, sv_failsafe := Confirm (sv_failsafe s1)\<rparr>))
            else
              (done None, s1\<lparr>sv_failsafe := snd (Arm (ae_now env) True True (\<not> cf_demo c \<and> ae_auto_reboot env) (sv_failsafe s1)),
                             sv_window_native := nativeOnly\<rparr>)))"

definition handleApply :: "('e, 'w) runner \<Rightarrow> apply_env \<Rightarrow> config \<Rightarrow> path \<Rightarrow> 'w server \<Rightarrow> 'e response \<times> 'w server" where
  "handleApply run env c config s =
     (let p = sv_profile s; nativeOnly = DatapathNativeOnly p (routingMode c) in
      case genOptionsWithPlan (ae_probed env) p c of (opts, newPlan) \<Rightarrow>
        (case Generate p opts of
           Inl err \<Rightarrow> (Refused (BadProfile err), s)
         | Inr (cfg, plugins) \<Rightarrow>
             (case (if nativeOnly then native_phase env config s else core_phase env config cfg s) of
                (Inl r, s1) \<Rightarrow> (Refused r, s1)
              | (Inr ph, s1) \<Rightarrow>
                  (let s2 = syncPluginsFor env plugins s1 in
                   case (if cf_demo c then (None, sv_pbr s2) else applyPBR run newPlan (sv_pbr s2)) of (perr, pb) \<Rightarrow>
                     (let s3 = s2\<lparr>sv_pbr := pb\<rparr> in
                      case perr of
                        Some err \<Rightarrow> if \<not> ae_save env then abort_apply run env config err s3 else finish_apply env c config nativeOnly ph perr s3
                      | None \<Rightarrow> finish_apply env c config nativeOnly ph perr s3)))))"

subsection \<open>Rolling back\<close>

text \<open>The part of the closure that concerns the core: a native window keeps it down, any other restores its
  configuration and restarts it.\<close>

definition rollback_core :: "apply_env \<Rightarrow> path \<Rightarrow> 'w server \<Rightarrow> rb_err option \<times> 'w server" where
  "rollback_core env config s =
     (if sv_window_native s then
        (if Running (sv_core s) then
           (case Stop (ce_stop (ae_core2 env)) (sv_core s) of (e, c) \<Rightarrow> (map_option RbCore e, s\<lparr>sv_core := c\<rparr>))
         else (None, s))
      else
        (case Restore None (fst (ae_restore env)) (snd (ae_restore env)) config (sv_fs s) of
           (f, Some e) \<Rightarrow> (Some (RbCopy e), s\<lparr>sv_fs := f\<rparr>)
         | (f, None) \<Rightarrow>
             (case bring_up (ae_available env) (ae_core2 env) (ae_now env) (sv_core s) of ((_, e), c) \<Rightarrow>
                (map_option RbCore e, s\<lparr>sv_fs := f, sv_core := c\<rparr>))))"

definition restorePluginBaseline :: "apply_env \<Rightarrow> 'w server \<Rightarrow> 'w server" where
  "restorePluginBaseline env s =
     s\<lparr>sv_plug := Sync (ae_plug env) (ae_stops env) (ae_starts env) (sv_plugin_baseline s) (sv_plug s)\<rparr>"

definition roll_back :: "('e, 'w) runner \<Rightarrow> apply_env \<Rightarrow> path \<Rightarrow> nat \<Rightarrow> 'w server \<Rightarrow> rb_err option \<times> 'w server" where
  "roll_back run env config e s =
     (if \<not> IsCurrent e (sv_failsafe s) then (None, s)
      else
        (case rollback_core env config s of (err, s1) \<Rightarrow>
           (err, restorePluginBaseline env (s1\<lparr>sv_pbr := restorePBRBaseline run (sv_pbr s1)\<rparr>))))"

definition handleApplyConfirm :: "apply_env \<Rightarrow> path \<Rightarrow> 'w server \<Rightarrow> 'w server" where
  "handleApplyConfirm env config s =
     s\<lparr>sv_fs := fst (Commit None (fst (ae_commit env)) (snd (ae_commit env)) config (sv_fs s)),
       sv_failsafe := Confirm (sv_failsafe s)\<rparr>"

text \<open>The manual rollback: claim the window, then run its closure if there is one to run, and note its failure.\<close>

definition handleApplyRollback :: "('e, 'w) runner \<Rightarrow> apply_env \<Rightarrow> path \<Rightarrow> 'w server \<Rightarrow> rb_err option \<times> 'w server" where
  "handleApplyRollback run env config s =
     (case RollbackNow (sv_failsafe s) of (rb, m) \<Rightarrow>
        (let s1 = s\<lparr>sv_failsafe := m\<rparr> in
         case rb of
           None \<Rightarrow> (None, s1)
         | Some e \<Rightarrow>
             (case roll_back run env config e s1 of
                (None, s2) \<Rightarrow> (None, s2)
              | (Some err, s2) \<Rightarrow>
                  (Some err, s2\<lparr>sv_failsafe := markRollbackFailed (Some (ae_err_text env err)) (sv_failsafe s2)\<rparr>))))"

subsection \<open>Boot\<close>

definition stale_plan :: plan where
  "stale_plan = \<lparr>pl_table = ''velinx_pbr'', pl_mask = 0, pl_egresses = [], pl_zones = [], pl_bypass_v4 = [], pl_bypass_v6 = [],
     pl_flowtable = None, pl_masq = []\<rparr>"

definition SyncPlugins :: "('e, 'w) runner \<Rightarrow> apply_env \<Rightarrow> config \<Rightarrow> 'w server \<Rightarrow> 'w server" where
  "SyncPlugins run env c s =
     (if cf_demo c then s
      else
        (let p = sv_profile s in
         case genOptionsWithPlan (ae_probed env) p c of (opts, newPlan) \<Rightarrow>
           (case Generate p opts of
              Inl _ \<Rightarrow> s
            | Inr (cfg, plugins) \<Rightarrow>
                (let s1 = syncPluginsFor env plugins s in
                 case newPlan of
                   None \<Rightarrow> s1\<lparr>sv_pbr := (sv_pbr s1)\<lparr>ps_world := Teardown run stale_plan no_options (ps_world (sv_pbr s1))\<rparr>\<rparr>
                 | Some pl \<Rightarrow>
                     (case applyPBR run (Some pl) (sv_pbr s1) of (perr, pb) \<Rightarrow>
                        s1\<lparr>sv_pbr := pb,
                           sv_core := (if perr = None \<and> DatapathNativeOnly p (routingMode c)
                                       then snd (Stop (ce_stop (ae_core2 env)) (sv_core s1)) else sv_core s1)\<rparr>)))))"

end
