(* ===== verification/Plugin_Spec.thy ===== *)
theory Plugin_Spec
  imports Plugin Validate_Spec
begin

text \<open>
  The plugin manager keeps its books: after any history of reconciliations, supervision ticks, shutdowns and process
  exits every engine process on the host belongs to one plugin, every AmneziaWG plugin that says it runs has its
  interface up with its configuration, and while interfaces can be deleted none is left without its plugin. A
  reconciliation leaves exactly the wanted plugins, and a supervision tick brings dead ones back. The
  configuration texts are not as closed as their comments promise.
\<close>

subsection \<open>The invariant\<close>

definition iface_ready :: "host \<Rightarrow> string \<Rightarrow> string \<Rightarrow> bool" where
  "iface_ready h n cfg = (case h_ifaces h n of Some st \<Rightarrow> if_up st \<and> if_conf st = awgStrip cfg | None \<Rightarrow> False)"

text \<open>The configuration of an AmneziaWG plugin, and of no other, opens with a bracket.\<close>

definition proc_ok :: "host \<Rightarrow> string \<Rightarrow> proc \<Rightarrow> bool" where
  "proc_ok h i p =
     ((pr_engine p = EngineAmneziaWG \<longleftrightarrow> has_prefix (pr_config p) ''['') \<and>
      (if pr_engine p = EngineAmneziaWG
      then pr_cmd p = None \<and> \<not> pr_managed p \<and>
        (pr_running p \<longrightarrow> pr_iface p = AWGIface i \<and> iface_ready h (AWGIface i) (pr_config p))
      else (pr_cmd p \<noteq> None \<longleftrightarrow> pr_running p) \<and> (pr_running p \<longrightarrow> pr_managed p)))"

definition owns :: "plug_manager \<Rightarrow> string \<Rightarrow> nat \<Rightarrow> bool" where
  "owns m i pid = (case mg_procs m i of Some p \<Rightarrow> pr_cmd p = Some pid | None \<Rightarrow> False)"

definition plug_ok :: "plug_manager \<Rightarrow> host \<Rightarrow> bool" where
  "plug_ok m h =
     ((\<forall>pid \<in> h_procs h. \<exists>i. owns m i pid) \<and> (\<forall>i pid. owns m i pid \<longrightarrow> pid < h_next h) \<and>
      (\<forall>i j pid. owns m i pid \<longrightarrow> owns m j pid \<longrightarrow> i = j) \<and>
      (\<forall>i p. mg_procs m i = Some p \<longrightarrow> proc_ok h i p))"

text \<open>What starting, stopping or supervising one plugin may change.\<close>

definition only_iface :: "string \<Rightarrow> host \<Rightarrow> host \<Rightarrow> bool" where
  "only_iface i h h' = (\<forall>n. n \<noteq> AWGIface i \<longrightarrow> h_ifaces h' n = h_ifaces h n)"

definition spawned :: "nat option \<Rightarrow> host \<Rightarrow> host \<Rightarrow> bool" where
  "spawned c h h' =
     (case c of
        None \<Rightarrow> h_procs h' = h_procs h \<and> h_next h' = h_next h
      | Some pid \<Rightarrow> pid = h_next h \<and> h_procs h' = insert pid (h_procs h) \<and> h_next h' = Suc pid)"

lemma host_frames [frame_simps, simp]:
  "h_procs (snd (write_file env f t h)) = h_procs h" "h_next (snd (write_file env f t h)) = h_next h"
  "h_ifaces (snd (write_file env f t h)) = h_ifaces h"
  "h_procs (delete_file env f h) = h_procs h" "h_next (delete_file env f h) = h_next h" "h_ifaces (delete_file env f h) = h_ifaces h"
  "h_procs (link_del env n h) = h_procs h" "h_next (link_del env n h) = h_next h"
  "h_procs (set_iface n st h) = h_procs h" "h_next (set_iface n st h) = h_next h"
  by (simp_all add: write_file_def delete_file_def link_del_def set_iface_def split: write_result.splits option.splits)

lemma ifaces_link [simp]:
  "h_ifaces (link_del env n h) k = (if k = n \<and> en_del env n then None else h_ifaces h k)"
  "h_ifaces (set_iface n st h) k = (if k = n then Some st else h_ifaces h k)"
  by (simp_all add: link_del_def set_iface_def)

lemma proc_ok_iface: "h_ifaces h' (AWGIface i) = h_ifaces h (AWGIface i) \<Longrightarrow> proc_ok h' i p = proc_ok h i p"
  by (simp add: proc_ok_def iface_ready_def)

lemma plug_ok_proc: "plug_ok m h \<Longrightarrow> mg_procs m i = Some p \<Longrightarrow> proc_ok h i p"
  by (simp add: plug_ok_def)

lemma plug_okI:
  "(\<And>pid. pid \<in> h_procs h \<Longrightarrow> \<exists>i. owns m i pid) \<Longrightarrow> (\<And>i pid. owns m i pid \<Longrightarrow> pid < h_next h) \<Longrightarrow>
   (\<And>i j pid. owns m i pid \<Longrightarrow> owns m j pid \<Longrightarrow> i = j) \<Longrightarrow> (\<And>i p. mg_procs m i = Some p \<Longrightarrow> proc_ok h i p) \<Longrightarrow> plug_ok m h"
  by (simp add: plug_ok_def)

lemma plug_okD:
  assumes "plug_ok m h"
  shows "pid \<in> h_procs h \<Longrightarrow> \<exists>i. owns m i pid" and "owns m i pid \<Longrightarrow> pid < h_next h"
    and "owns m i pid \<Longrightarrow> owns m j pid \<Longrightarrow> i = j"
  using assms unfolding plug_ok_def by blast+

lemma proc_ok_reset [simp]: "proc_ok h i (p\<lparr>pr_restarts := a, pr_cooldown := b\<rparr>) = proc_ok h i p"
  by (simp add: proc_ok_def)

lemma ifaces_differ: "inj_on AWGIface ids \<Longrightarrow> i \<in> ids \<Longrightarrow> j \<in> ids \<Longrightarrow> j \<noteq> i \<Longrightarrow> AWGIface j \<noteq> AWGIface i"
  by (auto dest: inj_onD)

subsection \<open>Interfaces come up whole or not at all\<close>

lemma awg_link_frames [simp]:
  "h_procs (snd (awg_link env e n conf h)) = h_procs h" "h_next (snd (awg_link env e n conf h)) = h_next h"
  "k \<noteq> n \<Longrightarrow> h_ifaces (snd (awg_link env e n conf h)) k = h_ifaces h k"
  by (simp_all add: awg_link_def Let_def)

lemma awgUp_frames [simp]:
  "h_procs (snd (awgUp env dir e cfg h)) = h_procs h" "h_next (snd (awgUp env dir e cfg h)) = h_next h"
  "k \<noteq> AWGIface (ep_id e) \<Longrightarrow> h_ifaces (snd (awgUp env dir e cfg h)) k = h_ifaces h k"
  by (auto simp: awgUp_def Let_def case_prod_beta split: bool.splits)

lemma awgUp_ready:
  assumes "awgUp env dir e cfg h = (Inr n, h')"
  shows "n = AWGIface (ep_id e) \<and> iface_ready h' n cfg"
  using assms
  by (auto simp: awgUp_def awg_link_def iface_ready_def Let_def split: if_splits prod.splits bool.splits)

text \<open>Bringing an AmneziaWG interface up is all or nothing, as far as interfaces can be deleted: on success it is up
  with the whole cryptographic configuration, with the addresses the kernel accepted and an MTU; after any failure past
  the point where the old interface was removed there is no interface.\<close>

theorem awgUp_all_or_nothing:
  assumes "awgUp env dir e cfg h = (r, h')" and "\<And>n. en_del env n"
  shows "case r of
      Inr n \<Rightarrow> n = AWGIface (ep_id e) \<and> (\<exists>st. h_ifaces h' n = Some st \<and> if_up st \<and> if_conf st = awgStrip cfg \<and>
        if_addrs st = filter (en_addr env n) (LocalAddrs (ep_params e)))
    | Inl err \<Rightarrow> h_ifaces h' (AWGIface (ep_id e)) = (if err = FileError \<or> (\<exists>b. err = NeedsBinary b) then h_ifaces h (AWGIface (ep_id e)) else None)"
proof -
  let ?n = "AWGIface (ep_id e)"
  have link: "case fst (awg_link env e n conf h1) of
      Inr k \<Rightarrow> k = n \<and> (\<exists>st. h_ifaces (snd (awg_link env e n conf h1)) n = Some st \<and> if_up st \<and> if_conf st = conf \<and>
        if_addrs st = filter (en_addr env n) (LocalAddrs (ep_params e)))
    | Inl err \<Rightarrow> err \<noteq> FileError \<and> (\<forall>b. err \<noteq> NeedsBinary b) \<and> h_ifaces (snd (awg_link env e n conf h1)) n = None" for n conf h1
    using assms(2) by (auto simp: awg_link_def Let_def)
  obtain ok1 h1 where w: "write_file env (path_join dir (?n @ ''.setconf'')) (awgStrip cfg) h = (ok1, h1)" by fastforce
  have h1: "h_ifaces h1 = h_ifaces h" using arg_cong [OF w, of "\<lambda>x. h_ifaces (snd x)"] by simp
  show ?thesis using assms(1) link [of ?n "awgStrip cfg" h1] h1
    by (auto simp: awgUp_def Let_def w case_prod_beta split: if_splits bool.splits sum.splits)
qed

subsection \<open>One plugin\<close>

abbreviation spec_wf :: "spec \<Rightarrow> bool" where "spec_wf s \<equiv> sp_id s = ep_id (sp_endpoint s)"

lemma launch_engine_ok:
  assumes "launch_engine env bin args p h = (p', h')" and "pr_engine p \<noteq> EngineAmneziaWG"
    and "\<not> has_prefix (pr_config p) ''[''" and "pr_cmd p = None" and "\<not> pr_running p"
  shows "spawned (pr_cmd p') h h' \<and> proc_ok h' i p' \<and> h_ifaces h' = h_ifaces h \<and> pr_config p' = pr_config p \<and> pr_engine p' = pr_engine p"
  using assms by (auto simp: launch_engine_def launchProc_def spawned_def proc_ok_def split: if_splits)

lemma start_engine_ok:
  assumes "start_engine env dir e p h = (p', h')" and "pr_engine p = ep_engine e"
    and "ep_engine e = EngineAmneziaWG \<longleftrightarrow> has_prefix (pr_config p) ''[''"
    and "pr_cmd p = None" and "\<not> pr_running p" and "\<not> pr_managed p"
  shows "spawned (pr_cmd p') h h' \<and> proc_ok h' (ep_id e) p' \<and> only_iface (ep_id e) h h' \<and> pr_config p' = pr_config p"
proof (cases "ep_engine e = EngineAmneziaWG")
  case True
  obtain r h1 where up: "awgUp env dir e (pr_config p) h = (r, h1)" by fastforce
  have h1: "h_procs h1 = h_procs h" "h_next h1 = h_next h" "\<And>k. k \<noteq> AWGIface (ep_id e) \<Longrightarrow> h_ifaces h1 k = h_ifaces h k"
    using awgUp_frames(1,2) [of env dir e "pr_config p" h] awgUp_frames(3) [of _ e env dir "pr_config p" h] by (simp_all add: up)
  have eng: "pr_engine p = EngineAmneziaWG" using True assms(2) by simp
  have se: "start_engine env dir e p h = (case r of
      Inl err \<Rightarrow> (p\<lparr>pr_reason := AwgUpFailed err, pr_needsBin := (case err of NeedsBinary _ \<Rightarrow> True | _ \<Rightarrow> False)\<rparr>, h1)
    | Inr i \<Rightarrow> (p\<lparr>pr_iface := i, pr_running := True\<rparr>, h1))"
    by (simp add: start_engine_def True up split: sum.splits)
  show ?thesis
  proof (cases r)
    case (Inl err)
    with se assms h1 eng show ?thesis by (auto simp: spawned_def proc_ok_def only_iface_def)
  next
    case (Inr n)
    with awgUp_ready [of env dir e "pr_config p" h n h1] se assms h1 eng up show ?thesis
      by (auto simp: spawned_def proc_ok_def only_iface_def)
  qed
next
  case False
  then have ne: "pr_engine p \<noteq> EngineAmneziaWG" using assms(2) by simp
  show ?thesis
  proof (cases "ep_engine e = EngineOlcRTC \<or> ep_engine e = EngineNfqws")
    case True
    then obtain bin args where "launch_engine env bin args p h = (p', h')"
      using assms(1) by (auto simp: start_engine_def split: if_splits)
    from launch_engine_ok [OF this ne _ assms(4,5), of "ep_id e"] assms(3) False show ?thesis by (simp add: only_iface_def)
  next
    case other: False
    with False assms(1) have "p' = p" "h' = h" by (simp_all add: start_engine_def)
    with ne assms show ?thesis by (simp add: spawned_def proc_ok_def only_iface_def)
  qed
qed

lemma has_prefix_join: "has_prefix (join_with sep ((c # s) # xs)) [d] \<longleftrightarrow> c = d"
  by (cases xs) auto

lemma NativeConfig_bracket:
  "NativeConfig e n = Some (cfg, f) \<Longrightarrow> ep_engine e = EngineAmneziaWG \<longleftrightarrow> has_prefix cfg ''[''"
  by (auto simp: NativeConfig_def awgConfig_def olcConfig_def nfqwsArgs_def Let_def has_prefix_join split: if_splits)

lemma start_ok:
  assumes "start env dir s h = (p, h')" and "spec_wf s"
  shows "spawned (pr_cmd p) h h' \<and> proc_ok h' (sp_id s) p \<and> only_iface (sp_id s) h h' \<and>
    (\<forall>cfg f. NativeConfig (sp_endpoint s) (sp_socks s) = Some (cfg, f) \<longrightarrow> pr_config p = cfg)"
proof (cases "NativeConfig (sp_endpoint s) (sp_socks s)")
  case None
  with assms show ?thesis by (auto simp: start_def fresh_proc_def spawned_def proc_ok_def only_iface_def NativeConfig_def)
next
  case (Some x)
  obtain cfg f where x: "x = (cfg, f)" by (cases x)
  define p0 where "p0 = (fresh_proc s cfg)\<lparr>pr_cfgPath := path_join dir f\<rparr>"
  have p0: "pr_engine p0 = ep_engine (sp_endpoint s)" "pr_cmd p0 = None" "\<not> pr_running p0" "\<not> pr_managed p0" "pr_config p0 = cfg"
    by (simp_all add: p0_def fresh_proc_def)
  obtain ok1 h1 where w: "write_file env (path_join dir f) cfg h = (ok1, h1)" by fastforce
  have h1: "h_ifaces h1 = h_ifaces h" "h_procs h1 = h_procs h" "h_next h1 = h_next h"
    using host_frames(1-3) [of env "path_join dir f" cfg h] by (simp_all add: w)
  have st: "start env dir s h = (if ok1 then start_engine env dir (sp_endpoint s) p0 h1 else (p0\<lparr>pr_reason := ConfigNotWritten\<rparr>, h1))"
    by (cases ok1) (simp_all add: start_def Some x w p0_def)
  show ?thesis
  proof (cases ok1)
    case True
    with start_engine_ok [of env dir "sp_endpoint s" p0 h1 p h'] NativeConfig_bracket [OF Some [unfolded x]] st assms p0 h1 show ?thesis
      by (auto simp: Some x only_iface_def spawned_def split: option.splits)
  next
    case False
    with st assms p0 h1 NativeConfig_bracket [OF Some [unfolded x]] show ?thesis
      by (auto simp: Some x spawned_def proc_ok_def only_iface_def)
  qed
qed

lemma stop_frames [simp]:
  "h_next (stop env p h) = h_next h"
  "h_procs (stop env p h) = (case pr_cmd p of Some pid \<Rightarrow> h_procs h - {pid} | None \<Rightarrow> h_procs h)"
  by (auto simp: stop_def Let_def split: option.splits)

lemma stop_only_iface:
  assumes "proc_ok h i p"
  shows "only_iface i h (stop env p h)"
  using assms by (auto simp: stop_def proc_ok_def only_iface_def Let_def split: option.splits if_splits)

subsection \<open>The manager\<close>

lemma owns_put:
  "owns (m\<lparr>mg_procs := (mg_procs m)(i \<mapsto> p)\<rparr>) j pid = (if j = i then pr_cmd p = Some pid else owns m j pid)"
  "owns (m\<lparr>mg_procs := (mg_procs m)(i := None)\<rparr>) j pid = (j \<noteq> i \<and> owns m j pid)"
  by (simp_all add: owns_def)

text \<open>Replacing one plugin, or adding it, keeps the books when its process is its own or a fresh one.\<close>

lemma plug_ok_put:
  assumes "plug_ok m h" and "inj_on AWGIface (insert i (dom (mg_procs m)))" and "only_iface i h h'" and "proc_ok h' i p"
    and "\<And>pid. pid \<in> h_procs h' \<Longrightarrow> pr_cmd p = Some pid \<or> pid \<in> h_procs h \<and> \<not> owns m i pid"
    and "\<And>pid. pr_cmd p = Some pid \<Longrightarrow> pid < h_next h' \<and> (owns m i pid \<or> h_next h \<le> pid)" and "h_next h \<le> h_next h'"
  shows "plug_ok (m\<lparr>mg_procs := (mg_procs m)(i \<mapsto> p)\<rparr>) h'"
proof -
  let ?m = "m\<lparr>mg_procs := (mg_procs m)(i \<mapsto> p)\<rparr>"
  have orphan: "\<exists>j. owns ?m j pid" if "pid \<in> h_procs h'" for pid
    using assms(5) [OF that] plug_okD(1) [OF assms(1), of pid] unfolding owns_put by metis
  have fresh: "pid < h_next h'" if "owns ?m j pid" for j pid
    using assms(6) [of pid] plug_okD(2) [OF assms(1), of j pid] that assms(7) by (auto simp: owns_put split: if_splits)
  have mine: "j = i" if "pr_cmd p = Some pid" "owns m j pid" for j pid
    using assms(6) [OF that(1)] plug_okD(2) [OF assms(1) that(2)] plug_okD(3) [OF assms(1) that(2), of i] by linarith
  have uniq: "j = k" if "owns ?m j pid" "owns ?m k pid" for j k pid
    using that mine [of pid j] mine [of pid k] plug_okD(3) [OF assms(1), of j pid k] unfolding owns_put by metis
  have "proc_ok h' j q" if "mg_procs m j = Some q" "j \<noteq> i" for j q
  proof -
    have "AWGIface j \<noteq> AWGIface i" by (rule ifaces_differ [OF assms(2)]) (use that in auto)
    then have "h_ifaces h' (AWGIface j) = h_ifaces h (AWGIface j)" using assms(3) by (simp add: only_iface_def)
    then show ?thesis using plug_ok_proc [OF assms(1) that(1)] by (rule proc_ok_iface [THEN iffD2])
  qed
  then have "proc_ok h' j q" if "mg_procs ?m j = Some q" for j q using that assms(4) by (auto split: if_splits)
  with orphan fresh uniq show ?thesis by (rule plug_okI)
qed

lemma plug_ok_stop:
  assumes "plug_ok m h" and "inj_on AWGIface (dom (mg_procs m))" and "mg_procs m i = Some p"
  shows "plug_ok (m\<lparr>mg_procs := (mg_procs m)(i := None)\<rparr>) (stop env p h)"
proof -
  have only: "only_iface i h (stop env p h)" using assms(1,3) by (intro stop_only_iface) (simp add: plug_ok_def)
  have own: "owns m i pid = (pr_cmd p = Some pid)" for pid using assms(3) by (simp add: owns_def)
  have "proc_ok (stop env p h) j q" if "mg_procs m j = Some q" "j \<noteq> i" for j q
  proof -
    have "AWGIface j \<noteq> AWGIface i" by (rule ifaces_differ [OF assms(2)]) (use that assms(3) in auto)
    then have "h_ifaces (stop env p h) (AWGIface j) = h_ifaces h (AWGIface j)" using only by (simp add: only_iface_def)
    then show ?thesis using plug_ok_proc [OF assms(1) that(1)] by (rule proc_ok_iface [THEN iffD2])
  qed
  moreover have "\<exists>j. j \<noteq> i \<and> owns m j pid" if "pid \<in> h_procs (stop env p h)" for pid
  proof -
    have "pid \<in> h_procs h" "pr_cmd p \<noteq> Some pid" using that by (auto split: option.splits)
    with plug_okD(1) [OF assms(1), of pid] own [of pid] show ?thesis by metis
  qed
  moreover have "pid < h_next (stop env p h)" if "owns m j pid" for j pid using plug_okD(2) [OF assms(1) that] by simp
  moreover have "j = k" if "owns m j pid" "owns m k pid" for j k pid using plug_okD(3) [OF assms(1) that] .
  ultimately show ?thesis by (intro plug_okI) (auto simp: owns_put split: if_splits)
qed

lemma plug_ok_reset:
  assumes "plug_ok m h" and "inj_on AWGIface (dom (mg_procs m))" and "mg_procs m i = Some p"
  shows "plug_ok (m\<lparr>mg_procs := (mg_procs m)(i \<mapsto> p\<lparr>pr_restarts := a, pr_cooldown := b\<rparr>)\<rparr>) h"
proof (rule plug_ok_put [OF assms(1)])
  show "inj_on AWGIface (insert i (dom (mg_procs m)))" using assms(2,3) by (simp add: insert_absorb domI)
  show "proc_ok h i (p\<lparr>pr_restarts := a, pr_cooldown := b\<rparr>)" using plug_ok_proc [OF assms(1,3)] by simp
  show "pid < h_next h \<and> (owns m i pid \<or> h_next h \<le> pid)" if "pr_cmd (p\<lparr>pr_restarts := a, pr_cooldown := b\<rparr>) = Some pid" for pid
    using that assms(3) plug_okD(2) [OF assms(1), of i pid] by (simp add: owns_def)
qed (use assms(3) in \<open>auto simp: only_iface_def owns_def\<close>)

lemma supervise_proc_ok:
  assumes "supervise_proc env p h = (p', h')" and "proc_ok h i p"
  shows "proc_ok h' i p' \<and> h_ifaces h' = h_ifaces h \<and> h_next h \<le> h_next h' \<and>
    (\<forall>pid. pr_cmd p' = Some pid \<longrightarrow> pid < h_next h' \<or> pr_cmd p = Some pid) \<and>
    (\<forall>pid. pr_cmd p' = Some pid \<longrightarrow> pr_cmd p = Some pid \<or> h_next h \<le> pid) \<and>
    (\<forall>pid \<in> h_procs h'. pr_cmd p' = Some pid \<or> pid \<in> h_procs h \<and> pr_cmd p \<noteq> Some pid)"
  using assms
  by (auto simp: supervise_proc_def relaunchProc_def launchProc_def proc_ok_def procDied_def Let_def split: if_splits option.splits)

definition known :: "string set \<Rightarrow> plug_manager \<Rightarrow> bool" where
  "known ids m = (dom (mg_procs m) \<subseteq> ids)"

abbreviation books :: "string set \<Rightarrow> plug_manager \<times> host \<Rightarrow> bool" where
  "books ids st \<equiv> plug_ok (fst st) (snd st) \<and> dom (mg_procs (fst st)) \<subseteq> ids"

lemma supervise_one_ok:
  assumes "books ids st" and "inj_on AWGIface ids"
  shows "books ids (supervise_one env i st)"
proof (cases "mg_procs (fst st) i")
  case None
  with assms show ?thesis by (simp add: supervise_one_def case_prod_beta)
next
  case (Some p)
  obtain m h where st: "st = (m, h)" by (cases st)
  obtain p' h' where s: "supervise_proc env p h = (p', h')" by fastforce
  have p: "mg_procs m i = Some p" "proc_ok h i p" using Some assms(1) by (simp_all add: st plug_ok_def)
  note ok = supervise_proc_ok [OF s p(2)]
  have "plug_ok (m\<lparr>mg_procs := (mg_procs m)(i \<mapsto> p')\<rparr>) h'"
  proof (rule plug_ok_put)
    show "plug_ok m h" using assms(1) by (simp add: st)
    have "insert i (dom (mg_procs m)) \<subseteq> ids" using assms(1) p(1) by (auto simp: st)
    then show "inj_on AWGIface (insert i (dom (mg_procs m)))" using assms(2) by (rule inj_on_subset [rotated])
    show "pid < h_next h' \<and> (owns m i pid \<or> h_next h \<le> pid)" if "pr_cmd p' = Some pid" for pid
    proof -
      have "pr_cmd p = Some pid \<Longrightarrow> pid < h_next h'"
        using plug_okD(2) [of m h i pid] assms(1) p(1) ok by (simp add: st owns_def)
      then show ?thesis using ok that p(1) by (auto simp: owns_def)
    qed
  qed (use ok p(1) in \<open>auto simp: only_iface_def owns_def\<close>)
  then show ?thesis using assms(1) p(1) by (auto simp: supervise_one_def st s)
qed

definition specs_ok :: "string set \<Rightarrow> spec list \<Rightarrow> bool" where
  "specs_ok ids specs = (\<forall>s \<in> set specs. spec_wf s \<and> sp_id s \<in> ids)"

lemma desired_in: "desired_of specs i = Some s \<Longrightarrow> s \<in> set specs \<and> sp_id s = i"
  by (auto simp: desired_of_def dest!: map_of_SomeD)

lemma dom_desired: "dom (desired_of specs) = sp_id ` set specs"
  by (auto simp: desired_of_def dom_map_of_conv_image_fst image_image)

lemma sync_stop_ok:
  assumes "books ids st" and "inj_on AWGIface ids"
  shows "books ids (sync_stop env desired i st)"
proof -
  obtain m h where st: "st = (m, h)" by (cases st)
  have inj: "inj_on AWGIface (dom (mg_procs m))" using assms by (auto simp: st intro: inj_on_subset)
  have "plug_ok m h" using assms(1) by (simp add: st)
  from plug_ok_stop [OF this inj] plug_ok_reset [OF this inj] show ?thesis
    using assms(1) by (auto simp: sync_stop_def st split: option.splits if_splits)
qed

lemma sync_start_ok:
  assumes "books ids st" and "inj_on AWGIface ids" and "specs_ok ids specs"
  shows "books ids (sync_start env (desired_of specs) i st)"
proof -
  obtain m h where st: "st = (m, h)" by (cases st)
  show ?thesis
  proof (cases "mg_procs m i = None \<and> desired_of specs i \<noteq> None")
    case False
    with assms show ?thesis by (auto simp: sync_start_def st split: option.splits)
  next
    case True
    then obtain s where s: "desired_of specs i = Some s" by auto
    obtain p h' where p: "start env (mg_dir m) s h = (p, h')" by fastforce
    have wf: "spec_wf s" "sp_id s = i" "i \<in> ids" using desired_in [OF s] assms(3) by (auto simp: specs_ok_def)
    note ok = start_ok [OF p wf(1)]
    have "plug_ok (m\<lparr>mg_procs := (mg_procs m)(i \<mapsto> p)\<rparr>) h'"
    proof (rule plug_ok_put)
      show "plug_ok m h" using assms(1) by (simp add: st)
      have "insert i (dom (mg_procs m)) \<subseteq> ids" using assms(1) wf(3) by (auto simp: st)
      then show "inj_on AWGIface (insert i (dom (mg_procs m)))" using assms(2) by (rule inj_on_subset [rotated])
    qed (use ok True wf(2) in \<open>auto simp: owns_def spawned_def split: option.splits\<close>)
    then show ?thesis using True assms(1) wf(3) by (auto simp: sync_start_def st s p)
  qed
qed

lemma fold_books:
  assumes "\<And>x st. books ids st \<Longrightarrow> books ids (f x st)" and "books ids st"
  shows "books ids (fold f xs st)"
  using assms(2) by (induction xs arbitrary: st) (auto simp: assms(1))

lemma Sync_ok:
  assumes "books ids (m, h)" and "inj_on AWGIface ids" and "specs_ok ids specs"
  shows "books ids (Sync env stops starts specs (m, h))"
proof -
  have "books ids (m\<lparr>mg_specs := specs\<rparr>, h)" using assms(1) by (simp add: plug_ok_def owns_def)
  then have "books ids (fold (sync_stop env (desired_of specs)) stops (m\<lparr>mg_specs := specs\<rparr>, h))"
    by (rule fold_books [rotated]) (rule sync_stop_ok [OF _ assms(2)])
  then show ?thesis unfolding Sync_def prod.case by (rule fold_books [rotated]) (rule sync_start_ok [OF _ assms(2,3)])
qed

subsection \<open>No interface is left behind\<close>

definition deletes_work :: "plug_env \<Rightarrow> bool" where
  "deletes_work env = (en_bin env ''ip'' \<and> (\<forall>n. en_del env n))"

definition no_stray :: "string set \<Rightarrow> plug_manager \<times> host \<Rightarrow> bool" where
  "no_stray ids st = (\<forall>i \<in> ids. h_ifaces (snd st) (AWGIface i) \<noteq> None \<longrightarrow>
     (\<exists>p. mg_procs (fst st) i = Some p \<and> pr_engine p = EngineAmneziaWG \<and> pr_running p))"

lemma start_engine_stray:
  assumes "start_engine env dir e p h = (p', h')" and "deletes_work env" and "pr_engine p = ep_engine e"
    and "h_ifaces h (AWGIface (ep_id e)) = None" and "h_ifaces h' (AWGIface (ep_id e)) \<noteq> None"
  shows "pr_engine p' = EngineAmneziaWG \<and> pr_running p'"
proof (cases "ep_engine e = EngineAmneziaWG")
  case True
  obtain r h1 where up: "awgUp env dir e (pr_config p) h = (r, h1)" by fastforce
  have "\<And>n. en_del env n" using assms(2) by (simp add: deletes_work_def)
  from awgUp_all_or_nothing [OF up this] True up assms(1,3-5) show ?thesis
    by (cases r) (auto simp: start_engine_def split: if_splits)
next
  case False
  have "h_ifaces h' = h_ifaces h"
    using assms(1) False by (auto simp: start_engine_def launch_engine_def launchProc_def split: if_splits)
  with assms show ?thesis by simp
qed

lemma start_stray:
  assumes "start env dir s h = (p, h')" and "deletes_work env" and "spec_wf s"
    and "h_ifaces h (AWGIface (sp_id s)) = None" and "h_ifaces h' (AWGIface (sp_id s)) \<noteq> None"
  shows "pr_engine p = EngineAmneziaWG \<and> pr_running p"
proof (cases "NativeConfig (sp_endpoint s) (sp_socks s)")
  case None
  with assms show ?thesis by (simp add: start_def)
next
  case (Some x)
  obtain cfg f where x: "x = (cfg, f)" by (cases x)
  let ?p = "(fresh_proc s cfg)\<lparr>pr_cfgPath := path_join dir f\<rparr>"
  obtain ok1 h1 where w: "write_file env (path_join dir f) cfg h = (ok1, h1)" by fastforce
  have h1: "h_ifaces h1 = h_ifaces h" using host_frames(3) [of env "path_join dir f" cfg h] by (simp add: w)
  have ok1
  proof (rule ccontr)
    assume "\<not> ok1"
    then have "h' = h1" using assms(1) Some x w by (simp add: start_def Let_def)
    with assms(4,5) h1 show False by simp
  qed
  then have "start_engine env dir (sp_endpoint s) ?p h1 = (p, h')" using assms(1) Some x w by (simp add: start_def Let_def)
  from start_engine_stray [OF this assms(2)] assms(3-5) h1 show ?thesis by (simp add: fresh_proc_def)
qed

lemma stop_clears:
  assumes "deletes_work env" and "proc_ok h i p" and "h_ifaces h (AWGIface i) \<noteq> None \<Longrightarrow> pr_engine p = EngineAmneziaWG \<and> pr_running p"
  shows "h_ifaces (stop env p h) (AWGIface i) = None"
proof (cases "h_ifaces h (AWGIface i) = None")
  case True
  have "h_ifaces (stop env p h) (AWGIface i) \<in> {h_ifaces h (AWGIface i), None}"
    by (simp add: stop_def Let_def split: option.splits)
  with True show ?thesis by simp
next
  case False
  with assms show ?thesis by (simp add: stop_def deletes_work_def proc_ok_def Let_def)
qed

lemma no_stray_put:
  assumes "no_stray ids (m, h)" and "inj_on AWGIface ids" and "i \<in> ids" and "only_iface i h h'"
    and "h_ifaces h' (AWGIface i) \<noteq> None \<Longrightarrow> \<exists>p. c = Some p \<and> pr_engine p = EngineAmneziaWG \<and> pr_running p"
  shows "no_stray ids (m\<lparr>mg_procs := (mg_procs m)(i := c)\<rparr>, h')"
  unfolding no_stray_def fst_conv snd_conv
proof (intro ballI impI)
  fix j
  assume j: "j \<in> ids" "h_ifaces h' (AWGIface j) \<noteq> None"
  show "\<exists>p. mg_procs (m\<lparr>mg_procs := (mg_procs m)(i := c)\<rparr>) j = Some p \<and> pr_engine p = EngineAmneziaWG \<and> pr_running p"
  proof (cases "j = i")
    case True
    with assms(5) j show ?thesis by simp
  next
    case False
    then have "h_ifaces h (AWGIface j) \<noteq> None"
      using ifaces_differ [OF assms(2,3) j(1)] assms(4) j(2) by (simp add: only_iface_def)
    with assms(1) j(1) False show ?thesis by (simp add: no_stray_def)
  qed
qed

lemma sync_stop_stray:
  assumes "no_stray ids st" and "books ids st" and "inj_on AWGIface ids" and "deletes_work env"
  shows "no_stray ids (sync_stop env desired i st)"
proof -
  obtain m h where st: "st = (m, h)" by (cases st)
  show ?thesis
  proof (cases "mg_procs m i")
    case None
    with assms st show ?thesis by (simp add: sync_stop_def)
  next
    case (Some p)
    have p: "proc_ok h i p" "i \<in> ids" using assms(2) Some by (auto simp: st intro: plug_ok_proc)
    have r: "pr_engine p = EngineAmneziaWG \<and> pr_running p" if "h_ifaces h (AWGIface i) \<noteq> None"
      using assms(1) that p(2) Some by (auto simp: st no_stray_def)
    note put = no_stray_put [OF assms(1) [unfolded st] assms(3) p(2)]
    have "no_stray ids (m\<lparr>mg_procs := (mg_procs m)(i := None)\<rparr>, stop env p h)"
      using stop_clears [OF assms(4) p(1) r] by (intro put stop_only_iface [OF p(1)]) simp
    moreover have "no_stray ids (m\<lparr>mg_procs := (mg_procs m)(i \<mapsto> p\<lparr>pr_restarts := 0, pr_cooldown := 0\<rparr>)\<rparr>, h)"
      using r by (intro put) (simp_all add: only_iface_def)
    ultimately show ?thesis using Some by (simp add: sync_stop_def st)
  qed
qed

lemma sync_start_stray:
  assumes "no_stray ids st" and "inj_on AWGIface ids" and "deletes_work env" and "specs_ok ids specs"
  shows "no_stray ids (sync_start env (desired_of specs) i st)"
proof -
  obtain m h where st: "st = (m, h)" by (cases st)
  show ?thesis
  proof (cases "mg_procs m i = None \<and> desired_of specs i \<noteq> None")
    case False
    with assms show ?thesis by (auto simp: sync_start_def st split: option.splits)
  next
    case True
    then obtain s where s: "desired_of specs i = Some s" by auto
    obtain p h' where p: "start env (mg_dir m) s h = (p, h')" by fastforce
    have wf: "spec_wf s" "sp_id s = i" "i \<in> ids" using desired_in [OF s] assms(4) by (auto simp: specs_ok_def)
    have "h_ifaces h (AWGIface i) = None" using assms(1) True wf(3) by (auto simp: no_stray_def st)
    then have "no_stray ids (m\<lparr>mg_procs := (mg_procs m)(i \<mapsto> p)\<rparr>, h')"
      using start_stray [OF p assms(3) wf(1)] start_ok [OF p wf(1)] wf(2)
      by (intro no_stray_put [OF assms(1) [unfolded st] assms(2) wf(3)]) simp_all
    then show ?thesis using True by (simp add: sync_start_def st s p)
  qed
qed

lemma fold_books_stray:
  assumes "\<And>x st. books ids st \<Longrightarrow> books ids (f x st)" and "\<And>x st. no_stray ids st \<Longrightarrow> books ids st \<Longrightarrow> no_stray ids (f x st)"
    and "books ids st" and "no_stray ids st"
  shows "no_stray ids (fold f xs st)"
  using assms(3,4) by (induction xs arbitrary: st) (auto simp: assms(1,2))

lemma stop_fold_ok:
  assumes "books ids st" and "inj_on AWGIface ids"
  shows "books ids (fold (sync_stop env desired) stops st) \<and>
    (deletes_work env \<longrightarrow> no_stray ids st \<longrightarrow> no_stray ids (fold (sync_stop env desired) stops st))"
  using fold_books [of ids "sync_stop env desired", OF sync_stop_ok [OF _ assms(2)] assms(1)]
    fold_books_stray [of ids "sync_stop env desired", OF sync_stop_ok [OF _ assms(2)] sync_stop_stray [OF _ _ assms(2)] assms(1)]
  by blast

lemma Sync_stray:
  assumes "no_stray ids (m, h)" and "books ids (m, h)" and "inj_on AWGIface ids" and "deletes_work env" and "specs_ok ids specs"
  shows "no_stray ids (Sync env stops starts specs (m, h))"
proof -
  let ?st = "fold (sync_stop env (desired_of specs)) stops (m\<lparr>mg_specs := specs\<rparr>, h)"
  have "books ids (m\<lparr>mg_specs := specs\<rparr>, h)" "no_stray ids (m\<lparr>mg_specs := specs\<rparr>, h)"
    using assms(1,2) by (simp_all add: plug_ok_def owns_def no_stray_def)
  then have "books ids ?st" "no_stray ids ?st" using stop_fold_ok [OF _ assms(3)] assms(4) by blast+
  then show ?thesis unfolding Sync_def prod.case
    by (intro fold_books_stray [OF sync_start_ok [OF _ assms(3,5)] sync_start_stray [OF _ assms(3-5)]])
qed

lemma supervise_proc_awg:
  assumes "supervise_proc env p h = (p', h')" and "proc_ok h i p" and "pr_engine p = EngineAmneziaWG"
  shows "p' = p"
  using assms by (simp add: supervise_proc_def proc_ok_def)

lemma supervise_one_stray:
  assumes "no_stray ids st" and "books ids st" and "inj_on AWGIface ids"
  shows "no_stray ids (supervise_one env i st)"
proof (cases "mg_procs (fst st) i")
  case None
  with assms show ?thesis by (simp add: supervise_one_def case_prod_beta)
next
  case (Some p)
  obtain m h where st: "st = (m, h)" by (cases st)
  obtain p' h' where s: "supervise_proc env p h = (p', h')" by fastforce
  have p: "mg_procs m i = Some p" "proc_ok h i p" "i \<in> ids" using Some assms(2) by (auto simp: st intro: plug_ok_proc)
  have h': "h_ifaces h' = h_ifaces h" using supervise_proc_ok [OF s p(2)] by simp
  have "no_stray ids (m\<lparr>mg_procs := (mg_procs m)(i \<mapsto> p')\<rparr>, h')"
  proof (rule no_stray_put [OF assms(1) [unfolded st] assms(3) p(3)])
    assume "h_ifaces h' (AWGIface i) \<noteq> None"
    then have "pr_engine p = EngineAmneziaWG" "pr_running p" using assms(1) h' p(1,3) by (auto simp: st no_stray_def)
    then show "\<exists>q. Some p' = Some q \<and> pr_engine q = EngineAmneziaWG \<and> pr_running q"
      using supervise_proc_awg [OF s p(2)] by simp
  qed (simp add: only_iface_def h')
  then show ?thesis using p(1) by (simp add: supervise_one_def st s)
qed

lemma supervise_fold_ok:
  assumes "books ids st" and "inj_on AWGIface ids"
  shows "books ids (fold (supervise_one env) order st) \<and>
    (no_stray ids st \<longrightarrow> no_stray ids (fold (supervise_one env) order st))"
  using fold_books [of ids "supervise_one env", OF supervise_one_ok [OF _ assms(2)] assms(1)]
    fold_books_stray [of ids "supervise_one env", OF supervise_one_ok [OF _ assms(2)] supervise_one_stray [OF _ _ assms(2)] assms(1)]
  by blast

text \<open>A shutdown stops the plugins one by one, as a reconciliation with nothing wanted does.\<close>

lemma StopAll_fold:
  assumes "distinct stops" and "dom (mg_procs m) \<subseteq> set stops"
  shows "StopAll env stops (m, h) = fold (sync_stop env Map.empty) stops (m, h)"
proof -
  have eq: "fold (sync_stop env Map.empty) xs (m', h) =
      (m'\<lparr>mg_procs := (mg_procs m') |` (- set xs)\<rparr>,
       fold (\<lambda>i h. case mg_procs m' i of Some p \<Rightarrow> stop env p h | None \<Rightarrow> h) xs h)"
    if "distinct xs" for xs m' h
    using that
  proof (induction xs arbitrary: m' h)
    case (Cons i xs)
    let ?m = "m'\<lparr>mg_procs := (mg_procs m')(i := None)\<rparr>"
    have step: "sync_stop env Map.empty i (m', h) = (?m, case mg_procs m' i of Some p \<Rightarrow> stop env p h | None \<Rightarrow> h)"
      by (cases m'; cases "mg_procs m' i") (auto simp: sync_stop_def fun_upd_idem)
    have f: "fold (\<lambda>j h. case mg_procs ?m j of Some p \<Rightarrow> stop env p h | None \<Rightarrow> h) xs k =
        fold (\<lambda>j h. case mg_procs m' j of Some p \<Rightarrow> stop env p h | None \<Rightarrow> h) xs k" for k
      by (rule fold_cong) (use Cons.prems in auto)
    have r: "(mg_procs ?m) |` (- set xs) = (mg_procs m') |` (- set (i # xs))" by (rule ext) (simp add: restrict_map_def)
    show ?case using Cons.IH [of ?m] Cons.prems unfolding fold.simps comp_apply step f r by simp
  qed (simp add: restrict_map_def)
  have "(mg_procs m) |` (- set stops) = Map.empty" using assms(2) by (auto simp: restrict_map_def fun_eq_iff dom_def)
  with eq [OF assms(1), of m h] show ?thesis by (simp add: StopAll_def)
qed

subsection \<open>Histories\<close>

definition proc_exit :: "nat \<Rightarrow> host \<Rightarrow> host" where
  "proc_exit pid h = h\<lparr>h_procs := h_procs h - {pid}\<rparr>"

text \<open>Reconciliations, supervision ticks, shutdowns and crashes. The operating system answers anything; only
  where \<^verbatim>\<open>dels\<close> is set is it assumed that interfaces can be deleted and that the host starts without
  interfaces of these names.\<close>

inductive plug_reach :: "string set \<Rightarrow> string \<Rightarrow> bool \<Rightarrow> plug_manager \<times> host \<Rightarrow> bool" for ids dir dels where
  pr_boot: "h_procs h = {} \<Longrightarrow> (dels \<Longrightarrow> \<forall>i \<in> ids. h_ifaces h (AWGIface i) = None) \<Longrightarrow>
    plug_reach ids dir dels (new_manager dir, h)"
| pr_sync: "plug_reach ids dir dels (m, h) \<Longrightarrow> specs_ok ids specs \<Longrightarrow> (dels \<Longrightarrow> deletes_work env) \<Longrightarrow>
    plug_reach ids dir dels (Sync env stops starts specs (m, h))"
| pr_tick: "plug_reach ids dir dels st \<Longrightarrow> plug_reach ids dir dels (Supervise env locked order st)"
| pr_stop: "plug_reach ids dir dels (m, h) \<Longrightarrow> distinct stops \<Longrightarrow> dom (mg_procs m) \<subseteq> set stops \<Longrightarrow>
    (dels \<Longrightarrow> deletes_work env) \<Longrightarrow> plug_reach ids dir dels (StopAll env stops (m, h))"
| pr_exit: "plug_reach ids dir dels (m, h) \<Longrightarrow> plug_reach ids dir dels (m, proc_exit pid h)"

lemma plug_reach_books:
  assumes "plug_reach ids dir dels st" and "inj_on AWGIface ids"
  shows "books ids st \<and> (dels \<longrightarrow> no_stray ids st)"
  using assms(1)
proof induction
  case (pr_boot h)
  then show ?case by (simp add: new_manager_def plug_ok_def owns_def no_stray_def)
next
  case (pr_sync m h specs env stops starts)
  then show ?case using Sync_ok [OF _ assms(2), of m h specs env stops starts]
      Sync_stray [OF _ _ assms(2), of m h env specs stops starts] by blast
next
  case (pr_tick st env locked order)
  then show ?case using supervise_fold_ok [OF _ assms(2), of st env order] by (simp add: Supervise_def)
next
  case (pr_stop m h stops env)
  note eq = StopAll_fold [OF pr_stop.hyps(2,3), of env h]
  have "books ids (m, h)" using pr_stop.IH by simp
  from stop_fold_ok [OF this assms(2), of env Map.empty stops] pr_stop.IH pr_stop.hyps(4) show ?case unfolding eq by blast
next
  case (pr_exit m h pid)
  have "proc_ok (proc_exit pid h) i p = proc_ok h i p" for i p by (rule proc_ok_iface) (simp add: proc_exit_def)
  with pr_exit show ?case by (auto simp: plug_ok_def proc_exit_def no_stray_def)
qed

text \<open>C22. The manager's books are right after any history of reconciliations, supervision ticks, shutdowns and
  crashes, whatever the operating system answers, as long as nobody else touches the interfaces and their names, which are
  hashes of the ids, are distinct for the ids in use. Every engine process on the host is the process of exactly one
  plugin. An AmneziaWG plugin that is marked running has its own interface, up, with its configuration loaded; any
  other plugin is marked running exactly when it holds a process, which may have died since the last tick. And where
  interfaces can be deleted, and there were none of these names at the start, every interface with the name of an id
  in use belongs to an AmneziaWG plugin that is marked running.\<close>

theorem plugins_accounted:
  assumes "plug_reach ids dir dels (m, h)" and "inj_on AWGIface ids"
  shows "(\<forall>pid \<in> h_procs h. \<exists>!i. owns m i pid) \<and>
    (\<forall>i p. mg_procs m i = Some p \<longrightarrow>
       (if pr_engine p = EngineAmneziaWG then pr_running p \<longrightarrow> pr_iface p = AWGIface i \<and> iface_ready h (AWGIface i) (pr_config p)
        else pr_running p \<longleftrightarrow> (\<exists>pid. owns m i pid))) \<and>
    (dels \<longrightarrow> (\<forall>i \<in> ids. h_ifaces h (AWGIface i) \<noteq> None \<longrightarrow>
       (\<exists>p. mg_procs m i = Some p \<and> pr_engine p = EngineAmneziaWG \<and> pr_running p)))"
proof (intro conjI allI impI ballI)
  have ok: "plug_ok m h" using plug_reach_books [OF assms] by simp
  then show "\<exists>!i. owns m i pid" if "pid \<in> h_procs h" for pid using that unfolding plug_ok_def by blast
  show "if pr_engine p = EngineAmneziaWG then pr_running p \<longrightarrow> pr_iface p = AWGIface i \<and> iface_ready h (AWGIface i) (pr_config p)
        else pr_running p \<longleftrightarrow> (\<exists>pid. owns m i pid)"
    if "mg_procs m i = Some p" for i p
    using plug_ok_proc [OF ok that] that by (auto simp: proc_ok_def owns_def)
  show "\<exists>p. mg_procs m i = Some p \<and> pr_engine p = EngineAmneziaWG \<and> pr_running p"
    if dels "i \<in> ids" "h_ifaces h (AWGIface i) \<noteq> None" for i
    using plug_reach_books [OF assms] that by (auto simp: no_stray_def)
qed

subsection \<open>Reconciliation reaches the wanted plugins\<close>

definition kept :: "(string \<rightharpoonup> spec) \<Rightarrow> string \<Rightarrow> proc \<Rightarrow> bool" where
  "kept desired i p = (case desired i of Some s \<Rightarrow> keeps s p | None \<Rightarrow> False)"

lemma kept_reset [simp]: "kept desired i (p\<lparr>pr_restarts := a, pr_cooldown := b\<rparr>) = kept desired i p"
  by (simp add: kept_def keeps_def split: option.splits)

lemma fold_sync_stop:
  "mg_procs (fst (fold (sync_stop env desired) xs st)) j =
     (if j \<in> set xs
      then (case mg_procs (fst st) j of Some p \<Rightarrow> if kept desired j p then Some (p\<lparr>pr_restarts := 0, pr_cooldown := 0\<rparr>) else None | None \<Rightarrow> None)
      else mg_procs (fst st) j)"
proof (induction xs arbitrary: st)
  case (Cons i xs)
  have step: "mg_procs (fst (sync_stop env desired i st)) j =
      (if j = i then (case mg_procs (fst st) j of Some p \<Rightarrow> if kept desired j p then Some (p\<lparr>pr_restarts := 0, pr_cooldown := 0\<rparr>) else None | None \<Rightarrow> None)
       else mg_procs (fst st) j)"
    by (cases st) (auto simp: sync_stop_def kept_def split: option.splits)
  show ?case using Cons [of "sync_stop env desired i st"] step
    by (cases "j = i"; cases "mg_procs (fst st) j") (simp_all split: if_splits)
qed simp

lemma sync_start_procs:
  "mg_procs (fst (sync_start env (desired_of specs) i st)) j =
     (if j = i \<and> mg_procs (fst st) i = None
      then map_option (\<lambda>s. fst (start env (mg_dir (fst st)) s (snd st))) (desired_of specs i) else mg_procs (fst st) j)"
  by (cases st) (auto simp: sync_start_def split: option.splits prod.splits)

text \<open>Every plugin that is there after the starting phase was there before, or has just been started.\<close>

lemma fold_sync_start:
  "(mg_procs (fst (fold (sync_start env (desired_of specs)) xs st)) j = mg_procs (fst st) j \<and>
      (j \<in> set xs \<longrightarrow> mg_procs (fst st) j = None \<longrightarrow> desired_of specs j = None)) \<or>
    mg_procs (fst st) j = None \<and>
      (\<exists>s dir h. desired_of specs j = Some s \<and> mg_procs (fst (fold (sync_start env (desired_of specs)) xs st)) j = Some (fst (start env dir s h)))"
proof (induction xs arbitrary: st)
  case (Cons i xs)
  let ?st = "sync_start env (desired_of specs) i st"
  note step = sync_start_procs [of env specs i st j]
  show ?case
  proof (cases "j = i \<and> mg_procs (fst st) i = None")
    case True
    show ?thesis
    proof (cases "desired_of specs i")
      case (Some s)
      then have "mg_procs (fst ?st) j = Some (fst (start env (mg_dir (fst st)) s (snd st)))" using step True by simp
      then show ?thesis using Cons [of ?st] Some True by auto
    next
      case None
      then show ?thesis using Cons [of ?st] step True by auto
    qed
  next
    case False
    then have "mg_procs (fst ?st) j = mg_procs (fst st) j" using step by auto
    then show ?thesis using Cons [of ?st] False by auto
  qed
qed simp

lemma Sync_specs: "mg_specs (fst (Sync env stops starts specs st)) = specs"
proof -
  have "mg_specs (fst (fold (sync_start env d) xs st)) = mg_specs (fst st)" for d xs st
    by (induction xs arbitrary: st) (auto simp: sync_start_def split: option.splits prod.splits)
  moreover have "mg_specs (fst (fold (sync_stop env d) xs st)) = mg_specs (fst st)" for d xs st
    by (induction xs arbitrary: st) (auto simp: sync_stop_def split: option.splits prod.splits)
  ultimately show ?thesis by (cases st) (simp add: Sync_def)
qed

lemma Sync_procs:
  assumes "dom (mg_procs m) \<subseteq> set stops" and "sp_id ` set specs \<subseteq> set starts"
  shows "mg_procs (fst (Sync env stops starts specs (m, h))) j =
      (case mg_procs m j of Some p \<Rightarrow> if kept (desired_of specs) j p then Some (p\<lparr>pr_restarts := 0, pr_cooldown := 0\<rparr>) else None | None \<Rightarrow> None) \<and>
      (mg_procs (fst (Sync env stops starts specs (m, h))) j = None \<longrightarrow> desired_of specs j = None) \<or>
    (\<exists>s dir h'. desired_of specs j = Some s \<and> mg_procs (fst (Sync env stops starts specs (m, h))) j = Some (fst (start env dir s h')))"
proof -
  let ?st = "fold (sync_stop env (desired_of specs)) stops (m\<lparr>mg_specs := specs\<rparr>, h)"
  have 1: "mg_procs (fst ?st) j =
      (case mg_procs m j of Some p \<Rightarrow> if kept (desired_of specs) j p then Some (p\<lparr>pr_restarts := 0, pr_cooldown := 0\<rparr>) else None | None \<Rightarrow> None)"
    using assms(1) by (auto simp: fold_sync_stop split: option.splits)
  have "j \<notin> set starts \<Longrightarrow> desired_of specs j = None" using assms(2) dom_desired [of specs] by blast
  then show ?thesis using fold_sync_start [where st = ?st and j = j and xs = starts and env = env and specs = specs] 1
    unfolding Sync_def prod.case by auto
qed

definition working :: "plug_env \<Rightarrow> bool" where
  "working env =
     ((\<forall>b. en_bin env b) \<and> (\<forall>f. en_write env f = WriteOk) \<and> (\<forall>b a. en_spawn env b a) \<and> (\<forall>n. en_del env n \<and> en_add env n \<and> en_up env n) \<and>
      (\<forall>n c. en_setconf env n c))"

lemma start_runs:
  assumes "working env" and "NativeConfig (sp_endpoint s) (sp_socks s) = Some (cfg, f)"
  shows "pr_running (fst (start env dir s h))"
  using assms
  by (auto simp: start_def start_engine_def launch_engine_def launchProc_def awgUp_def awg_link_def write_file_def working_def
      NativeConfig_def Let_def split: if_splits)

lemma desired_of_spec: "distinct (map sp_id specs) \<Longrightarrow> s \<in> set specs \<Longrightarrow> desired_of specs (sp_id s) = Some s"
  by (auto simp: desired_of_def rev_map [symmetric] comp_def intro!: map_of_is_SomeI)

lemma Sync_native:
  assumes "dom (mg_procs m) \<subseteq> set stops" and "sp_id ` set specs \<subseteq> set starts" and "specs_ok ids specs"
    and "desired_of specs i = Some s" and "NativeConfig (sp_endpoint s) (sp_socks s) = Some (cfg, f)"
  shows "\<exists>p. mg_procs (fst (Sync env stops starts specs (m, h))) i = Some p \<and> pr_config p = cfg \<and> (working env \<longrightarrow> pr_running p)"
proof -
  have "spec_wf s" using desired_in [OF assms(4)] assms(3) by (auto simp: specs_ok_def)
  then have "pr_config (fst (start env dir s h')) = cfg" for dir h'
    using start_ok [of env dir s h' "fst (start env dir s h')" "snd (start env dir s h')"] assms(5) by simp
  then show ?thesis using Sync_procs [OF assms(1,2), of env h i] assms(4,5) start_runs [OF _ assms(5)]
    by (auto simp: kept_def keeps_def split: option.splits if_splits)
qed

text \<open>C23. Reconciliation converges from every state the manager can be in, for wanted engines with distinct ids and
  distinct interface names. Afterwards the plugins are exactly the wanted ones, each with the configuration of its
  endpoint, and every engine process on the host is the process of a wanted one. When the operating system does what
  it is asked, every one of them is marked running and every AmneziaWG tunnel of the wanted set has its interface up
  with the configuration of its endpoint; and where interfaces could be deleted all along, no other interface of the
  ids in use is left, save that of a plugin whose wanted engine has no native configuration, which is kept.\<close>

theorem Sync_converges:
  assumes "plug_reach ids dir dels (m, h)" and "inj_on AWGIface ids" and "specs_ok ids specs" and "distinct (map sp_id specs)"
    and "dom (mg_procs m) \<subseteq> set stops" and "sp_id ` set specs \<subseteq> set starts" and "Sync env stops starts specs (m, h) = (m', h')"
  shows "dom (mg_procs m') = sp_id ` set specs \<and> Specs m' = specs \<and>
    (\<forall>s \<in> set specs. \<forall>cfg f. NativeConfig (sp_endpoint s) (sp_socks s) = Some (cfg, f) \<longrightarrow>
       (\<exists>p. mg_procs m' (sp_id s) = Some p \<and> pr_config p = cfg \<and> (working env \<longrightarrow> pr_running p))) \<and>
    (\<forall>pid \<in> h_procs h'. \<exists>s \<in> set specs. owns m' (sp_id s) pid) \<and>
    (working env \<longrightarrow> (\<forall>s \<in> set specs. ep_engine (sp_endpoint s) = EngineAmneziaWG \<longrightarrow>
       iface_ready h' (AWGIface (sp_id s)) (awgConfig (sp_endpoint s)))) \<and>
    (dels \<and> working env \<longrightarrow> (\<forall>i \<in> ids. h_ifaces h' (AWGIface i) \<noteq> None \<longrightarrow>
       (\<exists>s \<in> set specs. sp_id s = i \<and>
          (ep_engine (sp_endpoint s) = EngineAmneziaWG \<or> NativeConfig (sp_endpoint s) (sp_socks s) = None))))"
proof -
  have m': "m' = fst (Sync env stops starts specs (m, h))" using assms(7) by simp
  have "books ids (m, h)" using plug_reach_books [OF assms(1,2)] by simp
  then have "books ids (m', h')" using Sync_ok [OF _ assms(2,3)] assms(7) by metis
  note native = Sync_native [OF assms(5,6,3), of _ _ _ _ env h, folded m']
  have dom: "dom (mg_procs m') = dom (desired_of specs)"
    using Sync_procs [OF assms(5,6), of env h, folded m']
    by (fastforce simp: kept_def split: option.splits if_splits)
  have nat: "\<exists>p. mg_procs m' (sp_id s) = Some p \<and> pr_config p = cfg \<and> (working env \<longrightarrow> pr_running p)"
    if "s \<in> set specs" "NativeConfig (sp_endpoint s) (sp_socks s) = Some (cfg, f)" for s cfg f
    by (rule native [OF desired_of_spec [OF assms(4) that(1)] that(2)])
  have "iface_ready h' (AWGIface (sp_id s)) (awgConfig (sp_endpoint s))"
    if w: "working env" and s: "s \<in> set specs" and awg: "ep_engine (sp_endpoint s) = EngineAmneziaWG" for s
  proof -
    have n: "NativeConfig (sp_endpoint s) (sp_socks s) = Some (awgConfig (sp_endpoint s), ep_id (sp_endpoint s) @ ''.conf'')"
      using awg by (simp add: NativeConfig_def)
    obtain p where p: "mg_procs m' (sp_id s) = Some p" "pr_config p = awgConfig (sp_endpoint s)" "pr_running p"
      using nat [OF s n] w by auto
    have "proc_ok h' (sp_id s) p" using \<open>books ids (m', h')\<close> by (intro plug_ok_proc [OF _ p(1)]) simp
    then show ?thesis using p(2,3) NativeConfig_bracket [OF n] awg by (auto simp: proc_ok_def)
  qed
  moreover have "\<exists>s \<in> set specs. owns m' (sp_id s) pid" if "pid \<in> h_procs h'" for pid
  proof -
    have "plug_ok m' h'" using \<open>books ids (m', h')\<close> by simp
    then have "\<exists>i. owns m' i pid" using plug_okD(1) [of m' h' pid] that by blast
    then obtain i where i: "owns m' i pid" by blast
    then have "i \<in> dom (mg_procs m')" by (auto simp: owns_def split: option.splits)
    with dom i show ?thesis by (auto simp: dom_desired)
  qed
  moreover have "\<exists>s \<in> set specs. sp_id s = i \<and> (ep_engine (sp_endpoint s) = EngineAmneziaWG \<or> NativeConfig (sp_endpoint s) (sp_socks s) = None)"
    if d: "dels" "working env" and i: "i \<in> ids" "h_ifaces h' (AWGIface i) \<noteq> None" for i
  proof -
    have "deletes_work env" using d(2) by (simp add: deletes_work_def working_def)
    then have "no_stray ids (m', h')"
      using Sync_stray [OF _ \<open>books ids (m, h)\<close> assms(2) _ assms(3)] plug_reach_books [OF assms(1,2)] d(1) assms(7) by metis
    then obtain p where p: "mg_procs m' i = Some p" "pr_engine p = EngineAmneziaWG" using i by (auto simp: no_stray_def)
    have "i \<in> sp_id ` set specs" using p(1) dom by (auto simp: dom_desired)
    then obtain s where s: "s \<in> set specs" "sp_id s = i" by auto
    have "ep_engine (sp_endpoint s) = EngineAmneziaWG" if n: "NativeConfig (sp_endpoint s) (sp_socks s) = Some (cfg, f)" for cfg f
    proof -
      have "pr_config p = cfg" using nat [OF s(1) n] p(1) s(2) by simp
      moreover have "proc_ok h' i p" using \<open>books ids (m', h')\<close> by (intro plug_ok_proc [OF _ p(1)]) simp
      ultimately show ?thesis using NativeConfig_bracket [OF n] p(2) by (simp add: proc_ok_def)
    qed
    then show ?thesis using s by (cases "NativeConfig (sp_endpoint s) (sp_socks s)") auto
  qed
  ultimately show ?thesis using dom nat by (auto simp: dom_desired Specs_def m' Sync_specs)
qed

subsection \<open>A supervision tick heals\<close>

text \<open>Others' ticks only add processes with fresh numbers.\<close>

definition grows :: "host \<Rightarrow> host \<Rightarrow> bool" where
  "grows h h' = (h_procs h \<subseteq> h_procs h' \<and> (\<forall>pid \<in> h_procs h'. pid \<in> h_procs h \<or> h_next h \<le> pid) \<and> h_next h \<le> h_next h')"

lemma grows_refl [simp]: "grows h h" by (simp add: grows_def)

lemma grows_trans: "grows a b \<Longrightarrow> grows b c \<Longrightarrow> grows a c"
  unfolding grows_def by (meson order.trans subset_iff)

lemma supervise_proc_grows: "grows h (snd (supervise_proc env p h))"
  by (auto simp: grows_def supervise_proc_def relaunchProc_def launchProc_def Let_def split: prod.splits bool.splits)

lemma supervise_fold:
  assumes "distinct xs" and "fold (supervise_one env) xs (m, h) = (m', h')"
  shows "grows h h' \<and>
    (\<forall>j. case mg_procs m j of None \<Rightarrow> mg_procs m' j = None
       | Some p \<Rightarrow> if j \<in> set xs then \<exists>k. grows h k \<and> grows (snd (supervise_proc env p k)) h' \<and> mg_procs m' j = Some (fst (supervise_proc env p k))
                    else mg_procs m' j = Some p)"
  using assms
proof (induction xs arbitrary: m h)
  case Nil
  then show ?case by (simp split: option.splits)
next
  case (Cons i xs)
  obtain m1 h1 where s: "supervise_one env i (m, h) = (m1, h1)" by fastforce
  have f: "fold (supervise_one env) xs (m1, h1) = (m', h')" using Cons.prems s by simp
  have IH: "grows h1 h'" and step: "case mg_procs m1 j of None \<Rightarrow> mg_procs m' j = None
      | Some p \<Rightarrow> if j \<in> set xs then \<exists>k. grows h1 k \<and> grows (snd (supervise_proc env p k)) h' \<and> mg_procs m' j = Some (fst (supervise_proc env p k))
                   else mg_procs m' j = Some p" for j
    using Cons.IH [OF _ f] Cons.prems(1) by auto
  have g: "grows h h1" using s supervise_proc_grows [of h env]
    by (auto simp: supervise_one_def split: option.splits prod.splits) (metis snd_conv)
  have m1: "mg_procs m1 j = (if j = i then map_option (\<lambda>p. fst (supervise_proc env p h)) (mg_procs m i) else mg_procs m j)" for j
    using s by (auto simp: supervise_one_def split: option.splits prod.splits)
  have h1: "h1 = snd (supervise_proc env p h)" if "mg_procs m i = Some p" for p
    using s that by (simp add: supervise_one_def split: prod.splits)
  have "case mg_procs m j of None \<Rightarrow> mg_procs m' j = None
      | Some p \<Rightarrow> if j \<in> set (i # xs) then \<exists>k. grows h k \<and> grows (snd (supervise_proc env p k)) h' \<and> mg_procs m' j = Some (fst (supervise_proc env p k))
                   else mg_procs m' j = Some p" for j
  proof (cases "j = i")
    case True
    have "i \<notin> set xs" using Cons.prems(1) by simp
    then show ?thesis using True step [of i] m1 [of i] h1 IH
      by (cases "mg_procs m i") (auto intro!: exI [of _ h])
  next
    case False
    show ?thesis
    proof (cases "mg_procs m j")
      case (Some p)
      then have "mg_procs m1 j = Some p" using m1 [of j] False by simp
      with step [of j] False Some grows_trans [OF g] show ?thesis by (simp split: if_splits) blast
    qed (use step [of j] m1 [of j] False in simp)
  qed
  then show ?case using grows_trans [OF g IH] by blast
qed

text \<open>C38. A supervision tick heals the plugins, from every state the manager can be in (with distinct interface
  names): when it gets the lock and visits every plugin, the plugins stay the same, and afterwards every plugin other than AmneziaWG that is
  marked running has its process on the host. In detail, for a plugin under supervision: one whose process is alive
  keeps it and has its crash count and wait cleared; one without a live process waits one tick less while it waits;
  and else, when its binary is found and can be run, it has a new process, one more restart, and the wait that goes
  with the number of restarts.\<close>

theorem Supervise_heals:
  assumes "plug_reach ids dir dels (m, h)" and "inj_on AWGIface ids" and "distinct order" and "dom (mg_procs m) \<subseteq> set order"
    and "Supervise env False order (m, h) = (m', h')"
  shows "dom (mg_procs m') = dom (mg_procs m) \<and>
    (\<forall>i p'. mg_procs m' i = Some p' \<longrightarrow> pr_engine p' \<noteq> EngineAmneziaWG \<longrightarrow> pr_running p' \<longrightarrow> (\<exists>pid \<in> h_procs h'. owns m' i pid)) \<and>
    (\<forall>i p. mg_procs m i = Some p \<longrightarrow> pr_managed p \<longrightarrow>
       (\<exists>p'. mg_procs m' i = Some p' \<and>
         (if pr_running p \<and> \<not> procDied p h then pr_running p' \<and> pr_cmd p' = pr_cmd p \<and> pr_restarts p' = 0 \<and> pr_cooldown p' = 0
          else if pr_cooldown p > 0 then \<not> pr_running p' \<and> pr_cooldown p' = pr_cooldown p - 1
          else en_bin env (pr_binName p) \<and> en_spawn env (pr_binName p) (pr_runArgs p) \<longrightarrow>
            pr_running p' \<and> (\<exists>pid \<in> h_procs h' - h_procs h. pr_cmd p' = Some pid) \<and>
            pr_restarts p' = pr_restarts p + 1 \<and> pr_cooldown p' = pluginBackoffTicks (pr_restarts p + 1))))"
proof -
  have ok: "plug_ok m h" using plug_reach_books [OF assms(1,2)] by simp
  have f: "fold (supervise_one env) order (m, h) = (m', h')" using assms(5) by (simp add: Supervise_def)
  note sf = supervise_fold [OF assms(3) f]
  have some: "\<exists>k. grows h k \<and> grows (snd (supervise_proc env p k)) h' \<and> mg_procs m' i = Some (fst (supervise_proc env p k))"
    if "mg_procs m i = Some p" for i p
  proof -
    have "i \<in> set order" using that assms(4) by auto
    then show ?thesis using conjunct2 [OF sf, THEN spec, of i] that by simp
  qed
  have none: "mg_procs m' i = None" if "mg_procs m i = None" for i
    using conjunct2 [OF sf, THEN spec, of i] that by simp
  have died: "procDied p k = procDied p h" if "mg_procs m i = Some p" "grows h k" for i p k
  proof -
    have "pid < h_next h" if "pr_cmd p = Some pid" for pid
      using plug_okD(2) [OF ok, of i pid] that \<open>mg_procs m i = Some p\<close> by (simp add: owns_def)
    then show ?thesis using that(2) by (auto simp: procDied_def grows_def split: option.splits)
  qed
  have dom: "dom (mg_procs m') = dom (mg_procs m)"
  proof (rule set_eqI)
    fix i show "i \<in> dom (mg_procs m') \<longleftrightarrow> i \<in> dom (mg_procs m)"
      using some [of i] none [of i] by (cases "mg_procs m i") auto
  qed
  have run: "\<exists>pid \<in> h_procs h'. pr_cmd p' = Some pid"
    if "mg_procs m' i = Some p'" "pr_engine p' \<noteq> EngineAmneziaWG" "pr_running p'" for i p'
  proof -
    have "mg_procs m i \<noteq> None" using none [of i] that(1) by auto
    then obtain p where p: "mg_procs m i = Some p" by blast
    obtain k where k: "grows h k" "grows (snd (supervise_proc env p k)) h'" "p' = fst (supervise_proc env p k)"
      using some [OF p] \<open>mg_procs m' i = Some p'\<close> by auto
    have "proc_ok h i p" by (rule plug_ok_proc [OF ok p])
    then have "\<exists>pid \<in> h_procs (snd (supervise_proc env p k)). pr_cmd p' = Some pid"
      using that(2,3) k(3)
      by (auto simp: supervise_proc_def relaunchProc_def launchProc_def proc_ok_def procDied_def Let_def split: if_splits)
    then show ?thesis using k(2) by (auto simp: grows_def)
  qed
  have detail: "\<exists>p'. mg_procs m' i = Some p' \<and>
         (if pr_running p \<and> \<not> procDied p h then pr_running p' \<and> pr_cmd p' = pr_cmd p \<and> pr_restarts p' = 0 \<and> pr_cooldown p' = 0
          else if pr_cooldown p > 0 then \<not> pr_running p' \<and> pr_cooldown p' = pr_cooldown p - 1
          else en_bin env (pr_binName p) \<and> en_spawn env (pr_binName p) (pr_runArgs p) \<longrightarrow>
            pr_running p' \<and> (\<exists>pid \<in> h_procs h' - h_procs h. pr_cmd p' = Some pid) \<and>
            pr_restarts p' = pr_restarts p + 1 \<and> pr_cooldown p' = pluginBackoffTicks (pr_restarts p + 1))"
    if p: "mg_procs m i = Some p" "pr_managed p" for i p
  proof -
    obtain k where k: "grows h k" "grows (snd (supervise_proc env p k)) h'" "mg_procs m' i = Some (fst (supervise_proc env p k))"
      using some [OF p(1)] by blast
    have d: "procDied p k = procDied p h" by (rule died [OF p(1) k(1)])
    have old: "pid < h_next h" if "pid \<in> h_procs h" for pid
      using plug_okD(1) [OF ok that] plug_okD(2) [OF ok] by blast
    have new: "h_next k \<notin> h_procs h" using old k(1) by (fastforce simp: grows_def)
    show ?thesis
      using p(2) k(2,3) d new
      by (auto simp: supervise_proc_def relaunchProc_def launchProc_def grows_def Let_def)
  qed
  show ?thesis using dom run detail by (auto simp: owns_def)
qed

subsection \<open>Configurations are not closed\<close>

definition awg_endpoint :: endpoint where
  "awg_endpoint = base_endpoint\<lparr>ep_id := ''awg1'', ep_engine := EngineAmneziaWG, ep_protocol := ProtoAmneziaWG,
     ep_params := [''private_key'' \<mapsto> PStr ''K1'', ''peer_public_key'' \<mapsto> PStr ''K2'']\<rparr>"

definition junk_endpoint :: endpoint where
  "junk_endpoint = awg_endpoint\<lparr>ep_params := (ep_params awg_endpoint)(''jc'' \<mapsto> PStr (''4'' @ newline @ ''[Peer]'' @ newline @ ''PublicKey = K3''))\<rparr>"

definition dotted_endpoint :: endpoint where
  "dotted_endpoint = awg_endpoint\<lparr>ep_id := ''../../dropbear/x''\<rparr>"

definition alone :: "endpoint \<Rightarrow> profile" where
  "alone e = \<lparr>endpoints = [e], groups = [], rules = [], routing_lists = []\<rparr>"

lemma gap_profiles_valid: "Validate (alone junk_endpoint) = None" "Validate (alone dotted_endpoint) = None"
  by code_simp+

lemma junk_lines: "''PublicKey = K3'' \<in> set (split_on (CHR 0x0A) (awgStrip (awgConfig junk_endpoint)))"
  by code_simp

lemma dotted_path: "path_join ''/etc/velinx/plugins'' (ep_id dotted_endpoint @ ''.conf'') = ''/etc/dropbear/x.conf''"
  by code_simp

text \<open>Two values of a valid profile that reach further than the code means to let them: a parameter of the junk
  packets with line breaks puts a peer of its choosing into the configuration that \<^verbatim>\<open>awg setconf\<close> loads, although keys are cut
  at control characters to prevent exactly that; and an endpoint id with dots makes the manager write the
  configuration file, and later delete it, outside its directory.\<close>

theorem plugin_config_gaps:
  "Validate (alone junk_endpoint) = None \<and> ''PublicKey = K3'' \<in> set (split_on (CHR 0x0A) (awgStrip (awgConfig junk_endpoint))) \<and>
   Validate (alone dotted_endpoint) = None \<and>
   pr_cfgPath (fst (start env ''/etc/velinx/plugins'' \<lparr>sp_id = ep_id dotted_endpoint, sp_endpoint = dotted_endpoint, sp_socks = 0\<rparr> h)) = ''/etc/dropbear/x.conf''"
proof -
  have "pr_cfgPath (fst (start env dir s h)) = path_join dir f" if "NativeConfig (sp_endpoint s) (sp_socks s) = Some (cfg, f)" for dir s cfg f
    using that by (auto simp: start_def start_engine_def launch_engine_def launchProc_def Let_def case_prod_beta split: bool.splits sum.splits)
  then show ?thesis using gap_profiles_valid junk_lines dotted_path
    by (simp add: NativeConfig_def) (simp add: dotted_endpoint_def awg_endpoint_def)
qed

subsection \<open>Witnesses\<close>

definition good_env :: plug_env where
  "good_env = \<lparr>en_bin = \<lambda>_. True, en_write = \<lambda>_. WriteOk, en_remove = \<lambda>_. True, en_spawn = \<lambda>_ _. True, en_del = \<lambda>_. True,
     en_add = \<lambda>_. True, en_setconf = \<lambda>_ _. True, en_addr = \<lambda>_ _. True, en_mtu = \<lambda>_ _. True, en_up = \<lambda>_. True\<rparr>"

definition empty_host :: host where
  "empty_host = \<lparr>h_files = Map.empty, h_ifaces = Map.empty, h_procs = {}, h_next = 0\<rparr>"

definition awg_spec :: spec where
  "awg_spec = \<lparr>sp_id = ''awg1'', sp_endpoint = awg_endpoint, sp_socks = 0\<rparr>"

lemma boot_reach: "plug_reach {''awg1''} ''d'' True (new_manager ''d'', empty_host)"
  by (rule pr_boot) (simp_all add: empty_host_def)

lemma good_deletes: "deletes_work good_env"
  by (simp add: deletes_work_def good_env_def)

lemma awg_specs_ok: "specs_ok {''awg1''} [awg_spec]"
  by (simp add: specs_ok_def awg_spec_def awg_endpoint_def)

theorem plugins_accounted_witness:
  "\<exists>m h p. plug_reach {''awg1''} ''d'' True (m, h) \<and> mg_procs m ''awg1'' = Some p \<and> pr_running p \<and>
     pr_iface p = AWGIface ''awg1'' \<and> iface_ready h (AWGIface ''awg1'') (pr_config p)"
proof -
  obtain m h where s: "Sync good_env [] [''awg1''] [awg_spec] (new_manager ''d'', empty_host) = (m, h)" by fastforce
  have reach: "plug_reach {''awg1''} ''d'' True (m, h)"
    using pr_sync [OF boot_reach awg_specs_ok, of good_env "[]" "[''awg1'']"] good_deletes by (simp add: s)
  have des: "desired_of [awg_spec] ''awg1'' = Some awg_spec" "sp_id awg_spec = ''awg1''" by (simp_all add: desired_of_def awg_spec_def)
  have w: "working good_env" by (simp add: working_def good_env_def)
  obtain cfg f where n: "NativeConfig (sp_endpoint awg_spec) (sp_socks awg_spec) = Some (cfg, f)"
    by (simp add: awg_spec_def awg_endpoint_def NativeConfig_def)
  obtain p where p: "mg_procs m ''awg1'' = Some p" "pr_running p" "pr_config p = cfg"
    using Sync_native [of "new_manager ''d''" "[]" "[awg_spec]" "[''awg1'']" "{''awg1''}" "''awg1''" awg_spec cfg f good_env empty_host] s w n awg_specs_ok
    by (auto simp: new_manager_def des)
  have "pr_engine p = EngineAmneziaWG"
    using plug_ok_proc [of m h "''awg1''" p] plug_reach_books [OF reach] p NativeConfig_bracket [OF n]
    by (auto simp: proc_ok_def awg_spec_def awg_endpoint_def)
  then have "pr_iface p = AWGIface ''awg1'' \<and> iface_ready h (AWGIface ''awg1'') (pr_config p)"
    using plugins_accounted [OF reach] p(1,2) by simp
  with reach p(1,2) show ?thesis by blast
qed

text \<open>An nfqws engine is started, dies, and is there again after the next tick.\<close>

definition nfqws_spec :: spec where
  "nfqws_spec = \<lparr>sp_id = ''nf'', sp_endpoint = base_endpoint\<lparr>ep_id := ''nf'', ep_engine := EngineNfqws\<rparr>, sp_socks = 0\<rparr>"

theorem Supervise_heals_witness:
  "\<exists>m h m' h' pid. plug_reach {''nf''} ''d'' False (m, h) \<and> h_procs h = {} \<and>
     Supervise good_env False [''nf''] (m, h) = (m', h') \<and> owns m' ''nf'' pid \<and> pid \<in> h_procs h'"
proof -
  let ?st = "Sync good_env [] [''nf''] [nfqws_spec] (new_manager ''d'', empty_host)"
  have r: "plug_reach {''nf''} ''d'' False ?st"
    by (intro pr_sync pr_boot) (simp_all add: empty_host_def specs_ok_def nfqws_spec_def)
  define m where "m = fst ?st"
  define h where "h = proc_exit 0 (snd ?st)"
  have reach: "plug_reach {''nf''} ''d'' False (m, h)"
    using pr_exit [of "{''nf''}" "''d''" False m "snd ?st" 0] r by (simp add: m_def h_def)
  have des: "desired_of [nfqws_spec] ''nf'' = Some nfqws_spec" by (simp add: desired_of_def nfqws_spec_def)
  obtain p k where k: "start good_env ''d'' nfqws_spec empty_host = (p, k)" by fastforce
  have "pr_managed (fst (start good_env ''d'' nfqws_spec empty_host))" "pr_cmd (fst (start good_env ''d'' nfqws_spec empty_host)) = Some 0"
    "pr_cooldown (fst (start good_env ''d'' nfqws_spec empty_host)) = 0" "h_procs (snd (start good_env ''d'' nfqws_spec empty_host)) = {0}"
    by code_simp+
  then have pk: "pr_managed p" "pr_cmd p = Some 0" "pr_cooldown p = 0" "h_procs k = {0}" by (simp_all add: k)
  have s0: "?st = (\<lparr>mg_dir = ''d'', mg_procs = [''nf'' \<mapsto> p], mg_specs = [nfqws_spec]\<rparr>, k)"
    by (simp add: Sync_def sync_start_def new_manager_def des k)
  have st: "mg_procs m = [''nf'' \<mapsto> p]" "h_procs h = {}" by (simp_all add: m_def h_def s0 proc_exit_def pk)
  have p: "mg_procs m ''nf'' = Some p" by (simp add: st)
  obtain m' h' where s: "Supervise good_env False [''nf''] (m, h) = (m', h')" by fastforce
  have "procDied p h" using pk(2) st(2) by (simp add: procDied_def)
  have "inj_on AWGIface {''nf''}" "distinct [''nf'']" "dom (mg_procs m) \<subseteq> set [''nf'']" by (simp_all add: st)
  note heals = Supervise_heals [OF reach this s]
  obtain p' where p': "mg_procs m' ''nf'' = Some p'" "\<exists>pid \<in> h_procs h' - h_procs h. pr_cmd p' = Some pid"
    using heals [THEN conjunct2, THEN conjunct2, THEN spec, THEN spec, THEN mp, OF p, THEN mp, OF pk(1)] \<open>procDied p h\<close> pk(3)
    by (auto simp: good_env_def)
  then have "\<exists>pid \<in> h_procs h'. owns m' ''nf'' pid" by (auto simp: owns_def)
  with reach st(2) s show ?thesis by blast
qed

theorem Sync_converges_witness:
  "\<exists>m h. Sync good_env [] [''awg1''] [awg_spec] (new_manager ''d'', empty_host) = (m, h) \<and> dom (mg_procs m) = {''awg1''} \<and>
     iface_ready h (AWGIface ''awg1'') (awgConfig awg_endpoint)"
proof -
  obtain m h where s: "Sync good_env [] [''awg1''] [awg_spec] (new_manager ''d'', empty_host) = (m, h)" by fastforce
  have w: "working good_env" by (simp add: working_def good_env_def)
  have eng: "ep_engine (sp_endpoint awg_spec) = EngineAmneziaWG" "sp_id awg_spec = ''awg1''" "sp_endpoint awg_spec = awg_endpoint"
    by (simp_all add: awg_spec_def awg_endpoint_def)
  from Sync_converges [OF boot_reach _ awg_specs_ok _ _ _ s] w eng s show ?thesis by (auto simp: new_manager_def)
qed

end
