(* ===== verification/Server_Apply_Spec.thy ===== *)
theory Server_Apply_Spec
  imports Server_Apply Plugin_Spec
begin

text \<open>
  What an Apply and its rollback do to the whole server: a refused Apply changes nothing that is live, a finished one
  has changed every plane, and a rollback returns every plane to the state before the window was opened, however
  many Applies the window has seen. The exceptions are an Apply whose kernel plan cannot be installed, and windows
  without the core.
\<close>

subsection \<open>Copies of the configuration\<close>

lemma copyFile_frame:
  "q \<noteq> dst \<Longrightarrow> q \<noteq> dst @ ''.tmp'' \<Longrightarrow> read_file q (fst (copyFile nil rf w src dst f)) = read_file q f"
  by (auto simp: copyFile_def cell_write_def read_Write_other split: option.splits prod.splits)

lemma snapshot_copies:
  "read_file config (fst (Backup nil rf w config f)) = read_file config f"
  "read_file (config @ ''.tmp'') (fst (Backup nil rf w config f)) = read_file (config @ ''.tmp'') f"
  "read_file config (fst (Commit nil rf w config f)) = read_file config f"
  "read_file (config @ ''.bak'') (fst (Restore nil rf w config f)) = read_file (config @ ''.bak'') f"
  by (simp_all add: Backup_def Commit_def Restore_def copyFile_frame Let_def)

lemma Backup_ok:
  assumes "snd (Backup nil rf w config f) = None" and "read_file config f = Some d"
  shows "read_file (config @ ''.bak'') (fst (Backup nil rf w config f)) = Some d"
proof -
  have "cur f config \<noteq> None" using assms(2) by (auto simp: read_file_def)
  then show ?thesis using copyFile_ok [of nil rf w config "config @ ''.bak''" f] assms by (auto simp: Backup_def)
qed

lemma Restore_ok:
  "snd (Restore nil rf w config f) = None \<Longrightarrow> read_file config (fst (Restore nil rf w config f)) = read_file (config @ ''.bak'') f"
  using copyFile_ok [of nil rf w "config @ ''.bak''" config f] by (auto simp: Restore_def Let_def split: if_splits)

lemma read_after_staging:
  assumes "WriteSynced nil w (config @ ''.tmp'') d f = (tr, e)"
  shows "q \<noteq> config @ ''.tmp'' \<Longrightarrow> read_file q (last tr) = read_file q f"
    and "e = None \<Longrightarrow> read_file (config @ ''.tmp'') (last tr) = Some d"
  using WriteSynced_last [OF assms, of q] WriteSynced_ok [of nil w "config @ ''.tmp''" d f tr] assms
  by (auto simp: read_file_def)

lemma read_moves [simp]:
  "q \<noteq> p \<Longrightarrow> read_file q (remove_file p f) = read_file q f"
  "b \<noteq> a \<Longrightarrow> read_file b (rename_file a b f) = read_file a f"
  "q \<noteq> a \<Longrightarrow> q \<noteq> b \<Longrightarrow> read_file q (rename_file a b f) = read_file q f"
  "read_file q (SyncDir w f) = read_file q f"
  by (simp_all add: read_file_def rename_file_def)

subsection \<open>The phases\<close>

text \<open>What a phase leaves of the live state.\<close>

definition same_live :: "path \<Rightarrow> 'w server \<Rightarrow> 'w server \<Rightarrow> bool" where
  "same_live config s s' =
     (read_file config (sv_fs s') = read_file config (sv_fs s) \<and> sv_core s' = sv_core s \<and>
      ps_plan (sv_pbr s') = ps_plan (sv_pbr s) \<and> ps_world (sv_pbr s') = ps_world (sv_pbr s) \<and> sv_plug s' = sv_plug s \<and>
      sv_failsafe s' = sv_failsafe s \<and> sv_profile s' = sv_profile s \<and> sv_window_native s' = sv_window_native s)"

text \<open>The rollback targets: the state of \<^verbatim>\<open>s0\<close>.\<close>

definition rollback_targets :: "path \<Rightarrow> 'w server \<Rightarrow> 'w server \<Rightarrow> bool" where
  "rollback_targets config s0 s =
     (read_file (config @ ''.bak'') (sv_fs s) = read_file config (sv_fs s0) \<and> ps_baseline (sv_pbr s) = ps_plan (sv_pbr s0) \<and>
      sv_plugin_baseline s = Specs (fst (sv_plug s0)))"

lemma snapshot_live:
  assumes "snapshot_baselines env config s = (e, s')"
  shows "same_live config s s'" and "read_file (config @ ''.tmp'') (sv_fs s') = read_file (config @ ''.tmp'') (sv_fs s)"
    and "pending (sv_failsafe s) \<Longrightarrow> s' = s"
    and "\<not> pending (sv_failsafe s) \<Longrightarrow> e = None \<Longrightarrow> read_file config (sv_fs s) = Some d \<Longrightarrow> rollback_targets config s s'"
  using assms snapshot_copies(1,2) [of config None "fst (ae_backup env)" "snd (ae_backup env)" "sv_fs s"]
    Backup_ok [of None "fst (ae_backup env)" "snd (ae_backup env)" config "sv_fs s" d]
  by (auto simp: snapshot_baselines_def same_live_def rollback_targets_def snapshotPBRBaseline_def split: if_splits prod.splits)

lemma same_live_fs: "read_file config f = read_file config (sv_fs s) \<Longrightarrow> same_live config s (s\<lparr>sv_fs := f\<rparr>)"
  by (simp add: same_live_def)

lemma same_live_trans: "same_live config s s' \<Longrightarrow> same_live config s' s'' \<Longrightarrow> same_live config s s''"
  by (simp add: same_live_def)

lemma rollback_targets_fs:
  "read_file (config @ ''.bak'') f = read_file (config @ ''.bak'') (sv_fs s) \<Longrightarrow> rollback_targets config s0 (s\<lparr>sv_fs := f\<rparr>) = rollback_targets config s0 s"
  by (simp add: rollback_targets_def)

lemma rollback_targets_cong: "same_live config s s' \<Longrightarrow> rollback_targets config s' = rollback_targets config s"
  by (rule ext) (simp add: same_live_def rollback_targets_def)

definition core_result :: "apply_env \<Rightarrow> path \<Rightarrow> jobj \<Rightarrow> 'w server \<Rightarrow> (refusal, progress) res \<Rightarrow> 'w server \<Rightarrow> bool" where
  "core_result env config cfg s r s' =
   (case r of
      Inl _ \<Rightarrow> same_live config s s'
    | Inr ph \<Rightarrow> same_live config s (s'\<lparr>sv_fs := sv_fs s, sv_core := sv_core s\<rparr>) \<and>
        read_file config (sv_fs s') = Some (Some cfg) \<and>
        sv_core s' = snd (bring_up (ae_available env) (ae_core env) (ae_now env) (sv_core s)) \<and>
        (\<not> pending (sv_failsafe s) \<longrightarrow> ph_backup_err ph = None \<longrightarrow> read_file config (sv_fs s) \<noteq> None \<longrightarrow> rollback_targets config s s'))"

text \<open>The core phase ends refused, with nothing live changed, or with the new configuration in place and the core
  brought up on it. The rollback targets are set when no window is open and left alone otherwise.\<close>

lemma core_phase_result:
  assumes "core_phase env config cfg s = (r, s')"
  shows "core_result env config cfg s r s'"
    and "pending (sv_failsafe s) \<Longrightarrow> rollback_targets config s0 s \<Longrightarrow> rollback_targets config s0 s'"
proof -
  let ?tmp = "config @ ''.tmp''"
  obtain tr e where w: "WriteSynced None (ae_write env) ?tmp (Some cfg) (sv_fs s) = (tr, e)" by fastforce
  note reads = read_after_staging [OF w]
  define s1 where "s1 = s\<lparr>sv_fs := last tr\<rparr>"
  obtain berr s2 where sn: "snapshot_baselines env config s1 = (berr, s2)" by fastforce
  have live1: "same_live config s s1" unfolding s1_def by (rule same_live_fs) (simp add: reads(1))
  have live2: "same_live config s s2" using same_live_trans [OF live1 snapshot_live(1) [OF sn]] .
  have tmp2: "e = None \<Longrightarrow> read_file ?tmp (sv_fs s2) = Some (Some cfg)"
    using snapshot_live(2) [OF sn] reads(2) by (simp add: s1_def)
  have keep1: "rollback_targets config s0 s1 = rollback_targets config s0 s" for s0 unfolding s1_def by (rule rollback_targets_fs) (simp add: reads(1))
  have new2: "rollback_targets config s s2" if "\<not> pending (sv_failsafe s)" "berr = None" "read_file config (sv_fs s) \<noteq> None"
    using snapshot_live(4) [OF sn] that rollback_targets_cong [OF live1] by (auto simp: s1_def reads(1))
  have keep2: "rollback_targets config s0 s2" if "pending (sv_failsafe s)" "rollback_targets config s0 s" for s0
    using snapshot_live(3) [OF sn] that keep1 by (auto simp: s1_def)
  note def = core_phase_def Let_def w s1_def [symmetric] sn
  consider "ae_mkdir_fails env" "r = Inl IoFailed" "s' = s"
    | "e \<noteq> None" "r = Inl IoFailed" "s' = s1"
    | "e = None" "r = Inl CheckRejected" "s' = s1\<lparr>sv_fs := remove_file ?tmp (sv_fs s1)\<rparr>"
    | "e = None" "r = Inl IoFailed" "s' = s2"
    | ph where "e = None" "r = Inr ph" "ph_backup_err ph = berr"
      "s' = s2\<lparr>sv_fs := SyncDir (ae_write env) (rename_file ?tmp config (sv_fs s2)),
               sv_core := snd (bring_up (ae_available env) (ae_core env) (ae_now env) (sv_core s2))\<rparr>"
    using assms by (cases e) (auto simp: def split: if_splits prod.splits)
  then have *: "core_result env config cfg s r s' \<and>
      (pending (sv_failsafe s) \<longrightarrow> rollback_targets config s0 s \<longrightarrow> rollback_targets config s0 s')"
  proof cases
    case 1
    then show ?thesis by (simp add: core_result_def same_live_def)
  next
    case 2
    then show ?thesis using live1 keep1 by (simp add: core_result_def)
  next
    case 3
    then show ?thesis using same_live_trans [OF live1 same_live_fs] keep1 by (simp add: core_result_def rollback_targets_fs)
  next
    case 4
    then show ?thesis using live2 keep2 by (simp add: core_result_def)
  next
    case 5
    let ?f = "SyncDir (ae_write env) (rename_file ?tmp config (sv_fs s2))"
    have f: "read_file config ?f = Some (Some cfg)" "read_file (config @ ''.bak'') ?f = read_file (config @ ''.bak'') (sv_fs s2)"
      using tmp2 5(1) by simp_all
    have core: "sv_core s2 = sv_core s" using live2 by (simp add: same_live_def)
    have tg: "rollback_targets config t s' = rollback_targets config t s2" for t unfolding 5(4) by (simp add: rollback_targets_def f)
    have "same_live config s (s'\<lparr>sv_fs := sv_fs s, sv_core := sv_core s\<rparr>)" using live2 by (simp add: 5(4) same_live_def)
    moreover have "read_file config (sv_fs s') = Some (Some cfg)" by (simp add: 5(4) tmp2 [OF 5(1)])
    moreover have "sv_core s' = snd (bring_up (ae_available env) (ae_core env) (ae_now env) (sv_core s))" by (simp add: 5(4) core)
    ultimately show ?thesis using 5(2,3) new2 keep2 by (simp add: core_result_def tg)
  qed
  then show "core_result env config cfg s r s'" by blast
  from * show "pending (sv_failsafe s) \<Longrightarrow> rollback_targets config s0 s \<Longrightarrow> rollback_targets config s0 s'" by blast
qed

subsection \<open>One Apply\<close>

definition apply_opts :: "apply_env \<Rightarrow> config \<Rightarrow> 'w server \<Rightarrow> gen_options" where
  "apply_opts env c s = fst (genOptionsWithPlan (ae_probed env) (sv_profile s) c)"

definition apply_plan :: "apply_env \<Rightarrow> config \<Rightarrow> 'w server \<Rightarrow> plan option" where
  "apply_plan env c s = snd (genOptionsWithPlan (ae_probed env) (sv_profile s) c)"

abbreviation nativeVerdict :: "config \<Rightarrow> 'w server \<Rightarrow> bool" where
  "nativeVerdict c s \<equiv> DatapathNativeOnly (sv_profile s) (routingMode c)"

lemma Specs_Sync [simp]: "Specs (fst (Sync env stops starts specs st)) = specs"
  by (simp add: Specs_def Sync_specs)

lemma applyPBR_plan:
  "fst (applyPBR run np s) = None \<Longrightarrow> ps_plan (snd (applyPBR run np s)) = np"
  "ps_baseline (snd (applyPBR run np s)) = ps_baseline s"
  by (cases np; auto simp: applyPBR_def Let_def split: if_splits option.splits prod.splits)+

text \<open>Everything after the core phase.\<close>

definition after_phase :: "('e, 'w) runner \<Rightarrow> apply_env \<Rightarrow> config \<Rightarrow> path \<Rightarrow> bool \<Rightarrow> progress \<Rightarrow> plugin list \<Rightarrow> plan option \<Rightarrow> 'w server \<Rightarrow> 'e response \<times> 'w server" where
  "after_phase run env c config nativeOnly ph plugins np s1 =
     (let s2 = syncPluginsFor env plugins s1 in
      case (if cf_demo c then (None, sv_pbr s2) else applyPBR run np (sv_pbr s2)) of (perr, pb) \<Rightarrow>
        (let s3 = s2\<lparr>sv_pbr := pb\<rparr> in
         case perr of
           Some err \<Rightarrow> if \<not> ae_save env then abort_apply run env config err s3 else finish_apply env c config nativeOnly ph perr s3
         | None \<Rightarrow> finish_apply env c config nativeOnly ph perr s3))"

lemma handleApply_cases:
  assumes "handleApply run env c config s = (resp, s')"
  obtains (refused) err where "resp = Refused (BadProfile err)" "s' = s"
  | (failed) cfg plugins r where "\<not> nativeVerdict c s" "core_phase env config cfg s = (Inl r, s')" "resp = Refused r"
      "Generate (sv_profile s) (apply_opts env c s) = Inr (cfg, plugins)"
  | (went) cfg plugins ph s1 where "Generate (sv_profile s) (apply_opts env c s) = Inr (cfg, plugins)"
      "(if nativeVerdict c s then native_phase env config s else core_phase env config cfg s) = (Inr ph, s1)"
      "after_phase run env c config (nativeVerdict c s) ph plugins (apply_plan env c s) s1 = (resp, s')"
proof -
  obtain opts np where o: "genOptionsWithPlan (ae_probed env) (sv_profile s) c = (opts, np)" by fastforce
  have defs: "apply_opts env c s = opts" "apply_plan env c s = np" by (simp_all add: apply_opts_def apply_plan_def o)
  show thesis
  proof (cases "Generate (sv_profile s) opts")
    case (Inl err)
    then show thesis using assms refused by (auto simp: handleApply_def o Let_def)
  next
    case (Inr x)
    obtain cfg plugins where x: "x = (cfg, plugins)" by (cases x)
    obtain r s1 where ph: "(if nativeVerdict c s then native_phase env config s else core_phase env config cfg s) = (r, s1)" by fastforce
    show thesis
    proof (cases r)
      case (Inl q)
      then have "\<not> nativeVerdict c s" using ph by (auto simp: native_phase_def split: if_splits prod.splits)
      then show thesis using failed [of cfg q plugins] assms Inl Inr x ph defs by (simp add: handleApply_def o Let_def)
    next
      case ok: (Inr p)
      then show thesis using went [of cfg plugins p s1] assms Inr x ph defs by (simp add: handleApply_def after_phase_def o Let_def)
    qed
  qed
qed

text \<open>What the Apply comes to once its parts are known.\<close>

lemma handleApply_runs:
  assumes "Generate (sv_profile s) (apply_opts env c s) = Inr (cfg, plugins)"
    and "(if nativeVerdict c s then native_phase env config s else core_phase env config cfg s) = (Inr ph, s1)"
  shows "handleApply run env c config s = after_phase run env c config (nativeVerdict c s) ph plugins (apply_plan env c s) s1"
proof -
  obtain opts np where o: "genOptionsWithPlan (ae_probed env) (sv_profile s) c = (opts, np)" by fastforce
  show ?thesis using assms by (simp add: handleApply_def after_phase_def apply_opts_def apply_plan_def o Let_def)
qed

lemma after_phase_aborts:
  assumes "fst (applyPBR run np (sv_pbr (syncPluginsFor env plugins s1))) = Some err" and "\<not> cf_demo c" and "\<not> ae_save env"
  obtains s3 where "after_phase run env c config nativeOnly ph plugins np s1 = abort_apply run env config err s3" "sv_fs s3 = sv_fs s1"
proof -
  define s2 where "s2 = syncPluginsFor env plugins s1"
  obtain perr pb where k: "applyPBR run np (sv_pbr s2) = (perr, pb)" by fastforce
  with assms(1) have "perr = Some err" by (simp add: s2_def)
  then have "after_phase run env c config nativeOnly ph plugins np s1 = abort_apply run env config err (s2\<lparr>sv_pbr := pb\<rparr>)"
    using assms(2,3) by (simp add: after_phase_def Let_def s2_def [symmetric] k)
  then show thesis by (rule that) (simp add: s2_def syncPluginsFor_def)
qed

lemma phase_result:
  assumes "(if native then native_phase env config s else core_phase env config cfg s) = (Inr ph, s1)"
  shows "same_live config s (s1\<lparr>sv_fs := sv_fs s, sv_core := sv_core s\<rparr>)"
    and "read_file config (sv_fs s1) = (if native then read_file config (sv_fs s) else Some (Some cfg))"
    and "pending (sv_failsafe s) \<Longrightarrow> rollback_targets config s0 s \<Longrightarrow> rollback_targets config s0 s1"
    and "\<not> pending (sv_failsafe s) \<Longrightarrow> ph_backup_err ph = None \<Longrightarrow> read_file config (sv_fs s) \<noteq> None \<Longrightarrow> rollback_targets config s s1"
proof -
  have n: "native \<Longrightarrow> snapshot_baselines env config s = (ph_backup_err ph, s1)"
    using assms by (auto simp: native_phase_def split: prod.splits)
  have c: "\<not> native \<Longrightarrow> core_phase env config cfg s = (Inr ph, s1)" using assms by simp
  show "same_live config s (s1\<lparr>sv_fs := sv_fs s, sv_core := sv_core s\<rparr>)"
    using core_phase_result(1) [OF c] snapshot_live(1) [OF n] by (cases native) (auto simp: core_result_def same_live_def)
  show "read_file config (sv_fs s1) = (if native then read_file config (sv_fs s) else Some (Some cfg))"
    using core_phase_result(1) [OF c] snapshot_live(1) [OF n] by (cases native) (auto simp: core_result_def same_live_def)
  show "pending (sv_failsafe s) \<Longrightarrow> rollback_targets config s0 s \<Longrightarrow> rollback_targets config s0 s1"
    using core_phase_result(2) [OF c] snapshot_live(3) [OF n] by (cases native) auto
  show "\<not> pending (sv_failsafe s) \<Longrightarrow> ph_backup_err ph = None \<Longrightarrow> read_file config (sv_fs s) \<noteq> None \<Longrightarrow> rollback_targets config s s1"
    using core_phase_result(1) [OF c] snapshot_live(4) [OF n] by (cases native) (auto simp: core_result_def)
qed

lemma Stop_down: "\<not> Running (snd (Stop so c))"
  by (auto simp: Stop_def stop_begin_def stop_finish_def process_exit_def Running_def aliveLocked_def Let_def
      split: option.splits kill_result.splits)

lemma stop_native_down: "stopping \<Longrightarrow> \<not> Running (snd (stop_native env stopping cerr c))"
  using Stop_down [of "ce_stop (ae_core2 env)" c] by (auto simp: stop_native_def split: option.splits prod.splits)

lemma restore_frames [simp]: "ps_baseline (restorePBRBaseline run s) = ps_baseline s"
  by (auto simp: restorePBRBaseline_def Let_def split: option.splits prod.splits)

text \<open>A window that nobody has claimed yet, whose closure is its own.\<close>

definition open_window :: "manager \<Rightarrow> bool" where
  "open_window m = (pending m \<and> \<not> dispatched m \<and> rollback m = Some (epoch m))"

definition aborted :: "apply_env \<Rightarrow> path \<Rightarrow> plugin list \<Rightarrow> 'w server \<Rightarrow> cp_err option \<Rightarrow> 'w server \<Rightarrow> bool" where
  "aborted env config plugins s1 rerr s' =
     (\<not> ae_save env \<and> sv_failsafe s' = sv_failsafe s1 \<and> sv_profile s' = sv_profile s1 \<and> sv_window_native s' = sv_window_native s1 \<and>
      Specs (fst (sv_plug s')) = map spec_of plugins \<and> (rerr = None \<longrightarrow> read_file config (sv_fs s') = read_file (config @ ''.bak'') (sv_fs s1)) \<and>
      (\<forall>s0. rollback_targets config s0 s1 \<longrightarrow> rollback_targets config s0 s'))"

definition finished :: "apply_env \<Rightarrow> config \<Rightarrow> path \<Rightarrow> bool \<Rightarrow> progress \<Rightarrow> plugin list \<Rightarrow> plan option \<Rightarrow> 'w server \<Rightarrow> 'e outcome \<Rightarrow> 'w server \<Rightarrow> bool" where
  "finished env c config nativeOnly ph plugins np s1 a s' =
     (ap_saved a = ae_save env \<and> pending (sv_failsafe s') = (\<not> ae_save env) \<and> (\<not> ae_save env \<longrightarrow> open_window (sv_failsafe s')) \<and>
      sv_profile s' = sv_profile s1 \<and>
      (\<not> ae_save env \<longrightarrow> sv_window_native s' = nativeOnly) \<and> ap_backup_err a = ph_backup_err ph \<and>
      Specs (fst (sv_plug s')) = map spec_of plugins \<and> read_file config (sv_fs s') = read_file config (sv_fs s1) \<and>
      (ap_pbr_err a = None \<longrightarrow> \<not> cf_demo c \<longrightarrow> ps_plan (sv_pbr s') = np) \<and>
      (nativeOnly \<and> ap_pbr_err a = None \<longrightarrow> \<not> Running (sv_core s')) \<and> (\<not> nativeOnly \<longrightarrow> sv_core s' = sv_core s1) \<and>
      (\<forall>s0. \<not> ae_save env \<longrightarrow> rollback_targets config s0 s1 \<longrightarrow> rollback_targets config s0 s'))"

lemma finish_result:
  assumes "finish_apply env c config nativeOnly ph perr s = (resp, s')"
  shows "\<exists>a. resp = Done a \<and> ap_pbr_err a = perr \<and> ap_backup_err a = ph_backup_err ph \<and> ap_saved a = ae_save env \<and>
    pending (sv_failsafe s') = (\<not> ae_save env) \<and> (\<not> ae_save env \<longrightarrow> open_window (sv_failsafe s')) \<and> sv_profile s' = sv_profile s \<and> (\<not> ae_save env \<longrightarrow> sv_window_native s' = nativeOnly) \<and>
    sv_plug s' = sv_plug s \<and> sv_pbr s' = sv_pbr s \<and> sv_plugin_baseline s' = sv_plugin_baseline s \<and>
    read_file config (sv_fs s') = read_file config (sv_fs s) \<and> (\<not> ae_save env \<longrightarrow> sv_fs s' = sv_fs s) \<and>
    sv_core s' = snd (stop_native env (nativeOnly \<and> perr = None) (ph_core_err ph) (sv_core s))"
proof -
  obtain cerr c1 where n: "stop_native env (nativeOnly \<and> perr = None) (ph_core_err ph) (sv_core s) = (cerr, c1)" by fastforce
  obtain f e where m: "Commit None (fst (ae_commit env)) (snd (ae_commit env)) config (sv_fs s) = (f, e)" by fastforce
  have f: "read_file config f = read_file config (sv_fs s)"
    using snapshot_copies(3) [of config None "fst (ae_commit env)" "snd (ae_commit env)" "sv_fs s"] by (simp add: m)
  let ?a = "\<lambda>commit. \<lparr>ap_saved = ae_save env, ap_checked = ph_checked ph, ap_reloaded = ph_reloaded ph, ap_backup_err = ph_backup_err ph,
    ap_core_err = cerr, ap_commit_err = commit, ap_pbr_err = perr, ap_warning = fastModeDomainWarning (sv_profile s) (routingMode c)\<rparr>"
  show ?thesis
  proof (cases "ae_save env")
    case True
    then have "resp = Done (?a e)" "s' = s\<lparr>sv_core := c1, sv_fs := f, sv_failsafe := Confirm (sv_failsafe s)\<rparr>"
      using assms by (simp_all add: finish_apply_def n m Let_def)
    with True f show ?thesis by (simp add: Confirm_def n)
  next
    case False
    then have "resp = Done (?a None)"
      "s' = s\<lparr>sv_core := c1, sv_failsafe := snd (Arm (ae_now env) True True (\<not> cf_demo c \<and> ae_auto_reboot env) (sv_failsafe s)),
              sv_window_native := nativeOnly\<rparr>"
      using assms by (simp_all add: finish_apply_def n Let_def)
    with False show ?thesis by (simp add: Arm_def open_window_def n Let_def)
  qed
qed

lemma after_phase_finishes:
  fixes run :: "('e, 'w) runner"
  assumes "fst (applyPBR run np (sv_pbr (syncPluginsFor env plugins s1))) = None"
  obtains a s' where "after_phase run env c config nativeOnly ph plugins np s1 = (Done a, s')" "ap_pbr_err a = None"
    "ap_backup_err a = ph_backup_err ph"
proof -
  define s2 where "s2 = syncPluginsFor env plugins s1"
  obtain pb where k: "(if cf_demo c then (None :: 'e apply_err option, sv_pbr s2) else applyPBR run np (sv_pbr s2)) = (None, pb)"
    using assms by (cases "cf_demo c") (auto simp: s2_def prod_eq_iff)
  obtain resp s' where f: "finish_apply env c config nativeOnly ph (None :: 'e apply_err option) (s2\<lparr>sv_pbr := pb\<rparr>) = (resp, s')" by fastforce
  then have "after_phase run env c config nativeOnly ph plugins np s1 = (resp, s')"
    by (simp add: after_phase_def Let_def s2_def [symmetric] k)
  with finish_result [OF f] show thesis using that by auto
qed

lemma after_phase_result:
  assumes "after_phase run env c config nativeOnly ph plugins np s1 = (resp, s')"
  shows "case resp of
      Refused _ \<Rightarrow> False
    | Aborted e rerr \<Rightarrow> aborted env config plugins s1 rerr s'
    | Done a \<Rightarrow> finished env c config nativeOnly ph plugins np s1 a s'"
proof -
  define s2 where "s2 = syncPluginsFor env plugins s1"
  obtain perr pb where k: "(if cf_demo c then (None, sv_pbr s2) else applyPBR run np (sv_pbr s2)) = (perr, pb)" by fastforce
  define s3 where "s3 = s2\<lparr>sv_pbr := pb\<rparr>"
  have pb: "ps_baseline pb = ps_baseline (sv_pbr s1)" "perr = None \<Longrightarrow> \<not> cf_demo c \<Longrightarrow> ps_plan pb = np"
    using k applyPBR_plan [of run np "sv_pbr s2"] by (auto simp: s2_def syncPluginsFor_def split: if_splits)
  have s3: "sv_fs s3 = sv_fs s1" "sv_core s3 = sv_core s1" "sv_failsafe s3 = sv_failsafe s1" "sv_profile s3 = sv_profile s1"
    "sv_window_native s3 = sv_window_native s1" "sv_plugin_baseline s3 = sv_plugin_baseline s1" "sv_pbr s3 = pb"
    "Specs (fst (sv_plug s3)) = map spec_of plugins"
    by (simp_all add: s3_def s2_def syncPluginsFor_def)
  show ?thesis
  proof (cases "\<exists>err. perr = Some err \<and> \<not> ae_save env")
    case True
    then obtain err where e: "perr = Some err" "\<not> ae_save env" by blast
    then have ab: "abort_apply run env config err s3 = (resp, s')"
      using assms by (simp add: after_phase_def Let_def s2_def [symmetric] k s3_def [symmetric])
    obtain f rerr where r: "Restore None (fst (ae_restore env)) (snd (ae_restore env)) config (sv_fs s1) = (f, rerr)" by fastforce
    have f: "read_file (config @ ''.bak'') f = read_file (config @ ''.bak'') (sv_fs s1)"
      "rerr = None \<Longrightarrow> read_file config f = read_file (config @ ''.bak'') (sv_fs s1)"
      using snapshot_copies(4) [of config None "fst (ae_restore env)" "snd (ae_restore env)" "sv_fs s1"]
        Restore_ok [of None "fst (ae_restore env)" "snd (ae_restore env)" config "sv_fs s1"] by (simp_all add: r)
    have "resp = Aborted err rerr" "sv_fs s' = f" "sv_pbr s' = restorePBRBaseline run pb" "sv_plug s' = sv_plug s3"
      "sv_failsafe s' = sv_failsafe s3" "sv_profile s' = sv_profile s3" "sv_window_native s' = sv_window_native s3"
      "sv_plugin_baseline s' = sv_plugin_baseline s3"
      using ab by (auto simp: abort_apply_def r s3(1,7) Let_def)
    then show ?thesis using e(2) f pb(1) by (simp add: s3 aborted_def rollback_targets_def)
  next
    case False
    then have "finish_apply env c config nativeOnly ph perr s3 = (resp, s')"
      using assms by (auto simp: after_phase_def Let_def s2_def [symmetric] k s3_def [symmetric] split: option.splits)
    from finish_result [OF this] obtain a where a: "resp = Done a" and rest: "ap_pbr_err a = perr" "ap_backup_err a = ph_backup_err ph"
      "ap_saved a = ae_save env" "pending (sv_failsafe s') = (\<not> ae_save env)" "\<not> ae_save env \<longrightarrow> open_window (sv_failsafe s')" "sv_profile s' = sv_profile s3"
      "\<not> ae_save env \<longrightarrow> sv_window_native s' = nativeOnly" "sv_plug s' = sv_plug s3" "sv_pbr s' = sv_pbr s3"
      "sv_plugin_baseline s' = sv_plugin_baseline s3" "read_file config (sv_fs s') = read_file config (sv_fs s3)"
      "\<not> ae_save env \<longrightarrow> sv_fs s' = sv_fs s3" "sv_core s' = snd (stop_native env (nativeOnly \<and> perr = None) (ph_core_err ph) (sv_core s3))"
      by blast
    have "sv_core s' = sv_core s1" if "\<not> nativeOnly" using rest(13) that by (simp add: stop_native_def s3)
    with rest s3 pb stop_native_down [of "nativeOnly \<and> perr = None" env "ph_core_err ph" "sv_core s3"]
    have "finished env c config nativeOnly ph plugins np s1 a s'"
      by (auto simp: finished_def rollback_targets_def)
    with a show ?thesis by simp
  qed
qed

subsection \<open>All or nothing\<close>

definition went_live :: "apply_env \<Rightarrow> config \<Rightarrow> path \<Rightarrow> 'w server \<Rightarrow> 'e outcome \<Rightarrow> 'w server \<Rightarrow> bool" where
  "went_live env c config s a s' =
     (case Generate (sv_profile s) (apply_opts env c s) of
        Inl _ \<Rightarrow> False
      | Inr (cfg, plugins) \<Rightarrow>
          Specs (fst (sv_plug s')) = map spec_of plugins \<and>
          read_file config (sv_fs s') = (if nativeVerdict c s then read_file config (sv_fs s) else Some (Some cfg)) \<and>
          (ap_pbr_err a = None \<longrightarrow> \<not> cf_demo c \<longrightarrow> ps_plan (sv_pbr s') = apply_plan env c s) \<and>
          (if nativeVerdict c s then ap_pbr_err a = None \<longrightarrow> \<not> Running (sv_core s')
           else sv_core s' = snd (bring_up (ae_available env) (ae_core env) (ae_now env) (sv_core s))))"

lemma handleApply_result:
  assumes "handleApply run env c config s = (resp, s')"
  shows "case resp of
      Refused _ \<Rightarrow> same_live config s s'
    | Aborted _ rerr \<Rightarrow> \<not> ae_save env \<and> sv_failsafe s' = sv_failsafe s \<and> sv_window_native s' = sv_window_native s
    | Done a \<Rightarrow> ap_saved a = ae_save env \<and> (if ae_save env then \<not> pending (sv_failsafe s')
        else open_window (sv_failsafe s') \<and> sv_window_native s' = nativeVerdict c s) \<and> went_live env c config s a s'"
    and "pending (sv_failsafe s) \<Longrightarrow> \<not> ae_save env \<Longrightarrow> rollback_targets config s0 s \<Longrightarrow> rollback_targets config s0 s'"
    and "resp = Done a \<Longrightarrow> \<not> pending (sv_failsafe s) \<Longrightarrow> \<not> ae_save env \<Longrightarrow> ap_backup_err a = None \<Longrightarrow>
      read_file config (sv_fs s) \<noteq> None \<Longrightarrow> rollback_targets config s s'"
    and "resp = Aborted err None \<Longrightarrow> pending (sv_failsafe s) \<Longrightarrow> rollback_targets config s0 s \<Longrightarrow>
      read_file config (sv_fs s') = read_file config (sv_fs s0)"
proof -
  have "(case resp of
      Refused _ \<Rightarrow> same_live config s s'
    | Aborted _ rerr \<Rightarrow> \<not> ae_save env \<and> sv_failsafe s' = sv_failsafe s \<and> sv_window_native s' = sv_window_native s
    | Done a \<Rightarrow> ap_saved a = ae_save env \<and> (if ae_save env then \<not> pending (sv_failsafe s')
        else open_window (sv_failsafe s') \<and> sv_window_native s' = nativeVerdict c s) \<and> went_live env c config s a s') \<and>
    (pending (sv_failsafe s) \<longrightarrow> \<not> ae_save env \<longrightarrow> rollback_targets config s0 s \<longrightarrow> rollback_targets config s0 s') \<and>
    (resp = Done a \<longrightarrow> \<not> pending (sv_failsafe s) \<longrightarrow> \<not> ae_save env \<longrightarrow> ap_backup_err a = None \<longrightarrow>
      read_file config (sv_fs s) \<noteq> None \<longrightarrow> rollback_targets config s s') \<and>
    (resp = Aborted err None \<longrightarrow> pending (sv_failsafe s) \<longrightarrow> rollback_targets config s0 s \<longrightarrow>
      read_file config (sv_fs s') = read_file config (sv_fs s0))"
    using assms
  proof (cases rule: handleApply_cases)
    case (refused e)
    then show ?thesis by (simp add: same_live_def)
  next
    case (failed cfg plugins r)
    then show ?thesis using core_phase_result [OF failed(2)] by (auto simp: core_result_def)
  next
    case (went cfg plugins ph s1)
    note p = phase_result [OF went(2)]
    have core: "\<not> nativeVerdict c s \<Longrightarrow> sv_core s1 = snd (bring_up (ae_available env) (ae_core env) (ae_now env) (sv_core s))"
      using went(2) core_phase_result(1) [of env config cfg s "Inr ph" s1] by (auto simp: core_result_def)
    have live: "sv_failsafe s1 = sv_failsafe s" "sv_window_native s1 = sv_window_native s" using p(1) by (simp_all add: same_live_def)
    show ?thesis
    proof (cases resp)
      case (Refused r)
      then show ?thesis using after_phase_result [OF went(3)] by simp
    next
      case (Aborted e rerr)
      then have "aborted env config plugins s1 rerr s'" using after_phase_result [OF went(3)] by simp
      then show ?thesis using Aborted p(3) live by (auto simp: aborted_def rollback_targets_def)
    next
      case (Done b)
      then have f: "finished env c config (nativeVerdict c s) ph plugins (apply_plan env c s) s1 b s'"
        using after_phase_result [OF went(3)] by simp
      have "went_live env c config s b s'" using f p(2) core by (auto simp: finished_def went_live_def went(1))
      then show ?thesis using Done f p(3,4) by (auto simp: finished_def)
    qed
  qed
  then show "case resp of
      Refused _ \<Rightarrow> same_live config s s'
    | Aborted _ rerr \<Rightarrow> \<not> ae_save env \<and> sv_failsafe s' = sv_failsafe s \<and> sv_window_native s' = sv_window_native s
    | Done a \<Rightarrow> ap_saved a = ae_save env \<and> (if ae_save env then \<not> pending (sv_failsafe s')
        else open_window (sv_failsafe s') \<and> sv_window_native s' = nativeVerdict c s) \<and> went_live env c config s a s'"
    "pending (sv_failsafe s) \<Longrightarrow> \<not> ae_save env \<Longrightarrow> rollback_targets config s0 s \<Longrightarrow> rollback_targets config s0 s'"
    "resp = Done a \<Longrightarrow> \<not> pending (sv_failsafe s) \<Longrightarrow> \<not> ae_save env \<Longrightarrow> ap_backup_err a = None \<Longrightarrow>
      read_file config (sv_fs s) \<noteq> None \<Longrightarrow> rollback_targets config s s'"
    "resp = Aborted err None \<Longrightarrow> pending (sv_failsafe s) \<Longrightarrow> rollback_targets config s0 s \<Longrightarrow>
      read_file config (sv_fs s') = read_file config (sv_fs s0)"
    by blast+
qed

text \<open>C4. An Apply is all or nothing for what is live. Refused, whatever the reason (a profile that does not generate, a
  directory, staging or rename that fails, the core's own check), it leaves the configuration file, the core, the kernel
  plane, the engines and the fail-safe window as they were. Finished, it has written the generated configuration (unless
  the core is not needed), reconciled the engines to the generated set, recorded the compiled kernel plan unless
  installing it failed, and brought the core up on the new file or, when the kernel carries everything, down; saving
  closes the window and not saving opens one of its own. Only an unsaved Apply is ever aborted, and aborting leaves
  the window alone.\<close>

theorem apply_all_or_nothing:
  assumes "handleApply run env c config s = (resp, s')"
  shows "case resp of
      Refused _ \<Rightarrow> same_live config s s'
    | Aborted _ rerr \<Rightarrow> \<not> ae_save env \<and> sv_failsafe s' = sv_failsafe s \<and> sv_window_native s' = sv_window_native s
    | Done a \<Rightarrow> ap_saved a = ae_save env \<and> (if ae_save env then \<not> pending (sv_failsafe s')
        else open_window (sv_failsafe s') \<and> sv_window_native s' = nativeVerdict c s) \<and> went_live env c config s a s'"
  by (rule handleApply_result(1) [OF assms])

subsection \<open>The window\<close>

text \<open>From the first unsaved Apply until the window is confirmed, claimed or expires: further unsaved Applies of
  whatever profile and however they end, and whatever the supervisors, the kernel and the fail-safe's own checks do.\<close>

definition same_targets :: "'w server \<Rightarrow> 'w server \<Rightarrow> bool" where
  "same_targets s s' = (sv_fs s' = sv_fs s \<and> ps_baseline (sv_pbr s') = ps_baseline (sv_pbr s) \<and>
     sv_plugin_baseline s' = sv_plugin_baseline s \<and> sv_window_native s' = sv_window_native s)"

inductive in_window :: "('e, 'w) runner \<Rightarrow> path \<Rightarrow> 'w server \<Rightarrow> 'w server \<Rightarrow> bool"
  for run :: "('e, 'w) runner" and config :: path and s0 :: "'w server" where
  window_opens: "handleApply run env c config s0 = (Done a, s) \<Longrightarrow> \<not> pending (sv_failsafe s0) \<Longrightarrow> \<not> ae_save env \<Longrightarrow>
    ap_backup_err a = None \<Longrightarrow> in_window run config s0 s"
| window_applies: "in_window run config s0 s \<Longrightarrow> handleApply run env c config s = (resp, s') \<Longrightarrow> \<not> ae_save env \<Longrightarrow>
    in_window run config s0 s'"
| window_elsewhere: "in_window run config s0 s \<Longrightarrow> same_targets s s' \<Longrightarrow> open_window (sv_failsafe s') \<Longrightarrow> in_window run config s0 s'"

lemma open_window_pending: "open_window m \<Longrightarrow> pending m"
  by (simp add: open_window_def)

lemma in_window_targets:
  assumes "in_window run config s0 s" and "read_file config (sv_fs s0) \<noteq> None"
  shows "open_window (sv_failsafe s) \<and> rollback_targets config s0 s"
  using assms
proof (induction rule: in_window.induct)
  case (window_opens env c a s)
  then show ?case using handleApply_result(1,3) [OF window_opens(1)] by simp
next
  case (window_applies s env c resp s')
  then have o: "open_window (sv_failsafe s)" "rollback_targets config s0 s" by simp_all
  have "rollback_targets config s0 s'"
    using handleApply_result(2) [OF window_applies(2)] open_window_pending [OF o(1)] window_applies(3) o(2) by blast
  moreover have "open_window (sv_failsafe s')"
    using handleApply_result(1) [OF window_applies(2)] o(1) window_applies(3) by (cases resp) (auto simp: same_live_def)
  ultimately show ?case by simp
next
  case (window_elsewhere s s')
  then show ?case by (simp add: same_targets_def rollback_targets_def)
qed

lemma startLocked_ok: "fst (startLocked now sp c) = None \<Longrightarrow> Running (snd (startLocked now sp c))"
  by (cases sp) (auto simp: startLocked_def Running_def aliveLocked_def)

lemma Start_ok: "fst (Start now sp c) = None \<Longrightarrow> Running (snd (Start now sp c))"
  using startLocked_ok [of now sp c] by (auto simp: Start_def Running_def aliveLocked_def split: if_splits)

lemma Reload_ok: "fst (Reload so now sp c) = None \<Longrightarrow> Running (snd (Reload so now sp c))"
  using Start_ok [of now sp "snd (Stop so c)"] by (auto simp: Reload_def split: prod.splits option.splits)

lemma bring_up_ok: "bring_up available ce now c = ((up, None), c') \<Longrightarrow> available \<or> Running c \<Longrightarrow> Running c'"
  using Reload_ok [of "ce_stop ce" now "ce_spawn ce" c] Start_ok [of now "ce_spawn ce" c]
  by (auto simp: bring_up_def split: if_splits prod.splits)

lemma restore_reaches:
  "ps_plan (restorePBRBaseline run s) = ps_baseline s \<or> ps_plan (restorePBRBaseline run s) = None"
  "(\<And>b w. ps_baseline s = Some b \<Longrightarrow> fst (Apply run b no_options w) = None) \<Longrightarrow> ps_plan (restorePBRBaseline run s) = ps_baseline s"
proof -
  show "ps_plan (restorePBRBaseline run s) = ps_baseline s \<or> ps_plan (restorePBRBaseline run s) = None"
    by (auto simp: restorePBRBaseline_def Let_def split: option.splits prod.splits)
  assume ok: "\<And>b w. ps_baseline s = Some b \<Longrightarrow> fst (Apply run b no_options w) = None"
  show "ps_plan (restorePBRBaseline run s) = ps_baseline s"
  proof (cases "ps_baseline s")
    case (Some b)
    then have "fst (Apply run b no_options (tear_old run s)) = None" by (rule ok)
    with Some show ?thesis by (auto simp: restorePBRBaseline_def Let_def split: option.splits prod.splits)
  qed (simp add: restorePBRBaseline_def Let_def)
qed

lemma rollback_core_frame:
  assumes "rollback_core env config s = (r, s')"
  shows "sv_pbr s' = sv_pbr s \<and> sv_plugin_baseline s' = sv_plugin_baseline s"
  using assms by (auto simp: rollback_core_def split: if_splits prod.splits option.splits)

lemma rollback_core_native:
  "rollback_core env config s = (r, s') \<Longrightarrow> sv_window_native s \<Longrightarrow> \<not> Running (sv_core s') \<and> sv_fs s' = sv_fs s"
  using Stop_down [of "ce_stop (ae_core2 env)" "sv_core s"] by (auto simp: rollback_core_def split: if_splits prod.splits)

lemma rollback_core_ok:
  assumes "rollback_core env config s = (None, s')" and "\<not> sv_window_native s"
  shows "read_file config (sv_fs s') = read_file (config @ ''.bak'') (sv_fs s)"
    and "ae_available env \<or> Running (sv_core s) \<Longrightarrow> Running (sv_core s')"
proof -
  obtain f e where r: "Restore None (fst (ae_restore env)) (snd (ae_restore env)) config (sv_fs s) = (f, e)" by fastforce
  have e: "e = None" using assms r by (auto simp: rollback_core_def split: option.splits)
  obtain up e2 co where b: "bring_up (ae_available env) (ae_core2 env) (ae_now env) (sv_core s) = ((up, e2), co)"
    by (metis prod.collapse)
  have s': "s' = s\<lparr>sv_fs := f, sv_core := co\<rparr>" "e2 = None" using assms r e b by (auto simp: rollback_core_def)
  show "read_file config (sv_fs s') = read_file (config @ ''.bak'') (sv_fs s)"
    using Restore_ok [of None "fst (ae_restore env)" "snd (ae_restore env)" config "sv_fs s"] by (simp add: r e s')
  show "ae_available env \<or> Running (sv_core s) \<Longrightarrow> Running (sv_core s')"
    using bring_up_ok b s' by auto
qed

lemma roll_back_result:
  assumes "roll_back run env config (epoch m) (s\<lparr>sv_failsafe := m\<rparr>) = (err, s')"
    and "rollback_targets config s0 s"
  shows "Specs (fst (sv_plug s')) = Specs (fst (sv_plug s0))"
    and "ps_plan (sv_pbr s') = ps_plan (sv_pbr s0) \<or> ps_plan (sv_pbr s') = None"
    and "(\<And>b w. ps_plan (sv_pbr s0) = Some b \<Longrightarrow> fst (Apply run b no_options w) = None) \<Longrightarrow> ps_plan (sv_pbr s') = ps_plan (sv_pbr s0)"
    and "sv_window_native s \<Longrightarrow> \<not> Running (sv_core s') \<and> read_file config (sv_fs s') = read_file config (sv_fs s)"
    and "\<not> sv_window_native s \<Longrightarrow> err = None \<Longrightarrow> read_file config (sv_fs s') = read_file config (sv_fs s0) \<and>
      (ae_available env \<or> Running (sv_core s) \<longrightarrow> Running (sv_core s'))"
proof -
  obtain r s1 where r: "rollback_core env config (s\<lparr>sv_failsafe := m\<rparr>) = (r, s1)" by fastforce
  have s': "err = r" "s' = restorePluginBaseline env (s1\<lparr>sv_pbr := restorePBRBaseline run (sv_pbr s1)\<rparr>)"
    using assms(1) by (simp_all add: roll_back_def IsCurrent_def r)
  note fr = rollback_core_frame [OF r, simplified]
  note t = assms(2) [unfolded rollback_targets_def]
  have read: "sv_pbr s' = restorePBRBaseline run (sv_pbr s1)" "sv_fs s' = sv_fs s1" "sv_core s' = sv_core s1"
    "Specs (fst (sv_plug s')) = sv_plugin_baseline s1"
    by (simp_all add: s' restorePluginBaseline_def)
  show "Specs (fst (sv_plug s')) = Specs (fst (sv_plug s0))" using fr t by (simp add: read)
  show "ps_plan (sv_pbr s') = ps_plan (sv_pbr s0) \<or> ps_plan (sv_pbr s') = None"
    using restore_reaches(1) [of run "sv_pbr s1"] fr t by (simp add: read)
  show "(\<And>b w. ps_plan (sv_pbr s0) = Some b \<Longrightarrow> fst (Apply run b no_options w) = None) \<Longrightarrow> ps_plan (sv_pbr s') = ps_plan (sv_pbr s0)"
    using restore_reaches(2) [of "sv_pbr s1" run] fr t by (simp add: read)
  show "sv_window_native s \<Longrightarrow> \<not> Running (sv_core s') \<and> read_file config (sv_fs s') = read_file config (sv_fs s)"
    using rollback_core_native [OF r] by (simp add: read)
  show "\<not> sv_window_native s \<Longrightarrow> err = None \<Longrightarrow> read_file config (sv_fs s') = read_file config (sv_fs s0) \<and>
      (ae_available env \<or> Running (sv_core s) \<longrightarrow> Running (sv_core s'))"
    using rollback_core_ok [of env config "s\<lparr>sv_failsafe := m\<rparr>" s1] r t by (auto simp: read s'(1))
qed


subsection \<open>Exceptions\<close>

lemma went_phase:
  assumes "handleApply run env c config s = (Aborted err rerr, s')"
  obtains cfg plugins ph s1 where "Generate (sv_profile s) (apply_opts env c s) = Inr (cfg, plugins)"
    "(if nativeVerdict c s then native_phase env config s else core_phase env config cfg s) = (Inr ph, s1)"
    "aborted env config plugins s1 rerr s'"
  using assms
proof (cases rule: handleApply_cases)
  case (went cfg plugins ph s1)
  then show thesis using that after_phase_result [OF went(3)] by simp
qed simp_all

text \<open>An aborted Apply is not undone completely. The configuration file goes back to the rollback target of the open
  window, but the engines stay on the configuration that was just refused: the set asked for is the one generated
  from the new profile, not the one the restored configuration refers to.\<close>

theorem aborted_apply_keeps_new_engines:
  assumes "handleApply run env c config s = (Aborted err rerr, s')"
  shows "\<exists>cfg plugins. Generate (sv_profile s) (apply_opts env c s) = Inr (cfg, plugins) \<and>
    Specs (fst (sv_plug s')) = map spec_of plugins \<and>
    (rerr = None \<and> pending (sv_failsafe s) \<and> rollback_targets config s0 s \<longrightarrow> read_file config (sv_fs s') = read_file config (sv_fs s0))"
  using handleApply_result(4) [OF assms] by (auto intro: went_phase [OF assms] simp: aborted_def)

text \<open>C37. A window whose last Apply needed no core is rolled back without the core, whatever ran before it: the core is
  left stopped and the configuration file as the window left it. The engines and the kernel plan do go back.\<close>

theorem native_window_keeps_core_down:
  assumes "in_window run config s0 s" and "read_file config (sv_fs s0) \<noteq> None" and "sv_window_native s"
    and "roll_back run env config (epoch m) (s\<lparr>sv_failsafe := m\<rparr>) = (err, s')"
  shows "\<not> Running (sv_core s') \<and> read_file config (sv_fs s') = read_file config (sv_fs s) \<and>
    Specs (fst (sv_plug s')) = Specs (fst (sv_plug s0)) \<and> ps_plan (sv_pbr s') \<in> {ps_plan (sv_pbr s0), None}"
  using roll_back_result(1,2,4) [OF assms(4) conjunct2 [OF in_window_targets [OF assms(1,2)]]] assms(3) by simp

end
