(* ===== verification/Gen_Outbound_Spec.thy ===== *)
theory Gen_Outbound_Spec
  imports Gen_Outbound
begin

text \<open>
  What the generated outbounds guarantee. One outbound that sing-box rejects takes the whole configuration
  down, so the generator guards the optional parts of an endpoint, however it was put into the profile. The predicates
  here state what \<^verbatim>\<open>singbox.go\<close> documents of the values sing-box accepts, with literal tables of their own for the
  enumerated ones. The kind of a transport and the mandatory parameters are not guarded in the code and not covered.
\<close>

subsection \<open>Keys\<close>

lemma b64_val_bound: "b64_alpha url c \<Longrightarrow> b64_val c < 64"
proof -
  have "CHR ''A'' \<le> c \<Longrightarrow> c \<le> CHR ''Z'' \<Longrightarrow> of_char c - 65 < (64 :: nat)"
    "CHR ''a'' \<le> c \<Longrightarrow> c \<le> CHR ''z'' \<Longrightarrow> of_char c - 71 < (64 :: nat)"
    "is_digit c \<Longrightarrow> of_char c + 4 < (64 :: nat)"
    by (auto simp: less_eq_char_def is_digit_def)
  then show ?thesis by (auto simp: b64_val_def)
qed

lemma byte_bounds:
  "a < 64 \<Longrightarrow> b < 64 \<Longrightarrow> a * 4 + b div 16 < 256" "c < 64 \<Longrightarrow> b mod 16 * 16 + c div 4 < 256"
  "d < 64 \<Longrightarrow> c mod 4 * 64 + d < 256"
  for a b c d :: nat
proof -
  show "a < 64 \<Longrightarrow> b < 64 \<Longrightarrow> a * 4 + b div 16 < 256" by linarith
  have "b mod 16 \<le> 15" "c mod 4 \<le> 3" by simp_all
  then show "c < 64 \<Longrightarrow> b mod 16 * 16 + c div 4 < 256" "d < 64 \<Longrightarrow> c mod 4 * 64 + d < 256" by linarith+
qed

lemma b64_bytes_bound: "list_all (\<lambda>d. d < 64) ds \<Longrightarrow> list_all (\<lambda>b. b < 256) (b64_bytes ds)"
  by (induction ds rule: b64_bytes.induct) (simp_all add: byte_bounds)

lemma b64_decode_bound: "b64_decode url padded s = Some b \<Longrightarrow> list_all (\<lambda>b. b < 256) b"
proof -
  assume "b64_decode url padded s = Some b"
  then obtain body where body: "list_all (b64_alpha url) body" "b = b64_bytes (map b64_val body)"
    by (auto simp: b64_decode_def Let_def split: if_splits)
  then have "list_all (\<lambda>d. d < 64) (map b64_val body)" by (auto simp: list_all_iff dest: b64_val_bound)
  then show ?thesis by (simp add: body b64_bytes_bound)
qed

definition canonical_key :: "bool \<Rightarrow> bool \<Rightarrow> string \<Rightarrow> bool" where
  "canonical_key url padded s =
     (case b64_decode url padded s of Some b \<Rightarrow> length b = 32 \<and> b64_encode url padded b = s | None \<Rightarrow> False)"

lemma first_some_Some: "first_some f xs = Some y \<Longrightarrow> \<exists>x \<in> set xs. f x = Some y"
  by (induction xs) (auto split: option.splits)

lemma decode32_bytes: "decode32 encs s = Some b \<Longrightarrow> length b = 32 \<and> list_all (\<lambda>b. b < 256) b"
  unfolding decode32_def
  by (drule first_some_Some) (auto split: option.splits if_splits dest: b64_decode_bound)

lemma encode_canonical:
  assumes "length b = 32" and "list_all (\<lambda>b. b < 256) b"
  shows "canonical_key url padded (b64_encode url padded b)"
  by (simp add: canonical_key_def b64_decode_encode [OF assms(2)] assms(1))



lemma normalizeRealityPubKey_ok:
  assumes "validRealityPubKey s"
  shows "canonical_key True False (normalizeRealityPubKey s)"
proof -
  from assms obtain b where b: "decode32 reality_encodings s = Some b"
    by (auto simp: validRealityPubKey_def split: if_splits)
  then show ?thesis using decode32_bytes [OF b] by (simp add: normalizeRealityPubKey_def encode_canonical)
qed

subsection \<open>Acceptance\<close>

definition short_id_ok :: "string \<Rightarrow> bool" where
  "short_id_ok s = (s \<noteq> [] \<and> length s \<le> 16 \<and> even (length s) \<and> list_all is_hex s)"

definition port_range_ok :: "string \<Rightarrow> bool" where
  "port_range_ok s =
     (case cut_at (CHR '':'') s of
        (a, Some b) \<Rightarrow>
          (case (atoi a, atoi b) of (Some x, Some y) \<Rightarrow> 1 \<le> x \<and> x \<le> y \<and> y \<le> 65535 | _ \<Rightarrow> False)
      | _ \<Rightarrow> False)"

text \<open>The values sing-box accepts for its enumerated options, written out from its documentation; the
  generator has tables of its own, in its own order.\<close>

definition sb_flows :: "string list" where "sb_flows = [''xtls-rprx-vision'']"
definition sb_packet_encodings :: "string list" where "sb_packet_encodings = [''packetaddr'', ''xudp'']"
definition sb_vmess_security :: "string list" where
  "sb_vmess_security = [''auto'', ''none'', ''zero'', ''aes-128-gcm'', ''chacha20-poly1305'']"
definition sb_ss_plugins :: "string list" where "sb_ss_plugins = [''obfs-local'', ''v2ray-plugin'']"
definition sb_tuic_congestion :: "string list" where "sb_tuic_congestion = [''bbr'', ''cubic'', ''new_reno'']"
definition sb_tuic_relay :: "string list" where "sb_tuic_relay = [''native'', ''quic'']"
definition sb_hy2_obfs :: "string list" where "sb_hy2_obfs = [''salamander'']"
definition sb_fingerprints :: "string list" where
  "sb_fingerprints =
     [''360'', ''android'', ''chrome'', ''edge'', ''firefox'', ''ios'', ''qq'', ''random'', ''randomized'', ''safari'']"

lemma known_tables [simp]:
  "set sb_flows = set knownFlows" "set sb_packet_encodings = set knownPacketEnc" "set sb_vmess_security = set knownVMessSec"
  "set sb_ss_plugins = set knownSSPlugins" "set sb_tuic_congestion = set knownTUICCC" "set sb_tuic_relay = set knownTUICRelay"
  "set sb_hy2_obfs = set knownHy2Obfs" "set sb_fingerprints = set knownUTLSFinger"
  by (auto simp: sb_flows_def sb_packet_encodings_def sb_vmess_security_def sb_ss_plugins_def sb_tuic_congestion_def
      sb_tuic_relay_def sb_hy2_obfs_def sb_fingerprints_def knownFlows_def knownPacketEnc_def knownVMessSec_def
      knownSSPlugins_def knownTUICCC_def knownTUICRelay_def knownHy2Obfs_def knownUTLSFinger_def)

definition in_enum :: "string list \<Rightarrow> json option \<Rightarrow> bool" where
  "in_enum allowed v = (case v of None \<Rightarrow> True | Some (JStr s) \<Rightarrow> s \<in> set allowed | _ \<Rightarrow> False)"

definition reality_ok :: "jobj \<Rightarrow> jobj \<Rightarrow> bool" where
  "reality_ok tb r =
     (jget tb ''utls'' \<noteq> None \<and> jget tb ''fragment'' = None \<and> jget tb ''record_fragment'' = None \<and>
      canonical_key True False (as_str (jget r ''public_key'')) \<and>
      (case jget r ''short_id'' of None \<Rightarrow> True | Some (JStr s) \<Rightarrow> short_id_ok s | _ \<Rightarrow> False))"

definition tls_ok :: "jobj \<Rightarrow> bool" where
  "tls_ok tb =
     ((case jget tb ''utls'' of
         None \<Rightarrow> True | Some (JObj u) \<Rightarrow> as_str (jget u ''fingerprint'') \<in> set sb_fingerprints | _ \<Rightarrow> False) \<and>
      (case jget tb ''reality'' of None \<Rightarrow> True | Some (JObj r) \<Rightarrow> reality_ok tb r | _ \<Rightarrow> False) \<and>
      (case jget tb ''alpn'' of None \<Rightarrow> True | Some (JStrs a) \<Rightarrow> a \<noteq> [] | _ \<Rightarrow> False))"

definition enums_ok :: "jobj \<Rightarrow> bool" where
  "enums_ok ob =
     (in_enum sb_flows (jget ob ''flow'') \<and> in_enum sb_packet_encodings (jget ob ''packet_encoding'') \<and>
      in_enum sb_vmess_security (jget ob ''security'') \<and> in_enum sb_ss_plugins (jget ob ''plugin'') \<and>
      in_enum sb_tuic_congestion (jget ob ''congestion_control'') \<and> in_enum sb_tuic_relay (jget ob ''udp_relay_mode''))"

definition blocks_ok :: "jobj \<Rightarrow> bool" where
  "blocks_ok ob =
     (let ty = as_str (jget ob ''type'') in
      (jget ob ''transport'' \<noteq> None \<longrightarrow> ty \<in> set [''vless'', ''vmess'', ''trojan'']) \<and>
      (case jget ob ''tls'' of
         None \<Rightarrow> True
       | Some (JObj tb) \<Rightarrow>
           ty \<in> set [''vless'', ''vmess'', ''trojan'', ''anytls'', ''hysteria2'', ''tuic'', ''http''] \<and> tls_ok tb
       | _ \<Rightarrow> False) \<and>
      (jget ob ''flow'' \<noteq> None \<longrightarrow> jget ob ''tls'' \<noteq> None \<and> jget ob ''transport'' = None))"

definition values_ok :: "jobj \<Rightarrow> bool" where
  "values_ok ob =
     ((case jget ob ''obfs'' of
         None \<Rightarrow> True
       | Some (JObj x) \<Rightarrow> in_enum sb_hy2_obfs (jget x ''type'') \<and> as_str (jget x ''password'') \<noteq> []
       | _ \<Rightarrow> False) \<and>
      (case jget ob ''server_ports'' of None \<Rightarrow> True | Some (JStrs rs) \<Rightarrow> rs \<noteq> [] \<and> list_all port_range_ok rs | _ \<Rightarrow> False) \<and>
      \<not> (jget ob ''udp_over_stream'' \<noteq> None \<and> jget ob ''udp_relay_mode'' \<noteq> None) \<and>
      (case jget ob ''heartbeat'' of None \<Rightarrow> True | Some (JStr hb) \<Rightarrow> good_heartbeat hb | _ \<Rightarrow> False))"

definition outbound_accepted :: "jobj \<Rightarrow> bool" where
  "outbound_accepted ob = (enums_ok ob \<and> blocks_ok ob \<and> values_ok ob)"


subsection \<open>Every outbound is accepted\<close>

lemma safeEnum_cases: "safeEnum v allowed = [] \<or> safeEnum v allowed \<in> set allowed"
  by (simp add: safeEnum_def)

lemma in_enum_simps [simp]: "in_enum allowed None" "in_enum allowed (Some (JStr s)) = (s \<in> set allowed)"
  by (simp_all add: in_enum_def)

lemma in_enum_safe [simp]: "safeEnum v allowed \<noteq> [] \<Longrightarrow> safeEnum v allowed \<in> set allowed"
  using safeEnum_cases by blast

lemma validShortID_ok: "validShortID s \<Longrightarrow> short_id_ok s"
  by (auto simp: validShortID_def short_id_ok_def in_range_def is_hex_def is_digit_def list_all_iff even_iff_mod_2_eq_zero
      split: if_splits)

lemma tlsJSON_ok: "tlsJSON t = Some tb \<Longrightarrow> tls_ok tb"
proof -
  have fp: "safeEnum v knownUTLSFinger \<in> set knownUTLSFinger" if "safeEnum v knownUTLSFinger \<noteq> []" for v
    using that by simp
  have chrome: "''chrome'' \<in> set knownUTLSFinger" by code_simp
  assume "tlsJSON t = Some tb"
  then show ?thesis
    using fp chrome
    by (auto simp: tlsJSON_def tls_ok_def reality_ok_def utls_block_def reality_block_def Let_def
        normalizeRealityPubKey_ok validShortID_ok split: option.splits if_splits)
qed

lemma keep_alpn_get [simp]: "k \<noteq> ''alpn'' \<Longrightarrow> jget (keep_alpn P tb) k = jget tb k"
  by (simp add: keep_alpn_def split: option.splits)

lemma reality_ok_alpn [simp]:
  "reality_ok (jput ''alpn'' v tb) r = reality_ok tb r" "reality_ok (jdel ''alpn'' tb) r = reality_ok tb r"
  by (simp_all add: reality_ok_def)

lemma keep_alpn_ok: "tls_ok tb \<Longrightarrow> tls_ok (keep_alpn P tb)"
  by (auto simp: tls_ok_def keep_alpn_def alpn_of_def split: option.splits json.splits)

lemma fit_alpn_ok: "tls_ok tb \<Longrightarrow> tls_ok (fit_alpn e tb)"
proof -
  assume tb: "tls_ok tb"
  have "tls_ok (jput ''alpn'' (JStrs a) tb)" if "a \<noteq> []" for a
    using tb that by (auto simp: tls_ok_def split: option.splits json.splits)
  with tb show ?thesis by (auto simp: fit_alpn_def Let_def intro!: keep_alpn_ok)
qed

lemma cut_at_append: "c \<notin> set a \<Longrightarrow> cut_at c (a @ c # b) = (a, Some b)"
proof -
  assume c: "c \<notin> set a"
  then have "dropWhile (\<lambda>x. x \<noteq> c) (a @ c # b) = c # b" by (subst dropWhile_append2) auto
  moreover have "takeWhile (\<lambda>x. x \<noteq> c) (a @ c # b) = a" using c by (subst takeWhile_append2) auto
  ultimately show ?thesis by (simp add: cut_at_def)
qed

lemma itoa_no_colon: "0 \<le> n \<Longrightarrow> CHR '':'' \<notin> set (itoa n)"
  using dec_of_nat_digits [of "nat n"] by (auto simp: itoa_def is_digit_def less_eq_char_def)

lemma atoi_itoa: "0 \<le> n \<Longrightarrow> n < 2 ^ 63 \<Longrightarrow> atoi (itoa n) = Some n"
  using atoi_dec_of_nat [of "nat n"] by (simp add: itoa_def nat_less_iff)

lemma atoi_no_colon: "atoi s = Some n \<Longrightarrow> CHR '':'' \<notin> set s"
  by (cases s) (auto simp: atoi_def Let_def list_all_iff is_digit_def less_eq_char_def split: if_splits)

lemma port_num_Some: "port_num s = Some n \<Longrightarrow> atoi (trim_space s) = Some n \<and> 1 \<le> n \<and> n \<le> 65535"
  by (auto simp: port_num_def split: option.splits if_splits)

lemma singBoxPortRange_ok: "singBoxPortRange r = [] \<or> port_range_ok (singBoxPortRange r)"
proof (cases "cut_at (CHR ''-'') (trim_space r)")
  case (Pair a b)
  have range: "port_range_ok (itoa (min x y) @ '':'' @ itoa (max x y))" if "port_num s = Some x" "port_num t = Some y" for s t x y
  proof -
    have b: "1 \<le> min x y" "max x y \<le> 65535" "min x y \<le> max x y"
      using that port_num_Some by (auto simp: min_def max_def)
    then have "atoi (itoa (min x y)) = Some (min x y)" "atoi (itoa (max x y)) = Some (max x y)"
      by (auto intro!: atoi_itoa)
    moreover have "cut_at (CHR '':'') (itoa (min x y) @ '':'' @ itoa (max x y)) = (itoa (min x y), Some (itoa (max x y)))"
      using b(1) cut_at_append [OF itoa_no_colon, of "min x y"] by simp
    ultimately show ?thesis using b by (simp add: port_range_ok_def)
  qed
  have single: "port_range_ok (trim_space s @ '':'' @ trim_space s)" if "port_num s = Some x" for s x
    using port_num_Some [OF that] cut_at_append [OF atoi_no_colon]
    by (simp add: port_range_ok_def)
  from Pair range single show ?thesis
    by (auto simp: singBoxPortRange_def Let_def split: option.splits)
qed

lemma hop_ports_ok: "list_all port_range_ok (hop_ports hp)"
  using singBoxPortRange_ok by (auto simp: hop_ports_def list_all_iff)

lemmas protocol_defs = protocol_fields_def vless_fields_def vmess_fields_def shadowsocks_fields_def hysteria2_fields_def
  tuic_fields_def proxyAuth_def

text \<open>The fields a protocol sets are its own: none of the checked keys is inherited from the three common
  fields, and \<^verbatim>\<open>transport\<close> and \<^verbatim>\<open>tls\<close> are set by no protocol.\<close>

lemma protocol_fields_enums:
  assumes "protocol_fields e ob0 = Some ob" and "enums_ok ob0"
  shows "enums_ok ob"
proof -
  have "''auto'' \<in> set knownVMessSec" by code_simp
  with assms show ?thesis by (auto simp: protocol_defs Let_def enums_ok_def split: if_splits)
qed

lemma protocol_fields_values:
  assumes "protocol_fields e ob0 = Some ob" and "list_all (\<lambda>k. jget ob0 k = None) [''obfs'', ''server_ports'', ''udp_over_stream'', ''udp_relay_mode'', ''heartbeat'']"
  shows "values_ok ob"
  using assms by (auto simp: protocol_defs Let_def values_ok_def hop_ports_ok split: if_splits)

lemma protocol_fields_type: "protocol_fields e ob0 = Some ob \<Longrightarrow> jget ob ''type'' = Some (JStr (ep_protocol e))"
  by (auto simp: protocol_defs Let_def split: if_splits)

lemma protocol_fields_flow:
  assumes "protocol_fields e ob0 = Some ob" and "jget ob0 ''flow'' = None" and "jget ob ''flow'' \<noteq> None"
  shows "ep_protocol e = ProtoVLESS \<and> transport_type e = [] \<and> (\<exists>t. ep_tls e = Some t \<and> tls_enabled t)"
  using assms by (auto simp: protocol_defs Let_def split: if_splits option.splits)

lemma protocol_fields_blocks:
  "protocol_fields e ob0 = Some ob \<Longrightarrow> jget ob ''transport'' = jget ob0 ''transport'' \<and> jget ob ''tls'' = jget ob0 ''tls'' \<and> jget ob ''tag'' = jget ob0 ''tag''"
  by (auto simp: protocol_defs Let_def split: if_splits)

lemma transportJSON_none: "transportJSON (ep_transport e) = None \<longleftrightarrow> transport_type e = []"
  by (auto simp: transportJSON_def transport_type_def Let_def split: option.splits)

lemma tlsJSON_some: "ep_tls e = Some t \<Longrightarrow> tls_enabled t \<Longrightarrow> tlsJSON (ep_tls e) \<noteq> None"
  by (simp add: tlsJSON_def Let_def)

lemma outboundFor_cases:
  assumes "outboundFor e = Inr ob"
  obtains ob0 where "protocol_fields e (base_fields e) = Some ob0"
    and "\<And>k. k \<noteq> ''transport'' \<Longrightarrow> k \<noteq> ''tls'' \<Longrightarrow> jget ob k = jget ob0 k"
    and "jget ob ''transport'' = (if transportCapable (ep_protocol e) then map_option JObj (transportJSON (ep_transport e)) else None)"
    and "jget ob ''tls'' = (if tlsCapable (ep_protocol e) then map_option (\<lambda>tb. JObj (fit_alpn e tb)) (tlsJSON (ep_tls e)) else None)"
proof -
  from assms obtain ob0 where p: "protocol_fields e (base_fields e) = Some ob0"
    by (auto simp: outboundFor_def split: option.splits)
  have "jget ob0 ''transport'' = None" "jget ob0 ''tls'' = None" using protocol_fields_blocks [OF p] by (simp_all add: base_fields_def)
  with assms p show ?thesis by (intro that [OF p]) (auto simp: outboundFor_def Let_def split: option.splits)
qed

lemma blocks_ok_outbound:
  assumes "outboundFor e = Inr ob"
  shows "blocks_ok ob"
  using assms
proof (rule outboundFor_cases)
  fix ob0
  assume p: "protocol_fields e (base_fields e) = Some ob0"
    and o: "\<And>k. k \<noteq> ''transport'' \<Longrightarrow> k \<noteq> ''tls'' \<Longrightarrow> jget ob k = jget ob0 k"
    and tr: "jget ob ''transport'' = (if transportCapable (ep_protocol e) then map_option JObj (transportJSON (ep_transport e)) else None)"
    and tl: "jget ob ''tls'' = (if tlsCapable (ep_protocol e) then map_option (\<lambda>tb. JObj (fit_alpn e tb)) (tlsJSON (ep_tls e)) else None)"
  have ty: "as_str (jget ob ''type'') = ep_protocol e" using protocol_fields_type [OF p] o by simp
  have "jget ob ''tls'' \<noteq> None \<and> jget ob ''transport'' = None" if "jget ob ''flow'' \<noteq> None"
  proof -
    have "jget ob0 ''flow'' \<noteq> None" using that o by simp
    from protocol_fields_flow [OF p _ this] base_fields_def obtain t where "ep_protocol e = ProtoVLESS" "transport_type e = []" "ep_tls e = Some t" "tls_enabled t"
      by auto
    then show ?thesis using tlsJSON_some [of e t] tr tl transportJSON_none [of e] by (simp add: tlsCapable_def)
  qed
  then show ?thesis using tl tr fit_alpn_ok tlsJSON_ok
    by (auto simp: blocks_ok_def ty transportCapable_def tlsCapable_def split: option.splits if_splits)
qed

lemma outbound_other_keys:
  assumes "outboundFor e = Inr ob"
  shows "enums_ok ob" and "values_ok ob"
proof -
  from assms obtain ob0 where p: "protocol_fields e (base_fields e) = Some ob0"
    and o: "\<And>k. k \<noteq> ''transport'' \<Longrightarrow> k \<noteq> ''tls'' \<Longrightarrow> jget ob k = jget ob0 k"
    by (rule outboundFor_cases) (rule that, assumption+)
  have "enums_ok ob0" by (rule protocol_fields_enums [OF p]) (simp add: enums_ok_def base_fields_def)
  then show "enums_ok ob" by (simp add: enums_ok_def o)
  have "values_ok ob0" by (rule protocol_fields_values [OF p]) (simp add: base_fields_def)
  then show "values_ok ob" by (simp add: values_ok_def o)
qed

definition supported :: "protocol list" where
  "supported = [ProtoVLESS, ProtoVMess, ProtoTrojan, ProtoAnyTLS, ProtoShadowsocks, ProtoHysteria2, ProtoTUIC, ProtoSOCKS, ProtoHTTP]"

lemma outboundFor_error:
  "outboundFor e = Inl err \<longleftrightarrow> ep_protocol e \<notin> set supported \<and> err = UnsupportedProtocol (ep_id e) (ep_protocol e)"
proof -
  have "protocol_fields e (base_fields e) = None \<longleftrightarrow> ep_protocol e \<notin> set supported"
    by (simp add: protocol_fields_def supported_def Let_def)
  then show ?thesis by (auto simp: outboundFor_def Let_def split: option.splits)
qed

lemma outbound_tag: "outboundFor e = Inr ob \<Longrightarrow> jget ob ''tag'' = Some (JStr (ep_id e))"
  by (erule outboundFor_cases) (simp add: protocol_fields_blocks, simp add: base_fields_def)

text \<open>C16. The generator's guards on the optional parts of an endpoint are complete for what they guard. Whatever an endpoint's fields and
  parameters hold, the outbound generated for it carries its id, and of its optional parts: flow, packet encoding,
  VMess cipher, plugin, congestion control, relay mode, obfuscation type and fingerprint are absent or among the
  values sing-box documents; a transport or TLS block is there only where the protocol has one, and a flow only
  with TLS and without a transport; a Reality block only with a usable key, a well-formed short id if any, and a
  fingerprint; obfuscation only with a password; port ranges are in order and between 1 and 65535, where a single
  port may keep a sign it was written with; the heartbeat is a positive duration; and the two UDP modes exclude
  each other. The only error is a protocol the generator does not know. Values that are passed on unguarded are
  not covered: the kind of transport, the mandatory parameters that validation checks, and a TLS block that the
  protocol requires but the endpoint lacks.\<close>

theorem outboundFor_accepted:
  "case outboundFor e of
     Inr ob \<Rightarrow> jget ob ''tag'' = Some (JStr (ep_id e)) \<and> outbound_accepted ob
   | Inl err \<Rightarrow> ep_protocol e \<notin> set supported \<and> err = UnsupportedProtocol (ep_id e) (ep_protocol e)"
  using outbound_other_keys blocks_ok_outbound outbound_tag outboundFor_error
  by (auto simp: outbound_accepted_def split: sum.splits)

subsection \<open>ALPN\<close>

definition alpn_fits :: "endpoint \<Rightarrow> string list option \<Rightarrow> bool" where
  "alpn_fits e alpn =
     (case alpn of
        None \<Rightarrow> ep_protocol e \<noteq> ProtoTUIC
      | Some ps \<Rightarrow> ps \<noteq> [] \<and>
          (if ep_protocol e = ProtoTUIC then list_all h3_family ps
           else (transport_type e \<in> {''ws'', ''httpupgrade''} \<longrightarrow> ''h2'' \<notin> set ps) \<and>
                (transport_type e \<in> {''grpc'', ''http''} \<longrightarrow> list_all (\<lambda>p. p = ''h2'') ps) \<and>
                (ep_protocol e \<noteq> ProtoHysteria2 \<longrightarrow> ''h3'' \<notin> set ps)))"

lemma alpn_of_simps [simp]:
  "alpn_of (jput ''alpn'' (JStrs a) tb) = Some a" "alpn_of (jdel ''alpn'' tb) = None"
  by (simp_all add: alpn_of_def)

lemma alpn_of_keep:
  "alpn_of (keep_alpn P tb) = (case alpn_of tb of None \<Rightarrow> None | Some a \<Rightarrow> if filter P a = [] then None else Some (filter P a))"
  by (simp add: keep_alpn_def split: option.splits)

lemma alpn_of_fit_tuic:
  assumes "ep_protocol e = ProtoTUIC"
  shows "if transport_type e \<in> {''grpc'', ''http''} then alpn_of (fit_alpn e tb) = None else alpn_fits e (alpn_of (fit_alpn e tb))"
proof -
  obtain K where K: "K \<noteq> []" "list_all h3_family K" and
    tb1: "fit_alpn e tb =
      (let t2 = (if transport_type e = ''ws'' \<or> transport_type e = ''httpupgrade'' then keep_alpn (\<lambda>p. p \<noteq> ''h2'') (jput ''alpn'' (JStrs K) tb) else jput ''alpn'' (JStrs K) tb)
       in if transport_type e = ''grpc'' \<or> transport_type e = ''http'' then keep_alpn (\<lambda>p. p = ''h2'') t2 else t2)"
  proof -
    let ?kept = "case alpn_of tb of Some a \<Rightarrow> filter h3_family a | None \<Rightarrow> []"
    have "list_all h3_family (if ?kept = [] then [''h3''] else ?kept)"
      by (auto simp: list_all_iff h3_family_def split: option.splits)
    then show thesis
      by (intro that [of "if ?kept = [] then [''h3''] else ?kept"])
        (simp_all add: fit_alpn_def assms Let_def)
  qed
  have "filter (\<lambda>p. p \<noteq> ''h2'') K = K" "filter (\<lambda>p. p = ''h2'') K = []"
    using K(2) by (auto simp: filter_id_conv filter_empty_conv list_all_iff h3_family_def)
  then show ?thesis using K by (simp add: tb1 alpn_of_keep alpn_fits_def assms Let_def)
qed

lemma alpn_of_fit_other:
  assumes "ep_protocol e \<noteq> ProtoTUIC" and "alpn_of tb \<noteq> Some []"
  shows "alpn_fits e (alpn_of (fit_alpn e tb))"
proof (cases "alpn_of tb")
  case None
  then show ?thesis using assms(1) by (simp add: fit_alpn_def alpn_fits_def alpn_of_keep Let_def)
next
  case (Some a)
  consider "transport_type e = ''ws'' \<or> transport_type e = ''httpupgrade''" | "transport_type e = ''grpc'' \<or> transport_type e = ''http''"
    | "transport_type e \<notin> {''ws'', ''httpupgrade'', ''grpc'', ''http''}" by auto
  then show ?thesis
  proof cases
    case 1
    then show ?thesis using assms Some by (auto simp: fit_alpn_def alpn_fits_def alpn_of_keep Let_def filter_empty_conv)
  next
    case 2
    then show ?thesis using assms Some by (auto simp: fit_alpn_def alpn_fits_def alpn_of_keep Let_def filter_empty_conv list_all_iff)
  next
    case 3
    then show ?thesis using assms Some by (auto simp: fit_alpn_def alpn_fits_def alpn_of_keep Let_def filter_empty_conv)
  qed
qed

text \<open>The negotiated protocols fit the transport: a TUIC endpoint offers only the HTTP/3 family and never
  nothing, a WebSocket or upgrade transport never offers HTTP/2, a gRPC or HTTP transport only HTTP/2, and a
  protocol over TCP never offers HTTP/3. The exception is a TUIC endpoint with a stray gRPC or HTTP transport: the
  transport is dropped, but the filter meant for it still runs and leaves the endpoint without any protocol.\<close>

theorem outbound_alpn_fits:
  assumes "outboundFor e = Inr ob" and "jget ob ''tls'' = Some (JObj tb)"
  shows "if ep_protocol e = ProtoTUIC \<and> transport_type e \<in> {''grpc'', ''http''}
         then jget ob ''transport'' = None \<and> alpn_of tb = None else alpn_fits e (alpn_of tb)"
proof -
  from assms(1) have tls: "jget ob ''tls'' = (if tlsCapable (ep_protocol e) then map_option (\<lambda>tb. JObj (fit_alpn e tb)) (tlsJSON (ep_tls e)) else None)"
    by (rule outboundFor_cases) assumption
  from assms(1) have "jget ob ''transport'' = (if transportCapable (ep_protocol e) then map_option JObj (transportJSON (ep_transport e)) else None)"
    by (rule outboundFor_cases) assumption
  then have tr: "ep_protocol e = ProtoTUIC \<Longrightarrow> jget ob ''transport'' = None" by (simp add: transportCapable_def)
  have "map_option (\<lambda>tb. JObj (fit_alpn e tb)) (tlsJSON (ep_tls e)) = Some (JObj tb)"
    using tls assms(2) by (cases "tlsCapable (ep_protocol e)") simp_all
  then obtain tb0 where tb0: "tlsJSON (ep_tls e) = Some tb0" "tb = fit_alpn e tb0" by auto
  have "alpn_of tb0 \<noteq> Some []" using tlsJSON_ok [OF tb0(1)] by (auto simp: tls_ok_def alpn_of_def split: option.splits json.splits)
  then show ?thesis using tr alpn_of_fit_tuic [of e tb0] alpn_of_fit_other [of e tb0] unfolding tb0(2)
    by (cases "ep_protocol e = ProtoTUIC") auto
qed

subsection \<open>WireGuard\<close>




lemma put_raw_get [simp]: "jget (put_raw k v ob) k' = (if k' = k \<and> v \<noteq> None then map_option JRaw v else jget ob k')"
  by (simp add: put_raw_def split: option.splits)



end
