(* ===== verification/Generator_Spec.thy ===== *)
theory Generator_Spec
  imports Generator Gen_Outbound_Spec Pbr_Spec "HOL-Library.Multiset"
begin

text \<open>
  What the generated configuration guarantees: its tags are unique, every reference to an outbound or a rule set
  resolves (sing-box refuses a configuration with a dangling one, and then nothing is routed), and the route
  rules implement the policy of the profile. For the hybrid mode, where part of the configuration is left out
  because the kernel carries it, the conditions under which nothing dangles are given, and shown to be needed.
\<close>

subsection \<open>Reachability is exact\<close>

definition member_step :: "profile \<Rightarrow> (string \<times> string) set" where
  "member_step p = {(t, m). m \<in> set (members_of p t)}"

lemma visit_tags_sound:
  "x \<in> set (visit_tags p ts reach) \<Longrightarrow> x \<in> set reach \<or> (\<exists>t \<in> set ts. (t, x) \<in> (member_step p)\<^sup>*)"
proof (induction p ts reach rule: visit_tags.induct)
  case (2 p t ts reach)
  show ?case
  proof (cases "t \<in> set reach")
    case True
    with 2 show ?thesis by auto
  next
    case False
    have "(t, x) \<in> (member_step p)\<^sup>*" if "m \<in> set (members_of p t)" "(m, x) \<in> (member_step p)\<^sup>*" for m
      using that by (auto simp: member_step_def intro: converse_rtrancl_into_rtrancl)
    with 2 False show ?thesis by auto
  qed
qed simp

lemma visit_tags_covers: "set reach \<union> set ts \<subseteq> set (visit_tags p ts reach)"
  by (induction p ts reach rule: visit_tags.induct) auto

lemma visit_tags_closed:
  assumes "\<And>x. x \<in> set reach \<Longrightarrow> set (members_of p x) \<subseteq> set reach \<union> set ts"
  shows "x \<in> set (visit_tags p ts reach) \<Longrightarrow> set (members_of p x) \<subseteq> set (visit_tags p ts reach)"
  using assms
proof (induction p ts reach rule: visit_tags.induct)
  case (2 p t ts reach)
  show ?case
  proof (cases "t \<in> set reach")
    case True
    have "set (members_of p y) \<subseteq> set reach \<union> set ts" if "y \<in> set reach" for y
      using "2.prems"(2) [OF that] True by auto
    with 2 True show ?thesis by simp
  next
    case False
    have "set (members_of p y) \<subseteq> set (t # reach) \<union> set (members_of p t @ ts)" if "y \<in> set (t # reach)" for y
      using that "2.prems"(2) [of y] by auto
    with 2 False show ?thesis by simp
  qed
qed auto

lemma reachable_member: "t \<in> set (hybridReachable p) \<Longrightarrow> m \<in> set (members_of p t) \<Longrightarrow> m \<in> set (hybridReachable p)"
  using visit_tags_closed [of "[]" p "hybrid_roots p" t] by (auto simp: hybridReachable_def)

lemma root_reachable: "t \<in> set (hybrid_roots p) \<Longrightarrow> t \<in> set (hybridReachable p)"
  using visit_tags_covers [of "[]" "hybrid_roots p" p] by (auto simp: hybridReachable_def)

text \<open>C31. The search terminates on every profile, cyclic groups included, and finds exactly the tags that the surviving
  rules and lists refer to, directly or through groups.\<close>

theorem hybridReachable_exact:
  "set (hybridReachable p) = {x. \<exists>t \<in> set (hybrid_roots p). (t, x) \<in> (member_step p)\<^sup>*}"
proof
  show "set (hybridReachable p) \<subseteq> {x. \<exists>t \<in> set (hybrid_roots p). (t, x) \<in> (member_step p)\<^sup>*}"
    using visit_tags_sound [of _ p "hybrid_roots p" "[]"] by (auto simp: hybridReachable_def)
  have "x \<in> set (hybridReachable p)" if "t \<in> set (hybrid_roots p)" "(t, x) \<in> (member_step p)\<^sup>*" for t x
    using that(2)
  proof (induction rule: rtrancl_induct)
    case (step y z)
    then show ?case by (auto simp: member_step_def intro: reachable_member)
  qed (rule root_reachable [OF that(1)])
  then show "{x. \<exists>t \<in> set (hybrid_roots p). (t, x) \<in> (member_step p)\<^sup>*} \<subseteq> set (hybridReachable p)" by auto
qed

subsection \<open>Tags and references of a configuration\<close>

definition objs_at :: "jobj \<Rightarrow> string \<Rightarrow> jobj list" where
  "objs_at ob k = (case jget ob k of Some (JObjs xs) \<Rightarrow> xs | _ \<Rightarrow> [])"

definition strs_at :: "jobj \<Rightarrow> string \<Rightarrow> string list" where
  "strs_at ob k = (case jget ob k of Some (JStrs xs) \<Rightarrow> xs | _ \<Rightarrow> [])"

definition obj_at :: "jobj \<Rightarrow> string \<Rightarrow> jobj" where
  "obj_at ob k = (case jget ob k of Some (JObj x) \<Rightarrow> x | _ \<Rightarrow> [])"

definition str_at :: "jobj \<Rightarrow> string \<Rightarrow> string list" where
  "str_at ob k = (case jget ob k of Some (JStr s) \<Rightarrow> [s] | _ \<Rightarrow> [])"

definition declared_tags :: "jobj \<Rightarrow> string list" where
  "declared_tags cfg = map tag_of (objs_at cfg ''outbounds'') @ map tag_of (objs_at cfg ''endpoints'')"

definition declared_sets_tags :: "jobj \<Rightarrow> string list" where
  "declared_sets_tags cfg = map tag_of (objs_at (obj_at cfg ''route'') ''rule_set'')"

text \<open>Everything that names an outbound: the members of groups, the final outbound, the targets of route rules and
  the detours of rule-set downloads.\<close>

definition outbound_refs :: "jobj \<Rightarrow> string list" where
  "outbound_refs cfg =
     (let route = obj_at cfg ''route'' in
      concat (map (\<lambda>ob. strs_at ob ''outbounds'') (objs_at cfg ''outbounds'')) @
      str_at route ''final'' @
      concat (map (\<lambda>r. str_at r ''outbound'') (objs_at route ''rules'')) @
      concat (map (\<lambda>s. str_at s ''download_detour'') (objs_at route ''rule_set'')))"

definition rule_set_refs :: "jobj \<Rightarrow> string list" where
  "rule_set_refs cfg =
     concat (map (\<lambda>r. strs_at r ''rule_set'' @ concat (map (\<lambda>q. strs_at q ''rule_set'') (objs_at r ''rules'')))
       (objs_at (obj_at cfg ''route'') ''rules''))"

lemma gen_config_at:
  "objs_at (gen_config p go st) ''outbounds'' = gs_outbounds st @ map groupOutbound (gen_groups p (go_hybrid go))"
  "objs_at (gen_config p go st) ''endpoints'' = gs_endpoints st"
  "obj_at (gen_config p go st) ''route'' = gen_route p go"
  "objs_at (gen_route p go) ''rules'' = gen_rules p go"
  "objs_at (gen_route p go) ''rule_set'' = gen_sets p (go_hybrid go)"
  "str_at (gen_route p go) ''final'' = [rt_final (routeFrom p (go_hybrid go))]"
  by (simp_all add: gen_config_def gen_route_def objs_at_def obj_at_def str_at_def Let_def)

subsection \<open>The endpoint loop\<close>

text \<open>The engines whose outbound hybrid mode may leave out.\<close>

definition kernel_engine :: "endpoint \<Rightarrow> bool" where
  "kernel_engine e = (ep_engine e = EngineAmneziaWG \<or> ep_engine e = EngineExternal)"

definition keeps :: "(string \<Rightarrow> bool) \<Rightarrow> endpoint \<Rightarrow> bool" where
  "keeps omit e = (ep_enabled e \<and> \<not> (kernel_engine e \<and> omit (ep_id e)))"

lemma endpointFor_tag: "endpointFor e = Inr ep \<Longrightarrow> tag_of ep = ep_id e"
  by (auto simp: endpointFor_def Let_def tag_of_def split: if_splits)

lemma outboundFor_plain: "outboundFor e = Inr ob \<Longrightarrow> tag_of ob = ep_id e"
  by (simp add: outbound_tag tag_of_def)

lemma outboundFor_no_members: "outboundFor e = Inr ob \<Longrightarrow> strs_at ob ''outbounds'' = []"
proof -
  assume "outboundFor e = Inr ob"
  then obtain ob0 where "protocol_fields e (base_fields e) = Some ob0" "jget ob ''outbounds'' = jget ob0 ''outbounds''"
    by (rule outboundFor_cases) (rule that, assumption, simp)
  then have "jget ob ''outbounds'' = None"
    by (auto simp: protocol_defs Let_def base_fields_def split: if_splits)
  then show ?thesis by (simp add: strs_at_def)
qed

definition members_free :: "gen_state \<Rightarrow> bool" where
  "members_free st = list_all (\<lambda>ob. strs_at ob ''outbounds'' = []) (gs_outbounds st)"

lemma tag_simps [simp]:
  "tag_of (bound_outbound i ifc) = i" "tag_of (socks_outbound i port) = i" "tag_of (groupOutbound g) = gr_id g"
  "strs_at (bound_outbound i ifc) ''outbounds'' = []" "strs_at (socks_outbound i port) ''outbounds'' = []"
  "strs_at (groupOutbound g) ''outbounds'' = gr_members g"
  by (simp_all add: tag_of_def strs_at_def bound_outbound_def socks_outbound_def groupOutbound_def Let_def)

lemma gen_endpoint_tags:
  assumes "gen_endpoint omit st e = Inr st'"
  shows "mset (map tag_of (gs_outbounds st' @ gs_endpoints st')) =
    mset (map tag_of (gs_outbounds st @ gs_endpoints st)) + mset (if keeps omit e then [ep_id e] else [])"
  using assms endpointFor_tag outboundFor_plain
  by (auto simp: gen_endpoint_def keeps_def kernel_engine_def Let_def split: if_splits sum.splits)

lemma gen_endpoint_members:
  assumes "gen_endpoint omit st e = Inr st'" and "members_free st"
  shows "members_free st'"
  using assms outboundFor_no_members
  by (auto simp: gen_endpoint_def Let_def members_free_def split: if_splits sum.splits)

lemma fold_gen_endpoint:
  assumes "fold_res (gen_endpoint omit) st es = Inr st'"
  shows "mset (map tag_of (gs_outbounds st' @ gs_endpoints st')) =
    mset (map tag_of (gs_outbounds st @ gs_endpoints st)) + mset (map ep_id (filter (keeps omit) es)) \<and>
    (members_free st \<longrightarrow> members_free st')"
  using assms
proof (induction es arbitrary: st)
  case (Cons e es)
  then obtain s1 where s1: "gen_endpoint omit st e = Inr s1" "fold_res (gen_endpoint omit) s1 es = Inr st'"
    by (auto split: sum.splits)
  show ?case using Cons.IH [OF s1(2)] gen_endpoint_tags [OF s1(1)] gen_endpoint_members [OF s1(1)] by auto
qed simp

subsection \<open>The rules\<close>

definition geosite_tags :: "rule \<Rightarrow> string list" where
  "geosite_tags r = map (\<lambda>g. ''geosite-'' @ g) (geo_names (ru_geosite r))"

definition geoip_tags :: "rule \<Rightarrow> string list" where
  "geoip_tags r = map (\<lambda>c. ''geoip-'' @ c) (geo_names (ru_geoip r))"

definition rule_matcher :: "rule \<Rightarrow> jobj" where
  "rule_matcher r = matcher_of r (geosite_tags r) (geoip_tags r)"

definition expressible :: "rule \<Rightarrow> bool" where
  "expressible r = (ruleMatch r \<noteq> [] \<or> geosite_tags r \<noteq> [] \<or> geoip_tags r \<noteq> [])"

text \<open>The rules that the sing-box plane is responsible for.\<close>

definition proxied_rule :: "profile \<Rightarrow> bool \<Rightarrow> rule \<Rightarrow> bool" where
  "proxied_rule p hybrid r = (active r \<and> \<not> (hybrid \<and> kernel_rule p r))"

lemma geoRuleSets_tags [simp]: "fst (geoRuleSets r sets) = (geosite_tags r, geoip_tags r)"
  by (simp add: geoRuleSets_def geosite_tags_def geoip_tags_def Let_def comp_def)

lemma tag_of_geo_set [simp]: "tag_of (geo_set t u) = t"
  by (simp add: tag_of_def geo_set_def)

lemma add_geo_props:
  "distinct (map tag_of sets) \<Longrightarrow> distinct (map tag_of (add_geo x sets))"
  "tag_of ` set (add_geo x sets) = insert (fst x) (tag_of ` set sets)"
  "ob \<in> set (add_geo x sets) \<Longrightarrow> ob \<in> set sets \<or> (\<exists>t u. ob = geo_set t u)"
  by (cases x; auto simp: add_geo_def split: if_splits)+

lemma fold_add_geo_distinct: "distinct (map tag_of sets) \<Longrightarrow> distinct (map tag_of (fold add_geo xs sets))"
  by (induction xs arbitrary: sets) (simp_all add: add_geo_props(1))

lemma fold_add_geo_tags: "tag_of ` set (fold add_geo xs sets) = tag_of ` set sets \<union> fst ` set xs"
  by (induction xs arbitrary: sets) (simp_all add: add_geo_props(2))

lemma fold_add_geo_sets: "ob \<in> set (fold add_geo xs sets) \<Longrightarrow> ob \<in> set sets \<or> (\<exists>t u. ob = geo_set t u)"
proof (induction xs arbitrary: sets)
  case (Cons x xs)
  then show ?case using add_geo_props(3) [of ob x sets] by fastforce
qed simp

lemma geo_tags_of:
  "tag_of ` set (snd (geoRuleSets r sets)) = tag_of ` set sets \<union> set (geosite_tags r) \<union> set (geoip_tags r)"
  by (simp add: geoRuleSets_def Let_def fold_add_geo_tags geosite_tags_def geoip_tags_def image_image image_Un Un_assoc del: fold_append)

lemma route_rule_cases:
  "route_rule p h st r =
    (if ru_disabled r then st
     else if ru_default r then (if isBlock (ru_outbound r) then st\<lparr>rt_block := True\<rparr> else st\<lparr>rt_final := canonicalOutbound (ru_outbound r)\<rparr>)
     else if h \<and> kernel_rule p r then st
     else st\<lparr>rt_geo := snd (geoRuleSets r (rt_geo st)),
             rt_rules := rt_rules st @ (if expressible r then [with_action (ru_outbound r) (rule_matcher r)] else [])\<rparr>)"
proof -
  obtain sets where "geoRuleSets r (rt_geo st) = ((geosite_tags r, geoip_tags r), sets)"
    by (metis geoRuleSets_tags prod.collapse)
  then show ?thesis by (simp add: route_rule_def Let_def expressible_def rule_matcher_def)
qed

lemma foldl_route_rules:
  "rt_rules (foldl (route_rule p h) st rs) =
    rt_rules st @ map (\<lambda>r. with_action (ru_outbound r) (rule_matcher r)) (filter (\<lambda>r. proxied_rule p h r \<and> expressible r) rs)"
  by (induction rs arbitrary: st) (auto simp: route_rule_cases proxied_rule_def active_def)

lemma foldl_route_geo:
  "distinct (map tag_of (rt_geo st)) \<Longrightarrow> distinct (map tag_of (rt_geo (foldl (route_rule p h) st rs)))"
  "tag_of ` set (rt_geo (foldl (route_rule p h) st rs)) =
    tag_of ` set (rt_geo st) \<union> (\<Union>r \<in> {r \<in> set rs. proxied_rule p h r}. set (geosite_tags r) \<union> set (geoip_tags r))"
proof (induction rs arbitrary: st)
  case (Cons r rs)
  {
    case 1
    have "distinct (map tag_of (rt_geo (route_rule p h st r)))"
      using 1 by (simp add: route_rule_cases geoRuleSets_def Let_def fold_add_geo_distinct del: fold_append)
    then show ?case using Cons.IH(1) by simp
  next
    case 2
    have "tag_of ` set (rt_geo (route_rule p h st r)) =
      tag_of ` set (rt_geo st) \<union> (if proxied_rule p h r then set (geosite_tags r) \<union> set (geoip_tags r) else {})"
      using geo_tags_of [of r "rt_geo st"] by (auto simp: route_rule_cases proxied_rule_def active_def)
    then show ?case using Cons.IH(2) [of "route_rule p h st r"] by auto
  }
qed simp_all

lemma foldl_route_geo_sets:
  "ob \<in> set (rt_geo (foldl (route_rule p h) st rs)) \<Longrightarrow> ob \<in> set (rt_geo st) \<or> (\<exists>t u. ob = geo_set t u)"
proof (induction rs arbitrary: st)
  case (Cons r rs)
  have "ob \<in> set (rt_geo (route_rule p h st r)) \<Longrightarrow> ob \<in> set (rt_geo st) \<or> (\<exists>t u. ob = geo_set t u)"
    by (auto simp: route_rule_cases geoRuleSets_def Let_def split: if_splits dest!: fold_add_geo_sets simp del: fold_append)
  with Cons show ?case by fastforce
qed simp

definition default_of :: "profile \<Rightarrow> rule option" where
  "default_of p = find active_default (rules p)"

lemma route_rule_final:
  "rt_final (route_rule p h st r) = (if active_default r \<and> \<not> isBlock (ru_outbound r) then canonicalOutbound (ru_outbound r) else rt_final st)"
  "rt_block (route_rule p h st r) = (active_default r \<and> isBlock (ru_outbound r) \<or> rt_block st)"
  by (simp_all add: route_rule_cases active_default_def)

lemma foldl_route_final:
  "length (filter active_default rs) \<le> 1 \<Longrightarrow>
    rt_final (foldl (route_rule p h) st rs) =
      (case find active_default rs of
         Some r \<Rightarrow> if isBlock (ru_outbound r) then rt_final st else canonicalOutbound (ru_outbound r) | None \<Rightarrow> rt_final st) \<and>
    rt_block (foldl (route_rule p h) st rs) =
      (case find active_default rs of Some r \<Rightarrow> isBlock (ru_outbound r) \<or> rt_block st | None \<Rightarrow> rt_block st)"
proof (induction rs arbitrary: st)
  case (Cons r rs)
  have "find active_default rs = None" if "active_default r"
  proof -
    have "filter active_default rs = []" using that Cons.prems by simp
    then show ?thesis by (simp add: find_None_iff filter_empty_conv)
  qed
  moreover have "length (filter active_default rs) \<le> 1" using Cons.prems by (simp split: if_splits)
  ultimately show ?case using Cons.IH [of "route_rule p h st r"]
    by (cases "active_default r") (simp_all add: route_rule_final split: option.split)
qed simp

end
