(* ===== verification/Generator_Refs.thy ===== *)
theory Generator_Refs
  imports Generator_Spec
begin

text \<open>
  References and tags of the generated configuration: which references are not declared, exactly (\<open>gap_ref\<close>), and that
  no tag is declared twice. Both for profiles none of whose ids is the name of a builtin outbound.
\<close>

subsection \<open>What is declared\<close>

lemma Generate_cases:
  assumes "Generate p go = Inr (cfg, plugins)"
  obtains st where "profile_ok p" and "fold_res (gen_endpoint (omits p (go_hybrid go))) start_gen (endpoints p) = Inr st"
    and "cfg = gen_config p go st" and "plugins = gs_plugins st"
  using assms by (auto simp: Generate_def Validate_iff split: option.splits sum.splits)

lemma start_gen_simps [simp]:
  "map tag_of (gs_outbounds start_gen @ gs_endpoints start_gen) = [OutboundDirect]" "members_free start_gen"
  by (simp_all add: start_gen_def tag_of_def members_free_def strs_at_def)

lemma declared_mset:
  assumes "fold_res (gen_endpoint (omits p (go_hybrid go))) start_gen (endpoints p) = Inr st"
  shows "mset (declared_tags (gen_config p go st)) =
    mset (OutboundDirect # map ep_id (filter (keeps (omits p (go_hybrid go))) (endpoints p)) @ map gr_id (gen_groups p (go_hybrid go)))"
proof -
  have "mset (declared_tags (gen_config p go st)) =
    mset (map tag_of (gs_outbounds st @ gs_endpoints st)) + mset (map gr_id (gen_groups p (go_hybrid go)))"
    by (simp add: declared_tags_def gen_config_at comp_def union_ac)
  also have "mset (map tag_of (gs_outbounds st @ gs_endpoints st)) =
      mset [OutboundDirect] + mset (map ep_id (filter (keeps (omits p (go_hybrid go))) (endpoints p)))"
    using fold_gen_endpoint [OF assms] by (simp only: start_gen_simps)
  finally show ?thesis by simp
qed

lemma declared_set:
  assumes "fold_res (gen_endpoint (omits p (go_hybrid go))) start_gen (endpoints p) = Inr st"
  shows "set (declared_tags (gen_config p go st)) =
    {OutboundDirect} \<union> ep_id ` {e \<in> set (endpoints p). keeps (omits p (go_hybrid go)) e} \<union> gr_id ` set (gen_groups p (go_hybrid go))"
  using arg_cong [OF declared_mset [OF assms], of set_mset] by auto

text \<open>A configured id must not be one of the two builtin names.\<close>

definition no_builtin_ids :: "profile \<Rightarrow> bool" where
  "no_builtin_ids p = list_all (\<lambda>i. \<not> isBuiltin i) (map ep_id (endpoints p) @ map gr_id (groups p))"

text \<open>The target is declared unless hybrid mode leaves it to the kernel.\<close>

definition left_out :: "profile \<Rightarrow> bool \<Rightarrow> string \<Rightarrow> bool" where
  "left_out p hybrid t = (hybrid \<and> kernelEgress p t \<and> t \<notin> set (hybridReachable p))"

lemma ids_distinct:
  assumes "profile_ok p"
  shows "distinct (map ep_id (endpoints p))" "distinct (map gr_id (groups p))" "ep_id ` set (endpoints p) \<inter> gr_id ` set (groups p) = {}"
  using assms by (auto simp: profile_ok_def all_ids_def)

lemma endpoint_lookup: "profile_ok p \<Longrightarrow> e \<in> set (endpoints p) \<Longrightarrow> EndpointByID p (ep_id e) = Some e"
  using ids_distinct(1) by (simp add: EndpointByID_def lookup_by_distinct)

lemma group_lookup: "profile_ok p \<Longrightarrow> g \<in> set (groups p) \<Longrightarrow> GroupByID p (gr_id g) = Some g"
  using ids_distinct(2) by (simp add: GroupByID_def lookup_by_distinct)

lemma group_not_endpoint: "profile_ok p \<Longrightarrow> g \<in> set (groups p) \<Longrightarrow> EndpointByID p (gr_id g) = None"
  using ids_distinct(3) by (auto simp: EndpointByID_def lookup_by_None)

lemma kernel_engine_iface:
  assumes "profile_ok p" and "e \<in> set (endpoints p)" and "kernel_engine e"
  shows "kernelIface e \<noteq> []"
proof -
  have "check_endpoint e = None" using assms(1,2) by (simp add: profile_ok_def)
  then show ?thesis using assms(3)
    by (auto simp: check_endpoint_def kernel_engine_def kernelIface_def split: if_splits)
qed

lemma builtin_simps [simp]: "isBuiltin OutboundDirect" "isBuiltin OutboundBlock"
  by (simp_all add: isBuiltin_def)

lemma no_builtinD:
  assumes "no_builtin_ids p"
  shows "e \<in> set (endpoints p) \<Longrightarrow> ep_id e \<noteq> OutboundDirect \<and> ep_id e \<noteq> OutboundBlock"
    and "g \<in> set (groups p) \<Longrightarrow> gr_id g \<noteq> OutboundDirect \<and> gr_id g \<noteq> OutboundBlock"
proof -
  have b: "\<not> isBuiltin i" if "i \<in> ep_id ` set (endpoints p) \<union> gr_id ` set (groups p)" for i
    using assms that by (auto simp: no_builtin_ids_def list_all_iff)
  show "e \<in> set (endpoints p) \<Longrightarrow> ep_id e \<noteq> OutboundDirect \<and> ep_id e \<noteq> OutboundBlock"
    using b [of "ep_id e"] by (metis UnI1 builtin_simps imageI)
  show "g \<in> set (groups p) \<Longrightarrow> gr_id g \<noteq> OutboundDirect \<and> gr_id g \<noteq> OutboundBlock"
    using b [of "gr_id g"] by (metis UnI2 builtin_simps imageI)
qed

lemma ids_nonempty:
  assumes "profile_ok p"
  shows "e \<in> set (endpoints p) \<Longrightarrow> ep_id e \<noteq> []" and "g \<in> set (groups p) \<Longrightarrow> gr_id g \<noteq> []"
proof -
  have "[] \<notin> ep_id ` set (endpoints p)" "[] \<notin> gr_id ` set (groups p)" using assms by (simp_all add: profile_ok_def all_ids_def)
  then show "e \<in> set (endpoints p) \<Longrightarrow> ep_id e \<noteq> []" "g \<in> set (groups p) \<Longrightarrow> gr_id g \<noteq> []" by (metis imageI)+
qed

lemma kernel_target:
  assumes "profile_ok p" and "no_builtin_ids p" and "e \<in> set (endpoints p)" and "kernel_engine e"
  shows "kernelEgress p (ep_id e)"
proof -
  have "ep_id e \<noteq> OutboundDirect" "ep_id e \<noteq> OutboundBlock" using no_builtinD(1) [OF assms(2,3)] by simp_all
  moreover have "ep_id e \<noteq> []" using ids_nonempty(1) [OF assms(1,3)] .
  ultimately show ?thesis using endpoint_lookup [OF assms(1,3)] kernel_engine_iface [OF assms(1,3,4)] by (simp add: kernelEgress_def)
qed

lemma declaredI:
  assumes "fold_res (gen_endpoint (omits p (go_hybrid go))) start_gen (endpoints p) = Inr st"
    and "profile_ok p" and "no_builtin_ids p" and "t \<in> targets p" and "\<not> left_out p (go_hybrid go) t"
  shows "t \<in> set (declared_tags (gen_config p go st))"
proof -
  from assms(4) consider e where "e \<in> set (endpoints p)" "ep_enabled e" "t = ep_id e" | g where "g \<in> set (groups p)" "t = gr_id g"
    by (auto simp: targets_def)
  then show ?thesis
  proof cases
    case 1
    have "keeps (omits p (go_hybrid go)) e"
      using 1 assms(5) kernel_target [OF assms(2,3) 1(1)] by (auto simp: keeps_def omits_def left_out_def)
    with 1 show ?thesis unfolding declared_set [OF assms(1)] by auto
  next
    case 2
    then have "g \<in> set (gen_groups p (go_hybrid go))" using assms(5) by (auto simp: gen_groups_def left_out_def)
    with 2 show ?thesis unfolding declared_set [OF assms(1)] by auto
  qed
qed

subsection \<open>What is referred to\<close>

lemma str_at_with_action:
  "jget m ''outbound'' = None \<Longrightarrow>
    str_at (with_action t m) ''outbound'' = (if isBlock t then [] else [canonicalOutbound t])"
  by (simp add: str_at_def with_action_def)

lemma addIf_get: "k' \<noteq> k \<Longrightarrow> jget (addIf k vs m) k' = jget m k'"
  by (simp add: addIf_def Let_def)

lemma ruleMatch_keys: "k \<notin> {''domain_suffix'', ''domain'', ''ip_cidr'', ''port'', ''source_ip_cidr'', ''source_port''} \<Longrightarrow> jget (ruleMatch r) k = None"
  by (simp add: ruleMatch_def Let_def addIf_get)

lemma rule_matcher_keys: "k \<in> {''outbound'', ''action''} \<Longrightarrow> jget (rule_matcher r) k = None"
  by (auto simp: rule_matcher_def matcher_of_def Let_def ruleMatch_keys)

lemma canonical_builtin:
  "isBuiltin t \<Longrightarrow> \<not> isBlock t \<Longrightarrow> canonicalOutbound t = OutboundDirect"
  "\<not> isBuiltin t \<Longrightarrow> canonicalOutbound t = t \<and> \<not> isBlock t"
  by (auto simp: isBuiltin_def isBlock_def canonicalOutbound_def)

lemma is_root_target: "t \<noteq> [] \<Longrightarrow> \<not> isBuiltin t \<Longrightarrow> is_root t"
  by (simp add: is_root_def canonical_builtin) (auto simp: isBuiltin_def)

lemma target_nonempty: "profile_ok p \<Longrightarrow> t \<in> targets p \<Longrightarrow> t \<noteq> []"
  using ids_nonempty [of p] by (fastforce simp: targets_def)

text \<open>A reference is safe when it is declared in every configuration of the profile: the rules' and lists' own
  targets are roots of the reachability search.\<close>

definition safe_ref :: "profile \<Rightarrow> bool \<Rightarrow> string \<Rightarrow> bool" where
  "safe_ref p hybrid t = (isBlock t \<or> isBuiltin t \<or> (t \<in> targets p \<and> \<not> left_out p hybrid t))"

lemma safe_refI:
  assumes "profile_ok p" and "target_ok p t" and "hybrid \<Longrightarrow> is_root t \<Longrightarrow> t \<in> set (hybrid_roots p)"
  shows "safe_ref p hybrid t"
  using assms root_reachable [of t p] is_root_target [of t] target_nonempty [of p t]
  by (auto simp: safe_ref_def target_ok_def left_out_def)

lemma rule_safe:
  assumes "profile_ok p" and "r \<in> set (rules p)" and "\<not> ru_disabled r" and "ru_default r \<or> proxied_rule p hybrid r"
  shows "safe_ref p hybrid (ru_outbound r)"
proof (rule safe_refI [OF assms(1)])
  show "target_ok p (ru_outbound r)" using assms(1-3) by (auto simp: profile_ok_def rule_ok_def)
  show "ru_outbound r \<in> set (hybrid_roots p)" if "hybrid" "is_root (ru_outbound r)"
    using that assms(2-4) by (auto simp: hybrid_roots_def proxied_rule_def active_def)
qed

lemma list_safe:
  assumes "profile_ok p" and "rl \<in> set (emitted_lists p hybrid)"
  shows "safe_ref p hybrid (rl_outbound rl)"
proof (rule safe_refI [OF assms(1)])
  show "target_ok p (rl_outbound rl)" using assms by (auto simp: profile_ok_def list_ok_def emitted_lists_def)
  show "rl_outbound rl \<in> set (hybrid_roots p)" if "hybrid" "is_root (rl_outbound rl)"
    using that assms(2) by (auto simp: hybrid_roots_def emitted_lists_def)
qed

text \<open>The references that do dangle: a rule set downloaded over the block action, or over a tunnel that is left
  to the kernel, and a group within a group that is left to the kernel.\<close>

definition gap_ref :: "profile \<Rightarrow> bool \<Rightarrow> string \<Rightarrow> bool" where
  "gap_ref p hybrid t =
     ((\<exists>rl \<in> set (emitted_lists p hybrid). rl_source rl \<noteq> [] \<and> rl_download_via rl \<noteq> [] \<and>
         t = canonicalOutbound (rl_download_via rl) \<and> (isBlock (rl_download_via rl) \<or> left_out p hybrid (rl_download_via rl))) \<or>
      (\<exists>g \<in> set (gen_groups p hybrid). t \<in> set (gr_members g) \<and> GroupByID p t \<noteq> None \<and> left_out p hybrid t))"

lemma left_out_undeclared:
  assumes "fold_res (gen_endpoint (omits p (go_hybrid go))) start_gen (endpoints p) = Inr st"
    and "profile_ok p" and "no_builtin_ids p" and "left_out p (go_hybrid go) t"
  shows "t \<notin> set (declared_tags (gen_config p go st)) \<and> \<not> isBuiltin t"
proof -
  have k: "kernelEgress p t" "go_hybrid go" "t \<notin> set (hybridReachable p)" using assms(4) by (auto simp: left_out_def)
  have "t \<in> ep_id ` set (endpoints p) \<union> gr_id ` set (groups p)"
    using k(1) by (auto simp: kernelEgress_def EndpointByID_def GroupByID_def split: if_splits option.splits dest!: lookup_by_Some_in)
  then have b: "\<not> isBuiltin t" using assms(3) by (auto simp: no_builtin_ids_def list_all_iff)
  have "\<not> keeps (omits p (go_hybrid go)) e" if "e \<in> set (endpoints p)" "ep_id e = t" for e
  proof -
    have "kernelIface e \<noteq> []" using k(1) endpoint_lookup [OF assms(2) that(1)] that(2) by (auto simp: kernelEgress_def split: if_splits)
    then have "kernel_engine e" by (auto simp: kernelIface_def kernel_engine_def split: if_splits)
    then show ?thesis using k that(2) by (simp add: keeps_def omits_def)
  qed
  moreover have "g \<notin> set (gen_groups p (go_hybrid go))" if "gr_id g = t" for g using k that by (auto simp: gen_groups_def)
  moreover have "t \<noteq> OutboundDirect" using k(1) by (auto simp: kernelEgress_def)
  ultimately show ?thesis using b unfolding declared_set [OF assms(1)] by auto
qed

lemma member_safe:
  assumes "profile_ok p" and "no_builtin_ids p" and "g \<in> set (gen_groups p hybrid)" and "m \<in> set (gr_members g)"
  shows "m = OutboundDirect \<or> m \<in> targets p \<and> \<not> left_out p hybrid m \<or> gap_ref p hybrid m"
proof -
  have g: "g \<in> set (groups p)" using assms(3) by (simp add: gen_groups_def)
  then have m: "m = OutboundDirect \<or> m \<in> targets p" using assms(1,4) by (auto simp: profile_ok_def group_ok_def member_ok_def)
  have "\<not> left_out p hybrid m" if "m \<in> targets p" and none: "\<not> gap_ref p hybrid m"
  proof
    assume out: "left_out p hybrid m"
    then have "GroupByID p m = None" using none assms(3,4) by (cases "GroupByID p m") (auto simp: gap_ref_def)
    with out obtain e where e: "EndpointByID p m = Some e" "kernelIface e \<noteq> []"
      by (auto simp: left_out_def kernelEgress_def split: if_splits option.splits)
    have "gr_id g \<noteq> OutboundDirect" "gr_id g \<noteq> OutboundBlock" using no_builtinD(2) [OF assms(2) g] by simp_all
    moreover have "gr_id g \<noteq> []" using ids_nonempty(2) [OF assms(1) g] .
    ultimately have "kernelEgress p (gr_id g)"
      using e assms(4) by (auto simp: kernelEgress_def group_lookup [OF assms(1) g] group_not_endpoint [OF assms(1) g] list_ex_iff
          intro!: bexI [of _ m])
    then have "\<not> hybrid \<or> gr_id g \<in> set (hybridReachable p)" using assms(3) by (auto simp: gen_groups_def)
    then have "\<not> hybrid \<or> m \<in> set (hybridReachable p)"
      using reachable_member [of "gr_id g" p m] assms(4) by (auto simp: members_of_def group_lookup [OF assms(1) g])
    with out show False by (auto simp: left_out_def)
  qed
  with m show ?thesis by auto
qed

lemma route_final_ref:
  assumes "profile_ok p"
  obtains "rt_final (routeFrom p hybrid) = OutboundDirect"
  | r where "r \<in> set (rules p)" "active_default r" "\<not> isBlock (ru_outbound r)" "rt_final (routeFrom p hybrid) = canonicalOutbound (ru_outbound r)"
proof -
  have "length (filter active_default (rules p)) \<le> 1" using assms by (simp add: profile_ok_def)
  note f = conjunct1 [OF foldl_route_final [OF this, of p hybrid]]
  show thesis
  proof (cases "find active_default (rules p)")
    case None
    then show thesis by (intro that(1)) (simp add: routeFrom_def f)
  next
    case (Some r)
    then have r: "r \<in> set (rules p)" "active_default r" by (auto simp: find_Some_iff)
    show thesis
    proof (cases "isBlock (ru_outbound r)")
      case True
      with Some show thesis by (intro that(1)) (simp add: routeFrom_def f)
    next
      case False
      with Some r show thesis by (intro that(2) [of r]) (simp_all add: routeFrom_def f)
    qed
  qed
qed

lemma set_refs_of_sets:
  "ob \<in> set (gen_sets p hybrid) \<Longrightarrow>
    (\<exists>t u. ob = geo_set t u) \<or> (\<exists>rl \<in> set (emitted_lists p hybrid). rl_source rl \<noteq> [] \<and> ob = remote_set rl) \<or>
    (\<exists>rl domains ips. ob = inline_set rl domains ips)"
proof -
  assume "ob \<in> set (gen_sets p hybrid)"
  then consider "ob \<in> set (rt_geo (routeFrom p hybrid))" | rl where "rl \<in> set (emitted_lists p hybrid)" "ob \<in> set (list_sets rl)"
    by (auto simp: gen_sets_def routingFrom_def Let_def)
  then show ?thesis
  proof cases
    case 1
    then show ?thesis using foldl_route_geo_sets [of ob p hybrid _ "rules p"] by (fastforce simp: routeFrom_def)
  next
    case 2
    obtain domains ips where "splitDomainsIPs (rl_manual rl) = (domains, ips)" by fastforce
    with 2 have "rl_source rl \<noteq> [] \<and> ob = remote_set rl \<or> ob = inline_set rl domains ips"
      by (auto simp: list_sets_def split: if_splits)
    with 2(1) show ?thesis by blast
  qed
qed

lemma rule_refs:
  assumes "profile_ok p" and "rule \<in> set (gen_rules p go)" and "t \<in> set (str_at rule ''outbound'')"
  shows "t = OutboundDirect \<or> (\<exists>u. safe_ref p (go_hybrid go) u \<and> \<not> isBlock u \<and> t = canonicalOutbound u)"
proof -
  from assms(2) consider "t = OutboundDirect" | "rule \<in> set (rt_rules (routeFrom p (go_hybrid go)))"
    | "rule \<in> set (snd (routingFrom p (go_hybrid go)))"
    using assms(3) by (auto simp: gen_rules_def Let_def str_at_def blockAllRule_def split: if_splits)
  then show ?thesis
  proof cases
    case 2
    then obtain r where "r \<in> set (rules p)" "proxied_rule p (go_hybrid go) r" "rule = with_action (ru_outbound r) (rule_matcher r)"
      by (auto simp: routeFrom_def foldl_route_rules)
    moreover have "safe_ref p (go_hybrid go) (ru_outbound r)"
      using calculation(1,2) by (intro rule_safe [OF assms(1)]) (auto simp: proxied_rule_def active_def)
    ultimately show ?thesis using assms(3) str_at_with_action [OF rule_matcher_keys, of "ru_outbound r" r]
      by (auto split: if_splits)
  next
    case 3
    then obtain rl where "rl \<in> set (emitted_lists p (go_hybrid go))" "rule = list_rule rl"
      by (auto simp: routingFrom_def Let_def)
    moreover have "safe_ref p (go_hybrid go) (rl_outbound rl)" using calculation(1) by (rule list_safe [OF assms(1)])
    ultimately show ?thesis using assms(3) str_at_with_action [of "[(''rule_set'', JStrs (map tag_of (list_sets rl)))]" "rl_outbound rl"]
      by (auto simp: list_rule_def split: if_splits)
  qed simp
qed

lemma safe_ref_declared:
  assumes "fold_res (gen_endpoint (omits p (go_hybrid go))) start_gen (endpoints p) = Inr st"
    and "profile_ok p" and "no_builtin_ids p" and "safe_ref p (go_hybrid go) u" and "\<not> isBlock u"
  shows "canonicalOutbound u \<in> set (declared_tags (gen_config p go st))"
proof (cases "isBuiltin u")
  case True
  then show ?thesis using assms(5) by (simp add: canonical_builtin declared_set [OF assms(1)])
next
  case False
  with assms(4,5) have "u \<in> targets p" "\<not> left_out p (go_hybrid go) u" by (auto simp: safe_ref_def)
  then show ?thesis using False declaredI [OF assms(1-3)] by (simp add: canonical_builtin)
qed

lemma detour_declared:
  assumes "fold_res (gen_endpoint (omits p (go_hybrid go))) start_gen (endpoints p) = Inr st"
    and "profile_ok p" and "no_builtin_ids p"
    and "ob \<in> set (gen_sets p (go_hybrid go))" and "t \<in> set (str_at ob ''download_detour'')"
  shows "t \<in> set (declared_tags (gen_config p go st)) \<or> gap_ref p (go_hybrid go) t"
proof -
  have d: "OutboundDirect \<in> set (declared_tags (gen_config p go st))" by (simp add: declared_set [OF assms(1)])
  from set_refs_of_sets [OF assms(4)] assms(5) consider "t = OutboundDirect"
    | rl where "rl \<in> set (emitted_lists p (go_hybrid go))" "rl_source rl \<noteq> []" "rl_download_via rl \<noteq> []" "t = canonicalOutbound (rl_download_via rl)"
    by (auto simp: str_at_def geo_set_def inline_set_def remote_set_def split: if_splits)
  then show ?thesis
  proof cases
    case 2
    have ok: "target_ok p (rl_download_via rl)" using assms(2) 2(1,3) by (auto simp: profile_ok_def list_ok_def emitted_lists_def)
    show ?thesis
    proof (cases "isBlock (rl_download_via rl) \<or> left_out p (go_hybrid go) (rl_download_via rl)")
      case True
      with 2 show ?thesis by (auto simp: gap_ref_def)
    next
      case False
      then have "safe_ref p (go_hybrid go) (rl_download_via rl)" using ok by (auto simp: safe_ref_def target_ok_def)
      with safe_ref_declared [OF assms(1-3)] False show ?thesis unfolding 2(4) by blast
    qed
  qed (simp add: d)
qed

lemma refs_set:
  "set (outbound_refs (gen_config p go st)) =
     (\<Union>ob \<in> set (gs_outbounds st). set (strs_at ob ''outbounds'')) \<union> (\<Union>g \<in> set (gen_groups p (go_hybrid go)). set (gr_members g)) \<union>
     {rt_final (routeFrom p (go_hybrid go))} \<union> (\<Union>rule \<in> set (gen_rules p go). set (str_at rule ''outbound'')) \<union>
     (\<Union>ob \<in> set (gen_sets p (go_hybrid go)). set (str_at ob ''download_detour''))"
  unfolding outbound_refs_def Let_def by (auto simp: gen_config_at)

text \<open>And these references are indeed made, to outbounds that are not there.\<close>

lemma gap_referred:
  assumes "gap_ref p (go_hybrid go) t"
  shows "t \<in> set (outbound_refs (gen_config p go st))"
proof -
  have d: "t \<in> set (outbound_refs (gen_config p go st))"
    if "rl \<in> set (emitted_lists p (go_hybrid go))" "rl_source rl \<noteq> []" "rl_download_via rl \<noteq> []" "t = canonicalOutbound (rl_download_via rl)" for rl
  proof -
    have "remote_set rl \<in> set (list_sets rl)" using that(2) by (cases "splitDomainsIPs (rl_manual rl)") (simp add: list_sets_def)
    then have "remote_set rl \<in> set (gen_sets p (go_hybrid go))" using that(1) by (auto simp: gen_sets_def routingFrom_def Let_def)
    moreover have "t \<in> set (str_at (remote_set rl) ''download_detour'')" using that(3,4) by (simp add: str_at_def remote_set_def)
    ultimately show ?thesis unfolding refs_set by blast
  qed
  have "t \<in> set (outbound_refs (gen_config p go st))" if "g \<in> set (gen_groups p (go_hybrid go))" "t \<in> set (gr_members g)" for g
    using that unfolding refs_set by blast
  with d assms show ?thesis unfolding gap_ref_def by blast
qed

lemma gap_undeclared:
  assumes "fold_res (gen_endpoint (omits p (go_hybrid go))) start_gen (endpoints p) = Inr st"
    and "profile_ok p" and "no_builtin_ids p" and "gap_ref p (go_hybrid go) t"
  shows "t \<notin> set (declared_tags (gen_config p go st))"
proof -
  note lo = left_out_undeclared [OF assms(1-3)]
  have "OutboundBlock \<notin> set (declared_tags (gen_config p go st))"
    using no_builtinD [OF assms(3)] by (fastforce simp: declared_set [OF assms(1)] gen_groups_def)
  moreover have "canonicalOutbound u = OutboundBlock" if "isBlock u" for u using that by (simp add: isBlock_def canonicalOutbound_def)
  moreover have "canonicalOutbound u = u" if "left_out p (go_hybrid go) u" for u using lo [OF that] canonical_builtin(2) by blast
  ultimately show ?thesis using assms(4) lo unfolding gap_ref_def by metis
qed

text \<open>C9. Which references dangle, exactly. In a configuration generated from a profile none of whose ids is a builtin
  name, every outbound that a group, the final route, a route rule or a rule-set download refers to is declared, with
  two exceptions, which are always missing: the detour of a rule-set download over the block action or, in hybrid
  mode, over a tunnel or a group of tunnels that is left to the kernel; and, in hybrid mode, a member group that is
  left to the kernel. A target is left to the kernel when it stands for a kernel tunnel and no rule, list or group
  of the core reaches it.\<close>

theorem references_resolve:
  assumes "Generate p go = Inr (cfg, plugins)" and "no_builtin_ids p"
  shows "set (outbound_refs cfg) - set (declared_tags cfg) = {t. gap_ref p (go_hybrid go) t}"
proof -
  from assms(1) obtain st where ok: "profile_ok p"
    and st: "fold_res (gen_endpoint (omits p (go_hybrid go))) start_gen (endpoints p) = Inr st" and cfg: "cfg = gen_config p go st"
    by (rule Generate_cases)
  let ?ok = "\<lambda>t. t \<in> set (declared_tags cfg) \<or> gap_ref p (go_hybrid go) t"
  note decl = safe_ref_declared [OF st ok assms(2)]
  have direct: "OutboundDirect \<in> set (declared_tags cfg)" unfolding cfg by (simp add: declared_set [OF st])
  have "members_free st" using fold_gen_endpoint [OF st] start_gen_simps(2) by blast
  then have free: "strs_at ob ''outbounds'' = []" if "ob \<in> set (gs_outbounds st)" for ob
    using that by (simp add: members_free_def list_all_iff)
  have members: "?ok m" if "g \<in> set (gen_groups p (go_hybrid go))" "m \<in> set (gr_members g)" for g m
    using member_safe [OF ok assms(2) that] declaredI [OF st ok assms(2)] direct unfolding cfg by auto
  have final: "?ok (rt_final (routeFrom p (go_hybrid go)))"
  proof (rule route_final_ref [OF ok, of "go_hybrid go"])
    fix r
    assume r: "r \<in> set (rules p)" "active_default r" "\<not> isBlock (ru_outbound r)"
      "rt_final (routeFrom p (go_hybrid go)) = canonicalOutbound (ru_outbound r)"
    have "safe_ref p (go_hybrid go) (ru_outbound r)" by (rule rule_safe [OF ok r(1)]) (use r(2) in \<open>simp_all add: active_default_def\<close>)
    then show ?thesis unfolding r(4) cfg using decl r(3) by blast
  qed (simp add: direct)
  have rules: "?ok t" if "rule \<in> set (gen_rules p go)" "t \<in> set (str_at rule ''outbound'')" for rule t
    using rule_refs [OF ok that] decl direct unfolding cfg by auto
  have detours: "?ok t" if "ob \<in> set (gen_sets p (go_hybrid go))" "t \<in> set (str_at ob ''download_detour'')" for ob t
    using detour_declared [OF st ok assms(2) that] unfolding cfg .
  have "?ok t" if "t \<in> set (outbound_refs cfg)" for t
    using that free members final rules detours unfolding cfg refs_set by (elim UnE UN_E) auto
  moreover have "t \<in> set (outbound_refs cfg) \<and> t \<notin> set (declared_tags cfg)" if "gap_ref p (go_hybrid go) t" for t
    using gap_referred [OF that] gap_undeclared [OF st ok assms(2) that] unfolding cfg by blast
  ultimately show ?thesis by blast
qed

subsection \<open>Unique tags\<close>

lemma outbound_tags_distinct:
  assumes "fold_res (gen_endpoint (omits p (go_hybrid go))) start_gen (endpoints p) = Inr st" and "profile_ok p" and "no_builtin_ids p"
  shows "distinct (declared_tags (gen_config p go st))"
proof -
  have "distinct (OutboundDirect # map ep_id (filter (keeps (omits p (go_hybrid go))) (endpoints p)) @ map gr_id (gen_groups p (go_hybrid go)))"
    using ids_distinct [OF assms(2)] no_builtinD [OF assms(3)] by (fastforce simp: distinct_map_filter gen_groups_def)
  then show ?thesis using mset_eq_imp_distinct_iff [OF declared_mset [OF assms(1)]] by simp
qed

lemma tag_of_sets [simp]:
  "tag_of (remote_set rl) = ''rs-'' @ rl_id rl" "tag_of (inline_set rl domains ips) = ''rsm-'' @ rl_id rl"
  by (simp_all add: tag_of_def remote_set_def inline_set_def)

lemma list_set_tags:
  "distinct (map tag_of (list_sets rl))" "set (map tag_of (list_sets rl)) \<subseteq> {''rs-'' @ rl_id rl, ''rsm-'' @ rl_id rl}"
  by (auto simp: list_sets_def split: prod.splits)

lemma list_tags_distinct: "distinct (map rl_id rls) \<Longrightarrow> distinct (map tag_of (concat (map list_sets rls)))"
proof (induction rls)
  case (Cons rl rls)
  have "tag_of x \<noteq> tag_of y" if "x \<in> set (list_sets rl)" "rm \<in> set rls" "y \<in> set (list_sets rm)" for x y rm
  proof -
    have "rl_id rl \<noteq> rl_id rm" using Cons.prems that(2) by auto
    moreover have "tag_of x \<in> {''rs-'' @ rl_id rl, ''rsm-'' @ rl_id rl}" "tag_of y \<in> {''rs-'' @ rl_id rm, ''rsm-'' @ rl_id rm}"
      using that list_set_tags(2) [of rl] list_set_tags(2) [of rm] by auto
    ultimately show ?thesis by auto
  qed
  then show ?case using Cons list_set_tags(1) [of rl] by fastforce
qed simp

lemma geo_tag_prefix: "t \<in> set (geosite_tags r) \<union> set (geoip_tags r) \<Longrightarrow> has_prefix t ''geo''"
  by (auto simp: geosite_tags_def geoip_tags_def)

lemma set_tags_distinct:
  assumes "profile_ok p"
  shows "distinct (map tag_of (gen_sets p hybrid))"
proof -
  have geo: "distinct (map tag_of (rt_geo (routeFrom p hybrid)))"
    unfolding routeFrom_def by (rule foldl_route_geo(1)) simp
  have pre: "has_prefix (tag_of x) ''geo''" if "x \<in> set (rt_geo (routeFrom p hybrid))" for x
  proof -
    have "tag_of x \<in> tag_of ` set (rt_geo (routeFrom p hybrid))" using that by simp
    then show ?thesis unfolding routeFrom_def foldl_route_geo(2) using geo_tag_prefix by auto
  qed
  have "distinct (map rl_id (routing_lists p))" using assms by (simp add: profile_ok_def all_ids_def)
  then have lists: "distinct (map tag_of (fst (routingFrom p hybrid)))"
    by (simp add: routingFrom_def Let_def emitted_lists_def list_tags_distinct distinct_map_filter)
  have "\<not> has_prefix (tag_of y) ''geo''" if "y \<in> set (fst (routingFrom p hybrid))" for y
    using that list_set_tags(2) by (fastforce simp: routingFrom_def Let_def)
  with geo pre lists show ?thesis by (fastforce simp: gen_sets_def)
qed

lemma matcher_set_refs:
  "set (strs_at (rule_matcher r) ''rule_set'' @ concat (map (\<lambda>q. strs_at q ''rule_set'') (objs_at (rule_matcher r) ''rules''))) \<subseteq>
    set (geosite_tags r) \<union> set (geoip_tags r)"
  by (auto simp: rule_matcher_def matcher_of_def Let_def strs_at_def objs_at_def ruleMatch_keys split: if_splits)

lemma with_action_keys:
  "strs_at (with_action t m) ''rule_set'' = strs_at m ''rule_set''" "objs_at (with_action t m) ''rules'' = objs_at m ''rules''"
  by (simp_all add: strs_at_def objs_at_def with_action_def)

lemma rule_set_declared:
  assumes "rule \<in> set (gen_rules p go)"
    and "t \<in> set (strs_at rule ''rule_set'' @ concat (map (\<lambda>q. strs_at q ''rule_set'') (objs_at rule ''rules'')))"
  shows "t \<in> set (map tag_of (gen_sets p (go_hybrid go)))"
proof -
  from assms consider "rule \<in> set (rt_rules (routeFrom p (go_hybrid go)))" | "rule \<in> set (snd (routingFrom p (go_hybrid go)))"
    by (auto simp: gen_rules_def Let_def strs_at_def objs_at_def blockAllRule_def split: if_splits)
  then show ?thesis
  proof cases
    case 1
    then obtain r where r: "r \<in> set (rules p)" "proxied_rule p (go_hybrid go) r" "rule = with_action (ru_outbound r) (rule_matcher r)"
      by (auto simp: routeFrom_def foldl_route_rules)
    have "t \<in> set (geosite_tags r) \<union> set (geoip_tags r)"
      using assms(2) matcher_set_refs [of r] unfolding r(3) with_action_keys by blast
    then have "t \<in> tag_of ` set (rt_geo (routeFrom p (go_hybrid go)))"
      using r(1,2) unfolding routeFrom_def foldl_route_geo(2) by blast
    then show ?thesis by (auto simp: gen_sets_def)
  next
    case 2
    then obtain rl where rl: "rl \<in> set (emitted_lists p (go_hybrid go))" "rule = list_rule rl"
      by (auto simp: routingFrom_def Let_def)
    then have "t \<in> tag_of ` set (list_sets rl)"
      using assms(2) by (auto simp: list_rule_def with_action_keys) (simp_all add: strs_at_def objs_at_def)
    with rl(1) show ?thesis by (auto simp: gen_sets_def routingFrom_def Let_def)
  qed
qed

text \<open>C30. For a profile none of whose ids is a builtin name: no tag is declared twice, neither an outbound's nor a
  rule set's, and every rule set a rule refers to is declared, whichever lists, geosite and geoip names the profile
  combines.\<close>

theorem tags_unique:
  assumes "Generate p go = Inr (cfg, plugins)" and "no_builtin_ids p"
  shows "distinct (declared_tags cfg) \<and> distinct (declared_sets_tags cfg) \<and> set (rule_set_refs cfg) \<subseteq> set (declared_sets_tags cfg)"
proof -
  from assms(1) obtain st where ok: "profile_ok p"
    and st: "fold_res (gen_endpoint (omits p (go_hybrid go))) start_gen (endpoints p) = Inr st" and cfg: "cfg = gen_config p go st"
    by (rule Generate_cases)
  have "distinct (declared_tags cfg)" unfolding cfg by (rule outbound_tags_distinct [OF st ok assms(2)])
  moreover have "distinct (declared_sets_tags cfg)" using set_tags_distinct [OF ok] by (simp add: cfg declared_sets_tags_def gen_config_at)
  moreover have "set (rule_set_refs cfg) \<subseteq> set (declared_sets_tags cfg)"
    using rule_set_declared [of _ p go] unfolding cfg rule_set_refs_def declared_sets_tags_def gen_config_at by auto
  ultimately show ?thesis by blast
qed

end
