(* ===== verification/Generator_Policy.thy ===== *)
theory Generator_Policy
  imports Generator_Refs
begin

text \<open>
  What the generated route does. A route is run by its first matching rule; which matchers match a connection is
  left open. The generated rules are shown to implement the policy of the profile, and in hybrid mode every rule is
  carried by one of the two planes. The gaps of the hybrid mode are at the end.
\<close>

subsection \<open>Running a route\<close>

datatype decision = Reject | RouteTo string

text \<open>The matcher part of a rule.\<close>

definition bare :: "jobj \<Rightarrow> jobj" where
  "bare r = jdel ''outbound'' (jdel ''action'' r)"

fun decide :: "(jobj \<Rightarrow> bool) \<Rightarrow> string \<Rightarrow> jobj list \<Rightarrow> decision" where
  "decide m final [] = RouteTo final"
| "decide m final (r # rs) =
     (if jget r ''action'' = Some (JStr ''sniff'') \<or> \<not> m (bare r) then decide m final rs
      else if jget r ''action'' = Some (JStr ''reject'') then Reject
      else RouteTo (as_str (jget r ''outbound'')))"

subsection \<open>The policy of a profile\<close>

definition target :: "string \<Rightarrow> decision" where
  "target t = (if isBlock t then Reject else RouteTo (canonicalOutbound t))"

definition list_matcher :: "routing_list \<Rightarrow> jobj" where
  "list_matcher rl = [(''rule_set'', JStrs (map tag_of (list_sets rl)))]"

definition policy :: "(jobj \<Rightarrow> bool) \<Rightarrow> profile \<Rightarrow> bool \<Rightarrow> decision" where
  "policy m p hybrid =
     (if endpointBypass p \<noteq> [] \<and> m [(''ip_cidr'', JStrs (endpointBypass p))] then RouteTo OutboundDirect
      else (case find (\<lambda>r. proxied_rule p hybrid r \<and> expressible r \<and> m (rule_matcher r)) (rules p) of
          Some r \<Rightarrow> target (ru_outbound r)
        | None \<Rightarrow>
            if list_ex (\<lambda>rl. isBlock (rl_outbound rl) \<and> list_sets rl \<noteq> [] \<and> m (list_matcher rl)) (emitted_lists p hybrid) then Reject
            else (case find (\<lambda>rl. list_sets rl \<noteq> [] \<and> m (list_matcher rl)) (emitted_lists p hybrid) of
                Some rl \<Rightarrow> target (rl_outbound rl)
              | None \<Rightarrow> (case default_of p of Some r \<Rightarrow> target (ru_outbound r) | None \<Rightarrow> RouteTo OutboundDirect))))"

subsection \<open>The route implements the policy\<close>

lemma jdel_absent: "jget m k = None \<Longrightarrow> jdel k m = m"
  by (induction m) (auto simp: jdel_def jget_def split: if_splits)

lemma jdel_jput: "jdel k (jput k v m) = jdel k m" "k \<noteq> k' \<Longrightarrow> jdel k (jput k' v m) = jput k' v (jdel k m)"
  by (induction m) (auto simp: jdel_def jput_def)

lemma bare_with_action:
  assumes "jget m ''action'' = None" and "jget m ''outbound'' = None"
  shows "bare (with_action t m) = m"
  by (simp add: bare_def with_action_def jdel_jput jdel_absent assms)

lemma with_action_get:
  "jget (with_action t m) ''action'' = Some (JStr (if isBlock t then ''reject'' else ''route''))"
  "\<not> isBlock t \<Longrightarrow> jget (with_action t m) ''outbound'' = Some (JStr (canonicalOutbound t))"
  by (simp_all add: with_action_def)

lemma decide_actions:
  assumes "\<And>x. jget (f x) ''action'' = None \<and> jget (f x) ''outbound'' = None"
  shows "decide m final (map (\<lambda>x. with_action (t x) (f x)) xs @ ys) =
    (case find (\<lambda>x. m (f x)) xs of Some x \<Rightarrow> target (t x) | None \<Rightarrow> decide m final ys)"
  by (induction xs) (auto simp: bare_with_action assms with_action_get target_def)

lemma find_filter: "find P (filter Q xs) = find (\<lambda>x. Q x \<and> P x) xs"
  by (induction xs) auto

lemma decide_rules:
  "decide m final (rt_rules (routeFrom p hybrid) @ ys) =
    (case find (\<lambda>r. proxied_rule p hybrid r \<and> expressible r \<and> m (rule_matcher r)) (rules p) of
       Some r \<Rightarrow> target (ru_outbound r) | None \<Rightarrow> decide m final ys)"
  by (simp add: routeFrom_def foldl_route_rules decide_actions rule_matcher_keys find_filter conj_assoc)

lemma list_rule_eq: "list_rule rl = with_action (rl_outbound rl) (list_matcher rl)"
  by (simp add: list_rule_def list_matcher_def)

lemma decide_lists:
  "decide m final (snd (routingFrom p hybrid) @ ys) =
    (if list_ex (\<lambda>rl. isBlock (rl_outbound rl) \<and> list_sets rl \<noteq> [] \<and> m (list_matcher rl)) (emitted_lists p hybrid) then Reject
     else (case find (\<lambda>rl. list_sets rl \<noteq> [] \<and> m (list_matcher rl)) (emitted_lists p hybrid) of
         Some rl \<Rightarrow> target (rl_outbound rl) | None \<Rightarrow> decide m final ys))"
proof -
  let ?L = "emitted_lists p hybrid" let ?hit = "\<lambda>rl. list_sets rl \<noteq> [] \<and> m (list_matcher rl)"
  have keys: "jget (list_matcher rl) ''action'' = None \<and> jget (list_matcher rl) ''outbound'' = None" for rl
    by (simp add: list_matcher_def)
  have hits: "find (\<lambda>rl. m (list_matcher rl)) (filter B (filter (\<lambda>rl. list_sets rl \<noteq> []) ?L)) = find (\<lambda>rl. B rl \<and> ?hit rl) ?L" for B
    by (simp only: find_filter) (rule find_cong; blast)
  have "snd (routingFrom p hybrid) @ ys =
      map (\<lambda>rl. with_action (rl_outbound rl) (list_matcher rl)) (filter (\<lambda>rl. isBlock (rl_outbound rl)) (filter (\<lambda>rl. list_sets rl \<noteq> []) ?L)) @
      (map (\<lambda>rl. with_action (rl_outbound rl) (list_matcher rl)) (filter (\<lambda>rl. \<not> isBlock (rl_outbound rl)) (filter (\<lambda>rl. list_sets rl \<noteq> []) ?L)) @ ys)"
    by (simp only: routingFrom_def Let_def list_rule_eq [abs_def] snd_conv append_assoc)
  then have d: "decide m final (snd (routingFrom p hybrid) @ ys) =
      (case find (\<lambda>rl. isBlock (rl_outbound rl) \<and> ?hit rl) ?L of
         Some rl \<Rightarrow> target (rl_outbound rl)
       | None \<Rightarrow> (case find (\<lambda>rl. \<not> isBlock (rl_outbound rl) \<and> ?hit rl) ?L of
             Some rl \<Rightarrow> target (rl_outbound rl) | None \<Rightarrow> decide m final ys))"
    by (simp only: decide_actions [OF keys] hits)
  show ?thesis
  proof (cases "list_ex (\<lambda>rl. isBlock (rl_outbound rl) \<and> ?hit rl) ?L")
    case True
    then obtain rl where rl: "find (\<lambda>rl. isBlock (rl_outbound rl) \<and> ?hit rl) ?L = Some rl"
      by (metis (mono_tags, lifting) find_None_iff list_ex_iff option.exhaust)
    then have "isBlock (rl_outbound rl)" by (auto simp: find_Some_iff)
    then show ?thesis using True rl by (simp add: d target_def)
  next
    case False
    then have none: "find (\<lambda>rl. isBlock (rl_outbound rl) \<and> ?hit rl) ?L = None" by (simp add: find_None_iff list_ex_iff)
    have "find (\<lambda>rl. \<not> isBlock (rl_outbound rl) \<and> ?hit rl) ?L = find ?hit ?L"
      using False by (intro find_cong) (auto simp: list_ex_iff)
    with none False show ?thesis by (simp add: d)
  qed
qed

text \<open>C10. The generated route is the policy: for every connection (whatever matchers match it, as long as the
  catch-all does), running the rules of the configuration and falling back to its final outbound gives the
  decision of the profile. The endpoints' own addresses go out directly; then the first matching rule in the
  profile's order decides; then a matching blocking list, before every other list; then the first matching list;
  then the default.\<close>

theorem route_implements_policy:
  assumes "Generate p go = Inr (cfg, plugins)" and "m (bare blockAllRule)"
  shows "decide m (concat (str_at (obj_at cfg ''route'') ''final'')) (objs_at (obj_at cfg ''route'') ''rules'') =
    policy m p (go_hybrid go)"
proof -
  from assms(1) obtain st where ok: "profile_ok p" and cfg: "cfg = gen_config p go st" by (rule Generate_cases)
  let ?rt = "routeFrom p (go_hybrid go)"
  have "length (filter active_default (rules p)) \<le> 1" using ok by (simp add: profile_ok_def)
  from foldl_route_final [OF this, of p "go_hybrid go"]
  have last: "decide m (rt_final ?rt) (if rt_block ?rt then [blockAllRule] else []) =
      (case default_of p of Some r \<Rightarrow> target (ru_outbound r) | None \<Rightarrow> RouteTo OutboundDirect)"
    using assms(2) by (auto simp: routeFrom_def default_of_def target_def blockAllRule_def split: option.splits)
  let ?tail = "if rt_block ?rt then [blockAllRule] else []"
  have sniff: "decide m f ((if go_tun go then [[(''action'', JStr ''sniff'')]] else []) @ rs) = decide m f rs" for f rs
    by simp
  have bypass: "decide m f ((if bp \<noteq> [] then [[(''ip_cidr'', JStrs bp), (''action'', JStr ''route''), (''outbound'', JStr OutboundDirect)]] else []) @ rs) =
      (if bp \<noteq> [] \<and> m [(''ip_cidr'', JStrs bp)] then RouteTo OutboundDirect else decide m f rs)" for f bp rs
    by (simp add: bare_def jdel_def)
  have "decide m (rt_final ?rt) (gen_rules p go) = policy m p (go_hybrid go)"
    by (simp only: gen_rules_def Let_def policy_def sniff bypass decide_rules decide_lists last)
  then show ?thesis by (simp add: cfg gen_config_at)
qed

subsection \<open>The two planes together\<close>

lemma first_kernel_some:
  "list_ex (\<lambda>m. case EndpointByID p m of Some e \<Rightarrow> kernelIface e \<noteq> [] | None \<Rightarrow> False) ms \<Longrightarrow>
    \<exists>ifc. first_kernel_member p ms = Some ifc"
  by (induction ms) (auto split: option.splits)

lemma kernelEgress_routable:
  assumes "kernelEgress p t"
  shows "routable p t"
proof (cases "EndpointByID p t")
  case None
  with assms obtain g where g: "GroupByID p t = Some g" and
    ex: "list_ex (\<lambda>m. case EndpointByID p m of Some e \<Rightarrow> kernelIface e \<noteq> [] | None \<Rightarrow> False) (gr_members g)"
    by (auto simp: kernelEgress_def split: if_splits option.splits)
  from ex have "\<exists>ifc. first_kernel_member p (gr_members g) = Some ifc"
    by (rule first_kernel_some)
  then show ?thesis using None g assms by (auto simp: routable_def resolveEgress_def kernelEgress_def split: if_splits)
next
  case (Some e)
  then show ?thesis using assms by (auto simp: routable_def resolveEgress_def kernelEgress_def split: if_splits)
qed

lemma rule_on_some_plane:
  assumes "r \<in> set (rules p)" and "active r" and "expressible r" and "s \<in> set (ru_ip_cidr r)" and "entry_matches s (V4 n)"
  shows "with_action (ru_outbound r) (rule_matcher r) \<in> set (gen_rules p go) \<or>
    go_hybrid go \<and> (\<exists>z \<in> set (pl_zones (fst (Compile p opt))). z_egress z = ru_outbound r \<and> zone_matches z n)"
proof (cases "go_hybrid go \<and> kernel_rule p r")
  case True
  then have "routable p (ru_outbound r)" by (simp add: kernel_rule_def kernelEgress_routable)
  with True show ?thesis using rule_zone_exists [OF assms(1,2) _ assms(4,5)] by blast
next
  case False
  then have "with_action (ru_outbound r) (rule_matcher r) \<in> set (rt_rules (routeFrom p (go_hybrid go)))"
    using assms(1-3) by (auto simp: routeFrom_def foldl_route_rules proxied_rule_def)
  then show ?thesis by (simp add: gen_rules_def Let_def)
qed

text \<open>C17. No rule falls between the planes: an active rule with a destination that matches an IPv4 address is either
  a rule of the generated route or, in hybrid mode, a zone of the compiled kernel plan for the same egress whose set
  contains the address.\<close>

theorem no_rule_between_planes:
  assumes "r \<in> set (rules p)" and "active r" and "expressible r" and "s \<in> set (ru_ip_cidr r)" and "entry_matches s (V4 n)"
  shows "with_action (ru_outbound r) (rule_matcher r) \<in> set (gen_rules p go) \<or>
    go_hybrid go \<and> (\<exists>z \<in> set (pl_zones (fst (Compile p opt))). z_egress z = ru_outbound r \<and> zone_matches z n)"
  using assms by (rule rule_on_some_plane)

lemma native_no_root:
  assumes "DatapathNativeOnly p mode" and "target_ok p t" and "profile_ok p" and "is_root t \<Longrightarrow> t \<in> set (hybrid_roots p)"
  shows "isBuiltin t"
proof (rule ccontr)
  assume "\<not> isBuiltin t"
  then have "is_root t" using assms(2,3) target_nonempty by (auto simp: target_ok_def intro: is_root_target)
  then have "hybridReachable p \<noteq> []" using root_reachable [OF assms(4)] by auto
  with assms(1) show False by (auto simp: DatapathNativeOnly_def split: if_splits)
qed

lemma native_rule:
  assumes "DatapathNativeOnly p mode" and "profile_ok p" and "r \<in> set (rules p)" and "\<not> ru_disabled r"
  shows "isBuiltin (ru_outbound r) \<or> active r \<and> kernel_rule p r"
proof (cases "active r \<and> kernel_rule p r")
  case False
  have "target_ok p (ru_outbound r)" using assms(2-4) by (auto simp: profile_ok_def rule_ok_def)
  with False show ?thesis using assms(3,4)
    by (intro disjI1 native_no_root [OF assms(1) _ assms(2)]) (auto simp: hybrid_roots_def active_def)
qed simp

lemma native_rule_refs:
  assumes "DatapathNativeOnly p mode" and "profile_ok p" and "go_hybrid go" and "rule \<in> set (gen_rules p go)"
  shows "set (str_at rule ''outbound'') \<subseteq> {OutboundDirect}"
proof
  fix t
  assume t: "t \<in> set (str_at rule ''outbound'')"
  from assms(4) t consider "t = OutboundDirect" | "rule \<in> set (rt_rules (routeFrom p True))" | "rule \<in> set (snd (routingFrom p True))"
    using assms(3) by (auto simp: gen_rules_def Let_def str_at_def blockAllRule_def split: if_splits)
  then show "t \<in> {OutboundDirect}"
  proof cases
    case 2
    then obtain r where r: "r \<in> set (rules p)" "proxied_rule p True r" "rule = with_action (ru_outbound r) (rule_matcher r)"
      by (auto simp: routeFrom_def foldl_route_rules)
    then have "isBuiltin (ru_outbound r)" using native_rule [OF assms(1,2) r(1)] by (auto simp: proxied_rule_def active_def)
    then show ?thesis using t str_at_with_action [OF rule_matcher_keys, of "ru_outbound r" r] canonical_builtin(1)
      by (auto simp: r(3) split: if_splits)
  next
    case 3
    then obtain rl where rl: "rl \<in> set (emitted_lists p True)" "rule = list_rule rl" by (auto simp: routingFrom_def Let_def)
    have "target_ok p (rl_outbound rl)" using assms(2) rl(1) by (auto simp: profile_ok_def list_ok_def emitted_lists_def)
    then have "isBuiltin (rl_outbound rl)"
      by (rule native_no_root [OF assms(1) _ assms(2)]) (use rl(1) in \<open>auto simp: hybrid_roots_def emitted_lists_def\<close>)
    then show ?thesis using t str_at_with_action [of "list_matcher rl" "rl_outbound rl"] canonical_builtin(1)
      by (auto simp: rl(2) list_rule_eq list_matcher_def split: if_splits)
  qed simp
qed

text \<open>C18. Skipping the core loses no IPv4 traffic: when the classifier says of a valid profile that the kernel carries
  everything, all enabled endpoints are kernel tunnels or plain WireGuard, the configuration the core would have had
  in this mode refers to no outbound but \<^verbatim>\<open>direct\<close> in its rules and as its final outbound, and for every active rule
  for a tunnel and every IPv4 address that one of its address entries matches, the kernel plan has a zone of that
  rule's target that matches the address. Nothing is said of IPv6 destinations, which can be lost
  (\<^verbatim>\<open>native_only_loses_v6_rule\<close>).\<close>

theorem native_only_is_carried:
  assumes "DatapathNativeOnly p mode" and "Validate p = None" and "go_hybrid go"
  shows "(\<forall>e \<in> set (endpoints p). ep_enabled e \<longrightarrow> kernel_engine e \<or> ep_protocol e = ProtoWireGuard) \<and>
    rt_final (routeFrom p (go_hybrid go)) = OutboundDirect \<and>
    (\<forall>rule \<in> set (gen_rules p go). set (str_at rule ''outbound'') \<subseteq> {OutboundDirect}) \<and>
    (\<forall>r \<in> set (rules p). \<forall>s \<in> set (ru_ip_cidr r). \<forall>n. active r \<longrightarrow> \<not> isBuiltin (ru_outbound r) \<longrightarrow> entry_matches s (V4 n) \<longrightarrow>
      (\<exists>z \<in> set (pl_zones (fst (Compile p opt))). z_egress z = ru_outbound r \<and> zone_matches z n))"
proof (intro conjI ballI allI impI)
  have ok: "profile_ok p" using assms(2) by (simp add: Validate_iff)
  note nat = native_rule [OF assms(1) ok]
  show "kernel_engine e \<or> ep_protocol e = ProtoWireGuard" if "e \<in> set (endpoints p)" "ep_enabled e" for e
    using assms(1) that
    by (auto simp: DatapathNativeOnly_def ProfileNativeOnly_def EndpointNeedsSingbox_def kernel_engine_def list_ex_iff Let_def split: if_splits)
  show "rt_final (routeFrom p (go_hybrid go)) = OutboundDirect"
  proof (rule route_final_ref [OF ok, of "go_hybrid go"])
    fix r
    assume r: "r \<in> set (rules p)" "active_default r" "\<not> isBlock (ru_outbound r)"
      "rt_final (routeFrom p (go_hybrid go)) = canonicalOutbound (ru_outbound r)"
    have "isBuiltin (ru_outbound r)" using nat [OF r(1)] r(2) by (auto simp: active_default_def active_def)
    then show ?thesis using r(3,4) by (simp add: canonical_builtin)
  qed
  show "set (str_at rule ''outbound'') \<subseteq> {OutboundDirect}" if "rule \<in> set (gen_rules p go)" for rule
    using native_rule_refs [OF assms(1) ok assms(3) that] .
  show "\<exists>z \<in> set (pl_zones (fst (Compile p opt))). z_egress z = ru_outbound r \<and> zone_matches z n"
    if r: "r \<in> set (rules p)" "s \<in> set (ru_ip_cidr r)" "active r" "\<not> isBuiltin (ru_outbound r)" "entry_matches s (V4 n)" for r s n
  proof -
    have "kernel_rule p r" using nat [OF r(1)] r(3,4) by (auto simp: active_def)
    then show ?thesis by (intro rule_zone_exists [OF r(1,3) _ r(2,5)]) (simp add: kernel_rule_def kernelEgress_routable)
  qed
qed

end
