(* ===== verification/Generator_Examples.thy ===== *)
theory Generator_Examples
  imports Generator_Policy
begin

text \<open>
  Concrete profiles: the hypotheses of the generator's theorems hold on them, and the gaps of the generator show on
  them.
\<close>

definition plain_mode :: gen_options where
  "plain_mode = \<lparr>go_mixed_port = 7890, go_clash_addr = ''127.0.0.1:9090'', go_clash_secret = ''s'', go_tun = True, go_tun_mtu = 0,
     go_tun_addr = [], go_cache_file = [], go_hybrid = False, go_exclude_v4 = [], go_exclude_v6 = []\<rparr>"

definition hybrid_mode :: gen_options where
  "hybrid_mode = plain_mode\<lparr>go_hybrid := True\<rparr>"

text \<open>The references of a generated configuration that are not declared, and its declared tags.\<close>

definition dangling :: "(gen_err, jobj \<times> plugin list) res \<Rightarrow> string list" where
  "dangling g = (case g of Inl _ \<Rightarrow> [] | Inr (cfg, _) \<Rightarrow> filter (\<lambda>t. t \<notin> set (declared_tags cfg)) (outbound_refs cfg))"

definition tags_in :: "(gen_err, jobj \<times> plugin list) res \<Rightarrow> string list" where
  "tags_in g = (case g of Inl _ \<Rightarrow> [] | Inr (cfg, _) \<Rightarrow> declared_tags cfg)"

definition gap_profile :: "group list \<Rightarrow> routing_list list \<Rightarrow> profile" where
  "gap_profile gs rls = \<lparr>endpoints = [base_endpoint, tunnel_endpoint], groups = gs, rules = [], routing_lists = rls\<rparr>"

definition remote_list :: "string \<Rightarrow> routing_list" where
  "remote_list via = base_list\<lparr>rl_source := ''https://e.org/l.srs'', rl_manual := [], rl_outbound := ''nl1'', rl_download_via := via\<rparr>"

definition nested_groups :: "group list" where
  "nested_groups = [base_group\<lparr>gr_members := [''awg'']\<rparr>, base_group\<lparr>gr_id := ''g2'', gr_members := [''g1'']\<rparr>]"

lemma gap_detour: "dangling (Generate (gap_profile [] [remote_list ''awg'']) hybrid_mode) = [''awg'']"
  by code_simp

lemma gap_nested: "dangling (Generate (gap_profile nested_groups []) hybrid_mode) = [''g1'']"
  by code_simp

lemma gap_block: "dangling (Generate (gap_profile [] [remote_list ''block'']) plain_mode) = [''block'']"
  by code_simp

lemma gap_builtin: "tags_in (Generate \<lparr>endpoints = [base_endpoint\<lparr>ep_id := ''direct''\<rparr>], groups = [], rules = [], routing_lists = []\<rparr> plain_mode) = [''direct'', ''direct'']"
  by code_simp

subsection \<open>Gaps\<close>

text \<open>Valid profiles whose configuration sing-box refuses. In hybrid mode, a list downloaded over a tunnel that only
  the kernel uses, and a group that contains a group of such tunnels, refer to outbounds that were left out; in any
  mode, a list downloaded over \<^verbatim>\<open>block\<close> refers to an outbound that never exists, and an endpoint named \<^verbatim>\<open>direct\<close> is
  declared beside the builtin of that name.\<close>

theorem configuration_gaps:
  "dangling (Generate (gap_profile [] [remote_list ''awg'']) hybrid_mode) = [''awg''] \<and>
   dangling (Generate (gap_profile nested_groups []) hybrid_mode) = [''g1''] \<and>
   dangling (Generate (gap_profile [] [remote_list ''block'']) plain_mode) = [''block''] \<and>
   \<not> distinct (tags_in (Generate \<lparr>endpoints = [base_endpoint\<lparr>ep_id := ''direct''\<rparr>], groups = [], rules = [], routing_lists = []\<rparr> plain_mode))"
  by (simp add: gap_detour gap_nested gap_block gap_builtin)

definition lost_profile :: profile where
  "lost_profile = \<lparr>endpoints = [tunnel_endpoint], groups = [], rules = [base_rule\<lparr>ru_ip_cidr := [''2001:db8::/32'']\<rparr>], routing_lists = []\<rparr>"

lemma lost_valid: "Validate lost_profile = None"
  by code_simp

lemma no_zones: "c_zones (compile_zones (withDefaults opt) p) = [] \<Longrightarrow> pl_zones (fst (Compile p opt)) = []"
  by (simp add: Compile_def Let_def split: prod.split)

lemma lost_zones: "pl_zones (fst (Compile lost_profile no_options)) = []"
proof (rule no_zones)
  let ?r = "base_rule\<lparr>ru_ip_cidr := [''2001:db8::/32'']\<rparr>"
  have r: "rules lost_profile = [?r]" "routing_lists lost_profile = []" by (simp_all add: lost_profile_def)
  have "collapsePrefixes (family_prefixes False (ru_ip_cidr ?r)) = []" by code_simp
  then have d: "cidrs4 (ru_ip_cidr ?r) = []" by (simp add: classifyCIDRs_def)
  have e: "fst (fst (resolveEgress lost_profile (ru_id ?r) (ru_outbound ?r))) = EgressInterface"
    "strips_v6 lost_profile EgressInterface (ru_outbound ?r)" "\<not> HasSourceMatcher ?r" by code_simp+
  then have "rule_dest lost_profile EgressInterface ?r = []" "rule_src lost_profile EgressInterface ?r = None"
    using d by (simp_all only: rule_dest_def rule_src_def if_True if_False)
  then have "c_zones (compile_rule opt lost_profile st ?r) = c_zones st" for opt st
    using e by (auto simp: compile_rule_def Let_def warn_def split: prod.splits)
  then show "c_zones (compile_zones (withDefaults no_options) lost_profile) = []"
    by (simp add: compile_zones_def r)
qed

lemma lost_rules: "gen_rules lost_profile hybrid_mode =
    [[(''action'', JStr ''sniff'')], [(''ip_cidr'', JStrs [''198.51.100.7/32'']), (''action'', JStr ''route''), (''outbound'', JStr ''direct'')]]"
  by code_simp

lemma lost_final: "rt_final (routeFrom lost_profile True) = ''direct''"
  by code_simp

text \<open>A rule can be carried by no plane: in hybrid mode a rule that sends an IPv6 network through an adopted tunnel is
  left to the kernel, and the kernel plan has no zone for it because such tunnels get no IPv6. Whatever the
  connection, the core sends it out directly.\<close>

theorem v6_rule_on_no_plane:
  "Validate lost_profile = None \<and> pl_zones (fst (Compile lost_profile no_options)) = [] \<and>
   decide m (rt_final (routeFrom lost_profile True)) (gen_rules lost_profile hybrid_mode) = RouteTo OutboundDirect"
  by (simp add: lost_valid lost_zones lost_rules lost_final)

text \<open>The classifier that lets the core be skipped looks for IPv6 entries only beside adopted tunnels. An AmneziaWG
  endpoint that declares only an IPv4 address gets no IPv6 in the kernel plan either: a valid profile that sends
  an IPv6 network through it is taken to be carried by the kernel, and no plane carries the rule.\<close>

definition lost_native :: profile where
  "lost_native = lost_profile\<lparr>endpoints := [base_endpoint\<lparr>ep_id := ''awg'', ep_engine := EngineAmneziaWG, ep_protocol := ProtoAmneziaWG,
     ep_params := [''private_key'' \<mapsto> PStr ''K1'', ''peer_public_key'' \<mapsto> PStr ''K2'', ''local_address'' \<mapsto> PStrs [''10.0.0.2/32'']]\<rparr>]\<rparr>"

lemma lost_native_facts: "Validate lost_native = None" "DatapathNativeOnly lost_native ''fast''"
  by code_simp+

lemma lost_native_zones: "pl_zones (fst (Compile lost_native no_options)) = []"
proof (rule no_zones)
  let ?r = "base_rule\<lparr>ru_ip_cidr := [''2001:db8::/32'']\<rparr>"
  have r: "rules lost_native = [?r]" "routing_lists lost_native = []" by (simp_all add: lost_native_def lost_profile_def)
  have "collapsePrefixes (family_prefixes False (ru_ip_cidr ?r)) = []" by code_simp
  then have d: "cidrs4 (ru_ip_cidr ?r) = []" by (simp add: classifyCIDRs_def)
  have e: "fst (fst (resolveEgress lost_native (ru_id ?r) (ru_outbound ?r))) = EgressInterface"
    "strips_v6 lost_native EgressInterface (ru_outbound ?r)" "\<not> HasSourceMatcher ?r" by code_simp+
  then have "rule_dest lost_native EgressInterface ?r = []" "rule_src lost_native EgressInterface ?r = None"
    using d by (simp_all only: rule_dest_def rule_src_def if_True if_False)
  then have "c_zones (compile_rule opt lost_native st ?r) = c_zones st" for opt st
    using e by (auto simp: compile_rule_def Let_def warn_def split: prod.splits)
  then show "c_zones (compile_zones (withDefaults no_options) lost_native) = []"
    by (simp add: compile_zones_def r)
qed

theorem native_only_loses_v6_rule:
  "Validate lost_native = None \<and> DatapathNativeOnly lost_native ''fast'' \<and> pl_zones (fst (Compile lost_native no_options)) = []"
  by (simp add: lost_native_facts lost_native_zones)

subsection \<open>Witnesses\<close>

definition config_of :: "(gen_err, jobj \<times> plugin list) res \<Rightarrow> jobj" where
  "config_of g = (case g of Inr (cfg, _) \<Rightarrow> cfg | Inl _ \<Rightarrow> [])"

definition mixed_profile :: profile where
  "mixed_profile = example_profile\<lparr>
     rules := rules example_profile @ [base_rule\<lparr>ru_id := ''r2'', ru_geosite := [''google''], ru_geoip := ['' cn ''], ru_outbound := ''g2''\<rparr>],
     routing_lists := [base_list, (remote_list ''g1'')\<lparr>rl_id := ''l2'', rl_manual := [''e.org'', ''192.0.2.9'']\<rparr>]\<rparr>"

definition mixed_config :: "jobj \<times> plugin list" where
  "mixed_config = (case Generate mixed_profile hybrid_mode of Inr c \<Rightarrow> c | Inl _ \<Rightarrow> ([], []))"

lemma mixed_generates: "Generate mixed_profile hybrid_mode = Inr (fst mixed_config, snd mixed_config)"
proof -
  have "is_ok (Generate mixed_profile hybrid_mode)" by code_simp
  then show ?thesis by (auto simp: mixed_config_def is_ok_def split: sum.splits)
qed

lemma mixed_ok: "no_builtin_ids mixed_profile"
  by code_simp

lemma mixed_no_gap: "\<not> gap_ref mixed_profile True t"
proof -
  have "list_all (\<lambda>rl. rl_source rl \<noteq> [] \<longrightarrow> \<not> isBlock (rl_download_via rl) \<and> \<not> left_out mixed_profile True (rl_download_via rl))
      (emitted_lists mixed_profile True)"
    "list_all (\<lambda>g. list_all (\<lambda>m. GroupByID mixed_profile m \<noteq> None \<longrightarrow> \<not> left_out mixed_profile True m) (gr_members g)) (gen_groups mixed_profile True)"
    by code_simp+
  then show ?thesis by (auto simp: gap_ref_def list_all_iff)
qed

lemma hybrid_mode_hybrid [simp]: "go_hybrid hybrid_mode"
  by (simp add: hybrid_mode_def)

theorem references_resolve_witness:
  "is_ok (Generate mixed_profile hybrid_mode) \<and> set (outbound_refs (fst mixed_config)) - set (declared_tags (fst mixed_config)) = {}"
  using references_resolve [OF mixed_generates mixed_ok] mixed_no_gap mixed_generates by (simp add: is_ok_def)

theorem tags_unique_witness:
  "distinct (declared_tags (fst mixed_config)) \<and> distinct (declared_sets_tags (fst mixed_config)) \<and>
   set (rule_set_refs (fst mixed_config)) \<subseteq> set (declared_sets_tags (fst mixed_config))"
  by (rule tags_unique [OF mixed_generates mixed_ok])

definition catch_all :: "jobj \<Rightarrow> bool" where
  "catch_all ob = (jget ob ''network'' \<noteq> None)"

theorem route_implements_policy_witness:
  "catch_all (bare blockAllRule) \<and>
   decide catch_all (concat (str_at (obj_at (fst mixed_config) ''route'') ''final'')) (objs_at (obj_at (fst mixed_config) ''route'') ''rules'') =
     policy catch_all mixed_profile True"
proof -
  have c: "catch_all (bare blockAllRule)" by code_simp
  then show ?thesis using route_implements_policy [OF mixed_generates, of catch_all] by simp
qed

lemma base_rule_facts:
  "active base_rule" "expressible base_rule" "''203.0.113.0/24'' \<in> set (ru_ip_cidr base_rule)"
  "entry_matches ''203.0.113.0/24'' (V4 3405803777)" "ru_outbound base_rule = ''awg''"
  by code_simp+

theorem no_rule_between_planes_witness:
  "base_rule \<in> set (rules example_profile) \<and> entry_matches ''203.0.113.0/24'' (V4 3405803777) \<and>
   (with_action ''awg'' (rule_matcher base_rule) \<in> set (gen_rules example_profile hybrid_mode) \<or>
    go_hybrid hybrid_mode \<and> (\<exists>z \<in> set (pl_zones (fst (Compile example_profile no_options))). z_egress z = ''awg'' \<and> zone_matches z 3405803777))"
proof -
  have r: "base_rule \<in> set (rules example_profile)" by (simp add: example_profile_def)
  from no_rule_between_planes [OF r base_rule_facts(1-4), of hybrid_mode no_options] r base_rule_facts(4,5)
  show ?thesis by simp
qed

definition native_profile :: profile where
  "native_profile = \<lparr>endpoints = [tunnel_endpoint], groups = [], rules = [base_rule], routing_lists = []\<rparr>"

lemma native_facts: "DatapathNativeOnly native_profile ''fast''" "Validate native_profile = None"
  by code_simp+

theorem native_only_is_carried_witness:
  "DatapathNativeOnly native_profile ''fast'' \<and> Validate native_profile = None \<and>
   rt_final (routeFrom native_profile True) = OutboundDirect \<and>
   (\<exists>z \<in> set (pl_zones (fst (Compile native_profile no_options))). z_egress z = ''awg'' \<and> zone_matches z 3405803777)"
proof -
  have r: "base_rule \<in> set (rules native_profile)" by (simp add: native_profile_def)
  have b: "\<not> isBuiltin (ru_outbound base_rule)" by code_simp
  note n = native_only_is_carried [OF native_facts hybrid_mode_hybrid, of no_options]
  from n have "rt_final (routeFrom native_profile True) = OutboundDirect" by simp
  moreover from n r base_rule_facts b
  have "\<exists>z \<in> set (pl_zones (fst (Compile native_profile no_options))). z_egress z = ru_outbound base_rule \<and> zone_matches z 3405803777"
    by blast
  ultimately show ?thesis using native_facts base_rule_facts(5) by simp
qed

definition tuic_endpoint :: endpoint where
  "tuic_endpoint = base_endpoint\<lparr>ep_protocol := ProtoTUIC, ep_tls := Some \<lparr>tls_enabled = True, tls_type = [], tls_sni = ''e.org'',
     tls_alpn = [''h2'', ''h3''], tls_insecure = False, tls_fingerprint = ''chrome'', tls_public_key = [], tls_short_id = [],
     tls_fragment = False, tls_record_fragment = False\<rparr>\<rparr>"

definition tuic_outbound :: jobj where
  "tuic_outbound = (case outboundFor tuic_endpoint of Inr ob \<Rightarrow> ob | Inl _ \<Rightarrow> [])"

definition tuic_tls :: jobj where
  "tuic_tls = obj_at tuic_outbound ''tls''"

theorem outbound_alpn_fits_witness: "jget tuic_outbound ''tls'' = Some (JObj tuic_tls) \<and> alpn_fits tuic_endpoint (alpn_of tuic_tls)"
proof -
  have "is_ok (outboundFor tuic_endpoint)" by code_simp
  then have ob: "outboundFor tuic_endpoint = Inr tuic_outbound" by (auto simp: tuic_outbound_def is_ok_def split: sum.splits)
  have tls: "jget tuic_outbound ''tls'' = Some (JObj tuic_tls)" by code_simp
  have "transport_type tuic_endpoint = []" by code_simp
  then show ?thesis using outbound_alpn_fits [OF ob tls] tls by simp
qed




end
