(* ===== verification/Server_Apply_Examples.thy ===== *)
theory Server_Apply_Examples
  imports Server_Apply_Spec Generator_Examples
begin

text \<open>
  A server with a running core, put through an Apply, a rollback and an Apply whose kernel plan is refused: the
  hypotheses of the theorems about Apply hold on it, and the exceptions show on it.
\<close>

definition calm_core_env :: core_env where
  "calm_core_env = \<lparr>ce_stop = \<lparr>term_ok = True, exits_in_grace = True, kill_result = KillOk, exit_status = None\<rparr>, ce_spawn = Spawned\<rparr>"

definition calm_env :: apply_env where
  "calm_env = \<lparr>ae_save = False, ae_now = 1000, ae_probed = [], ae_auto_reboot = False, ae_available = True, ae_mkdir_fails = False,
     ae_write = no_faults, ae_check = True, ae_backup = (False, no_faults), ae_core = calm_core_env, ae_plug = good_env,
     ae_stops = [''awg1''], ae_starts = [''awg1''], ae_restore = (False, no_faults), ae_core2 = calm_core_env,
     ae_commit = (False, no_faults), ae_err_text = \<lambda>_. []\<rparr>"

definition first_server :: "profile \<Rightarrow> unit server" where
  "first_server p = \<lparr>sv_profile = p, sv_fs = \<lparr>cur = [''c'' \<mapsto> \<lparr>contents = Some [], synced = True\<rparr>], dur = Map.empty\<rparr>,
     sv_core = \<lparr>cmd = Some 0, running = {0}, next_pid = 1, desired = True, startedAt = Some 5, exitErr = None\<rparr>,
     sv_pbr = \<lparr>ps_plan = None, ps_baseline = None, ps_world = ()\<rparr>, sv_plug = (new_manager ''d'', empty_host),
     sv_plugin_baseline = [], sv_failsafe = New DefaultDurations, sv_window_native = False\<rparr>"

definition mode_config :: "string \<Rightarrow> config" where
  "mode_config m = \<lparr>cf_routing_mode = m, cf_gateway = False, cf_demo = False, cf_offload = [], cf_offload_devices = [],
     cf_mixed_port = 7890, cf_clash_controller = [], cf_clash_secret = [], cf_cache_path = [], cf_gateway_mtu = 0, cf_gateway_addr = []\<rparr>"

definition accepting :: "(unit, unit) runner" where
  "accepting prog inp args w = (None, w)"

definition refusing :: "(unit, unit) runner" where
  "refusing prog inp args w = (Some (), w)"

definition awg_profile :: profile where
  "awg_profile = \<lparr>endpoints = [base_endpoint, awg_endpoint], groups = [], rules = [], routing_lists = []\<rparr>"

definition done_cleanly :: "'e response \<Rightarrow> bool" where
  "done_cleanly r = (case r of Done a \<Rightarrow> ap_backup_err a = None \<and> ap_pbr_err a = None | _ \<Rightarrow> False)"

definition aborted_cleanly :: "'e response \<Rightarrow> bool" where
  "aborted_cleanly r = (case r of Aborted _ rerr \<Rightarrow> rerr = None | _ \<Rightarrow> False)"

lemma done_cleanlyE: "done_cleanly r \<Longrightarrow> (\<And>a. r = Done a \<Longrightarrow> ap_backup_err a = None \<Longrightarrow> ap_pbr_err a = None \<Longrightarrow> thesis) \<Longrightarrow> thesis"
  by (auto simp: done_cleanly_def split: response.splits)

subsection \<open>An Apply and its rollback\<close>

definition mixed_applied :: "unit response \<times> unit server" where
  "mixed_applied = handleApply accepting calm_env (mode_config ''mixed'') ''c'' (first_server awg_profile)"

lemma mixed_done: "done_cleanly (fst mixed_applied)"
  by code_simp

lemma calm_facts [simp]: "\<not> ae_save calm_env" "ae_available calm_env" "ae_plug calm_env = good_env"
  by (simp_all add: calm_env_def)

lemma first_facts [simp]: "\<not> pending (sv_failsafe (first_server p))" "read_file ''c'' (sv_fs (first_server p)) = Some (Some [])"
  "Specs (fst (sv_plug (first_server p))) = []" "Running (sv_core (first_server p))" "ps_plan (sv_pbr (first_server p)) = None"
  "sv_profile (first_server p) = p"
  by (simp_all add: first_server_def New_def read_file_def Specs_def new_manager_def Running_def aliveLocked_def)

lemma applied_window:
  assumes "handleApply run calm_env c ''c'' (first_server p) = (r, s)" and "done_cleanly r"
  shows "in_window run ''c'' (first_server p) s"
proof -
  obtain a where a: "r = Done a" "ap_backup_err a = None" using assms(2) by (rule done_cleanlyE)
  have "handleApply run calm_env c ''c'' (first_server p) = (Done a, s)" using assms(1) a(1) by simp
  then show ?thesis by (rule window_opens) (simp_all add: a(2))
qed

lemma mixed_eq: "handleApply accepting calm_env (mode_config ''mixed'') ''c'' (first_server awg_profile) = (fst mixed_applied, snd mixed_applied)"
  by (simp add: mixed_applied_def)

lemma awg_plugins_mixed: "case Generate awg_profile (apply_opts calm_env (mode_config ''mixed'') (first_server awg_profile)) of
    Inr (_, pls) \<Rightarrow> map (sp_id \<circ> spec_of) pls = [''awg1''] | _ \<Rightarrow> False"
  by code_simp

theorem apply_all_or_nothing_witness:
  "\<exists>s'. snd (handleApply accepting calm_env (mode_config ''mixed'') ''c'' (first_server awg_profile)) = s' \<and>
     open_window (sv_failsafe s') \<and> map sp_id (Specs (fst (sv_plug s'))) = [''awg1''] \<and> read_file ''c'' (sv_fs s') \<noteq> Some (Some [])"
proof -
  obtain a where a: "fst mixed_applied = Done a" using mixed_done by (rule done_cleanlyE)
  note w = apply_all_or_nothing [OF mixed_eq, unfolded a, simplified]
  have "read_file ''c'' (sv_fs (snd mixed_applied)) \<noteq> Some (Some [])" by code_simp
  moreover have "map sp_id (Specs (fst (sv_plug (snd mixed_applied)))) = [''awg1'']"
    using w awg_plugins_mixed by (auto simp: went_live_def comp_def split: sum.splits)
  ultimately show ?thesis using w by (simp add: mixed_applied_def [symmetric])
qed

lemma calm_copy: "read_file src f \<noteq> None \<Longrightarrow> snd (copyFile nil False no_faults src dst f) = None"
  by (auto simp: copyFile_def cell_write_def Write_def WriteSynced_def no_faults_def Let_def split: option.splits prod.splits)

lemma calm_stop: "fst (Stop (ce_stop calm_core_env) c) = None"
  by (simp add: Stop_def stop_begin_def stop_finish_def calm_core_env_def Let_def split: option.splits)

lemma calm_start: "fst (Start now (ce_spawn calm_core_env) c) = None"
  by (simp add: Start_def startLocked_def calm_core_env_def)

lemma calm_bring_up: "snd (fst (bring_up available calm_core_env now c)) = None"
  using calm_stop calm_start by (auto simp: bring_up_def Reload_def split: prod.splits option.splits) (metis fst_conv option.distinct(1))+

lemma calm_rollback:
  assumes "read_file (config @ ''.bak'') (sv_fs s) \<noteq> None"
  shows "fst (rollback_core calm_env config s) = None"
proof -
  have "snd (Restore None False no_faults config (sv_fs s)) = None"
    using calm_copy [OF assms, of None config] assms by (auto simp: Restore_def Let_def read_file_def)
  then obtain f where r: "Restore None False no_faults config (sv_fs s) = (f, None)" by (metis prod.collapse)
  obtain up e co where b: "bring_up True calm_core_env 1000 (sv_core s) = ((up, e), co)" by (metis prod.collapse)
  with calm_bring_up [of True 1000 "sv_core s"] have "e = None" by simp
  moreover obtain co' where "Stop (ce_stop calm_core_env) (sv_core s) = (None, co')" using calm_stop by (metis prod.collapse)
  ultimately show ?thesis using r b by (simp add: rollback_core_def calm_env_def)
qed

lemma calm_roll_back:
  assumes "in_window run ''c'' (first_server p) s"
  obtains s' where "roll_back run calm_env ''c'' (epoch (sv_failsafe s)) (s\<lparr>sv_failsafe := sv_failsafe s\<rparr>) = (None, s')"
proof -
  have "rollback_targets ''c'' (first_server p) s" using in_window_targets [OF assms] by simp
  then have "fst (rollback_core calm_env ''c'' s) = None" by (intro calm_rollback) (simp add: rollback_targets_def)
  then obtain s1 where "rollback_core calm_env ''c'' s = (None, s1)" by (metis prod.collapse)
  then have "roll_back run calm_env ''c'' (epoch (sv_failsafe s)) s =
      (None, restorePluginBaseline calm_env (s1\<lparr>sv_pbr := restorePBRBaseline run (sv_pbr s1)\<rparr>))"
    by (simp add: roll_back_def IsCurrent_def)
  then show thesis using that by simp
qed


subsection \<open>Without the core\<close>

lemma accepting_runs: "fst (run_until_error accepting cs w) = None"
  by (induction cs arbitrary: w) (auto simp: run_cmd_def accepting_def split: prod.splits)

lemma accepting_applies: "fst (applyPBR accepting pl s) = None"
  using accepting_runs by (auto simp: applyPBR_def Apply_def accepting_def Let_def split: option.splits prod.splits) (metis fst_conv option.distinct(1))+

lemma refusing_applies: "ps_plan s = None \<Longrightarrow> \<exists>err s'. applyPBR refusing (Some pl) s = (Some err, s')"
  by (simp add: applyPBR_def Apply_def refusing_def Let_def)

definition fast_opts :: gen_options where
  "fast_opts = \<lparr>go_mixed_port = 7890, go_clash_addr = [], go_clash_secret = [], go_tun = False, go_tun_mtu = 0, go_tun_addr = [],
     go_cache_file = [], go_hybrid = True, go_exclude_v4 = [], go_exclude_v6 = []\<rparr>"

lemma fast_options: "fst (genOptionsWithPlan probed p (mode_config ''fast'')) = fast_opts"
  "\<exists>pl. snd (genOptionsWithPlan probed p (mode_config ''fast'')) = Some pl"
  by (simp_all add: genOptionsWithPlan_def routingMode_def mode_config_def fast_opts_def Let_def)

lemma native_generates: "is_ok (Generate native_profile fast_opts)"
  by code_simp

lemma native_verdict: "DatapathNativeOnly native_profile (routingMode (mode_config ''fast''))" "\<not> cf_demo (mode_config m)"
  using native_facts(1) by (simp_all add: routingMode_def mode_config_def)

lemma native_backup: "case native_phase calm_env ''c'' (first_server p) of (Inr ph, s1) \<Rightarrow> ph_backup_err ph = None | _ \<Rightarrow> False"
  by code_simp

definition native_applied :: "unit response \<times> unit server" where
  "native_applied = handleApply accepting calm_env (mode_config ''fast'') ''c'' (first_server native_profile)"

lemma native_eq: "handleApply accepting calm_env (mode_config ''fast'') ''c'' (first_server native_profile) = (fst native_applied, snd native_applied)"
  by (simp add: native_applied_def)

lemma native_done: "done_cleanly (fst native_applied)"
proof -
  obtain cfg plugins where g: "Generate native_profile fast_opts = Inr (cfg, plugins)"
    using native_generates by (auto simp: is_ok_def split: sum.splits)
  obtain ph s1 where ph: "native_phase calm_env ''c'' (first_server native_profile) = (Inr ph, s1)" "ph_backup_err ph = None"
    using native_backup [of native_profile] by (auto split: prod.splits sum.splits)
  obtain a s' where "after_phase accepting calm_env (mode_config ''fast'') ''c'' True ph plugins
      (apply_plan calm_env (mode_config ''fast'') (first_server native_profile)) s1 = (Done a, s')"
    "ap_pbr_err a = None" "ap_backup_err a = ph_backup_err ph"
    by (rule after_phase_finishes [OF accepting_applies])
  then show ?thesis
    using handleApply_runs [of "first_server native_profile" calm_env "mode_config ''fast''" cfg plugins "''c''" ph s1 accepting] g ph
    by (simp add: native_verdict apply_opts_def fast_options native_applied_def done_cleanly_def)
qed

theorem native_window_keeps_core_down_witness:
  "\<exists>s s'. in_window accepting ''c'' (first_server native_profile) s \<and> roll_back accepting calm_env ''c'' (epoch (sv_failsafe s)) s = (None, s') \<and>
     Running (sv_core (first_server native_profile)) \<and> \<not> Running (sv_core s') \<and> ps_plan (sv_pbr s') = None"
proof -
  let ?s = "snd native_applied"
  have w: "in_window accepting ''c'' (first_server native_profile) ?s" by (rule applied_window [OF native_eq native_done])
  obtain a where a: "fst native_applied = Done a" using native_done by (rule done_cleanlyE)
  then have n: "sv_window_native ?s" using handleApply_result(1) [OF native_eq] by (simp add: native_verdict)
  obtain s' where r: "roll_back accepting calm_env ''c'' (epoch (sv_failsafe ?s)) (?s\<lparr>sv_failsafe := sv_failsafe ?s\<rparr>) = (None, s')"
    by (rule calm_roll_back [OF w])
  with native_window_keeps_core_down [OF w _ n r] w show ?thesis by auto
qed

subsection \<open>An aborted Apply\<close>

lemma awg_plugins: "case Generate awg_profile fast_opts of Inr (_, pls) \<Rightarrow> map (sp_id \<circ> spec_of) pls = [''awg1''] | _ \<Rightarrow> False"
  by code_simp

lemma core_example: "case core_phase calm_env ''c'' cfg (first_server p) of
    (Inr ph, s1) \<Rightarrow> snd (Restore None False no_faults ''c'' (sv_fs s1)) = None | _ \<Rightarrow> False"
  by code_simp

theorem aborted_apply_keeps_new_engines_witness:
  "\<exists>err s'. handleApply refusing calm_env (mode_config ''fast'') ''c'' (first_server awg_profile) = (Aborted err None, s') \<and>
     Specs (fst (sv_plug (first_server awg_profile))) = [] \<and> map sp_id (Specs (fst (sv_plug s'))) = [''awg1'']"
proof -
  let ?c = "mode_config ''fast''" and ?s = "first_server awg_profile"
  obtain cfg plugins where g: "Generate (sv_profile ?s) (apply_opts calm_env ?c ?s) = Inr (cfg, plugins)"
    using awg_plugins by (auto simp: apply_opts_def fast_options split: sum.splits)
  obtain ph s1 where ph: "core_phase calm_env ''c'' cfg ?s = (Inr ph, s1)" "snd (Restore None False no_faults ''c'' (sv_fs s1)) = None"
    using core_example [of cfg awg_profile] by (auto split: prod.splits sum.splits)
  have core: "\<not> nativeVerdict ?c ?s" by code_simp
  obtain pl where pl: "apply_plan calm_env ?c ?s = Some pl" using fast_options(2) by (auto simp: apply_plan_def)
  have "ps_plan (sv_pbr (syncPluginsFor calm_env plugins s1)) = None"
    using core_phase_result(1) [OF ph(1)] by (simp add: core_result_def same_live_def syncPluginsFor_def)
  then obtain err where err: "fst (applyPBR refusing (Some pl) (sv_pbr (syncPluginsFor calm_env plugins s1))) = Some err"
    using refusing_applies by (metis fst_conv)
  obtain s3 where ab: "after_phase refusing calm_env ?c ''c'' (nativeVerdict ?c ?s) ph plugins (Some pl) s1 = abort_apply refusing calm_env ''c'' err s3"
    "sv_fs s3 = sv_fs s1"
    by (rule after_phase_aborts [OF err native_verdict(2) calm_facts(1)])
  have "\<exists>s'. abort_apply refusing calm_env ''c'' err s3 = (Aborted err None, s')"
    using ph(2) by (auto simp: abort_apply_def ab(2) calm_env_def Let_def split: prod.splits)
  then obtain s' where h: "handleApply refusing calm_env ?c ''c'' ?s = (Aborted err None, s')"
    using handleApply_runs [of ?s calm_env ?c cfg plugins "''c''" ph s1 refusing] g ph(1) ab(1) pl core by auto
  have "map sp_id (Specs (fst (sv_plug s'))) = [''awg1'']"
    using aborted_apply_keeps_new_engines [OF h] awg_plugins by (auto simp: apply_opts_def fast_options comp_def split: sum.splits)
  with h show ?thesis by simp
qed

end
