(* ===== verification/Go_Url.thy ===== *)
theory Go_Url
  imports Go_Encoding
begin

text \<open>
  The parts of Go's \<^verbatim>\<open>net/url\<close> and \<^verbatim>\<open>net\<close> that the importers and exporters call (Go 1.22): percent-encoding in each
  part of a URL, parsing a URL, its query values, and host:port pairs; with the round trips of encoding and decoding.
\<close>

subsection \<open>Cutting strings\<close>

text \<open>\<^verbatim>\<open>strings.Cut\<close> at a byte, and at its last occurrence.\<close>

definition cut :: "char \<Rightarrow> string \<Rightarrow> string \<times> string" where
  "cut c s = (takeWhile (\<lambda>d. d \<noteq> c) s, drop 1 (dropWhile (\<lambda>d. d \<noteq> c) s))"

definition cut_last :: "char \<Rightarrow> string \<Rightarrow> (string \<times> string) option" where
  "cut_last c s =
     (if c \<in> set s
      then Some (rev (drop 1 (dropWhile (\<lambda>d. d \<noteq> c) (rev s))), rev (takeWhile (\<lambda>d. d \<noteq> c) (rev s)))
      else None)"

text \<open>\<^verbatim>\<open>strings.Index\<close>: the text before and after the first occurrence of a separator.\<close>

fun cut_str :: "string \<Rightarrow> string \<Rightarrow> (string \<times> string) option" where
  "cut_str sep [] = (if sep = [] then Some ([], []) else None)"
| "cut_str sep (c # s) =
     (if has_prefix (c # s) sep then Some ([], drop (length sep) (c # s))
      else map_option (\<lambda>(a, b). (c # a, b)) (cut_str sep s))"

lemma cut_append [simp]: "c \<notin> set a \<Longrightarrow> cut c (a @ c # b) = (a, b)"
proof -
  assume "c \<notin> set a"
  then have "\<And>x. x \<in> set a \<Longrightarrow> x \<noteq> c" by auto
  then show ?thesis by (simp add: cut_def takeWhile_append2 dropWhile_append2)
qed

lemma cut_absent: "c \<notin> set a \<Longrightarrow> cut c a = (a, [])"
proof -
  assume "c \<notin> set a"
  then have "\<forall>x \<in> set a. x \<noteq> c" by auto
  then have "takeWhile (\<lambda>d. d \<noteq> c) a = a" "dropWhile (\<lambda>d. d \<noteq> c) a = []" by simp_all
  then show ?thesis by (simp only: cut_def drop_Nil)
qed

lemma cut_last_append [simp]: "c \<notin> set b \<Longrightarrow> cut_last c (a @ c # b) = Some (a, b)"
proof -
  assume "c \<notin> set b"
  then have "takeWhile (\<lambda>d. d \<noteq> c) (rev b @ c # rev a) = rev b" "dropWhile (\<lambda>d. d \<noteq> c) (rev b @ c # rev a) = c # rev a"
    by (subst takeWhile_append2 dropWhile_append2, auto)+
  then show ?thesis by (simp add: cut_last_def)
qed

lemma cut_last_absent: "c \<notin> set a \<Longrightarrow> cut_last c a = None"
  by (simp add: cut_last_def)

lemma cut_last_Some: "cut_last c s = Some (a, b) \<Longrightarrow> s = a @ c # b \<and> c \<notin> set b"
proof -
  assume "cut_last c s = Some (a, b)"
  then have c: "c \<in> set s" and a: "a = rev (drop 1 (dropWhile (\<lambda>d. d \<noteq> c) (rev s)))" and b: "b = rev (takeWhile (\<lambda>d. d \<noteq> c) (rev s))"
    by (auto simp: cut_last_def split: if_splits)
  obtain r where r: "dropWhile (\<lambda>d. d \<noteq> c) (rev s) = c # r"
    using c hd_dropWhile [of "\<lambda>d. d \<noteq> c" "rev s"] by (cases "dropWhile (\<lambda>d. d \<noteq> c) (rev s)") (auto simp: dropWhile_eq_Nil_conv)
  have "rev s = takeWhile (\<lambda>d. d \<noteq> c) (rev s) @ dropWhile (\<lambda>d. d \<noteq> c) (rev s)" by simp
  then have "s = rev (dropWhile (\<lambda>d. d \<noteq> c) (rev s)) @ rev (takeWhile (\<lambda>d. d \<noteq> c) (rev s))" by (metis rev_append rev_rev_ident)
  then show ?thesis by (auto simp: r a b dest: set_takeWhileD)
qed

subsection \<open>Percent-encoding\<close>

datatype url_mode = UPath | UPathSegment | UHost | UZone | UUserPassword | UQuery | UFragment

definition url_unreserved :: "char \<Rightarrow> bool" where
  "url_unreserved c = (b64_common c \<or> c \<in> set ''-_.~'')"

definition host_char :: "char \<Rightarrow> bool" where
  "host_char c = (c \<in> set ''!$&()*+,;=:[]<>'' \<or> c = CHR 0x27 \<or> c = CHR 0x22)"

definition shouldEscape :: "char \<Rightarrow> url_mode \<Rightarrow> bool" where
  "shouldEscape c m =
     (if b64_common c then False
      else if (m = UHost \<or> m = UZone) \<and> host_char c then False
      else if c \<in> set ''-_.~'' then False
      else if c \<in> set ''$&+,/:;=?@'' then
        (case m of
           UPath \<Rightarrow> c = CHR ''?''
         | UPathSegment \<Rightarrow> c \<in> set ''/;,?''
         | UUserPassword \<Rightarrow> c \<in> set ''@/?:''
         | UQuery \<Rightarrow> True
         | UFragment \<Rightarrow> False
         | _ \<Rightarrow> True)
      else if m = UFragment \<and> c \<in> set ''!()*'' then False
      else True)"

definition hex_upper :: "nat \<Rightarrow> char" where
  "hex_upper d = (if d < 10 then char_of (48 + d) else char_of (55 + d))"

definition url_escape :: "url_mode \<Rightarrow> char \<Rightarrow> string" where
  "url_escape m c =
     (if \<not> shouldEscape c m then [c]
      else if c = CHR '' '' \<and> m = UQuery then ''+''
      else [CHR ''%'', hex_upper (of_char c div 16), hex_upper (of_char c mod 16)])"

definition escape :: "url_mode \<Rightarrow> string \<Rightarrow> string" where
  "escape m s = concat (map (url_escape m) s)"

text \<open>An escape sequence in a host must stand for a byte outside ASCII, except that a zone is introduced by \<^verbatim>\<open>%25\<close>.\<close>

definition bad_escape :: "url_mode \<Rightarrow> char \<Rightarrow> char \<Rightarrow> bool" where
  "bad_escape m h l =
     ((m = UHost \<and> hex_val h < 8 \<and> \<not> (h = CHR ''2'' \<and> l = CHR ''5'')) \<or>
      (m = UZone \<and> \<not> (h = CHR ''2'' \<and> l = CHR ''5'') \<and> 16 * hex_val h + hex_val l \<noteq> 32 \<and>
        shouldEscape (char_of (16 * hex_val h + hex_val l)) UHost))"

fun unescape :: "url_mode \<Rightarrow> string \<Rightarrow> string option" where
  "unescape m [] = Some []"
| "unescape m (c # s) =
     (if c = CHR ''%'' then
        (case s of
           h # l # t \<Rightarrow>
             if is_hex h \<and> is_hex l \<and> \<not> bad_escape m h l
             then map_option ((#) (char_of (16 * hex_val h + hex_val l))) (unescape m t) else None
         | _ \<Rightarrow> None)
      else if c = CHR ''+'' \<and> m = UQuery then map_option ((#) (CHR '' '')) (unescape m s)
      else if (m = UHost \<or> m = UZone) \<and> of_char c < (128 :: nat) \<and> shouldEscape c m then None
      else map_option ((#) c) (unescape m s))"

abbreviation PathEscape :: "string \<Rightarrow> string" where "PathEscape \<equiv> escape UPathSegment"
abbreviation PathUnescape :: "string \<Rightarrow> string option" where "PathUnescape \<equiv> unescape UPathSegment"
abbreviation QueryEscape :: "string \<Rightarrow> string" where "QueryEscape \<equiv> escape UQuery"
abbreviation QueryUnescape :: "string \<Rightarrow> string option" where "QueryUnescape \<equiv> unescape UQuery"

lemma escape_simps [simp]: "escape m [] = []" "escape m (c # s) = url_escape m c @ escape m s"
  by (simp_all add: escape_def)

lemma escape_append: "escape m (s @ t) = escape m s @ escape m t"
  by (simp add: escape_def)

definition reversible :: "url_mode \<Rightarrow> bool" where
  "reversible m = (m \<noteq> UHost \<and> m \<noteq> UZone)"

lemma hex_digits: "d < 16 \<Longrightarrow> is_hex (hex_upper d) \<and> hex_val (hex_upper d) = d \<and> b64_common (hex_upper d)"
proof -
  have "\<forall>d \<in> set [0..<16]. is_hex (hex_upper d) \<and> hex_val (hex_upper d) = d \<and> b64_common (hex_upper d)" by code_simp
  moreover assume "d < 16"
  ultimately show ?thesis by simp
qed

lemma byte_bound: "(of_char c :: nat) div 16 < 16"
  using nat_of_char_less_256 [of c] by linarith

lemma hex_pair:
  "is_hex (hex_upper (of_char c div 16)) \<and> is_hex (hex_upper (of_char c mod 16)) \<and>
   char_of (16 * hex_val (hex_upper (of_char c div 16)) + hex_val (hex_upper (of_char c mod 16))) = c"
  using hex_digits [OF byte_bound [of c]] hex_digits [of "of_char c mod 16"] by simp

lemma escaped_bytes:
  "shouldEscape (CHR ''%'') m" "m = UQuery \<Longrightarrow> shouldEscape (CHR ''+'') m"
  by (cases m; simp add: shouldEscape_def b64_common_def is_digit_def host_char_def less_eq_char_def)+

lemma unescape_escape1: "reversible m \<Longrightarrow> unescape m (url_escape m c @ s) = map_option ((#) c) (unescape m s)"
  using hex_pair [of c] escaped_bytes [of m]
  by (auto simp: url_escape_def reversible_def bad_escape_def)

lemma unescape_escape [simp]: "reversible m \<Longrightarrow> unescape m (escape m s) = Some s"
  by (induction s) (auto simp: unescape_escape1)

lemma reversible_modes [simp]: "reversible UPath" "reversible UPathSegment" "reversible UUserPassword" "reversible UQuery" "reversible UFragment"
  by (simp_all add: reversible_def)

text \<open>The bytes of an escaped string.\<close>

definition url_out :: "url_mode \<Rightarrow> char \<Rightarrow> bool" where
  "url_out m c = (\<not> shouldEscape c m \<or> c = CHR ''%'' \<or> b64_common c \<or> (m = UQuery \<and> c = CHR ''+''))"

lemma hex_upper_common: "b64_common (hex_upper (of_char c div 16)) \<and> b64_common (hex_upper (of_char c mod 16))"
  using hex_digits [OF byte_bound [of c]] hex_digits [of "of_char c mod 16"] by simp

lemma url_escape_out: "d \<in> set (url_escape m c) \<Longrightarrow> url_out m d"
  using hex_upper_common [of c] by (auto simp: url_escape_def url_out_def split: if_splits)

lemma escape_out: "d \<in> set (escape m s) \<Longrightarrow> url_out m d"
  by (induction s) (auto dest: url_escape_out)

subsection \<open>Query values\<close>

text \<open>\<^verbatim>\<open>url.Values\<close>: keys and values in the order they were set or parsed. \<^verbatim>\<open>Get\<close> is the first value of a key.\<close>

type_synonym qvalues = "(string \<times> string) list"

definition qset :: "string \<Rightarrow> string \<Rightarrow> qvalues \<Rightarrow> qvalues" where
  "qset k v q = upsert_by fst (k, v) q"

definition qget :: "qvalues \<Rightarrow> string \<Rightarrow> string" where
  "qget q k = (case map_of q k of Some v \<Rightarrow> v | None \<Rightarrow> [])"

definition values_encode :: "qvalues \<Rightarrow> string" where
  "values_encode q = join_with ''&'' (map (\<lambda>(k, v). QueryEscape k @ ''='' @ QueryEscape v) (sort_key fst q))"

definition query_pair :: "string \<Rightarrow> (string \<times> string) option" where
  "query_pair kv =
     (if kv = [] \<or> CHR '';'' \<in> set kv then None
      else (case cut (CHR ''='') kv of (k, v) \<Rightarrow>
        (case (QueryUnescape k, QueryUnescape v) of (Some k', Some v') \<Rightarrow> Some (k', v') | _ \<Rightarrow> None)))"

definition parse_query :: "string \<Rightarrow> qvalues" where
  "parse_query s = List.map_filter query_pair (split_on (CHR ''&'') s)"

definition query_safe :: "char \<Rightarrow> bool" where
  "query_safe c = (b64_common c \<or> c \<in> set ''-_.~%+'')"

lemma query_out: "d \<in> set (QueryEscape s) \<Longrightarrow> query_safe d"
  using escape_out [of d UQuery s] by (auto simp: url_out_def query_safe_def shouldEscape_def split: if_splits)

lemma not_query_safe [simp]:
  "\<not> query_safe (CHR ''&'')" "\<not> query_safe (CHR ''='')" "\<not> query_safe (CHR '';'')" "\<not> query_safe (CHR ''#'')" "\<not> query_safe (CHR ''?'')"
  by code_simp+

lemma query_escape_no [simp]:
  "CHR ''&'' \<notin> set (QueryEscape k)" "CHR ''='' \<notin> set (QueryEscape k)" "CHR '';'' \<notin> set (QueryEscape k)"
  "CHR ''#'' \<notin> set (QueryEscape k)" "CHR ''?'' \<notin> set (QueryEscape k)"
  using query_out not_query_safe by blast+

lemma query_pair_escape: "query_pair (QueryEscape k @ CHR ''='' # QueryEscape v) = Some (k, v)"
  using cut_append [of "CHR ''=''" "QueryEscape k" "QueryEscape v"] by (simp add: query_pair_def)

lemma parse_values_encode: "parse_query (values_encode q) = sort_key fst q"
proof (cases "q = []")
  case False
  let ?enc = "\<lambda>(k, v). QueryEscape k @ ''='' @ QueryEscape v"
  have "map ?enc (sort_key fst q) \<noteq> []" using False by (metis Nil_is_map_conv length_0_conv length_sort)
  moreover have "\<forall>w \<in> set (map ?enc (sort_key fst q)). CHR ''&'' \<notin> set w" by auto
  ultimately have "split_on (CHR ''&'') (values_encode q) = map ?enc (sort_key fst q)"
    unfolding values_encode_def by (rule split_join)
  moreover have "List.map_filter query_pair (map ?enc ps) = ps" for ps
    using query_pair_escape by (induction ps) (auto simp: map_filter_simps)
  ultimately show ?thesis by (simp add: parse_query_def)
qed (simp add: values_encode_def parse_query_def map_filter_def query_pair_def)

lemma map_of_sort_key: "distinct (map fst q) \<Longrightarrow> map_of (sort_key fst q) = map_of q"
proof -
  assume d: "distinct (map fst q)"
  then have "distinct (map fst (sort_key fst q))" by (metis distinct_map distinct_sort set_sort inj_on_def)
  with d show ?thesis by (simp add: map_of_inject_set)
qed

lemma qget_parse_values: "distinct (map fst q) \<Longrightarrow> qget (parse_query (values_encode q)) k = qget q k"
  by (simp add: qget_def parse_values_encode map_of_sort_key)

lemma map_of_upsert: "map_of (upsert_by fst (k, v) q) = (map_of q)(k \<mapsto> v)"
  by (induction q) auto

lemma keys_upsert: "set (map fst (upsert_by fst (k, v) q)) = insert k (set (map fst q))"
  by (induction q) auto

lemma qget_qset [simp]: "qget (qset k v q) k' = (if k' = k then v else qget q k')"
  by (simp add: qget_def qset_def map_of_upsert)

lemma distinct_qset [simp]: "distinct (map fst q) \<Longrightarrow> distinct (map fst (qset k v q))"
  unfolding qset_def
proof (induction q)
  case (Cons p q)
  have "fst p \<notin> set (map fst (upsert_by fst (k, v) q))" if "fst p \<noteq> k" using Cons(2) that unfolding keys_upsert by simp
  with Cons show ?case by auto
qed simp

lemma qget_Nil [simp]: "qget [] k = []"
  by (simp add: qget_def)

lemma values_encode_safe: "d \<in> set (values_encode q) \<Longrightarrow> query_safe d \<or> d = CHR ''&'' \<or> d = CHR ''=''"
proof -
  have j: "d \<in> set (join_with sep ws) \<Longrightarrow> d \<in> set sep \<or> (\<exists>w \<in> set ws. d \<in> set w)" for sep ws
    by (induction sep ws rule: join_with.induct) auto
  assume "d \<in> set (values_encode q)"
  then have "d = CHR ''&'' \<or> (\<exists>k v. d \<in> set (QueryEscape k @ ''='' @ QueryEscape v))"
    unfolding values_encode_def by (auto dest!: j)
  then show ?thesis using query_out [of d] by auto
qed

subsection \<open>Hosts and ports\<close>

definition JoinHostPort :: "string \<Rightarrow> string \<Rightarrow> string" where
  "JoinHostPort h p = (if CHR '':'' \<in> set h then ''['' @ h @ '']:'' @ p else h @ '':'' @ p)"

text \<open>\<^verbatim>\<open>net.SplitHostPort\<close>; its errors are not told apart.\<close>

definition SplitHostPort :: "string \<Rightarrow> (string \<times> string) option" where
  "SplitHostPort s =
     (case cut_last (CHR '':'') s of
        None \<Rightarrow> None
      | Some (before, port) \<Rightarrow>
          if s \<noteq> [] \<and> hd s = CHR ''['' then
            (case cut (CHR '']'') s of (h, rest) \<Rightarrow>
               if CHR '']'' \<notin> set s \<or> rest \<noteq> CHR '':'' # port \<or> CHR ''['' \<in> set (tl s) \<or> CHR '']'' \<in> set rest then None
               else Some (tl h, port))
          else if CHR '':'' \<in> set before \<or> CHR ''['' \<in> set s \<or> CHR '']'' \<in> set s then None
          else Some (before, port))"

definition validOptionalPort :: "string \<Rightarrow> bool" where
  "validOptionalPort p = (p = [] \<or> (hd p = CHR '':'' \<and> list_all is_digit (tl p)))"

text \<open>The host of a URL without its port and brackets, and the port.\<close>

definition host_of :: "string \<Rightarrow> string \<times> string" where
  "host_of hp =
     (case (case cut_last (CHR '':'') hp of
              Some (h, p) \<Rightarrow> if validOptionalPort (CHR '':'' # p) then (h, p) else (hp, [])
            | None \<Rightarrow> (hp, [])) of (h, p) \<Rightarrow>
        (if has_prefix h ''['' \<and> has_suffix h '']'' then butlast (tl h) else h, p))"

end
