(* ===== verification/Go_Url_Parse.thy ===== *)
theory Go_Url_Parse
  imports Go_Url
begin

text \<open>
  \<^verbatim>\<open>url.Parse\<close> and \<^verbatim>\<open>URL.String\<close> (Go 1.22), as far as share links use them: scheme, user information, host, query and
  fragment. A path is checked and dropped, and an opaque URL has no host. The main lemma is that a URL with a clean host
  parses back into its parts.
\<close>

type_synonym userinfo = "string \<times> string option"

record url =
  u_scheme :: string
  u_user :: "userinfo option"
  u_host :: string
  u_query :: string
  u_fragment :: string

definition no_url :: url where
  "no_url = \<lparr>u_scheme = [], u_user = None, u_host = [], u_query = [], u_fragment = []\<rparr>"

subsection \<open>Parsing\<close>

definition is_letter :: "char \<Rightarrow> bool" where
  "is_letter c = ((CHR ''a'' \<le> c \<and> c \<le> CHR ''z'') \<or> (CHR ''A'' \<le> c \<and> c \<le> CHR ''Z''))"

definition scheme_char :: "char \<Rightarrow> bool" where
  "scheme_char c = (is_letter c \<or> is_digit c \<or> c \<in> set ''+-.'')"

text \<open>\<^verbatim>\<open>getScheme\<close>: no scheme is not an error, a leading colon is.\<close>

definition get_scheme :: "string \<Rightarrow> (string \<times> string) option" where
  "get_scheme s =
     (let pre = takeWhile scheme_char s; rest = dropWhile scheme_char s in
      if pre = [] then (if rest \<noteq> [] \<and> hd rest = CHR '':'' then None else Some ([], s))
      else if \<not> is_letter (hd pre) then Some ([], s)
      else if rest \<noteq> [] \<and> hd rest = CHR '':'' then Some (pre, tl rest)
      else Some ([], s))"

definition user_char :: "char \<Rightarrow> bool" where
  "user_char c = (b64_common c \<or> c \<in> set ''-._:~!$&()*+,;=%@'' \<or> c = CHR 0x27)"

definition parse_user :: "string \<Rightarrow> userinfo option" where
  "parse_user s =
     (if \<not> list_all user_char s then None
      else if CHR '':'' \<notin> set s then map_option (\<lambda>u. (u, None)) (unescape UUserPassword s)
      else (case cut (CHR '':'') s of (u, p) \<Rightarrow>
        (case (unescape UUserPassword u, unescape UUserPassword p) of
           (Some u', Some p') \<Rightarrow> Some (u', Some p') | _ \<Rightarrow> None)))"

definition parse_host :: "string \<Rightarrow> string option" where
  "parse_host h =
     (if has_prefix h ''['' then
        (case cut_last (CHR '']'') h of
           None \<Rightarrow> None
         | Some (a, port) \<Rightarrow>
             if \<not> validOptionalPort port then None
             else (case cut_str ''%25'' a of
                 None \<Rightarrow> unescape UHost h
               | Some (z1, z2) \<Rightarrow>
                   (case (unescape UHost z1, unescape UZone (''%25'' @ z2), unescape UHost ('']'' @ port)) of
                      (Some h1, Some h2, Some h3) \<Rightarrow> Some (h1 @ h2 @ h3) | _ \<Rightarrow> None)))
      else (case cut_last (CHR '':'') h of
          None \<Rightarrow> unescape UHost h
        | Some (_, p) \<Rightarrow> if validOptionalPort (CHR '':'' # p) then unescape UHost h else None))"

definition parse_authority :: "string \<Rightarrow> (userinfo option \<times> string) option" where
  "parse_authority a =
     (case cut_last (CHR ''@'') a of
        None \<Rightarrow> map_option (\<lambda>h. (None, h)) (parse_host a)
      | Some (ui, h) \<Rightarrow>
          (case parse_host h of
             None \<Rightarrow> None
           | Some h' \<Rightarrow> map_option (\<lambda>u. (Some u, h')) (parse_user ui)))"

definition is_ctl :: "char \<Rightarrow> bool" where
  "is_ctl c = (of_char c < (32 :: nat) \<or> of_char c = (127 :: nat))"

definition split_query :: "string \<Rightarrow> string \<times> string" where
  "split_query s =
     (if has_suffix s ''?'' \<and> length (filter (\<lambda>c. c = CHR ''?'') s) = 1 then (butlast s, []) else cut (CHR ''?'') s)"

text \<open>The part before the fragment; the last case of the code cannot have a host.\<close>

definition parse_body :: "string \<Rightarrow> url option" where
  "parse_body s =
     (if list_ex is_ctl s then None
      else if s = ''*'' then Some no_url
      else (case get_scheme s of
          None \<Rightarrow> None
        | Some (sch0, rest0) \<Rightarrow>
            (case split_query rest0 of (rest, q) \<Rightarrow>
              (let sch = to_lower sch0; u = no_url\<lparr>u_scheme := sch, u_query := q\<rparr> in
               if \<not> has_prefix rest ''/'' \<and> sch \<noteq> [] then Some u
               else if \<not> has_prefix rest ''/'' \<and> CHR '':'' \<in> set (fst (cut (CHR ''/'') rest)) then None
               else if (sch \<noteq> [] \<or> \<not> has_prefix rest ''///'') \<and> has_prefix rest ''//'' then
                 (let a = takeWhile (\<lambda>c. c \<noteq> CHR ''/'') (drop 2 rest); path = dropWhile (\<lambda>c. c \<noteq> CHR ''/'') (drop 2 rest) in
                  (case parse_authority a of
                     None \<Rightarrow> None
                   | Some (ui, h) \<Rightarrow>
                       (case unescape UPath path of None \<Rightarrow> None | Some _ \<Rightarrow> Some (u\<lparr>u_user := ui, u_host := h\<rparr>))))
               else (case unescape UPath rest of None \<Rightarrow> None | Some _ \<Rightarrow> Some u)))))"

definition parse_url :: "string \<Rightarrow> url option" where
  "parse_url raw =
     (case cut (CHR ''#'') raw of (s, frag) \<Rightarrow>
        (case parse_body s of
           None \<Rightarrow> None
         | Some u \<Rightarrow> if frag = [] then Some u else map_option (\<lambda>f. u\<lparr>u_fragment := f\<rparr>) (unescape UFragment frag)))"

definition Hostname :: "url \<Rightarrow> string" where
  "Hostname u = fst (host_of (u_host u))"

definition Port :: "url \<Rightarrow> string" where
  "Port u = snd (host_of (u_host u))"

definition Query :: "url \<Rightarrow> qvalues" where
  "Query u = parse_query (u_query u)"

definition Username :: "url \<Rightarrow> string" where
  "Username u = (case u_user u of Some (n, _) \<Rightarrow> n | None \<Rightarrow> [])"

definition Password :: "url \<Rightarrow> string option" where
  "Password u = (case u_user u of Some (_, p) \<Rightarrow> p | None \<Rightarrow> None)"

subsection \<open>Printing\<close>

text \<open>A URL with a scheme, a user and a host, without a path.\<close>

definition show_user :: "userinfo \<Rightarrow> string" where
  "show_user ui = (case ui of
     (n, None) \<Rightarrow> escape UUserPassword n
   | (n, Some p) \<Rightarrow> escape UUserPassword n @ '':'' @ escape UUserPassword p)"

definition show_url :: "string \<Rightarrow> userinfo \<Rightarrow> string \<Rightarrow> string \<Rightarrow> string" where
  "show_url sch ui h q =
     sch @ ''://'' @ show_user ui @ ''@'' @ (if h = [] then [] else escape UHost h) @ (if q = [] then [] else ''?'' @ q)"

subsection \<open>A printed URL parses back\<close>

definition url_specials :: string where
  "url_specials = ''/?#@[]%:!$&()*+,;=<>^`{}|~_. -'' @ [CHR 0x22, CHR 0x27, CHR 0x5C]"

lemma specials_not_common: "c \<in> set url_specials \<Longrightarrow> \<not> b64_common c"
proof -
  have "\<forall>c \<in> set url_specials. \<not> b64_common c" by code_simp
  then show "c \<in> set url_specials \<Longrightarrow> \<not> b64_common c" by blast
qed

lemma common_not_ctl: "b64_common c \<Longrightarrow> \<not> is_ctl c"
  by (auto simp: b64_common_def is_ctl_def is_digit_def less_eq_char_def)

text \<open>The bytes of a host name, an IPv4 or an IPv6 address.\<close>

definition host_name_char :: "char \<Rightarrow> bool" where
  "host_name_char c = (b64_common c \<or> c \<in> set ''-._~:'')"

definition clean_host :: "string \<Rightarrow> bool" where
  "clean_host h = list_all host_name_char h"

lemma host_name_char_not: "host_name_char c \<Longrightarrow> c \<notin> set ''/?#@[]%'' \<and> \<not> is_ctl c"
proof -
  assume h: "host_name_char c"
  have "\<forall>c \<in> set ''-._~:''. c \<notin> set ''/?#@[]%'' \<and> \<not> is_ctl c" by code_simp
  moreover have "c \<notin> set ''/?#@[]%''" if "b64_common c"
  proof
    assume "c \<in> set ''/?#@[]%''"
    then have "c \<in> set url_specials" by (auto simp: url_specials_def)
    with that specials_not_common show False by blast
  qed
  ultimately show ?thesis using h common_not_ctl unfolding host_name_char_def by blast
qed

lemma digit_common: "is_digit c \<Longrightarrow> b64_common c"
  by (simp add: b64_common_def)

lemma digits_host: "\<forall>c \<in> set (dec_of_nat n). host_name_char c"
  using dec_of_nat_digits by (simp add: host_name_char_def digit_common)

text \<open>In a host these bytes stand for themselves.\<close>

lemma unescape_host:
  assumes "\<forall>c \<in> set s. host_name_char c \<or> c \<in> set ''[]''"
  shows "unescape UHost s = Some s \<and> escape UHost s = s"
proof -
  have 1: "c \<noteq> CHR ''%''" "\<not> shouldEscape c UHost" if "c \<in> set s" for c
  proof -
    have "host_name_char c \<or> c \<in> set ''[]''" using assms that by blast
    then show "c \<noteq> CHR ''%''" "\<not> shouldEscape c UHost"
      using host_name_char_not [of c] by (auto simp: host_name_char_def shouldEscape_def host_char_def)
  qed
  then show ?thesis by (induction s) (simp_all add: url_escape_def)
qed

lemma no_percent: "CHR ''%'' \<notin> set s \<Longrightarrow> cut_str ''%25'' s = None"
  by (induction s) (auto split: if_splits)

lemma host_port_ok:
  assumes "clean_host h"
  shows "parse_host (JoinHostPort h (dec_of_nat n)) = Some (JoinHostPort h (dec_of_nat n))"
    and "host_of (JoinHostPort h (dec_of_nat n)) = (h, dec_of_nat n)"
    and "escape UHost (JoinHostPort h (dec_of_nat n)) = JoinHostPort h (dec_of_nat n)"
    and "\<forall>c \<in> set (JoinHostPort h (dec_of_nat n)). c \<notin> set ''/?#@%'' \<and> \<not> is_ctl c"
proof -
  let ?d = "dec_of_nat n"
  have h: "\<forall>c \<in> set h. host_name_char c" using assms by (simp add: clean_host_def list_all_iff)
  have digits: "list_all is_digit ?d" using dec_of_nat_digits by (simp add: list_all_iff)
  have nocolon: "CHR '':'' \<notin> set ?d" "CHR '']'' \<notin> set ?d" using dec_of_nat_digits [of n] by (auto simp: is_digit_def less_eq_char_def)
  have nobr: "CHR ''['' \<notin> set h" "CHR ''%'' \<notin> set h" "CHR '']'' \<notin> set h" using h host_name_char_not by auto
  have valid: "validOptionalPort (CHR '':'' # ?d)" using digits by (simp add: validOptionalPort_def)
  have chars: "\<forall>c \<in> set (JoinHostPort h ?d). host_name_char c \<or> c \<in> set ''[]''"
    using h digits_host [of n] by (auto simp: JoinHostPort_def host_name_char_def)
  note un = unescape_host [OF chars]
  have ctl: "\<not> is_ctl (CHR ''['')" "\<not> is_ctl (CHR '']'')" by code_simp+
  show "escape UHost (JoinHostPort h ?d) = JoinHostPort h ?d" using un by simp
  show "\<forall>c \<in> set (JoinHostPort h ?d). c \<notin> set ''/?#@%'' \<and> \<not> is_ctl c"
    using chars host_name_char_not ctl by fastforce
  show "parse_host (JoinHostPort h ?d) = Some (JoinHostPort h ?d)"
  proof (cases "CHR '':'' \<in> set h")
    case True
    have l: "cut_last (CHR '']'') ((CHR ''['' # h) @ CHR '']'' # CHR '':'' # ?d) = Some (CHR ''['' # h, CHR '':'' # ?d)"
      by (rule cut_last_append) (use nocolon in simp)
    have "cut_str ''%25'' (CHR ''['' # h) = None" by (rule no_percent) (use nobr in simp)
    with l True un valid show ?thesis by (simp add: JoinHostPort_def parse_host_def)
  next
    case False
    have "\<not> has_prefix (h @ CHR '':'' # ?d) ''[''" using nobr by (cases h) auto
    with False un valid cut_last_append [OF nocolon(1), of h] show ?thesis by (simp add: JoinHostPort_def parse_host_def)
  qed
  show "host_of (JoinHostPort h ?d) = (h, ?d)"
  proof (cases "CHR '':'' \<in> set h")
    case True
    have l: "cut_last (CHR '':'') ((CHR ''['' # h @ '']'') @ CHR '':'' # ?d) = Some (CHR ''['' # h @ '']'', ?d)"
      by (rule cut_last_append) (use nocolon in simp)
    have "has_suffix (CHR ''['' # h @ '']'') '']''" by (simp add: has_suffix_def)
    with l True valid show ?thesis by (simp add: JoinHostPort_def host_of_def)
  next
    case False
    have "\<not> has_prefix h ''[''" using nobr by (cases h) auto
    with False valid cut_last_append [OF nocolon(1), of h] show ?thesis by (simp add: JoinHostPort_def host_of_def)
  qed
qed

lemma user_out:
  assumes "c \<in> set (escape UUserPassword s)"
  shows "user_char c \<and> c \<notin> set ''/?#@:'' \<and> \<not> is_ctl c"
proof -
  have "b64_common c \<or> c \<in> set ''-_.~$&+,;=%''"
    using escape_out [OF assms] by (auto simp: url_out_def shouldEscape_def split: if_splits)
  moreover have "\<forall>c \<in> set ''-_.~$&+,;=%''. user_char c \<and> c \<notin> set ''/?#@:'' \<and> \<not> is_ctl c" by code_simp
  moreover have "c \<notin> set ''/?#@:''" if "b64_common c"
  proof
    assume "c \<in> set ''/?#@:''"
    then have "c \<in> set url_specials" by (auto simp: url_specials_def)
    with that specials_not_common show False by blast
  qed
  ultimately show ?thesis using common_not_ctl by (auto simp: user_char_def)
qed

lemma show_user_out: "c \<in> set (show_user ui) \<Longrightarrow> user_char c \<and> c \<notin> set ''/?#@'' \<and> \<not> is_ctl c"
proof -
  have "user_char (CHR '':'') \<and> CHR '':'' \<notin> set ''/?#@'' \<and> \<not> is_ctl (CHR '':'')" by code_simp
  moreover assume "c \<in> set (show_user ui)"
  ultimately show ?thesis using user_out [of c] by (auto simp: show_user_def split: prod.splits option.splits)
qed

lemma parse_show_user [simp]: "parse_user (show_user ui) = Some ui"
proof -
  obtain n p where ui: "ui = (n, p)" by (cases ui)
  have all: "list_all user_char (show_user ui)" using show_user_out by (simp add: list_all_iff)
  have no: "CHR '':'' \<notin> set (escape UUserPassword n)" for n using user_out [of "CHR '':''" n] by auto
  show ?thesis
  proof (cases p)
    case None
    then show ?thesis using all no by (simp add: parse_user_def show_user_def ui)
  next
    case (Some q)
    then have "show_user ui = escape UUserPassword n @ CHR '':'' # escape UUserPassword q" by (simp add: show_user_def ui)
    then show ?thesis using all cut_append [OF no, of n "escape UUserPassword q"] Some by (simp add: parse_user_def ui)
  qed
qed

definition scheme_name :: "string \<Rightarrow> bool" where
  "scheme_name s = (s \<noteq> [] \<and> list_all (\<lambda>c. in_range (CHR ''a'') (CHR ''z'') c \<or> is_digit c) s \<and> is_letter (hd s) \<and> to_lower s = s)"

lemma scheme_name_chars: "scheme_name s \<Longrightarrow> c \<in> set s \<Longrightarrow> scheme_char c \<and> \<not> is_ctl c \<and> c \<noteq> CHR ''#''"
  by (auto simp: scheme_name_def scheme_char_def is_letter_def in_range_def is_ctl_def is_digit_def list_all_iff less_eq_char_def)

lemma get_scheme_name:
  assumes "scheme_name sch"
  shows "get_scheme (sch @ CHR '':'' # rest) = Some (sch, rest)"
proof -
  have c: "\<not> scheme_char (CHR '':'')" by code_simp
  have "\<forall>c \<in> set sch. scheme_char c" using scheme_name_chars [OF assms] by blast
  then have "takeWhile scheme_char (sch @ CHR '':'' # rest) = sch" "dropWhile scheme_char (sch @ CHR '':'' # rest) = CHR '':'' # rest"
    using c by (induction sch) auto
  then show ?thesis using assms by (simp add: get_scheme_def Let_def scheme_name_def)
qed

lemma split_query_printed:
  assumes "CHR ''?'' \<notin> set rest" and "CHR ''?'' \<notin> set q"
  shows "split_query (rest @ (if q = [] then [] else ''?'' @ q)) = (rest, q)"
proof (cases "q = []")
  case True
  have "filter (\<lambda>c. c = CHR ''?'') rest = []" using assms(1) by (auto simp: filter_empty_conv)
  then show ?thesis using True assms(1) by (simp add: split_query_def cut_absent)
next
  case False
  then obtain b c where q: "q = b @ [c]" by (cases q rule: rev_cases) auto
  then have "\<not> has_suffix (rest @ CHR ''?'' # q) ''?''" using assms(2) by (auto simp: has_suffix_def)
  then show ?thesis using False assms(1) by (simp add: split_query_def)
qed

lemma has_prefix_append [simp]: "has_prefix (p @ s) p"
  by (induction p) auto

theorem parse_show_url:
  assumes "scheme_name sch" and "clean_host h" and "\<forall>c \<in> set q. query_safe c \<or> c \<in> set ''&=''"
    and "unescape UFragment fr = Some name"
  shows "parse_url (show_url sch ui (JoinHostPort h (dec_of_nat n)) q @ (if fr = [] then [] else ''#'' @ fr)) =
    Some \<lparr>u_scheme = sch, u_user = Some ui, u_host = JoinHostPort h (dec_of_nat n), u_query = q, u_fragment = name\<rparr>"
proof -
  let ?hp = "JoinHostPort h (dec_of_nat n)" and ?a = "show_user ui @ ''@'' @ JoinHostPort h (dec_of_nat n)"
  let ?q = "if q = [] then [] else ''?'' @ q"
  note hp = host_port_ok [OF assms(2), of n]
  have hp_ne: "?hp \<noteq> []" by (simp add: JoinHostPort_def)
  have u: "c \<in> set (show_user ui) \<Longrightarrow> c \<notin> set ''/?#@'' \<and> \<not> is_ctl c" for c using show_user_out by blast
  have qs: "c \<notin> set ''#?'' \<and> \<not> is_ctl c" if "c \<in> set q" for c
  proof -
    have "\<forall>c \<in> set ''-_.~%+&=''. c \<notin> set ''#?'' \<and> \<not> is_ctl c" by code_simp
    moreover have "c \<notin> set ''#?''" if "b64_common c" using that specials_not_common [of c] by (auto simp: url_specials_def)
    ultimately show ?thesis using assms(3) that common_not_ctl by (auto simp: query_safe_def)
  qed
  have s: "show_url sch ui ?hp q = sch @ CHR '':'' # ''//'' @ ?a @ ?q" using hp(3) hp_ne by (simp add: show_url_def)
  have sc: "c \<noteq> CHR ''#'' \<and> \<not> is_ctl c" if "c \<in> set sch" for c using scheme_name_chars [OF assms(1) that] by blast
  have seps: "\<forall>c \<in> set '':/@?''. c \<noteq> CHR ''#'' \<and> \<not> is_ctl c" by code_simp
  have hpc: "c \<noteq> CHR ''#'' \<and> \<not> is_ctl c" if "c \<in> set ?hp" for c using bspec [OF hp(4) that] by simp
  have uc: "c \<noteq> CHR ''#'' \<and> \<not> is_ctl c" if "c \<in> set (show_user ui)" for c using u [OF that] by simp
  have qc: "c \<noteq> CHR ''#'' \<and> \<not> is_ctl c" if "c \<in> set q" for c using qs [OF that] by simp
  have chars: "c \<noteq> CHR ''#'' \<and> \<not> is_ctl c" if "c \<in> set (show_url sch ui ?hp q)" for c
  proof -
    have "set (show_url sch ui ?hp q) \<subseteq> set sch \<union> set '':/@?'' \<union> set (show_user ui) \<union> set ?hp \<union> set q"
      unfolding s by auto
    with that consider "c \<in> set sch" | "c \<in> set '':/@?''" | "c \<in> set (show_user ui)" | "c \<in> set ?hp" | "c \<in> set q"
      by blast
    then show ?thesis using sc bspec [OF seps] uc hpc qc by cases blast+
  qed
  have nohash: "CHR ''#'' \<notin> set (show_url sch ui ?hp q)" using chars by blast
  have noctl: "\<not> list_ex is_ctl (show_url sch ui ?hp q)" unfolding list_ex_iff using chars by blast
  have star: "show_url sch ui ?hp q \<noteq> ''*''" by (simp add: s)
  have noq: "CHR ''?'' \<notin> set (''//'' @ ?a)" using u [of "CHR ''?''"] hp(4) by auto
  have qn: "CHR ''?'' \<notin> set q" using qs [of "CHR ''?''"] by auto
  have split: "split_query (''//'' @ ?a @ ?q) = (''//'' @ ?a, q)"
    using split_query_printed [OF noq qn] by (simp only: append_assoc append_Cons append_Nil)
  have noslash: "CHR ''/'' \<notin> set ?a" using u [of "CHR ''/''"] hp(4) by auto
  then have "\<forall>c \<in> set ?a. c \<noteq> CHR ''/''" by blast
  then have parts: "takeWhile (\<lambda>c. c \<noteq> CHR ''/'') ?a = ?a" "dropWhile (\<lambda>c. c \<noteq> CHR ''/'') ?a = []"
    by (simp_all only: takeWhile_eq_all_conv dropWhile_eq_Nil_conv)
  have at: "CHR ''@'' \<notin> set ?hp" using hp(4) by auto
  have "cut_last (CHR ''@'') ?a = Some (show_user ui, ?hp)" using cut_last_append [OF at, of "show_user ui"] by simp
  then have auth: "parse_authority ?a = Some (Some ui, ?hp)" using hp(1) by (simp add: parse_authority_def)
  have low: "to_lower sch = sch" "sch \<noteq> []" using assms(1) by (simp_all add: scheme_name_def)
  have d2: "drop 2 (''//'' @ ?a) = ?a" by simp
  have pre: "has_prefix (''//'' @ ?a) ''//''" "has_prefix (''//'' @ ?a) ''/''" by simp_all
  have body: "parse_body (show_url sch ui ?hp q) =
      Some \<lparr>u_scheme = sch, u_user = Some ui, u_host = ?hp, u_query = q, u_fragment = []\<rparr>"
    unfolding parse_body_def if_not_P [OF noctl] if_not_P [OF star]
    unfolding s get_scheme_name [OF assms(1)] option.case prod.case split
    by (simp only: Let_def d2 pre low parts auth unescape.simps option.case prod.case no_url_def) simp
  show ?thesis
  proof (cases "fr = []")
    case True
    then have "name = []" using assms(4) by simp
    then show ?thesis using True body cut_absent [OF nohash] by (simp add: parse_url_def)
  next
    case False
    then show ?thesis using body assms(4) cut_append [OF nohash, of fr] by (simp add: parse_url_def)
  qed
qed

end
