(* ===== verification/Importer.thy ===== *)
theory Importer
  imports Go_Url_Parse Plugin
begin

text \<open>
  \<^verbatim>\<open>internal/importer\<close>: from a share link or a pasted configuration to an endpoint (\<^verbatim>\<open>importer.go\<close>, \<^verbatim>\<open>conf.go\<close>,
  \<^verbatim>\<open>olcrtc.go\<close>). JSON decoding is outside: a \<^verbatim>\<open>vmess://\<close> link is read through the decoder \<open>json\<close>, which maps
  the decoded text to the object's members (None when it is not a JSON object), \<open>fmtv\<close> prints a member that is not a
  string (\<^verbatim>\<open>FormatFloat\<close>, \<^verbatim>\<open>%v\<close>) and \<open>sprintv\<close> prints any such value with \<^verbatim>\<open>%v\<close>. Integers are those of a 64-bit build.
\<close>

datatype import_error =
    EmptyLink | BadURL | UnsupportedScheme string | VMessBase64 | VMessJSON | SSCredentials | SSHostPort | NoPeerEndpoint

type_synonym imported = "(import_error, endpoint) res"

record json_lib =
  json :: "string \<Rightarrow> params option"
  fmtv :: "pval \<Rightarrow> string"
  sprintv :: "pval \<Rightarrow> string"

subsection \<open>Small utilities\<close>

definition string_of :: "nat list \<Rightarrow> string" where
  "string_of bs = map char_of bs"

definition bytes_of :: "string \<Rightarrow> nat list" where
  "bytes_of s = map of_char s"

text \<open>The first of four encodings that accepts the text; an empty text when none does.\<close>

definition decodeB64 :: "string \<Rightarrow> string" where
  "decodeB64 s0 =
     (let s = trim_space s0 in
      case b64_decode True False s of Some b \<Rightarrow> string_of b
      | None \<Rightarrow> (case b64_decode False True s of Some b \<Rightarrow> string_of b
        | None \<Rightarrow> (case b64_decode False False s of Some b \<Rightarrow> string_of b
          | None \<Rightarrow> (case b64_decode True True s of Some b \<Rightarrow> string_of b | None \<Rightarrow> []))))"

definition atoiDefault :: "string \<Rightarrow> int \<Rightarrow> int" where
  "atoiDefault s d = (case atoi s of Some n \<Rightarrow> n | None \<Rightarrow> d)"

definition splitColon :: "string \<Rightarrow> string \<times> string" where
  "splitColon s = cut (CHR '':'') s"

definition trim_suffix :: "string \<Rightarrow> string \<Rightarrow> string" where
  "trim_suffix s p = (if has_suffix s p then take (length s - length p) s else s)"

definition splitHostPort :: "string \<Rightarrow> string \<times> int" where
  "splitHostPort s =
     (case SplitHostPort s of
        Some (h, p) \<Rightarrow> (h, atoiDefault p 0)
      | None \<Rightarrow> (trim_suffix (trim_prefix s ''['') '']'', 0))"

definition b64Param :: "qvalues \<Rightarrow> string \<Rightarrow> string" where
  "b64Param q k = map (\<lambda>c. if c = CHR '' '' then CHR ''+'' else c) (qget q k)"

definition splitCSV :: "string \<Rightarrow> string list" where
  "splitCSV s = (if s = [] then [] else filter (\<lambda>p. p \<noteq> []) (map trim_space (split_on (CHR '','') s)))"

definition truthy :: "string \<Rightarrow> bool" where
  "truthy s = (to_lower (trim_space s) \<in> {''1'', ''true'', ''yes''})"

definition insecureFromQuery :: "qvalues \<Rightarrow> bool" where
  "insecureFromQuery q = list_ex (\<lambda>k. truthy (qget q k)) [''allowInsecure'', ''insecure'', ''allow_insecure'']"

definition urlDecode :: "string \<Rightarrow> string" where
  "urlDecode s = (case QueryUnescape s of Some d \<Rightarrow> d | None \<Rightarrow> s)"

definition asString :: "json_lib \<Rightarrow> pval option \<Rightarrow> string" where
  "asString J v = (case v of Some (PStr s) \<Rightarrow> s | None \<Rightarrow> [] | Some PNil \<Rightarrow> [] | Some x \<Rightarrow> fmtv J x)"

text \<open>A number is cut towards zero, and the default replaces one outside 32 bits.\<close>

definition asInt :: "pval option \<Rightarrow> int \<Rightarrow> int" where
  "asInt v d =
     (case v of
        Some (PNum x) \<Rightarrow> if x < - (2 ^ 31) \<or> x > 2 ^ 31 - 1 then d else trunc x
      | Some (PStr s) \<Rightarrow> atoiDefault s d
      | _ \<Rightarrow> d)"

definition genID_char :: "char \<Rightarrow> bool" where
  "genID_char c = (in_range (CHR ''a'') (CHR ''z'') c \<or> is_digit c)"

fun dash_runs :: "bool \<Rightarrow> string \<Rightarrow> string" where
  "dash_runs prev [] = []"
| "dash_runs prev (c # s) =
     (if genID_char c then c # dash_runs False s
      else if prev then dash_runs True s else CHR ''-'' # dash_runs True s)"

definition trim_dashes :: "string \<Rightarrow> string" where
  "trim_dashes s = rev (dropWhile (\<lambda>c. c = CHR ''-'') (rev (dropWhile (\<lambda>c. c = CHR ''-'') s)))"

definition genID :: "endpoint \<Rightarrow> string" where
  "genID e =
     trim_dashes (dash_runs False (to_lower
       (ep_protocol e @ ''-'' @ ep_server e @ (if ep_port e \<noteq> 0 then ''-'' @ itoa (ep_port e) else []))))"

definition finalize :: "imported \<Rightarrow> imported" where
  "finalize r =
     (case r of Inl x \<Rightarrow> Inl x
      | Inr e \<Rightarrow>
          (let e1 = (if ep_id e = [] then e\<lparr>ep_id := genID e\<rparr> else e);
               e2 = (if ep_name e1 = [] then e1\<lparr>ep_name := to_upper (ep_protocol e1) @ '' '' @ ep_server e1\<rparr> else e1)
           in Inr (if \<not> ep_enabled e2 then e2\<lparr>ep_enabled := True\<rparr> else e2)))"

subsection \<open>Query, transport and TLS\<close>

definition no_tls :: tls where
  "no_tls = \<lparr>tls_enabled = False, tls_type = [], tls_sni = [], tls_alpn = [], tls_insecure = False,
     tls_fingerprint = [], tls_public_key = [], tls_short_id = [], tls_fragment = False, tls_record_fragment = False\<rparr>"

definition no_transport :: transport where
  "no_transport = \<lparr>tr_type = [], tr_path = [], tr_host = [], tr_service_name = [], tr_headers = Map.empty\<rparr>"

definition new_endpoint :: "engine \<Rightarrow> protocol \<Rightarrow> string \<Rightarrow> int \<Rightarrow> string \<Rightarrow> params \<Rightarrow> endpoint" where
  "new_endpoint eng prot srv port nm ps =
     \<lparr>ep_id = [], ep_name = nm, ep_engine = eng, ep_protocol = prot, ep_server = srv, ep_port = port, ep_params = ps,
       ep_transport = None, ep_tls = None, ep_health = None, ep_enabled = False, ep_mtu = 0, ep_keepalive = 0\<rparr>"

definition path_host :: "string \<Rightarrow> qvalues \<Rightarrow> transport" where
  "path_host t q = no_transport\<lparr>tr_type := t, tr_path := qget q ''path'', tr_host := qget q ''host''\<rparr>"

definition transportFromQuery :: "qvalues \<Rightarrow> transport option" where
  "transportFromQuery q =
     (let t = qget q ''type'' in
      if t = ''ws'' then Some (path_host ''ws'' q)
      else if t = ''grpc'' then Some (no_transport\<lparr>tr_type := ''grpc'', tr_service_name :=
        FirstNonEmpty [qget q ''serviceName'', qget q ''service_name'', qget q ''servicename'']\<rparr>)
      else if t = ''http'' \<or> t = ''h2'' then Some (path_host ''http'' q)
      else if t = ''httpupgrade'' then Some (path_host ''httpupgrade'' q)
      else None)"

definition tlsFromQuery :: "qvalues \<Rightarrow> bool \<Rightarrow> string \<Rightarrow> tls option" where
  "tlsFromQuery q defaultOn server =
     (let sec0 = qget q ''security''; sec = (if sec0 = [] \<and> defaultOn then ''tls'' else sec0) in
      if sec = ''reality'' then
        Some (no_tls\<lparr>tls_enabled := True, tls_type := ''reality'', tls_sni := qget q ''sni'', tls_fingerprint := qget q ''fp'',
          tls_public_key := qget q ''pbk'', tls_short_id := qget q ''sid'', tls_alpn := splitCSV (qget q ''alpn'')\<rparr>)
      else if sec = ''tls'' \<or> sec = ''xtls'' then
        Some (no_tls\<lparr>tls_enabled := True, tls_type := ''tls'',
          tls_sni := FirstNonEmpty [qget q ''sni'', qget q ''host'', server], tls_fingerprint := qget q ''fp'',
          tls_insecure := insecureFromQuery q, tls_alpn := splitCSV (qget q ''alpn'')\<rparr>)
      else None)"

text \<open>QUIC protocols always run over TLS.\<close>

definition quic_tls :: "qvalues \<Rightarrow> string \<Rightarrow> tls" where
  "quic_tls q server =
     no_tls\<lparr>tls_enabled := True, tls_type := ''tls'', tls_sni := FirstNonEmpty [qget q ''sni'', server],
       tls_insecure := insecureFromQuery q, tls_alpn := splitCSV (qget q ''alpn'')\<rparr>"

text \<open>A member of the parameters that is set only when it has a value.\<close>

definition put_str :: "string \<Rightarrow> string \<Rightarrow> params \<Rightarrow> params" where
  "put_str k v ps = (if v = [] then ps else ps(k \<mapsto> PStr v))"

definition put_true :: "string \<Rightarrow> bool \<Rightarrow> params \<Rightarrow> params" where
  "put_true k b ps = (if b then ps(k \<mapsto> PBool True) else ps)"

definition put_pos :: "string \<Rightarrow> int \<Rightarrow> params \<Rightarrow> params" where
  "put_pos k n ps = (if n > 0 then ps(k \<mapsto> PNum (of_int n)) else ps)"

subsection \<open>Links that are URLs\<close>

definition url_endpoint :: "protocol \<Rightarrow> int \<Rightarrow> url \<Rightarrow> params \<Rightarrow> endpoint" where
  "url_endpoint prot port u ps = new_endpoint EngineSingBox prot (Hostname u) (atoiDefault (Port u) port) (u_fragment u) ps"

definition parseVLESS :: "url \<Rightarrow> imported" where
  "parseVLESS u =
     (let q = Query u;
          ps = put_str ''packet_encoding'' (FirstNonEmpty [qget q ''packetEncoding'', qget q ''packet_encoding''])
                 (put_str ''flow'' (qget q ''flow'') [''uuid'' \<mapsto> PStr (Username u)]);
          e = url_endpoint ProtoVLESS 443 u ps
      in Inr (e\<lparr>ep_transport := transportFromQuery q, ep_tls := tlsFromQuery q False (ep_server e)\<rparr>))"

definition parseTrojan :: "url \<Rightarrow> imported" where
  "parseTrojan u =
     (let q = Query u; e = url_endpoint ProtoTrojan 443 u [''password'' \<mapsto> PStr (Username u)]
      in Inr (e\<lparr>ep_transport := transportFromQuery q, ep_tls := tlsFromQuery q True (ep_server e)\<rparr>))"

definition parseAnyTLS :: "url \<Rightarrow> imported" where
  "parseAnyTLS u =
     (let e = url_endpoint ProtoAnyTLS 443 u [''password'' \<mapsto> PStr (Username u)]
      in Inr (e\<lparr>ep_tls := tlsFromQuery (Query u) True (ep_server e)\<rparr>))"

definition parseHysteria2 :: "url \<Rightarrow> imported" where
  "parseHysteria2 u =
     (let q = Query u;
          auth = (case Password u of Some pw \<Rightarrow> if pw \<noteq> [] then Username u @ '':'' @ pw else Username u | None \<Rightarrow> Username u);
          ps0 = [''password'' \<mapsto> PStr auth];
          ps1 = (if qget q ''obfs'' \<noteq> []
                 then put_str ''obfs_password'' (qget q ''obfs-password'') (ps0(''obfs'' \<mapsto> PStr (qget q ''obfs''))) else ps0);
          ps2 = put_str ''hop_ports'' (FirstNonEmpty [qget q ''mport'', qget q ''ports'']) ps1;
          e = url_endpoint ProtoHysteria2 443 u ps2
      in Inr (e\<lparr>ep_tls := Some (quic_tls q (ep_server e))\<rparr>))"

definition parseTUIC :: "url \<Rightarrow> imported" where
  "parseTUIC u =
     (let q = Query u;
          pw = (case Password u of Some pw \<Rightarrow> pw | None \<Rightarrow> []);
          ps = put_true ''udp_over_stream'' (truthy (qget q ''udp_over_stream''))
                (put_true ''zero_rtt_handshake'' (truthy (qget q ''zero_rtt_handshake''))
                 (put_str ''heartbeat'' (qget q ''heartbeat'')
                  (put_str ''udp_relay_mode'' (qget q ''udp_relay_mode'')
                   (put_str ''congestion_control'' (qget q ''congestion_control'')
                    [''uuid'' \<mapsto> PStr (Username u), ''password'' \<mapsto> PStr pw]))));
          e = url_endpoint ProtoTUIC 443 u ps
      in Inr (e\<lparr>ep_tls := Some (quic_tls q (ep_server e))\<rparr>))"

subsection \<open>VMess, Shadowsocks and WireGuard links\<close>

definition vmess_transport :: "json_lib \<Rightarrow> params \<Rightarrow> transport option" where
  "vmess_transport J m =
     (let g = (\<lambda>k. asString J (m k));
          net0 = FirstNonEmpty [g ''net'', ''tcp'']; net = (if net0 = ''h2'' then ''http'' else net0)
      in if net \<in> {''ws'', ''grpc'', ''http'', ''httpupgrade''}
         then Some (no_transport\<lparr>tr_type := net, tr_path := g ''path'', tr_host := g ''host'',
           tr_service_name := (if net = ''grpc'' then g ''path'' else [])\<rparr>)
         else None)"

definition vmess_tls :: "json_lib \<Rightarrow> params \<Rightarrow> string \<Rightarrow> tls option" where
  "vmess_tls J m server =
     (let g = (\<lambda>k. asString J (m k)) in
      if g ''tls'' = ''tls'' \<or> truthy (g ''tls'')
      then Some (no_tls\<lparr>tls_enabled := True, tls_type := ''tls'', tls_sni := FirstNonEmpty [g ''sni'', g ''host'', server],
        tls_fingerprint := g ''fp'', tls_alpn := splitCSV (g ''alpn''), tls_insecure := truthy (g ''allowInsecure'')\<rparr>)
      else None)"

definition parseVMess :: "json_lib \<Rightarrow> string \<Rightarrow> imported" where
  "parseVMess J raw =
     (let dec = decodeB64 (trim_prefix raw ''vmess://'') in
      if dec = [] then Inl VMessBase64
      else (case json J dec of
          None \<Rightarrow> Inl VMessJSON
        | Some m \<Rightarrow>
            (let e = new_endpoint EngineSingBox ProtoVMess (asString J (m ''add'')) (asInt (m ''port'') 443) (asString J (m ''ps''))
               [''uuid'' \<mapsto> PStr (asString J (m ''id'')), ''alter_id'' \<mapsto> PNum (of_int (asInt (m ''aid'') 0)),
                ''security'' \<mapsto> PStr (FirstNonEmpty [asString J (m ''scy''), ''auto''])]
             in Inr (e\<lparr>ep_transport := vmess_transport J m, ep_tls := vmess_tls J m (ep_server e)\<rparr>))))"

definition parseSSQuery :: "string \<Rightarrow> qvalues" where
  "parseSSQuery query =
     foldl (\<lambda>m kv. if kv = [] then m else (case cut (CHR ''='') kv of (k, v) \<Rightarrow> qset k (urlDecode v) m))
       [] (split_on (CHR ''&'') query)"

text \<open>User information in base64, or in plain text when decoding gives no pair.\<close>

definition ss_creds :: "string \<Rightarrow> string" where
  "ss_creds ui =
     (if CHR '':'' \<in> set (decodeB64 ui) then decodeB64 ui
      else (case PathUnescape ui of Some d \<Rightarrow> d | None \<Rightarrow> ui))"

definition ss_params :: "qvalues \<Rightarrow> params \<Rightarrow> params" where
  "ss_params q ps =
     (let ps1 = put_true ''udp_over_tcp'' (list_ex (\<lambda>k. truthy (qget q k)) [''udp-over-tcp'', ''udp_over_tcp'', ''uot'']) ps in
      if qget q ''plugin'' \<noteq> [] then
        (case cut (CHR '';'') (qget q ''plugin'') of (name, opts) \<Rightarrow>
           put_str ''plugin_opts'' opts (ps1(''plugin'' \<mapsto> PStr name)))
      else ps1)"

definition ss_address :: "string \<Rightarrow> (import_error, (string \<times> string) \<times> (string \<times> int)) res" where
  "ss_address body =
     (case cut_last (CHR ''@'') body of
        Some (ui, hp) \<Rightarrow>
          Inr (splitColon (ss_creds ui), splitHostPort (case PathUnescape hp of Some d \<Rightarrow> d | None \<Rightarrow> hp))
      | None \<Rightarrow>
          (case cut_last (CHR ''@'') (decodeB64 body) of
             None \<Rightarrow> Inl SSCredentials
           | Some (creds, hp) \<Rightarrow> Inr (splitColon creds, splitHostPort hp)))"

definition parseShadowsocks :: "string \<Rightarrow> imported" where
  "parseShadowsocks raw =
     (case cut (CHR ''#'') (trim_prefix raw ''ss://'') of (rest, frag) \<Rightarrow>
        (case cut (CHR ''?'') rest of (body, query) \<Rightarrow>
          (case ss_address body of
             Inl x \<Rightarrow> Inl x
           | Inr ((meth, password), (host, port)) \<Rightarrow>
               if host = [] \<or> port = 0 then Inl SSHostPort
               else
                 (let ps = [''method'' \<mapsto> PStr meth, ''password'' \<mapsto> PStr password] in
                  Inr (new_endpoint EngineSingBox ProtoShadowsocks host port (urlDecode frag)
                    (if query \<noteq> [] then ss_params (parseSSQuery query) ps else ps))))))"

fun replace_all :: "string \<Rightarrow> string \<Rightarrow> string \<Rightarrow> string" where
  "replace_all old new [] = []"
| "replace_all old new (c # s) =
     (if old \<noteq> [] \<and> has_prefix (c # s) old then new @ replace_all old new (drop (length old - 1) s)
      else c # replace_all old new s)"

definition debracket :: "string \<Rightarrow> string" where
  "debracket s = replace_all ''%5d'' '']'' (replace_all ''%5D'' '']'' (replace_all ''%5b'' ''['' (replace_all ''%5B'' ''['' s)))"

definition normalizeWGURL :: "string \<Rightarrow> string" where
  "normalizeWGURL raw =
     (case cut_str ''://'' raw of
        None \<Rightarrow> raw
      | Some (scheme, rest) \<Rightarrow>
          (let auth = takeWhile (\<lambda>c. c \<noteq> CHR ''?'' \<and> c \<noteq> CHR ''#'') rest;
               rear = dropWhile (\<lambda>c. c \<noteq> CHR ''?'' \<and> c \<noteq> CHR ''#'') rest
           in scheme @ ''://'' @
              (case cut_last (CHR ''@'') auth of
                 Some (ui, hp) \<Rightarrow> replace_all ''/'' ''%2F'' ui @ ''@'' @ debracket hp
               | None \<Rightarrow> debracket auth) @ rear))"

definition reserved_byte :: "string \<Rightarrow> int option" where
  "reserved_byte p = (case atoi (trim_space p) of Some n \<Rightarrow> if n < 0 \<or> n > 255 then None else Some n | None \<Rightarrow> None)"

definition parseReserved :: "string \<Rightarrow> int list option" where
  "parseReserved s0 =
     (case map reserved_byte (split_on (CHR '','') (trim_suffix (trim_prefix (trim_space s0) ''['') '']'')) of
        [Some a, Some b, Some c] \<Rightarrow> Some [a, b, c]
      | _ \<Rightarrow> None)"

definition put_reserved :: "string \<Rightarrow> params \<Rightarrow> params" where
  "put_reserved s ps =
     (case parseReserved s of Some r \<Rightarrow> ps(''reserved'' \<mapsto> PList (map (\<lambda>n. PNum (of_int n)) r)) | None \<Rightarrow> ps)"

definition parseWireGuardURL :: "url \<Rightarrow> imported" where
  "parseWireGuardURL u =
     (let q = Query u;
          ps0 = [''private_key'' \<mapsto> PStr (Username u), ''peer_public_key'' \<mapsto> PStr (b64Param q ''publickey'')];
          ps1 = put_str ''pre_shared_key'' (b64Param q ''presharedkey'') ps0;
          ps2 = put_pos ''persistent_keepalive''
                  (atoiDefault (FirstNonEmpty [qget q ''keepalive'', qget q ''persistentkeepalive'']) 0) ps1;
          ps3 = (if qget q ''address'' \<noteq> [] then ps2(''local_address'' \<mapsto> PStrs (splitCSV (qget q ''address''))) else ps2);
          ps4 = put_reserved (qget q ''reserved'') ps3;
          mtu = atoiDefault (qget q ''mtu'') 0
      in Inr (url_endpoint ProtoWireGuard 51820 u
           (if 576 \<le> mtu \<and> mtu \<le> 65535 then ps4(''mtu'' \<mapsto> PNum (of_int mtu)) else ps4)))"

end
