(* ===== verification/Importer_Parse.thy ===== *)
theory Importer_Parse
  imports Importer
begin

text \<open>
  \<^verbatim>\<open>internal/importer\<close>, continued: WireGuard and AmneziaWG files (\<^verbatim>\<open>conf.go\<close>), olcRTC documents
  (\<^verbatim>\<open>olcrtc.go\<close>), the dispatch on the kind of text (\<^verbatim>\<open>Parse\<close>), the list of links of a subscription
  (\<^verbatim>\<open>subscription.go\<close>) and content de-duplication (\<^verbatim>\<open>dedupe.go\<close>). Clash and sing-box documents are recognised
  here (\<^verbatim>\<open>looksLikeClash\<close>, \<^verbatim>\<open>looksLikeSingbox\<close>), but their parsers are arguments; the list of links is what is left
  when neither is recognised.
\<close>

abbreviation ProtoOlcRTC :: protocol where "ProtoOlcRTC \<equiv> ''olcrtc''"

subsection \<open>Configuration files\<close>

definition awgKeys :: "string list" where
  "awgKeys = [''jc'', ''jmin'', ''jmax'', ''s1'', ''s2'', ''s3'', ''s4'', ''h1'', ''h2'', ''h3'', ''h4'']"

definition awgKeysHex :: "string list" where
  "awgKeysHex = [''i1'', ''i2'', ''i3'', ''i4'', ''i5'']"

text \<open>The sections read so far; the current peer is the last one.\<close>

record conf =
  cf_iface :: qvalues
  cf_peers :: "qvalues list"
  cf_cur :: string

definition conf_key :: "string \<Rightarrow> string \<Rightarrow> conf \<Rightarrow> conf" where
  "conf_key key val c =
     (if cf_cur c = ''interface'' then
        c\<lparr>cf_iface := qset key (if key = ''address'' \<and> qget (cf_iface c) key \<noteq> []
          then qget (cf_iface c) key @ '','' @ val else val) (cf_iface c)\<rparr>
      else if cf_cur c = ''peer'' \<and> cf_peers c \<noteq> [] then
        c\<lparr>cf_peers := butlast (cf_peers c) @ [qset key val (last (cf_peers c))]\<rparr>
      else c)"

definition conf_step :: "conf \<Rightarrow> string \<Rightarrow> conf" where
  "conf_step c raw =
     (let line = trim_space raw in
      if line = [] \<or> has_prefix line ''#'' \<or> has_prefix line '';'' then c
      else if to_lower line = ''[interface]'' then c\<lparr>cf_cur := ''interface''\<rparr>
      else if to_lower line = ''[peer]'' then c\<lparr>cf_cur := ''peer'', cf_peers := cf_peers c @ [[]]\<rparr>
      else if CHR ''='' \<notin> set line then c
      else (case cut (CHR ''='') line of (k, v) \<Rightarrow> conf_key (to_lower (trim_space k)) (trim_space v) c))"

definition read_conf :: "string \<Rightarrow> conf" where
  "read_conf text = foldl conf_step \<lparr>cf_iface = [], cf_peers = [], cf_cur = []\<rparr> (split_on (CHR 0x0A) text)"

definition or_default_port :: "int \<Rightarrow> int" where
  "or_default_port n = (if n = 0 then 51820 else n)"

definition peer_entry :: "qvalues \<Rightarrow> (string \<times> pval) list" where
  "peer_entry p =
     (case splitHostPort (qget p ''endpoint'') of (h, port) \<Rightarrow>
        (if h \<noteq> [] then [(''server'', PStr h), (''port'', PNum (of_int (or_default_port port)))] else []) @
        (if qget p ''publickey'' \<noteq> [] then [(''public_key'', PStr (qget p ''publickey''))] else []) @
        (if qget p ''presharedkey'' \<noteq> [] then [(''pre_shared_key'', PStr (qget p ''presharedkey''))] else []) @
        (let ips = splitCSV (qget p ''allowedips'') in if ips \<noteq> [] then [(''allowed_ips'', PStrs ips)] else []) @
        (let ka = atoiDefault (qget p ''persistentkeepalive'') 0 in
         if ka > 0 then [(''persistent_keepalive'', PNum (of_int ka))] else []))"

definition has_key :: "qvalues \<Rightarrow> string \<Rightarrow> bool" where
  "has_key q k = (map_of q k \<noteq> None)"

definition conf_params :: "qvalues \<Rightarrow> qvalues \<Rightarrow> qvalues list \<Rightarrow> params" where
  "conf_params iface first peers =
     (let ps0 = [''private_key'' \<mapsto> PStr (qget iface ''privatekey''), ''peer_public_key'' \<mapsto> PStr (qget first ''publickey'')];
          ps1 = put_str ''pre_shared_key'' (qget first ''presharedkey'') ps0;
          ps2 = put_pos ''persistent_keepalive'' (atoiDefault (qget first ''persistentkeepalive'') 0) ps1;
          ps3 = ps2(''peers'' \<mapsto> PMaps (map peer_entry peers));
          ps4 = (if qget iface ''address'' \<noteq> [] then ps3(''local_address'' \<mapsto> PStrs (splitCSV (qget iface ''address''))) else ps3);
          ps5 = put_reserved (qget iface ''reserved'') ps4
      in put_pos ''mtu'' (atoiDefault (qget iface ''mtu'') 0) ps5)"

text \<open>The obfuscation keys: header magics and ranges stay texts, the others become numbers.\<close>

definition awg_param :: "qvalues \<Rightarrow> params \<Rightarrow> string \<Rightarrow> params" where
  "awg_param iface ps k =
     (if has_key iface k then
        (let v = qget iface k in
         ps(k \<mapsto> (if has_prefix k ''h'' \<or> CHR ''-'' \<in> set v then PStr v else PNum (of_int (atoiDefault v 0)))))
      else ps)"

definition awg_hex_param :: "qvalues \<Rightarrow> params \<Rightarrow> string \<Rightarrow> params" where
  "awg_hex_param iface ps k = (if has_key iface k then ps(k \<mapsto> PStr (qget iface k)) else ps)"

definition parseConf :: "string \<Rightarrow> imported" where
  "parseConf text =
     (let c = read_conf text; iface = cf_iface c in
      case cf_peers c of
        [] \<Rightarrow> Inl NoPeerEndpoint
      | first # _ \<Rightarrow>
          (case splitHostPort (qget first ''endpoint'') of (host, port) \<Rightarrow>
             if host = [] then Inl NoPeerEndpoint
             else
               (let ps = conf_params iface first (cf_peers c) in
                if list_ex (has_key iface) awgKeys
                then Inr (new_endpoint EngineAmneziaWG ProtoAmneziaWG host (or_default_port port) (''AmneziaWG '' @ host)
                       (foldl (awg_hex_param iface) (foldl (awg_param iface) ps awgKeys) awgKeysHex))
                else Inr (new_endpoint EngineSingBox ProtoWireGuard host (or_default_port port) (''WireGuard '' @ host) ps))))"

subsection \<open>olcRTC documents\<close>

definition looksLikeOlcRTC :: "string \<Rightarrow> bool" where
  "looksLikeOlcRTC s =
     (let low = to_lower s in
      contains_str low ''provider:'' \<and>
      list_ex (contains_str low) [''crypto'', ''datachannel'', ''jitsi'', ''telemost'', ''wbstream''])"

definition quote_char :: "char \<Rightarrow> bool" where
  "quote_char c = (c = CHR 0x22 \<or> c = CHR 0x27)"

definition trim_quotes :: "string \<Rightarrow> string" where
  "trim_quotes s = rev (dropWhile quote_char (rev (dropWhile quote_char s)))"

fun yaml_scan :: "string \<Rightarrow> string \<Rightarrow> bool \<Rightarrow> string list \<Rightarrow> string" where
  "yaml_scan parent key inside [] = []"
| "yaml_scan parent key inside (line # rest) =
     (if line = [] then yaml_scan parent key inside rest
      else if hd line \<noteq> CHR '' '' \<and> hd line \<noteq> CHR 0x09
      then yaml_scan parent key (has_prefix (trim_space line) (parent @ '':'')) rest
      else if inside \<and> has_prefix (trim_space line) (key @ '':'')
      then trim_quotes (trim_space (trim_prefix (trim_space line) (key @ '':'')))
      else yaml_scan parent key inside rest)"

definition yamlVal :: "string \<Rightarrow> string \<Rightarrow> string \<Rightarrow> string" where
  "yamlVal text parent key = yaml_scan parent key False (split_on (CHR 0x0A) text)"

definition parseOlcRTC :: "string \<Rightarrow> imported" where
  "parseOlcRTC text =
     (let provider = yamlVal text ''auth'' ''provider''; room = yamlVal text ''room'' ''id'';
          ps = put_str ''dns'' (yamlVal text ''net'' ''dns'')
                 (put_str ''transport'' (yamlVal text ''net'' ''transport'')
                   [''provider'' \<mapsto> PStr provider, ''room'' \<mapsto> PStr room, ''key'' \<mapsto> PStr (yamlVal text ''crypto'' ''key'')]);
          host = (case parse_url room of Some u \<Rightarrow> if u_host u \<noteq> [] then Hostname u else room | None \<Rightarrow> room)
      in Inr (new_endpoint EngineOlcRTC ProtoOlcRTC host 443 (''olcRTC '' @ provider) ps))"

subsection \<open>Parse\<close>

text \<open>The scheme in front of the first \<^verbatim>\<open>://\<close>, in lower case, and the text with that scheme.\<close>

definition link_scheme :: "string \<Rightarrow> string \<times> string" where
  "link_scheme raw =
     (case cut_str ''://'' raw of
        Some (pre, rest) \<Rightarrow>
          if pre \<noteq> [] \<and> \<not> list_ex (\<lambda>c. c \<in> {CHR '' '', CHR 0x09, CHR 0x0D, CHR 0x0A}) pre
          then (to_lower pre, to_lower pre @ ''://'' @ rest) else ([], raw)
      | None \<Rightarrow> ([], raw))"

definition parse_scheme :: "string \<Rightarrow> url \<Rightarrow> imported" where
  "parse_scheme scheme u =
     (if scheme = ''vless'' then finalize (parseVLESS u)
      else if scheme = ''trojan'' then finalize (parseTrojan u)
      else if scheme = ''anytls'' then finalize (parseAnyTLS u)
      else if scheme = ''hysteria2'' \<or> scheme = ''hy2'' then finalize (parseHysteria2 u)
      else if scheme = ''tuic'' then finalize (parseTUIC u)
      else if scheme = ''wireguard'' \<or> scheme = ''wg'' then finalize (parseWireGuardURL u)
      else Inl (UnsupportedScheme scheme))"

definition parse_link :: "json_lib \<Rightarrow> string \<Rightarrow> string \<Rightarrow> imported" where
  "parse_link J scheme raw =
     (if scheme = ''vmess'' then finalize (parseVMess J raw)
      else if scheme = ''ss'' then finalize (parseShadowsocks raw)
      else (case parse_url (if scheme = ''wireguard'' \<or> scheme = ''wg'' then normalizeWGURL raw else raw) of
          None \<Rightarrow> Inl BadURL
        | Some u \<Rightarrow> parse_scheme scheme u))"

definition Parse :: "json_lib \<Rightarrow> string \<Rightarrow> imported" where
  "Parse J raw0 =
     (let raw = trim_space raw0 in
      if raw = [] then Inl EmptyLink
      else (case link_scheme raw of (scheme, raw') \<Rightarrow>
          if scheme = [] \<and> contains_str raw' ''[Interface]'' then finalize (parseConf raw')
          else if scheme = [] \<and> looksLikeOlcRTC raw' then finalize (parseOlcRTC raw')
          else parse_link J scheme raw'))"

subsection \<open>Unique ids\<close>

definition candidate :: "string \<Rightarrow> nat \<Rightarrow> string" where
  "candidate i n = i @ ''-'' @ dec_of_nat n"

lemma candidate_inj: "inj (candidate i)"
proof (rule injI)
  fix m n
  assume "candidate i m = candidate i n"
  then have "nat_of_dec (dec_of_nat m) = nat_of_dec (dec_of_nat n)" by (simp add: candidate_def)
  then show "m = n" by simp
qed

text \<open>The loop \<^verbatim>\<open>for n := 2; ; n++\<close> has no bound in the code. It ends because the candidates differ and only
  finitely many are taken.\<close>

function free_candidate :: "string list \<Rightarrow> string \<Rightarrow> nat \<Rightarrow> string" where
  "free_candidate seen i n =
     (if List.member seen (candidate i n) then free_candidate seen i (Suc n) else candidate i n)"
  by pat_completeness auto
termination
proof (relation "measure (\<lambda>(seen, i, n). card {m. n \<le> m \<and> candidate i m \<in> set seen})")
  fix seen i n
  assume t: "List.member seen (candidate i n)"
  let ?S = "\<lambda>n. {m. n \<le> m \<and> candidate i m \<in> set seen}"
  have "finite (candidate i -` set seen)" using candidate_inj by (simp add: finite_vimageI)
  then have "finite (?S n)" by (rule finite_subset [rotated]) auto
  moreover have "?S (Suc n) \<subset> ?S n"
  proof
    show "?S (Suc n) \<subseteq> ?S n" by auto
    have "n \<in> ?S n" "n \<notin> ?S (Suc n)" using t by simp_all
    then show "?S (Suc n) \<noteq> ?S n" by blast
  qed
  ultimately have "card (?S (Suc n)) < card (?S n)" by (rule psubset_card_mono)
  then show "((seen, i, Suc n), seen, i, n) \<in> measure (\<lambda>(seen, i, n). card {m. n \<le> m \<and> candidate i m \<in> set seen})"
    by simp
qed simp

declare free_candidate.simps [simp del]

definition uniqueID :: "string \<Rightarrow> string list \<Rightarrow> string \<times> string list" where
  "uniqueID i seen =
     (let i' = (if i \<noteq> [] \<and> \<not> List.member seen i then i else free_candidate seen i 2) in (i', i' # seen))"

lemma free_candidate_fresh: "free_candidate seen i n \<notin> set seen"
proof (induction seen i n rule: free_candidate.induct)
  case (1 seen i n)
  show ?case
  proof (cases "List.member seen (candidate i n)")
    case True
    then show ?thesis using 1 by (simp add: free_candidate.simps [of seen i n])
  next
    case False
    then show ?thesis by (simp add: free_candidate.simps [of seen i n])
  qed
qed

lemma uniqueID_fresh: "uniqueID i seen = (i', seen') \<Longrightarrow> i' \<notin> set seen \<and> seen' = i' # seen"
  using free_candidate_fresh by (auto simp: uniqueID_def Let_def split: if_splits)

subsection \<open>Subscriptions\<close>

text \<open>\<^verbatim>\<open>strings.FieldsFunc\<close> at line ends, and the loop over the links: the endpoints, the failures with the start of
  their line, and the ids in use.\<close>

definition text_lines :: "string \<Rightarrow> string list" where
  "text_lines s = filter (\<lambda>l. l \<noteq> []) (concat (map (split_on (CHR 0x0D)) (split_on (CHR 0x0A) s)))"

record sub_state =
  ss_eps :: "endpoint list"
  ss_errs :: "(string \<times> import_error) list"
  ss_seen :: "string list"

definition sub_line :: "json_lib \<Rightarrow> sub_state \<Rightarrow> string \<Rightarrow> sub_state" where
  "sub_line J st raw =
     (let line = trim_space raw in
      if line = [] \<or> has_prefix line ''#'' then st
      else (case Parse J line of
          Inl x \<Rightarrow> st\<lparr>ss_errs := ss_errs st @ [(take 40 line, x)]\<rparr>
        | Inr e \<Rightarrow>
            (case uniqueID (ep_id e) (ss_seen st) of (i, seen) \<Rightarrow>
               st\<lparr>ss_eps := ss_eps st @ [e\<lparr>ep_id := i\<rparr>], ss_seen := seen\<rparr>)))"

definition share_links :: "json_lib \<Rightarrow> string \<Rightarrow> sub_state" where
  "share_links J text =
     (let body = (if \<not> contains_str text ''://'' \<and> \<not> contains_str text ''[Interface]'' \<and> decodeB64 text \<noteq> []
        then decodeB64 text else text)
      in foldl (sub_line J) \<lparr>ss_eps = [], ss_errs = [], ss_seen = []\<rparr> (text_lines body))"

definition utf8_bom :: string where
  "utf8_bom = [CHR 0xEF, CHR 0xBB, CHR 0xBF]"

text \<open>Which texts are whole documents. A Clash file has a key \<^verbatim>\<open>proxies\<close> at the left margin and is no share link; a
  sing-box configuration is a JSON object in which the value of one of two keys is an array, as \<^verbatim>\<open>probe\<close> tells: nothing
  for a text that \<^verbatim>\<open>encoding/json\<close> does not decode to these keys, else whether \<^verbatim>\<open>outbounds\<close> and \<^verbatim>\<open>endpoints\<close> hold arrays.\<close>

definition indentOf :: "string \<Rightarrow> nat" where
  "indentOf s = length s - length (dropWhile (\<lambda>c. c = CHR 0x20 \<or> c = CHR 0x09) s)"

definition looksLikeClash :: "string \<Rightarrow> bool" where
  "looksLikeClash text0 =
     (let text = trim_prefix text0 utf8_bom in
      if list_ex (\<lambda>i. has_prefix (drop i text) ''://'') [0..<12] then False
      else list_ex (\<lambda>ln. indentOf ln = 0 \<and>
             has_prefix (rev (dropWhile (\<lambda>c. c = CHR 0x20 \<or> c = CHR 0x09 \<or> c = CHR 0x0D) (rev ln))) ''proxies:'')
           (split_on (CHR 0x0A) text))"

definition looksLikeSingbox :: "(string \<Rightarrow> (bool \<times> bool) option) \<Rightarrow> string \<Rightarrow> bool" where
  "looksLikeSingbox probe text = (case probe text of None \<Rightarrow> False | Some (obs, eps) \<Rightarrow> obs \<or> eps)"

definition recognise ::
  "(string \<Rightarrow> (bool \<times> bool) option) \<Rightarrow> (string \<Rightarrow> 'r) \<Rightarrow> (string \<Rightarrow> 'r) \<Rightarrow> string \<Rightarrow> 'r option" where
  "recognise probe clash singbox text =
     (if looksLikeClash text then Some (clash text)
      else if looksLikeSingbox probe text then Some (singbox text) else None)"

text \<open>\<open>document\<close> is what the Clash or the sing-box parser makes of the text, when one of them recognises it: the code's is
  \<open>recognise\<close> applied to its two parsers.\<close>

definition ParseSubscription ::
  "json_lib \<Rightarrow> (string \<Rightarrow> (endpoint list \<times> (string \<times> import_error) list) option) \<Rightarrow> string \<Rightarrow>
   endpoint list \<times> (string \<times> import_error) list" where
  "ParseSubscription J document text0 =
     (let text = trim_space (trim_prefix text0 utf8_bom) in
      case document text of
        Some r \<Rightarrow> r
      | None \<Rightarrow> (let st = share_links J text in (ss_eps st, ss_errs st)))"

subsection \<open>Content de-duplication\<close>

definition paramStr :: "json_lib \<Rightarrow> params \<Rightarrow> string \<Rightarrow> string" where
  "paramStr J ps k =
     (case ps k of None \<Rightarrow> [] | Some PNil \<Rightarrow> [] | Some (PStr s) \<Rightarrow> trim_space s | Some v \<Rightarrow> sprintv J v)"

definition transport_key :: "transport option \<Rightarrow> string" where
  "transport_key t =
     (case t of
        Some t \<Rightarrow> join_with ''|'' [to_lower (trim_space (tr_type t)), trim_space (tr_path t),
          to_lower (trim_space (tr_host t)), trim_space (tr_service_name t)]
      | None \<Rightarrow> ''|||'')"

definition tls_key :: "tls option \<Rightarrow> string" where
  "tls_key s =
     (case s of
        Some s \<Rightarrow> join_with ''|'' [if tls_enabled s then ''1'' else ''0'', to_lower (trim_space (tls_type s)),
          to_lower (trim_space (tls_sni s)), trim_space (tls_public_key s), trim_space (tls_short_id s),
          join_with '','' (map (\<lambda>a. to_lower (trim_space a)) (tls_alpn s))]
      | None \<Rightarrow> ''0|||||'')"

definition credential_keys :: "string list" where
  "credential_keys = [''uuid'', ''password'', ''peer_public_key'', ''private_key'', ''method'', ''interface'']"

definition ContentKey :: "json_lib \<Rightarrow> endpoint \<Rightarrow> string" where
  "ContentKey J e =
     join_with ''|'' ([to_lower (ep_protocol e), to_lower (ep_engine e), to_lower (trim_space (ep_server e)), itoa (ep_port e)] @
       map (paramStr J (ep_params e)) credential_keys @ [transport_key (ep_transport e), tls_key (ep_tls e)])"

text \<open>The loop over the incoming endpoints, with the ids of the existing ones, the content keys seen so far, and
  the endpoints kept.\<close>

record dedupe_state =
  dd_keys :: "string list"
  dd_unique :: "endpoint list"
  dd_dupes :: nat

definition dedupe_step :: "json_lib \<Rightarrow> endpoint list \<Rightarrow> dedupe_state \<Rightarrow> endpoint \<Rightarrow> dedupe_state" where
  "dedupe_step J existing st e =
     (let ck = ContentKey J e in
      if ep_id e \<noteq> [] \<and> map_option (ContentKey J) (lookup_by ep_id (ep_id e) (rev existing)) = Some ck
      then st\<lparr>dd_unique := dd_unique st @ [e]\<rparr>
      else if List.member (dd_keys st) ck then st\<lparr>dd_dupes := dd_dupes st + 1\<rparr>
      else st\<lparr>dd_keys := ck # dd_keys st, dd_unique := dd_unique st @ [e]\<rparr>)"

definition DedupeNew :: "json_lib \<Rightarrow> endpoint list \<Rightarrow> endpoint list \<Rightarrow> endpoint list \<times> nat" where
  "DedupeNew J existing incoming =
     (let st = foldl (dedupe_step J existing) \<lparr>dd_keys = map (ContentKey J) existing, dd_unique = [], dd_dupes = 0\<rparr> incoming
      in (dd_unique st, dd_dupes st))"

end
