(* ===== verification/Exporter.thy ===== *)
theory Exporter
  imports Importer Pbr_Prefix
begin

text \<open>
  \<^verbatim>\<open>internal/exporter/exporter.go\<close>: from an endpoint back to a share link, or to a WireGuard or AmneziaWG file.
  \<open>marshal\<close> prints an object whose members are all strings as JSON; it is outside, like the decoder of the importer.
\<close>

record export_result =
  rs_kind :: string
  rs_text :: string
  rs_filename :: string

subsection \<open>Small utilities\<close>

definition intStr :: "params \<Rightarrow> string \<Rightarrow> string" where
  "intStr ps k = (case ps k of Some (PNum x) \<Rightarrow> itoa (trunc x) | Some (PStr s) \<Rightarrow> s | _ \<Rightarrow> ''0'')"

definition hostPort :: "endpoint \<Rightarrow> string" where
  "hostPort e = JoinHostPort (ep_server e) (itoa (ep_port e))"

definition fragmentEscape :: "string \<Rightarrow> string" where
  "fragmentEscape s = replace_all ''+'' ''%2B'' (PathEscape s)"

definition setIf :: "string \<Rightarrow> string \<Rightarrow> qvalues \<Rightarrow> qvalues" where
  "setIf k v q = (if v \<noteq> [] then qset k v q else q)"

definition setFlag :: "string \<Rightarrow> string \<Rightarrow> bool \<Rightarrow> qvalues \<Rightarrow> qvalues" where
  "setFlag k v b q = (if b then qset k v q else q)"

definition bool_param :: "params \<Rightarrow> string \<Rightarrow> bool" where
  "bool_param ps k = (case ps k of Some (PBool b) \<Rightarrow> b | _ \<Rightarrow> False)"

function slug_runes :: "string \<Rightarrow> string" where
  "slug_runes [] = []"
| "slug_runes (c # s) =
     (let n = rune_len (c # s) in
      (if n = 1 \<and> genID_char c then c else CHR ''-'') # slug_runes (drop (n - 1) s))"
  by pat_completeness auto
termination by (relation "measure length") auto

definition slug :: "string \<Rightarrow> string" where
  "slug s = (let out = trim_dashes (slug_runes (to_lower s)) in if out = [] then ''client'' else out)"

subsection \<open>Queries\<close>

definition setTransportQuery :: "transport option \<Rightarrow> qvalues \<Rightarrow> qvalues" where
  "setTransportQuery tr q =
     (case tr of
        None \<Rightarrow> q
      | Some t \<Rightarrow>
          if tr_type t = [] then q
          else
            (let q1 = qset ''type'' (tr_type t) q in
             if tr_type t \<in> {''ws'', ''http'', ''httpupgrade''} then setIf ''host'' (tr_host t) (setIf ''path'' (tr_path t) q1)
             else if tr_type t = ''grpc'' then setIf ''serviceName'' (tr_service_name t) q1
             else q1))"

definition setALPN :: "string list \<Rightarrow> qvalues \<Rightarrow> qvalues" where
  "setALPN alpn q = (if alpn \<noteq> [] then qset ''alpn'' (join_with '','' alpn) q else q)"

definition setTLSQuery :: "tls option \<Rightarrow> qvalues \<Rightarrow> qvalues" where
  "setTLSQuery s q =
     (case s of
        None \<Rightarrow> q
      | Some t \<Rightarrow>
          if \<not> tls_enabled t then q
          else if tls_type t = ''reality'' then
            setALPN (tls_alpn t) (setIf ''sid'' (tls_short_id t) (setIf ''pbk'' (tls_public_key t)
              (setIf ''fp'' (tls_fingerprint t) (setIf ''sni'' (tls_sni t) (qset ''security'' ''reality'' q)))))
          else
            setALPN (tls_alpn t) (setFlag ''allowInsecure'' ''1'' (tls_insecure t)
              (setIf ''fp'' (tls_fingerprint t) (setIf ''sni'' (tls_sni t) (qset ''security'' ''tls'' q)))))"

definition setQuicTLS :: "string \<Rightarrow> tls option \<Rightarrow> qvalues \<Rightarrow> qvalues" where
  "setQuicTLS insecure_key s q =
     (case s of
        None \<Rightarrow> q
      | Some t \<Rightarrow> setALPN (tls_alpn t) (setFlag insecure_key ''1'' (tls_insecure t) (setIf ''sni'' (tls_sni t) q)))"

subsection \<open>Share links\<close>

definition with_name :: "string \<Rightarrow> string \<Rightarrow> string" where
  "with_name u name = (if name \<noteq> [] then u @ ''#'' @ fragmentEscape name else u)"

definition buildURI :: "string \<Rightarrow> string \<Rightarrow> string \<Rightarrow> endpoint \<Rightarrow> qvalues \<Rightarrow> string" where
  "buildURI scheme user pass e q =
     with_name (show_url scheme (user, if pass \<noteq> [] then Some pass else None) (hostPort e) (values_encode q)) (ep_name e)"

definition vless_query :: "endpoint \<Rightarrow> qvalues" where
  "vless_query e =
     setTLSQuery (ep_tls e) (setTransportQuery (ep_transport e)
       (setIf ''packetEncoding'' (str_param (ep_params e) ''packet_encoding'')
         (setIf ''flow'' (str_param (ep_params e) ''flow'') (qset ''encryption'' ''none'' []))))"

definition vlessLink :: "endpoint \<Rightarrow> string" where
  "vlessLink e = buildURI ''vless'' (str_param (ep_params e) ''uuid'') [] e (vless_query e)"

definition trojan_query :: "endpoint \<Rightarrow> qvalues" where
  "trojan_query e = setTLSQuery (ep_tls e) (setTransportQuery (ep_transport e) [])"

definition trojanLink :: "endpoint \<Rightarrow> string" where
  "trojanLink e = buildURI ''trojan'' (str_param (ep_params e) ''password'') [] e (trojan_query e)"

definition anytlsLink :: "endpoint \<Rightarrow> string" where
  "anytlsLink e = buildURI ''anytls'' (str_param (ep_params e) ''password'') [] e (setTLSQuery (ep_tls e) [])"

definition hysteria2_query :: "endpoint \<Rightarrow> qvalues" where
  "hysteria2_query e =
     (let ps = ep_params e; q = setQuicTLS ''insecure'' (ep_tls e) [];
          q1 = (if str_param ps ''obfs'' \<noteq> []
                then setIf ''obfs-password'' (str_param ps ''obfs_password'') (qset ''obfs'' (str_param ps ''obfs'') q) else q)
      in setIf ''mport'' (str_param ps ''hop_ports'') q1)"

definition hysteria2Link :: "endpoint \<Rightarrow> string" where
  "hysteria2Link e = buildURI ''hysteria2'' (str_param (ep_params e) ''password'') [] e (hysteria2_query e)"

definition tuic_query :: "endpoint \<Rightarrow> qvalues" where
  "tuic_query e =
     (let ps = ep_params e in
      setQuicTLS ''allow_insecure'' (ep_tls e)
        (setFlag ''udp_over_stream'' ''1'' (bool_param ps ''udp_over_stream'')
          (setFlag ''zero_rtt_handshake'' ''1'' (bool_param ps ''zero_rtt_handshake'')
            (setIf ''heartbeat'' (str_param ps ''heartbeat'')
              (setIf ''udp_relay_mode'' (str_param ps ''udp_relay_mode'')
                (setIf ''congestion_control'' (str_param ps ''congestion_control'') []))))))"

definition tuicLink :: "endpoint \<Rightarrow> string" where
  "tuicLink e = buildURI ''tuic'' (str_param (ep_params e) ''uuid'') (str_param (ep_params e) ''password'') e (tuic_query e)"

definition ss_query :: "endpoint \<Rightarrow> qvalues" where
  "ss_query e =
     (let ps = ep_params e; q = setFlag ''udp-over-tcp'' ''1'' (bool_param ps ''udp_over_tcp'') [];
          pl = str_param ps ''plugin''; opts = str_param ps ''plugin_opts''
      in if pl \<noteq> [] then qset ''plugin'' (if opts \<noteq> [] then pl @ '';'' @ opts else pl) q else q)"

definition ssLink :: "endpoint \<Rightarrow> string" where
  "ssLink e =
     (let creds = str_param (ep_params e) ''method'' @ '':'' @ str_param (ep_params e) ''password'';
          u = b64_encode True False (bytes_of creds) @ ''@'' @ hostPort e;
          enc = values_encode (ss_query e)
      in ''ss://'' @ with_name (if enc \<noteq> [] then u @ ''?'' @ enc else u) (ep_name e))"

text \<open>The members of the VMess object; a later member replaces an earlier one of the same name.\<close>

definition vmess_members :: "endpoint \<Rightarrow> qvalues" where
  "vmess_members e =
     (let ps = ep_params e;
          m0 = [(''v'', ''2''), (''ps'', ep_name e), (''add'', ep_server e), (''port'', itoa (ep_port e)),
                (''id'', str_param ps ''uuid''), (''aid'', intStr ps ''alter_id''),
                (''scy'', FirstNonEmpty [str_param ps ''security'', ''auto'']), (''net'', ''tcp''), (''type'', ''none'')];
          m1 = (case ep_transport e of
                  None \<Rightarrow> m0
                | Some t \<Rightarrow>
                    if tr_type t = [] then m0
                    else qset ''path'' (if tr_type t = ''grpc'' then tr_service_name t else tr_path t)
                      (qset ''host'' (tr_host t) (qset ''net'' (if tr_type t = ''http'' then ''h2'' else tr_type t) m0)))
      in (case ep_tls e of
            None \<Rightarrow> m1
          | Some t \<Rightarrow>
              if \<not> tls_enabled t then m1
              else setFlag ''allowInsecure'' ''true'' (tls_insecure t) (setALPN (tls_alpn t)
                (setIf ''fp'' (tls_fingerprint t) (qset ''sni'' (tls_sni t) (qset ''tls'' ''tls'' m1))))))"

definition vmessLink :: "(qvalues \<Rightarrow> string) \<Rightarrow> endpoint \<Rightarrow> string" where
  "vmessLink marshal e = ''vmess://'' @ b64_encode False True (bytes_of (marshal (vmess_members e)))"

subsection \<open>WireGuard files\<close>

definition reserved_num :: "pval \<Rightarrow> int option" where
  "reserved_num v = (case v of PNum x \<Rightarrow> Some (trunc x) | _ \<Rightarrow> None)"

definition reservedCSV :: "params \<Rightarrow> string \<Rightarrow> string" where
  "reservedCSV ps k =
     (case ps k of
        Some (PList vs) \<Rightarrow>
          (case map reserved_num vs of
             [Some a, Some b, Some c] \<Rightarrow> join_with '','' (map itoa [a, b, c])
           | _ \<Rightarrow> [])
      | _ \<Rightarrow> [])"

definition wg_line :: "string \<Rightarrow> string \<Rightarrow> string" where
  "wg_line k v = k @ '' = '' @ v @ [CHR 0x0A]"

text \<open>The typed field when it is set, else the parameter, unless that prints as zero.\<close>

definition wg_number :: "string \<Rightarrow> int \<Rightarrow> string \<Rightarrow> string" where
  "wg_number k field param = (if field > 0 then wg_line k (itoa field) else if param \<noteq> ''0'' then wg_line k param else [])"

definition plainWGConf :: "endpoint \<Rightarrow> string" where
  "plainWGConf e =
     (let ps = ep_params e; nl = [CHR 0x0A]; addr = LocalAddr ps; res = reservedCSV ps ''reserved''; psk = str_param ps ''pre_shared_key'' in
      ''[Interface]'' @ nl @ wg_line ''PrivateKey'' (str_param ps ''private_key'') @
      (if addr \<noteq> [] then wg_line ''Address'' addr else []) @
      wg_number ''MTU'' (ep_mtu e) (intStr ps ''mtu'') @
      (if res \<noteq> [] then wg_line ''Reserved'' res else []) @
      wg_line ''DNS'' ''1.1.1.1'' @ nl @ ''[Peer]'' @ nl @
      wg_line ''PublicKey'' (str_param ps ''peer_public_key'') @
      (if psk \<noteq> [] then wg_line ''PresharedKey'' psk else []) @
      wg_line ''Endpoint'' (hostPort e) @
      wg_line ''AllowedIPs'' ''0.0.0.0/0'' @
      wg_number ''PersistentKeepalive'' (ep_keepalive e) (intStr ps ''persistent_keepalive''))"

definition wgConf :: "endpoint \<Rightarrow> string option" where
  "wgConf e =
     (case (if ep_engine e = EngineAmneziaWG then NativeConfig e 0 else None) of
        Some (conf, _) \<Rightarrow> Some conf
      | None \<Rightarrow> if ep_protocol e = ProtoWireGuard then Some (plainWGConf e) else None)"

subsection \<open>Export\<close>

definition link_result :: "string \<Rightarrow> export_result option" where
  "link_result u = Some \<lparr>rs_kind = ''link'', rs_text = u, rs_filename = []\<rparr>"

definition Export :: "(qvalues \<Rightarrow> string) \<Rightarrow> endpoint \<Rightarrow> export_result option" where
  "Export marshal e =
     (let p = ep_protocol e in
      if ep_engine e = EngineExternal then None
      else if p = ProtoVLESS then link_result (vlessLink e)
      else if p = ProtoTrojan then link_result (trojanLink e)
      else if p = ProtoAnyTLS then link_result (anytlsLink e)
      else if p = ProtoHysteria2 then link_result (hysteria2Link e)
      else if p = ProtoTUIC then link_result (tuicLink e)
      else if p = ProtoShadowsocks then link_result (ssLink e)
      else if p = ProtoVMess then link_result (vmessLink marshal e)
      else if p = ProtoAmneziaWG \<or> p = ProtoWireGuard then
        map_option (\<lambda>conf. \<lparr>rs_kind = ''conf'', rs_text = conf,
          rs_filename = slug (FirstNonEmpty [ep_name e, ep_id e]) @ ''.conf''\<rparr>) (wgConf e)
      else None)"

definition ShareLink :: "(qvalues \<Rightarrow> string) \<Rightarrow> endpoint \<Rightarrow> string option" where
  "ShareLink marshal e =
     (case Export marshal e of Some r \<Rightarrow> if rs_kind r = ''link'' then Some (rs_text r) else None | None \<Rightarrow> None)"

end
