(* ===== verification/Subscription.thy ===== *)
theory Subscription
  imports Importer_Parse Exporter Store
begin

text \<open>
  Subscriptions in the server: serving the enabled endpoints as a list of share links
  (\<^verbatim>\<open>server/subscription.go\<close>), importing one (\<^verbatim>\<open>server/profile.go\<close>), refreshing it
  (\<^verbatim>\<open>server/subrefresh.go\<close>), and the guard against dialling internal addresses. The network, the random source, the
  configuration file and the Clash printer are arguments.
\<close>

subsection \<open>Serving\<close>

record sub_config =
  sc_url :: string
  sc_hours :: int
  sc_token :: string

text \<open>What a subscription request says of itself: the token of its path, its query, and two headers.\<close>

record sub_request =
  rq_token :: string
  rq_query :: qvalues
  rq_agent :: string
  rq_accept :: string

text \<open>\<^verbatim>\<open>strings.EqualFold\<close> with a lower-case ASCII word that has no \<^verbatim>\<open>i\<close>: the long s folds to s.\<close>

definition equal_fold :: "string \<Rightarrow> string \<Rightarrow> bool" where
  "equal_fold s word = (to_lower (replace_all [CHR 0xC5, CHR 0xBF] ''s'' s) = word)"

definition wantsClash :: "sub_request \<Rightarrow> bool" where
  "wantsClash r =
     (equal_fold (qget (rq_query r) ''flag'') ''clash'' \<or> equal_fold (qget (rq_query r) ''format'') ''clash'' \<or>
      list_ex (contains_str (to_lower (rq_agent r))) [''clash'', ''mihomo'', ''meta''])"

definition wantsHTML :: "sub_request \<Rightarrow> bool" where
  "wantsHTML r =
     (if qget (rq_query r) ''flag'' \<noteq> [] \<or> qget (rq_query r) ''format'' \<noteq> [] then False
      else if to_lower (qget (rq_query r) ''web'') \<in> {''1'', ''true''} then True
      else contains_str (to_lower (rq_accept r)) ''text/html'' \<and> contains_str (to_lower (rq_agent r)) ''mozilla'')"

text \<open>The page for a browser shows the address of the subscription and the number of connections.\<close>

datatype sub_reply = Forbidden | LandingPage nat | ClashYAML string | LinkList string

text \<open>The token in the configuration, made on first use. \<open>fresh\<close> is what the random source gives; a failed save is
  ignored.\<close>

definition subToken :: "string option \<Rightarrow> sub_config \<Rightarrow> string \<times> sub_config" where
  "subToken fresh c =
     (if sc_token c = [] then (case fresh of None \<Rightarrow> ([], c) | Some t \<Rightarrow> (t, c\<lparr>sc_token := t\<rparr>)) else (sc_token c, c))"

text \<open>A new token replaces the old one in memory even when it cannot be saved.\<close>

definition handleSubRotate :: "string option \<Rightarrow> bool \<Rightarrow> sub_config \<Rightarrow> string option \<times> sub_config" where
  "handleSubRotate fresh save_ok c =
     (case fresh of
        None \<Rightarrow> (None, c)
      | Some t \<Rightarrow> ((if save_ok then Some t else None), c\<lparr>sc_token := t\<rparr>))"

definition enabled_endpoints :: "profile \<Rightarrow> endpoint list" where
  "enabled_endpoints p = filter ep_enabled (endpoints p)"

definition sub_body :: "(qvalues \<Rightarrow> string) \<Rightarrow> endpoint list \<Rightarrow> string" where
  "sub_body marshal es =
     b64_encode False True (bytes_of (join_with [CHR 0x0A] (List.map_filter (ShareLink marshal) es)))"

definition handleSubServe ::
  "(qvalues \<Rightarrow> string) \<Rightarrow> (endpoint list \<Rightarrow> group list \<Rightarrow> string) \<Rightarrow> string option \<Rightarrow> sub_request \<Rightarrow> profile \<Rightarrow> sub_config \<Rightarrow>
   sub_reply \<times> sub_config" where
  "handleSubServe marshal clash fresh r p c =
     (case subToken fresh c of (tok, c') \<Rightarrow>
        (if tok = [] \<or> rq_token r \<noteq> tok then Forbidden
         else if wantsHTML r then LandingPage (length (enabled_endpoints p))
         else if wantsClash r then ClashYAML (clash (enabled_endpoints p) (groups p))
         else LinkList (sub_body marshal (enabled_endpoints p)), c'))"

datatype export_reply = Exported export_result | NoShareableForm | NoSuchEndpoint

definition handleEndpointExport :: "(qvalues \<Rightarrow> string) \<Rightarrow> string \<Rightarrow> profile \<Rightarrow> export_reply" where
  "handleEndpointExport marshal i p =
     (case EndpointByID p i of
        None \<Rightarrow> NoSuchEndpoint
      | Some e \<Rightarrow> (case Export marshal e of Some r \<Rightarrow> Exported r | None \<Rightarrow> NoShareableForm))"

subsection \<open>Importing\<close>

datatype sub_error = SubConfigError | SubFetchError

text \<open>The network, the parsers of whole documents, and the failures of the writes of the store, by endpoint.\<close>

record sub_env =
  se_json :: json_lib
  se_document :: "string \<Rightarrow> (endpoint list \<times> (string \<times> import_error) list) option"
  se_fetch :: "string \<Rightarrow> (sub_error, string) res"
  se_faults :: "string \<Rightarrow> wfaults"

definition web_url :: "string \<Rightarrow> bool" where
  "web_url raw = (case parse_url raw of None \<Rightarrow> False | Some u \<Rightarrow> u_scheme u = ''http'' \<or> u_scheme u = ''https'')"

definition body_limit :: nat where
  "body_limit = 8 * 2 ^ 20"

definition fetch_body :: "sub_env \<Rightarrow> string \<Rightarrow> (sub_error, string) res" where
  "fetch_body E raw =
     (if \<not> web_url raw then Inl SubConfigError
      else (case se_fetch E raw of Inl x \<Rightarrow> Inl x | Inr b \<Rightarrow> Inr (take body_limit b)))"

text \<open>\<^verbatim>\<open>handleSubscription\<close>: a preview of the text, or of what the address serves, which is remembered.\<close>

definition handleSubscription ::
  "sub_env \<Rightarrow> string \<Rightarrow> string \<Rightarrow> sub_config \<Rightarrow> (sub_error, endpoint list \<times> (string \<times> import_error) list) res \<times> sub_config" where
  "handleSubscription E addr text c =
     (if addr = [] then (Inr (ParseSubscription (se_json E) (se_document E) text), c)
      else (case fetch_body E addr of
          Inl x \<Rightarrow> (Inl x, c)
        | Inr b \<Rightarrow> (Inr (ParseSubscription (se_json E) (se_document E) b), c\<lparr>sc_url := addr\<rparr>)))"

record bulk_state =
  bk_store :: store
  bk_saved :: nat
  bk_errs :: "(string \<times> serr) list"

definition bulk_step :: "sub_env \<Rightarrow> bulk_state \<Rightarrow> endpoint \<Rightarrow> bulk_state" where
  "bulk_step E st e =
     (if ep_id e = [] then st\<lparr>bk_errs := bk_errs st @ [([], IdRequired)]\<rparr>
      else (case UpsertEndpoint (se_faults E (ep_id e)) e (bk_store st) of
          (s, Some x) \<Rightarrow> st\<lparr>bk_store := s, bk_errs := bk_errs st @ [(ep_id e, x)]\<rparr>
        | (s, None) \<Rightarrow> st\<lparr>bk_store := s, bk_saved := bk_saved st + 1\<rparr>))"

definition handleBulkEndpoints :: "sub_env \<Rightarrow> endpoint list \<Rightarrow> store \<Rightarrow> bulk_state \<times> nat" where
  "handleBulkEndpoints E incoming s =
     (case DedupeNew (se_json E) (endpoints (Profile s)) incoming of (eps, dupes) \<Rightarrow>
        (foldl (bulk_step E) \<lparr>bk_store = s, bk_saved = 0, bk_errs = []\<rparr> eps, dupes))"

subsection \<open>Refreshing\<close>

record refresh_state =
  rf_seen :: "string list"
  rf_store :: store
  rf_added :: nat

definition refresh_step :: "sub_env \<Rightarrow> refresh_state \<Rightarrow> endpoint \<Rightarrow> refresh_state" where
  "refresh_step E st e =
     (if ep_id e = [] then st
      else
        (let ck = ContentKey (se_json E) e in
         if List.member (rf_seen st) ck then st
         else (case UpsertEndpoint (se_faults E (ep_id e)) e (rf_store st) of
             (s, Some x) \<Rightarrow> st\<lparr>rf_seen := ck # rf_seen st, rf_store := s\<rparr>
           | (s, None) \<Rightarrow> st\<lparr>rf_seen := ck # rf_seen st, rf_store := s, rf_added := rf_added st + 1\<rparr>)))"

definition refresh_all :: "sub_env \<Rightarrow> endpoint list \<Rightarrow> store \<Rightarrow> refresh_state" where
  "refresh_all E parsed s =
     foldl (refresh_step E) \<lparr>rf_seen = map (ContentKey (se_json E)) (endpoints (Profile s)), rf_store = s, rf_added = 0\<rparr> parsed"

text \<open>The number of endpoints added or the error, which is also what the status records; no address is no attempt.\<close>

definition refreshSubscriptionOnce :: "sub_env \<Rightarrow> string \<Rightarrow> store \<Rightarrow> (sub_error, nat) res \<times> store" where
  "refreshSubscriptionOnce E raw s =
     (if raw = [] then (Inr 0, s)
      else (case fetch_body E raw of
          Inl x \<Rightarrow> (Inl x, s)
        | Inr b \<Rightarrow>
            (let st = refresh_all E (fst (ParseSubscription (se_json E) (se_document E) b)) s in (Inr (rf_added st), rf_store st))))"

text \<open>One tick of the hourly loop, in seconds. \<open>prev\<close> is the time of the last refresh.\<close>

definition refresh_due :: "bool \<Rightarrow> sub_config \<Rightarrow> int option \<Rightarrow> int \<Rightarrow> bool" where
  "refresh_due demo c prev now =
     (\<not> demo \<and> sc_hours c > 0 \<and> sc_url c \<noteq> [] \<and>
      (case prev of None \<Rightarrow> True | Some t \<Rightarrow> now - t \<ge> 3600 * sc_hours c))"

definition refresh_tick :: "sub_env \<Rightarrow> bool \<Rightarrow> sub_config \<Rightarrow> int \<Rightarrow> int option \<times> store \<Rightarrow> int option \<times> store" where
  "refresh_tick E demo c now st =
     (if refresh_due demo c (fst st) now then (Some now, snd (refreshSubscriptionOnce E (sc_url c) (snd st))) else st)"

definition handleSubAutoRefresh :: "int \<Rightarrow> bool \<Rightarrow> sub_config \<Rightarrow> bool \<times> sub_config" where
  "handleSubAutoRefresh hours save_ok c =
     (if hours < 0 \<or> hours > 168 then (False, c) else (save_ok, c\<lparr>sc_hours := hours\<rparr>))"

subsection \<open>The guard of outgoing dials\<close>

text \<open>An address as \<^verbatim>\<open>net.IP\<close> has it: four bytes, or sixteen, of which some stand for four.\<close>

definition mapped_v4 :: "addr \<Rightarrow> nat option" where
  "mapped_v4 a = (case a of V4 n \<Rightarrow> Some n | V6 n _ \<Rightarrow> if n div 2 ^ 32 = 0xFFFF then Some (n mod 2 ^ 32) else None)"

definition in_block :: "nat \<Rightarrow> nat \<Rightarrow> nat \<Rightarrow> nat \<Rightarrow> bool" where
  "in_block width bits base n = (n div 2 ^ (width - bits) = base div 2 ^ (width - bits))"

text \<open>\<^verbatim>\<open>IsLoopback\<close>, \<^verbatim>\<open>IsPrivate\<close>, \<^verbatim>\<open>IsLinkLocalUnicast\<close>, \<^verbatim>\<open>IsLinkLocalMulticast\<close>, \<^verbatim>\<open>IsUnspecified\<close>, and the carrier-grade
  NAT range, on four bytes.\<close>

definition internal_v4 :: "nat \<Rightarrow> bool" where
  "internal_v4 n =
     (in_block 32 8 0x7F000000 n \<or> in_block 32 8 0x0A000000 n \<or> in_block 32 12 0xAC100000 n \<or> in_block 32 16 0xC0A80000 n \<or>
      in_block 32 16 0xA9FE0000 n \<or> in_block 32 24 0xE0000000 n \<or> n = 0 \<or> in_block 32 10 0x64400000 n)"

definition internal_v6 :: "nat \<Rightarrow> bool" where
  "internal_v6 n =
     (n = 1 \<or> in_block 128 7 (0xFC * 2 ^ 120) n \<or> in_block 128 10 (0xFE80 * 2 ^ 112) n \<or>
      (n div 2 ^ 120 = 0xFF \<and> n div 2 ^ 112 mod 16 = 2) \<or> n = 0)"

text \<open>The address that a NAT64 or a 6to4 address stands for.\<close>

definition embedded_v4 :: "nat \<Rightarrow> nat option" where
  "embedded_v4 n =
     (if in_block 128 96 (0x0064FF9B * 2 ^ 96) n then Some (n mod 2 ^ 32)
      else if in_block 128 16 (0x2002 * 2 ^ 112) n then Some (n div 2 ^ 80 mod 2 ^ 32)
      else None)"

definition isInternalDialIP :: "addr \<Rightarrow> bool" where
  "isInternalDialIP a =
     (case mapped_v4 a of
        Some n \<Rightarrow> internal_v4 n
      | None \<Rightarrow> internal_v6 (addr_num a) \<or> (case embedded_v4 (addr_num a) of Some n \<Rightarrow> internal_v4 n | None \<Rightarrow> False))"

text \<open>The address has been resolved: only a literal passes. A zone is refused by \<^verbatim>\<open>net.ParseIP\<close>.\<close>

definition blockInternalDial :: "string \<Rightarrow> bool" where
  "blockInternalDial address =
     (case SplitHostPort address of
        None \<Rightarrow> False
      | Some (host, _) \<Rightarrow>
          (case parse_addr host of
             None \<Rightarrow> False
           | Some a \<Rightarrow> zone a = [] \<and> \<not> isInternalDialIP a))"

end
