(* ===== verification/Importer_Spec.thy ===== *)
theory Importer_Spec
  imports Importer_Parse "HOL-Library.Sublist"
begin

text \<open>
  What the importer promises: every imported endpoint is named and enabled, the endpoints of a subscription
  have distinct ids, and de-duplication keeps exactly the new contents. It starts with the facts about trimming and
  comma-separated lists that the round trip of share links rests on.
\<close>

subsection \<open>Trimming\<close>

lemma has_prefix_iff: "has_prefix s p \<longleftrightarrow> (\<exists>r. s = p @ r)"
  by (induction s p rule: has_prefix.induct) auto

lemma space_len_0: "\<forall>w \<in> set ws. w \<noteq> [] \<Longrightarrow> space_len ws s = 0 \<longleftrightarrow> (\<forall>w \<in> set ws. \<not> has_prefix s w)"
  by (induction ws) auto

lemma strip_left_stops: "strip_left ws s = [] \<or> space_len ws (strip_left ws s) = 0"
proof (induction ws s rule: strip_left.induct)
  case (1 ws s)
  show ?case
  proof (cases "s = [] \<or> space_len ws s = 0")
    case True
    then show ?thesis by (auto simp: strip_left.simps [of ws s])
  next
    case False
    then show ?thesis using 1 [OF False] by (simp add: strip_left.simps [of ws s])
  qed
qed

lemma strip_left_suffix: "\<exists>p. s = p @ strip_left ws s"
proof (induction ws s rule: strip_left.induct)
  case (1 ws s)
  show ?case
  proof (cases "s = [] \<or> space_len ws s = 0")
    case True
    then show ?thesis by (auto simp: strip_left.simps [of ws s])
  next
    case False
    let ?d = "drop (space_len ws s) s"
    obtain p where p: "?d = p @ strip_left ws ?d" using 1 [OF False] by (rule exE)
    have "strip_left ws s = strip_left ws ?d" using False by (simp add: strip_left.simps [of ws s])
    then have "s = (take (space_len ws s) s @ p) @ strip_left ws s" using p by (metis append_assoc append_take_drop_id)
    then show ?thesis ..
  qed
qed

lemma strip_left_idem: "strip_left ws (strip_left ws s) = strip_left ws s"
  using strip_left_stops [of ws s] by (auto intro: strip_left_no_space)

lemma spaces_nonempty: "\<forall>w \<in> set spaces. w \<noteq> []" "\<forall>w \<in> set (map rev spaces). w \<noteq> []"
  using spaces_not_plain by auto

lemma trim_right_prefix: "\<exists>p. s = trim_right s @ p"
proof -
  obtain p where "rev s = p @ strip_left (map rev spaces) (rev s)" using strip_left_suffix by blast
  then have "s = trim_right s @ rev p" by (metis rev_append rev_rev_ident trim_right_def)
  then show ?thesis by blast
qed

lemma trim_space_idem [simp]: "trim_space (trim_space s) = trim_space s"
proof -
  let ?l = "trim_left s" and ?r = "trim_space s"
  obtain p where l: "?l = ?r @ p" using trim_right_prefix [of ?l] by (auto simp: trim_space_def)
  have "trim_left ?r = ?r"
  proof (cases "?r = []")
    case False
    then have "space_len spaces ?l = 0" using strip_left_stops [of spaces s] l by (auto simp: trim_left_def)
    then have "\<forall>w \<in> set spaces. \<not> has_prefix (?r @ p) w" using space_len_0 [OF spaces_nonempty(1)] l by metis
    then have "\<forall>w \<in> set spaces. \<not> has_prefix ?r w" by (auto simp: has_prefix_iff)
    then show ?thesis unfolding trim_left_def using space_len_0 [OF spaces_nonempty(1)] strip_left_no_space by metis
  qed (simp add: trim_left_def)
  then show ?thesis by (simp add: trim_space_def trim_right_def strip_left_idem)
qed

lemma set_trim_space: "c \<in> set (trim_space s) \<Longrightarrow> c \<in> set s"
proof -
  assume "c \<in> set (trim_space s)"
  then have "c \<in> set (trim_left s)" using trim_right_prefix [of "trim_left s"] by (metis UnCI set_append trim_space_def)
  then show "c \<in> set s" using strip_left_suffix [of s spaces] by (metis UnCI set_append trim_left_def)
qed

lemma split_on_parts: "w \<in> set (split_on sep s) \<Longrightarrow> sep \<notin> set w"
  by (induction s arbitrary: w) (fastforce split: if_splits list.splits)+

text \<open>A list read from a comma-separated value prints and reads back as itself.\<close>

definition csv_items :: "string list \<Rightarrow> bool" where
  "csv_items ws = (\<forall>w \<in> set ws. w \<noteq> [] \<and> CHR '','' \<notin> set w \<and> trim_space w = w)"

lemma splitCSV_Nil [simp]: "splitCSV [] = []"
  by (simp add: splitCSV_def)

lemma splitCSV_items: "csv_items (splitCSV s)"
  using split_on_parts set_trim_space by (fastforce simp: csv_items_def splitCSV_def)

lemma splitCSV_join [simp]: "csv_items ws \<Longrightarrow> splitCSV (join_with '','' ws) = ws"
proof (cases "ws = []")
  case False
  assume items: "csv_items ws"
  have "join_with '','' ws \<noteq> []"
    using items False by (cases ws rule: remdups_adj.cases) (auto simp: csv_items_def)
  moreover have "split_on (CHR '','') (join_with '','' ws) = ws"
    using items False by (intro split_join) (auto simp: csv_items_def)
  moreover have "map trim_space ws = ws" "filter (\<lambda>p. p \<noteq> []) ws = ws"
    using items by (auto simp: csv_items_def map_idI filter_id_conv)
  ultimately show ?thesis by (simp add: splitCSV_def)
qed simp

subsection \<open>Finalised endpoints\<close>

lemma finalize_again:
  assumes "finalize (Inr b) = Inr e" and "ep_id b = []"
  obtains i n where "e = b\<lparr>ep_id := i, ep_name := n, ep_enabled := True\<rparr>" and "n \<noteq> []"
    and "finalize (Inr (b\<lparr>ep_name := n\<rparr>)) = Inr e"
proof -
  define n where "n = (if ep_name b = [] then to_upper (ep_protocol b) @ '' '' @ ep_server b else ep_name b)"
  have e: "e = b\<lparr>ep_id := genID b, ep_name := n, ep_enabled := True\<rparr>"
    using assms by (auto simp: finalize_def n_def Let_def split: if_splits)
  have "n \<noteq> []" by (simp add: n_def)
  moreover have "finalize (Inr (b\<lparr>ep_name := n\<rparr>)) = Inr e"
    using assms(2) \<open>n \<noteq> []\<close> by (auto simp: e finalize_def Let_def genID_def)
  ultimately show thesis using that e by blast
qed

subsection \<open>Where an imported endpoint comes from\<close>

lemma port_digits: "list_all is_digit (Port u)"
proof -
  have "list_all is_digit (snd (host_of hp))" for hp
    by (auto simp: host_of_def validOptionalPort_def split: option.split prod.split if_splits)
  then show ?thesis by (simp add: Port_def)
qed

lemma url_port_nonneg: "0 \<le> d \<Longrightarrow> 0 \<le> atoiDefault (Port u) d"
proof -
  have "\<not> is_digit (CHR ''-'')" by code_simp
  then have "Port u = [] \<or> hd (Port u) \<noteq> CHR ''-''" using port_digits [of u] by (cases "Port u") auto
  moreover assume "0 \<le> d"
  ultimately show ?thesis by (auto simp: atoiDefault_def atoi_def Let_def split: if_splits)
qed

lemma url_kinds:
  "parseVLESS u = Inr b \<Longrightarrow> ep_protocol b = ProtoVLESS \<and> ep_id b = [] \<and> 0 \<le> ep_port b \<and> ep_engine b = EngineSingBox"
  "parseTrojan u = Inr b \<Longrightarrow> ep_protocol b = ProtoTrojan \<and> ep_id b = [] \<and> 0 \<le> ep_port b \<and> ep_engine b = EngineSingBox"
  "parseAnyTLS u = Inr b \<Longrightarrow> ep_protocol b = ProtoAnyTLS \<and> ep_id b = [] \<and> 0 \<le> ep_port b \<and> ep_engine b = EngineSingBox"
  "parseHysteria2 u = Inr b \<Longrightarrow> ep_protocol b = ProtoHysteria2 \<and> ep_id b = [] \<and> 0 \<le> ep_port b \<and> ep_engine b = EngineSingBox"
  "parseTUIC u = Inr b \<Longrightarrow> ep_protocol b = ProtoTUIC \<and> ep_id b = [] \<and> 0 \<le> ep_port b \<and> ep_engine b = EngineSingBox"
  "parseWireGuardURL u = Inr b \<Longrightarrow> ep_protocol b = ProtoWireGuard \<and> ep_id b = [] \<and> 0 \<le> ep_port b \<and> ep_engine b = EngineSingBox"
  using url_port_nonneg [of 443 u] url_port_nonneg [of 51820 u]
  by (auto simp: parseVLESS_def parseTrojan_def parseAnyTLS_def parseHysteria2_def parseTUIC_def parseWireGuardURL_def
      Let_def url_endpoint_def new_endpoint_def)

lemma other_kinds:
  "parseShadowsocks raw = Inr b \<Longrightarrow> ep_protocol b = ProtoShadowsocks \<and> ep_id b = [] \<and> ep_engine b = EngineSingBox"
  "parseVMess J raw = Inr b \<Longrightarrow> ep_protocol b = ProtoVMess \<and> ep_id b = []"
  "parseConf raw = Inr b \<Longrightarrow> ep_protocol b \<in> {ProtoWireGuard, ProtoAmneziaWG} \<and> ep_id b = []"
  "parseOlcRTC raw = Inr b \<Longrightarrow> ep_protocol b = ProtoOlcRTC \<and> ep_id b = []"
  by (auto simp: parseShadowsocks_def parseVMess_def parseConf_def parseOlcRTC_def Let_def new_endpoint_def
      split: prod.splits sum.splits if_splits option.splits list.splits)

lemma finalize_Inr: "finalize r = Inr e \<Longrightarrow> \<exists>b. r = Inr b \<and> finalize (Inr b) = Inr e"
  by (cases r) (auto simp: finalize_def)

text \<open>What \<^verbatim>\<open>Parse\<close> returned came from one of the parsers.\<close>

definition parsed_by :: "json_lib \<Rightarrow> imported \<Rightarrow> bool" where
  "parsed_by J r = (\<exists>u s. r \<in> {parseVLESS u, parseTrojan u, parseAnyTLS u, parseHysteria2 u, parseTUIC u, parseWireGuardURL u,
     parseShadowsocks s, parseVMess J s, parseConf s, parseOlcRTC s})"

lemma parsers:
  "parsed_by J (parseVLESS u)" "parsed_by J (parseTrojan u)" "parsed_by J (parseAnyTLS u)" "parsed_by J (parseHysteria2 u)"
  "parsed_by J (parseTUIC u)" "parsed_by J (parseWireGuardURL u)" "parsed_by J (parseShadowsocks s)" "parsed_by J (parseVMess J s)"
  "parsed_by J (parseConf s)" "parsed_by J (parseOlcRTC s)"
  unfolding parsed_by_def by blast+

lemma if_source: "(if c then a else b) = x \<Longrightarrow> a = x \<or> b = x"
  by (simp split: if_splits)

lemma parse_scheme_source:
  assumes "parse_scheme scheme u = Inr e"
  shows "\<exists>r. finalize r = Inr e \<and> parsed_by J r"
proof -
  have "finalize (parseVLESS u) = Inr e \<or> finalize (parseTrojan u) = Inr e \<or> finalize (parseAnyTLS u) = Inr e \<or>
      finalize (parseHysteria2 u) = Inr e \<or> finalize (parseTUIC u) = Inr e \<or> finalize (parseWireGuardURL u) = Inr e"
    using assms unfolding parse_scheme_def by (simp split: if_splits)
  then show ?thesis by (elim disjE) (use parsers in blast)+
qed

lemma parse_link_source:
  assumes "parse_link J scheme raw = Inr e"
  shows "\<exists>r. finalize r = Inr e \<and> parsed_by J r"
proof -
  consider "finalize (parseVMess J raw) = Inr e" | "finalize (parseShadowsocks raw) = Inr e" | u where "parse_scheme scheme u = Inr e"
    using assms unfolding parse_link_def by (auto split: if_splits option.splits)
  then show ?thesis
  proof cases
    case 1
    then show ?thesis using parsers(8) [of J raw] by blast
  next
    case 2
    then show ?thesis using parsers(7) [of J raw] by blast
  next
    case 3
    then show ?thesis by (rule parse_scheme_source)
  qed
qed

lemma Parse_source:
  assumes "Parse J raw = Inr e"
  obtains b where "finalize (Inr b) = Inr e" and "parsed_by J (Inr b)"
proof -
  obtain scheme raw' where l: "link_scheme (trim_space raw) = (scheme, raw')" by fastforce
  consider "finalize (parseConf raw') = Inr e" | "finalize (parseOlcRTC raw') = Inr e" | "parse_link J scheme raw' = Inr e"
    using assms unfolding Parse_def Let_def l prod.case by (simp split: if_splits)
  then have "\<exists>r. finalize r = Inr e \<and> parsed_by J r"
  proof cases
    case 1
    then show ?thesis using parsers(9) [of J raw'] by blast
  next
    case 2
    then show ?thesis using parsers(10) [of J raw'] by blast
  next
    case 3
    then show ?thesis by (rule parse_link_source)
  qed
  then obtain r where r: "finalize r = Inr e" "parsed_by J r" by blast
  then show thesis using that finalize_Inr [OF r(1)] by blast
qed

subsection \<open>Imported endpoints\<close>

definition id_char :: "char \<Rightarrow> bool" where
  "id_char c = (genID_char c \<or> c = CHR ''-'')"

lemma set_dash_runs: "x \<in> set (dash_runs p s) \<Longrightarrow> id_char x"
  by (induction p s rule: dash_runs.induct) (auto simp: id_char_def split: if_splits)

lemma trim_dashes_ends:
  assumes "trim_dashes s \<noteq> []"
  shows "hd (trim_dashes s) \<noteq> CHR ''-''" and "last (trim_dashes s) \<noteq> CHR ''-''"
proof -
  let ?P = "\<lambda>c. c = CHR ''-''" and ?u = "dropWhile (\<lambda>c. c = CHR ''-'') s"
  obtain p where p: "?u = trim_dashes s @ p"
    unfolding trim_dashes_def by (metis rev_append rev_rev_ident takeWhile_dropWhile_id)
  then have "?u \<noteq> []" "hd ?u = hd (trim_dashes s)" using assms by (auto simp: hd_append)
  then show "hd (trim_dashes s) \<noteq> CHR ''-''" using hd_dropWhile [of ?P s] by (metis (full_types))
  have "dropWhile ?P (rev ?u) \<noteq> []" using assms by (simp add: trim_dashes_def)
  then show "last (trim_dashes s) \<noteq> CHR ''-''" using hd_dropWhile [of ?P "rev ?u"] by (simp add: trim_dashes_def last_rev)
qed

lemma set_trim_dashes: "x \<in> set (trim_dashes s) \<Longrightarrow> x \<in> set s"
  by (auto simp: trim_dashes_def dest!: set_dropWhileD)

lemma trim_dashes_ne: "genID_char c \<Longrightarrow> trim_dashes (c # s) \<noteq> []"
proof -
  assume "genID_char c"
  then have c: "c \<noteq> CHR ''-''" by (auto simp: genID_char_def in_range_def is_digit_def less_eq_char_def)
  then have "\<not> (\<forall>x \<in> set (rev (c # s)). x = CHR ''-'')" by simp
  then have "dropWhile (\<lambda>c. c = CHR ''-'') (rev (c # s)) \<noteq> []" unfolding dropWhile_eq_Nil_conv .
  then show ?thesis using c by (simp add: trim_dashes_def)
qed

definition importable :: "(engine \<times> protocol) list" where
  "importable =
     map (\<lambda>p. (EngineSingBox, p)) [ProtoVLESS, ProtoTrojan, ProtoAnyTLS, ProtoHysteria2, ProtoTUIC, ProtoShadowsocks, ProtoVMess, ProtoWireGuard] @
     [(EngineAmneziaWG, ProtoAmneziaWG), (EngineOlcRTC, ProtoOlcRTC)]"

lemma parser_kinds:
  "parseVMess J raw = Inr b \<Longrightarrow> ep_engine b = EngineSingBox"
  "parseConf raw = Inr b \<Longrightarrow> (ep_engine b, ep_protocol b) \<in> {(EngineSingBox, ProtoWireGuard), (EngineAmneziaWG, ProtoAmneziaWG)}"
  "parseOlcRTC raw = Inr b \<Longrightarrow> ep_engine b = EngineOlcRTC"
  by (auto simp: parseVMess_def parseConf_def parseOlcRTC_def Let_def new_endpoint_def
      split: prod.splits if_splits option.splits list.splits)

lemma parsed_by_kinds:
  assumes "parsed_by J (Inr b)"
  shows "(ep_engine b, ep_protocol b) \<in> set importable \<and> ep_id b = []"
proof -
  consider u where "parseVLESS u = Inr b" | u where "parseTrojan u = Inr b" | u where "parseAnyTLS u = Inr b"
    | u where "parseHysteria2 u = Inr b" | u where "parseTUIC u = Inr b" | u where "parseWireGuardURL u = Inr b"
    | s where "parseShadowsocks s = Inr b" | s where "parseVMess J s = Inr b" | s where "parseConf s = Inr b"
    | s where "parseOlcRTC s = Inr b"
    using assms unfolding parsed_by_def by (auto simp: eq_commute [of "Inr b"])
  then show ?thesis
  proof cases
    case 8
    then show ?thesis using other_kinds(2) [OF 8] parser_kinds(1) [OF 8] by (simp add: importable_def)
  next
    case 9
    then show ?thesis using other_kinds(3) [OF 9] parser_kinds(2) [OF 9] by (auto simp: importable_def)
  next
    case 10
    then show ?thesis using other_kinds(4) [OF 10] parser_kinds(3) [OF 10] by (simp add: importable_def)
  qed (use url_kinds other_kinds(1) in \<open>simp add: importable_def\<close>)+
qed

lemma genID_kinds:
  assumes "(ep_engine e, ep_protocol e) \<in> set importable"
  shows "genID e \<noteq> []"
proof -
  have "\<forall>p \<in> set (map snd importable). \<exists>c s. p = c # s \<and> genID_char c \<and> \<not> (CHR ''A'' \<le> c \<and> c \<le> CHR ''Z'')"
    by (simp add: importable_def) code_simp
  then obtain c s where c: "ep_protocol e = c # s" "genID_char c" "\<not> (CHR ''A'' \<le> c \<and> c \<le> CHR ''Z'')"
    using assms by force
  then have "c \<noteq> CHR 0xE2" "c \<noteq> CHR 0xC4" by (auto simp: genID_char_def in_range_def is_digit_def less_eq_char_def)
  then have "\<exists>r. to_lower (ep_protocol e @ t) = c # r" for t using c(1,3) by auto
  then obtain r where "to_lower (ep_protocol e @ ''-'' @ ep_server e @ (if ep_port e \<noteq> 0 then ''-'' @ itoa (ep_port e) else [])) = c # r"
    by blast
  then show ?thesis using c(2) trim_dashes_ne by (simp add: genID_def)
qed

lemma imported_facts:
  assumes "Parse J raw = Inr e"
  shows "\<exists>b. ep_id e = genID b \<and> genID b \<noteq> []" and "ep_name e \<noteq> []" and "ep_enabled e" and "(ep_engine e, ep_protocol e) \<in> set importable"
proof -
  obtain b where fin: "finalize (Inr b) = Inr e" and "parsed_by J (Inr b)" by (rule Parse_source [OF assms])
  then have kinds: "(ep_engine b, ep_protocol b) \<in> set importable" "ep_id b = []" using parsed_by_kinds by blast+
  obtain i n where e: "e = b\<lparr>ep_id := i, ep_name := n, ep_enabled := True\<rparr>" and n: "n \<noteq> []"
    by (rule finalize_again [OF fin kinds(2)])
  have "ep_id e = genID b" using fin kinds(2) by (auto simp: finalize_def Let_def split: if_splits)
  then show "\<exists>b. ep_id e = genID b \<and> genID b \<noteq> []" using genID_kinds [OF kinds(1)] by blast
  show "ep_name e \<noteq> []" "ep_enabled e" "(ep_engine e, ep_protocol e) \<in> set importable" using n kinds(1) by (simp_all add: e)
qed

text \<open>C36. Whatever the text, an import that succeeds gives an endpoint that the rest of the program can use: its id is
  a non-empty slug of lower-case letters, digits and inner dashes, it has a name, it is enabled, and its engine and
  protocol belong together.\<close>

theorem imported_well_formed:
  assumes "Parse J raw = Inr e"
  shows "ep_id e \<noteq> [] \<and> list_all id_char (ep_id e) \<and> hd (ep_id e) \<noteq> CHR ''-'' \<and> last (ep_id e) \<noteq> CHR ''-'' \<and>
    ep_name e \<noteq> [] \<and> ep_enabled e \<and> (ep_engine e, ep_protocol e) \<in> set importable"
proof -
  obtain b where b: "ep_id e = genID b" "genID b \<noteq> []" using imported_facts(1) [OF assms] by blast
  moreover have "list_all id_char (genID b)" using set_trim_dashes set_dash_runs by (fastforce simp: genID_def list_all_iff)
  ultimately show ?thesis using trim_dashes_ends imported_facts(2-4) [OF assms] by (simp add: genID_def)
qed

subsection \<open>Subscriptions\<close>

definition link_line :: "string \<Rightarrow> bool" where
  "link_line l = (trim_space l \<noteq> [] \<and> \<not> has_prefix (trim_space l) ''#'')"

definition sub_ok :: "sub_state \<Rightarrow> bool" where
  "sub_ok st =
     (map ep_id (ss_eps st) = rev (ss_seen st) \<and> distinct (ss_seen st) \<and>
      (\<forall>e \<in> set (ss_eps st). ep_id e \<noteq> [] \<and> ep_name e \<noteq> [] \<and> ep_enabled e \<and> (ep_engine e, ep_protocol e) \<in> set importable))"

lemma uniqueID_ne: "uniqueID i seen = (i', seen') \<Longrightarrow> i' \<noteq> []"
proof -
  have "free_candidate seen i n \<noteq> []" for n
  proof (induction seen i n rule: free_candidate.induct)
    case (1 seen i n)
    then show ?case by (simp add: free_candidate.simps [of seen i n] candidate_def)
  qed
  then show "uniqueID i seen = (i', seen') \<Longrightarrow> i' \<noteq> []" by (auto simp: uniqueID_def Let_def split: if_splits)
qed

lemma sub_line_cases:
  "\<not> link_line l \<Longrightarrow> sub_line J st l = st"
  "link_line l \<Longrightarrow> Parse J (trim_space l) = Inl x \<Longrightarrow> sub_line J st l = st\<lparr>ss_errs := ss_errs st @ [(take 40 (trim_space l), x)]\<rparr>"
  "link_line l \<Longrightarrow> Parse J (trim_space l) = Inr e \<Longrightarrow> uniqueID (ep_id e) (ss_seen st) = (i, seen) \<Longrightarrow>
    sub_line J st l = st\<lparr>ss_eps := ss_eps st @ [e\<lparr>ep_id := i\<rparr>], ss_seen := seen\<rparr>"
  by (auto simp: sub_line_def link_line_def Let_def)

lemma sub_line_ok [inv_intros]:
  assumes "sub_ok st"
  shows "sub_ok (sub_line J st l)"
proof (cases "link_line l")
  case False
  then show ?thesis using assms by (simp add: sub_line_cases)
next
  case True
  show ?thesis
  proof (cases "Parse J (trim_space l)")
    case (Inl x)
    then show ?thesis using True assms by (simp add: sub_line_cases sub_ok_def)
  next
    case (Inr e)
    obtain i seen where u: "uniqueID (ep_id e) (ss_seen st) = (i, seen)" by fastforce
    show ?thesis using True Inr u assms uniqueID_fresh [OF u] uniqueID_ne [OF u] imported_facts(2-4) [OF Inr]
      by (auto simp: sub_line_cases sub_ok_def)
  qed
qed

lemma sub_line_count:
  "length (ss_eps (sub_line J st l)) + length (ss_errs (sub_line J st l)) =
   length (ss_eps st) + length (ss_errs st) + (if link_line l then 1 else 0)"
proof (cases "link_line l")
  case True
  show ?thesis
  proof (cases "Parse J (trim_space l)")
    case (Inr e)
    then show ?thesis using True by (cases "uniqueID (ep_id e) (ss_seen st)") (simp add: sub_line_cases)
  qed (simp add: True sub_line_cases)
qed (simp add: sub_line_cases)

lemma sub_lines:
  "sub_ok st \<Longrightarrow> sub_ok (foldl (sub_line J) st ls)"
  "length (ss_eps (foldl (sub_line J) st ls)) + length (ss_errs (foldl (sub_line J) st ls)) =
    length (ss_eps st) + length (ss_errs st) + length (filter link_line ls)"
  by (induction ls arbitrary: st) (simp_all add: sub_line_ok sub_line_count)

text \<open>The lines of a subscription: of its decoded text when it is one base64 block.\<close>

definition sub_lines_of :: "string \<Rightarrow> string list" where
  "sub_lines_of text =
     text_lines (if \<not> contains_str text ''://'' \<and> \<not> contains_str text ''[Interface]'' \<and> decodeB64 text \<noteq> []
       then decodeB64 text else text)"

lemma share_links_lines: "share_links J text = foldl (sub_line J) \<lparr>ss_eps = [], ss_errs = [], ss_seen = []\<rparr> (sub_lines_of text)"
  by (simp add: share_links_def sub_lines_of_def Let_def)

text \<open>C25. Whatever a subscription contains, its import ends, every line that is not blank and not a comment becomes an
  endpoint or an error, and the endpoints have names, are enabled and have distinct, non-empty ids, so that saving them all
  keeps them all. (The loop that finds a free id has no bound in the code.)\<close>

theorem subscription_accounts_for_every_line:
  assumes "document (trim_space (trim_prefix text utf8_bom)) = None" and "ParseSubscription J document text = (eps, errs)"
  shows "distinct (map ep_id eps) \<and> (\<forall>e \<in> set eps. ep_id e \<noteq> [] \<and> ep_name e \<noteq> [] \<and> ep_enabled e) \<and>
    length eps + length errs = length (filter link_line (sub_lines_of (trim_space (trim_prefix text utf8_bom))))"
proof -
  let ?s0 = "\<lparr>ss_eps = [], ss_errs = [], ss_seen = []\<rparr>" and ?t = "trim_space (trim_prefix text utf8_bom)"
  define st where "st = foldl (sub_line J) ?s0 (sub_lines_of ?t)"
  have r: "eps = ss_eps st" "errs = ss_errs st" using assms by (simp_all add: ParseSubscription_def share_links_lines st_def Let_def)
  have "sub_ok ?s0" by (simp add: sub_ok_def)
  then have ok: "sub_ok st" unfolding st_def by (rule sub_lines(1))
  then have "distinct (map ep_id eps)" by (simp add: r sub_ok_def)
  moreover have "\<forall>e \<in> set eps. ep_id e \<noteq> [] \<and> ep_name e \<noteq> [] \<and> ep_enabled e" using ok by (simp add: r sub_ok_def)
  moreover have "length eps + length errs = length (filter link_line (sub_lines_of ?t))"
    using sub_lines(2) [of J ?s0 "sub_lines_of ?t"] by (simp add: r st_def)
  ultimately show ?thesis by blast
qed

subsection \<open>De-duplication\<close>

text \<open>An incoming endpoint that is an existing one again.\<close>

definition in_place :: "json_lib \<Rightarrow> endpoint list \<Rightarrow> endpoint \<Rightarrow> bool" where
  "in_place J existing e =
     (ep_id e \<noteq> [] \<and> map_option (ContentKey J) (lookup_by ep_id (ep_id e) (rev existing)) = Some (ContentKey J e))"

lemma dedupe_step_cases:
  "dedupe_step J existing st e =
     (if in_place J existing e then st\<lparr>dd_unique := dd_unique st @ [e]\<rparr>
      else if ContentKey J e \<in> set (dd_keys st) then st\<lparr>dd_dupes := dd_dupes st + 1\<rparr>
      else st\<lparr>dd_keys := ContentKey J e # dd_keys st, dd_unique := dd_unique st @ [e]\<rparr>)"
  by (simp add: dedupe_step_def in_place_def Let_def)

definition dedupe_ok :: "json_lib \<Rightarrow> endpoint list \<Rightarrow> endpoint list \<Rightarrow> dedupe_state \<Rightarrow> bool" where
  "dedupe_ok J existing incoming st =
     (let new = filter (\<lambda>e. \<not> in_place J existing e) (dd_unique st) in
      subseq (dd_unique st) incoming \<and> length (dd_unique st) + dd_dupes st = length incoming \<and>
      dd_keys st = rev (map (ContentKey J) new) @ map (ContentKey J) existing \<and>
      distinct (map (ContentKey J) new) \<and> ContentKey J ` set new \<inter> ContentKey J ` set existing = {} \<and>
      ContentKey J ` set incoming \<subseteq> ContentKey J ` set (existing @ dd_unique st))"

lemma dedupe_step_ok:
  assumes "dedupe_ok J existing xs st"
  shows "dedupe_ok J existing (xs @ [e]) (dedupe_step J existing st e)"
proof -
  note ok = assms [unfolded dedupe_ok_def Let_def]
  let ?s = "dedupe_step J existing st e"
  have keep: "subseq (dd_unique st @ [e]) (xs @ [e])" "subseq (dd_unique st) (xs @ [e])"
    using ok list_emb_append_mono [of "(=)" "dd_unique st" xs "[e]" "[e]"] list_emb_prefix [of "(=)" "dd_unique st" xs "[e]"] by simp_all
  consider "in_place J existing e" | "\<not> in_place J existing e" "ContentKey J e \<in> set (dd_keys st)"
    | "\<not> in_place J existing e" "ContentKey J e \<notin> set (dd_keys st)" by blast
  then show ?thesis
  proof cases
    case 1
    then show ?thesis using ok keep(1) by (auto simp: dedupe_ok_def Let_def dedupe_step_cases)
  next
    case 2
    then show ?thesis using ok keep(2) by (auto simp: dedupe_ok_def Let_def dedupe_step_cases)
  next
    case 3
    then show ?thesis using ok keep(1) by (auto simp: dedupe_ok_def Let_def dedupe_step_cases)
  qed
qed

lemma dedupe_fold_ok:
  "dedupe_ok J existing incoming
    (foldl (dedupe_step J existing) \<lparr>dd_keys = map (ContentKey J) existing, dd_unique = [], dd_dupes = 0\<rparr> incoming)"
  by (induction incoming rule: rev_induct) (simp add: dedupe_ok_def Let_def, simp add: dedupe_step_ok)

text \<open>A bulk import keeps the order and drops only what is there already: the kept endpoints are a subsequence, the
  dropped ones are counted, every incoming content is afterwards among the existing and the kept ones, and the kept ones that
  are not an existing endpoint again have contents that are new and pairwise different.\<close>

theorem DedupeNew_keeps_new_contents:
  assumes "DedupeNew J existing incoming = (unique, dupes)"
  shows "subseq unique incoming \<and> length unique + dupes = length incoming \<and>
    ContentKey J ` set incoming \<subseteq> ContentKey J ` set (existing @ unique) \<and>
    distinct (map (ContentKey J) (filter (\<lambda>e. \<not> in_place J existing e) unique)) \<and>
    ContentKey J ` set (filter (\<lambda>e. \<not> in_place J existing e) unique) \<inter> ContentKey J ` set existing = {}"
  using dedupe_fold_ok [of J existing incoming] assms by (auto simp: DedupeNew_def dedupe_ok_def Let_def)

end
