(* ===== verification/Link_Roundtrip.thy ===== *)
theory Link_Roundtrip
  imports Importer_Spec Exporter
begin

text \<open>
  The exporter is the inverse of the importer: an endpoint that was imported from a share link is exported to a
  link that imports as the same endpoint, id, name, parameters, transport and TLS settings included. The lemmas follow
  the link: the printed URL is split into its parts, each query key is read back, and the protocol parsers see the
  same values.
\<close>

subsection \<open>The printed URL\<close>

lemma common_plain: "b64_common c \<Longrightarrow> plain_char c"
  by (auto simp: b64_common_def plain_char_def is_digit_def less_eq_char_def)

lemma trim_space_url:
  assumes "raw \<noteq> []" and "b64_common (hd raw)" and "plain_char (last raw)"
  shows "trim_space raw = raw"
  using assms common_plain trim_space_plain by blast

lemma cut_str_scheme: "CHR '':'' \<notin> set a \<Longrightarrow> cut_str ''://'' (a @ CHR '':'' # CHR ''/'' # CHR ''/'' # b) = Some (a, b)"
  by (induction a) auto

lemma link_scheme_url:
  assumes "scheme_name sch"
  shows "link_scheme (sch @ ''://'' @ rest) = (sch, sch @ ''://'' @ rest)"
proof -
  have c: "scheme_char x" if "x \<in> set sch" for x using scheme_name_chars [OF assms that] by blast
  moreover have "\<forall>x \<in> {CHR '':'', CHR '' '', CHR 0x09, CHR 0x0D, CHR 0x0A}. \<not> scheme_char x" by code_simp
  ultimately have "CHR '':'' \<notin> set sch" "\<not> list_ex (\<lambda>c. c \<in> {CHR '' '', CHR 0x09, CHR 0x0D, CHR 0x0A}) sch"
    by (auto simp: list_ex_iff)
  then show ?thesis using assms cut_str_scheme [of sch rest] by (simp add: link_scheme_def scheme_name_def)
qed

lemma replace_plus_out: "c \<in> set (replace_all ''+'' ''%2B'' s) \<Longrightarrow> c \<noteq> CHR ''+'' \<and> (c \<in> set s \<or> c \<in> set ''%2B'')"
  by (induction s) (auto split: if_splits)

lemma path_out: "c \<in> set (PathEscape s) \<Longrightarrow> plain_char c"
proof -
  assume "c \<in> set (PathEscape s)"
  then have "url_out UPathSegment c" by (rule escape_out)
  then have "b64_common c \<or> c \<in> set ''-_.~$&+:=@%''"
    by (auto simp: url_out_def shouldEscape_def split: if_splits)
  moreover have "\<forall>c \<in> set ''-_.~$&+:=@%''. plain_char c" by code_simp
  ultimately show ?thesis using common_plain by blast
qed

text \<open>A fragment reads back in both ways of decoding it.\<close>

lemma replace_all_append: "replace_all [c] new (s @ t) = replace_all [c] new s @ replace_all [c] new t"
  by (induction s) auto

lemma plus_escape: "m \<noteq> UQuery \<Longrightarrow> replace_all ''+'' ''%2B'' (url_escape m c) = (if url_escape m c = ''+'' then ''%2B'' else url_escape m c)"
proof -
  have "hex_upper (of_char c div 16) \<noteq> CHR ''+''" "hex_upper (of_char c mod 16) \<noteq> CHR ''+''"
    using hex_upper_common [of c] by (auto simp: b64_common_def is_digit_def less_eq_char_def)
  moreover assume "m \<noteq> UQuery"
  ultimately show ?thesis by (simp add: url_escape_def)
qed

lemma unescape_fragment1:
  "unescape m (replace_all ''+'' ''%2B'' (url_escape UPathSegment c) @ s) = map_option ((#) c) (unescape m s)"
  if "m = UQuery \<or> m = UFragment"
proof (cases "c = CHR ''+''")
  case True
  have "url_escape UPathSegment (CHR ''+'') = ''+''" by code_simp
  moreover have "is_hex (CHR ''2'')" "is_hex (CHR ''B'')" "16 * hex_val (CHR ''2'') + hex_val (CHR ''B'') = 43"
    "char_of (43 :: nat) = CHR ''+''" by code_simp+
  ultimately show ?thesis using True that by (auto simp: bad_escape_def)
next
  case False
  have "hex_upper d \<noteq> CHR ''+''" if "d < 16" for d
    using hex_digits [OF that] by (auto simp: b64_common_def is_digit_def less_eq_char_def)
  then have "url_escape UPathSegment c \<noteq> ''+''" using False by (auto simp: url_escape_def)
  then have r: "replace_all ''+'' ''%2B'' (url_escape UPathSegment c) = url_escape UPathSegment c" by (simp add: plus_escape)
  show ?thesis unfolding r using False hex_pair [of c] escaped_bytes [of UPathSegment] that
    by (auto simp: url_escape_def bad_escape_def)
qed

lemma unescape_fragment [simp]: "m = UQuery \<or> m = UFragment \<Longrightarrow> unescape m (fragmentEscape s) = Some s"
  unfolding fragmentEscape_def
  by (induction s) (simp_all add: replace_all_append unescape_fragment1)

lemma fragment_out: "c \<in> set (fragmentEscape s) \<Longrightarrow> plain_char c"
proof -
  assume "c \<in> set (fragmentEscape s)"
  then have "c \<in> set (PathEscape s) \<or> c \<in> set ''%2B''" unfolding fragmentEscape_def using replace_plus_out by blast
  moreover have "\<forall>c \<in> set ''%2B''. plain_char c" by code_simp
  ultimately show ?thesis using path_out by blast
qed

lemma fragment_ne: "s \<noteq> [] \<Longrightarrow> fragmentEscape s \<noteq> []"
proof
  assume "s \<noteq> []" and "fragmentEscape s = []"
  then show False using unescape_fragment [of UFragment s] by simp
qed

subsection \<open>Reading a printed URL\<close>

text \<open>The parts of the endpoint, the credentials and the query come back.\<close>

definition reads_back :: "url \<Rightarrow> endpoint \<Rightarrow> string \<Rightarrow> string \<Rightarrow> qvalues \<Rightarrow> bool" where
  "reads_back u e user pass q =
     (Hostname u = ep_server e \<and> Port u = itoa (ep_port e) \<and> u_fragment u = ep_name e \<and> Username u = user \<and>
      Password u = (if pass \<noteq> [] then Some pass else None) \<and> qget (Query u) = qget q)"

lemma last_append_ne: "b \<noteq> [] \<Longrightarrow> last (a @ b) = last b"
  by simp

lemma Parse_buildURI:
  assumes sch: "scheme_name sch" "sch \<notin> {''vmess'', ''ss'', ''wireguard'', ''wg''}"
    and host: "clean_host (ep_server e)" and port: "0 \<le> ep_port e" and name: "ep_name e \<noteq> []" and q: "distinct (map fst q)"
  obtains u where "Parse J (buildURI sch user pass e q) = parse_scheme sch u" and "reads_back u e user pass q"
proof -
  let ?ui = "(user, if pass \<noteq> [] then Some pass else None)" and ?f = "fragmentEscape (ep_name e)"
  let ?raw = "buildURI sch user pass e q"
  let ?u = "\<lparr>u_scheme = sch, u_user = Some ?ui, u_host = hostPort e, u_query = values_encode q, u_fragment = ep_name e\<rparr>"
  have hp: "hostPort e = JoinHostPort (ep_server e) (dec_of_nat (nat (ep_port e)))" using port by (simp add: hostPort_def itoa_def)
  have qs: "\<forall>c \<in> set (values_encode q). query_safe c \<or> c \<in> set ''&=''" using values_encode_safe by auto
  have f: "?f \<noteq> []" "unescape UFragment ?f = Some (ep_name e)" using name fragment_ne by simp_all
  have raw: "?raw = show_url sch ?ui (hostPort e) (values_encode q) @ ''#'' @ ?f"
    using name by (simp add: buildURI_def with_name_def)
  have url: "parse_url ?raw = Some ?u"
    using parse_show_url [OF sch(1) host qs f(2), of ?ui "nat (ep_port e)"] f(1) raw hp by simp
  obtain c cs where c: "sch = c # cs" "b64_common c"
    using sch(1) by (cases sch) (auto simp: scheme_name_def is_letter_def b64_common_def)
  obtain rest where rest: "?raw = sch @ ''://'' @ rest" unfolding raw show_url_def by (simp only: append_assoc)
  have "last ?raw = last ?f" unfolding raw using f(1) by simp
  then have "plain_char (last ?raw)" using fragment_out f(1) last_in_set by metis
  moreover have ne: "?raw \<noteq> []" "b64_common (hd ?raw)" using c unfolding rest by simp_all
  ultimately have trim: "trim_space ?raw = ?raw" using trim_space_url by blast
  have "Parse J ?raw = parse_link J sch ?raw"
    using trim ne(1) sch(1) link_scheme_url [OF sch(1), of rest] rest by (simp add: Parse_def Let_def scheme_name_def)
  also have "\<dots> = parse_scheme sch ?u" using sch(2) url by (simp add: parse_link_def)
  finally have "Parse J ?raw = parse_scheme sch ?u" .
  moreover have "host_of (hostPort e) = (ep_server e, itoa (ep_port e))"
    using host_port_ok(2) [OF host, of "nat (ep_port e)"] port hp by (simp add: itoa_def)
  then have "reads_back ?u e user pass q"
    using qget_parse_values [OF q]
    by (simp add: reads_back_def Hostname_def Port_def Username_def Password_def Query_def fun_eq_iff)
  ultimately show thesis using that by blast
qed

lemma atoi_range: "atoi s = Some n \<Longrightarrow> n < 2 ^ 63"
  by (auto simp: atoi_def Let_def split: if_splits)

lemma atoiDefault_itoa: "0 \<le> n \<Longrightarrow> n < 2 ^ 63 \<Longrightarrow> atoiDefault (itoa n) d = n"
  using atoi_dec_of_nat [of "nat n"] by (simp add: atoiDefault_def itoa_def nat_less_iff)

lemma atoiDefault_bound: "d < 2 ^ 63 \<Longrightarrow> atoiDefault s d < 2 ^ 63"
  using atoi_range [of s] by (auto simp: atoiDefault_def split: option.split)

subsection \<open>Queries\<close>

lemma distinct_set_queries [simp]:
  "distinct (map fst q) \<Longrightarrow> distinct (map fst (setIf k v q))"
  "distinct (map fst q) \<Longrightarrow> distinct (map fst (setFlag k v b q))"
  "distinct (map fst q) \<Longrightarrow> distinct (map fst (setALPN as q))"
  by (simp_all add: setIf_def setFlag_def setALPN_def)

lemma distinct_tls_queries [simp]:
  "distinct (map fst q) \<Longrightarrow> distinct (map fst (setTransportQuery t q))"
  "distinct (map fst q) \<Longrightarrow> distinct (map fst (setTLSQuery s q))"
  "distinct (map fst q) \<Longrightarrow> distinct (map fst (setQuicTLS k s q))"
  by (simp_all add: setTransportQuery_def setTLSQuery_def setQuicTLS_def Let_def split: option.split)

lemma qget_setIf [simp]: "qget (setIf k v q) k' = (if k' = k \<and> v \<noteq> [] then v else qget q k')"
  by (simp add: setIf_def)

lemma qget_setFlag [simp]: "qget (setFlag k v b q) k' = (if k' = k \<and> b then v else qget q k')"
  by (simp add: setFlag_def)

lemma qget_setALPN [simp]: "qget (setALPN as q) k' = (if k' = ''alpn'' \<and> as \<noteq> [] then join_with '','' as else qget q k')"
  by (simp add: setALPN_def)

definition tls_keys :: "string list" where
  "tls_keys = [''security'', ''sni'', ''fp'', ''pbk'', ''sid'', ''alpn'', ''allowInsecure'', ''insecure'', ''allow_insecure'']"

definition transport_keys :: "string list" where
  "transport_keys = [''type'', ''path'', ''host'', ''serviceName'', ''service_name'', ''servicename'']"

definition unset :: "string list \<Rightarrow> qvalues \<Rightarrow> bool" where
  "unset ks q = (\<forall>k \<in> set ks. qget q k = [])"

lemma unset_simps [simp]:
  "unset [] q" "unset (k # ks) q \<longleftrightarrow> qget q k = [] \<and> unset ks q"
  by (simp_all add: unset_def)

lemma qget_setTLSQuery_other: "k \<notin> set tls_keys \<Longrightarrow> qget (setTLSQuery s q) k = qget q k"
  by (simp add: setTLSQuery_def tls_keys_def split: option.split)

lemma qget_setTransportQuery_other: "k \<notin> set transport_keys \<Longrightarrow> qget (setTransportQuery t q) k = qget q k"
  by (simp add: setTransportQuery_def transport_keys_def Let_def split: option.split)

lemma transport_cong:
  "\<forall>k \<in> set transport_keys. qget q k = qget q' k \<Longrightarrow> transportFromQuery q = transportFromQuery q'"
  by (simp add: transportFromQuery_def path_host_def transport_keys_def Let_def)

lemma tls_cong: "qget q = qget q' \<Longrightarrow> tlsFromQuery q d server = tlsFromQuery q' d server"
  by (simp add: tlsFromQuery_def insecureFromQuery_def Let_def)

lemma quic_cong: "qget q = qget q' \<Longrightarrow> quic_tls q server = quic_tls q' server"
  by (simp add: quic_tls_def insecureFromQuery_def)

lemma truthy_values [simp]: "truthy ''1''" "\<not> truthy []"
  by code_simp+

lemma transport_back:
  assumes "unset transport_keys b"
  shows "transportFromQuery (setTransportQuery (transportFromQuery q) b) = transportFromQuery q"
proof -
  consider "qget q ''type'' = ''ws''" | "qget q ''type'' = ''grpc''" | "qget q ''type'' = ''http''" | "qget q ''type'' = ''h2''"
    | "qget q ''type'' = ''httpupgrade''" | "transportFromQuery q = None"
    unfolding transportFromQuery_def Let_def by (metis (no_types))
  then show ?thesis
    by cases (use assms in \<open>simp_all add: transportFromQuery_def setTransportQuery_def path_host_def no_transport_def transport_keys_def Let_def\<close>)
qed

text \<open>A value that is written only when it is set reads back as itself.\<close>

lemma written_if_set:
  "(if v \<noteq> [] then v else []) = v" "csv_items as \<Longrightarrow> splitCSV (if as \<noteq> [] then join_with '','' as else []) = as"
  "truthy (if b then ''1'' else []) = b"
  by auto

lemma tls_keys_back:
  assumes "unset tls_keys b"
  shows "tls_enabled s \<Longrightarrow> tls_type s = ''reality'' \<Longrightarrow> qget (setTLSQuery (Some s) b) ''pbk'' = tls_public_key s"
    and "tls_enabled s \<Longrightarrow> tls_type s = ''reality'' \<Longrightarrow> qget (setTLSQuery (Some s) b) ''sid'' = tls_short_id s"
    and "tls_enabled s \<Longrightarrow> qget (setTLSQuery (Some s) b) ''security'' = (if tls_type s = ''reality'' then ''reality'' else ''tls'')"
    and "tls_enabled s \<Longrightarrow> qget (setTLSQuery (Some s) b) ''sni'' = tls_sni s"
    and "tls_enabled s \<Longrightarrow> qget (setTLSQuery (Some s) b) ''fp'' = tls_fingerprint s"
    and "tls_enabled s \<Longrightarrow> csv_items (tls_alpn s) \<Longrightarrow> splitCSV (qget (setTLSQuery (Some s) b) ''alpn'') = tls_alpn s"
    and "tls_enabled s \<Longrightarrow> tls_type s \<noteq> ''reality'' \<Longrightarrow> insecureFromQuery (setTLSQuery (Some s) b) = tls_insecure s"
  using assms by (simp_all add: setTLSQuery_def tls_keys_def insecureFromQuery_def written_if_set)

lemma tls_back:
  assumes "unset tls_keys b" and "tlsFromQuery q d server = Some s"
    and "tls_type s \<noteq> ''reality'' \<Longrightarrow> tls_sni s = [] \<Longrightarrow> qget b ''host'' = []"
  shows "tlsFromQuery (setTLSQuery (Some s) b) d server = Some s"
proof -
  define sec where "sec = (if qget q ''security'' = [] \<and> d then ''tls'' else qget q ''security'')"
  note tls = assms(2) [unfolded tlsFromQuery_def Let_def, folded sec_def]
  have items: "csv_items (splitCSV (qget q ''alpn''))" by (rule splitCSV_items)
  note keys = tls_keys_back [OF assms(1)]
  show ?thesis
  proof (cases "sec = ''reality''")
    case True
    then have s: "s = no_tls\<lparr>tls_enabled := True, tls_type := ''reality'', tls_sni := qget q ''sni'', tls_fingerprint := qget q ''fp'',
        tls_public_key := qget q ''pbk'', tls_short_id := qget q ''sid'', tls_alpn := splitCSV (qget q ''alpn'')\<rparr>"
      using tls by simp
    show ?thesis using keys [of s] items unfolding tlsFromQuery_def by (simp add: s)
  next
    case False
    then have s: "s = no_tls\<lparr>tls_enabled := True, tls_type := ''tls'', tls_sni := FirstNonEmpty [qget q ''sni'', qget q ''host'', server],
        tls_fingerprint := qget q ''fp'', tls_insecure := insecureFromQuery q, tls_alpn := splitCSV (qget q ''alpn'')\<rparr>"
      using tls by (auto split: if_splits)
    have "FirstNonEmpty [tls_sni s, qget b ''host'', server] = tls_sni s" using assms(3) by (auto simp: s)
    moreover have "qget (setTLSQuery (Some s) b) ''host'' = qget b ''host''" by (simp add: qget_setTLSQuery_other tls_keys_def)
    ultimately show ?thesis using keys [of s] items unfolding tlsFromQuery_def by (simp add: s)
  qed
qed

lemma tls_back_None: "unset tls_keys b \<Longrightarrow> tlsFromQuery (setTLSQuery None b) False server = None"
  by (simp add: tlsFromQuery_def setTLSQuery_def tls_keys_def)

lemma stream_back:
  assumes unset: "unset transport_keys b" "unset tls_keys b"
    and t: "t = transportFromQuery q" and s: "s = tlsFromQuery q d server" and on: "d \<Longrightarrow> s \<noteq> None"
  shows "transportFromQuery (setTLSQuery s (setTransportQuery t b)) = t"
    and "tlsFromQuery (setTLSQuery s (setTransportQuery t b)) d server = s"
proof -
  let ?b = "setTransportQuery t b"
  have "transportFromQuery (setTLSQuery s ?b) = transportFromQuery ?b"
    by (rule transport_cong) (simp add: transport_keys_def qget_setTLSQuery_other tls_keys_def)
  then show "transportFromQuery (setTLSQuery s ?b) = t" using transport_back [OF unset(1)] t by simp
  have ub: "unset tls_keys ?b" using unset(2) by (simp add: tls_keys_def qget_setTransportQuery_other transport_keys_def)
  show "tlsFromQuery (setTLSQuery s ?b) d server = s"
  proof (cases s)
    case None
    then show ?thesis using on tls_back_None [OF ub] by (cases d) auto
  next
    case (Some s')
    have "qget ?b ''host'' = []" if "tls_type s' \<noteq> ''reality''" "tls_sni s' = []"
    proof -
      have "qget q ''host'' = []"
        using s Some that by (auto simp: tlsFromQuery_def Let_def split: if_splits)
      then show ?thesis using unset(1)
        by (auto simp: t transportFromQuery_def setTransportQuery_def path_host_def no_transport_def transport_keys_def Let_def)
    qed
    then show ?thesis using tls_back [OF ub s [unfolded Some, symmetric]] Some by simp
  qed
qed

lemma quic_back:
  assumes "unset tls_keys b" and "k \<in> {''insecure'', ''allow_insecure''}"
  shows "quic_tls (setQuicTLS k (Some (quic_tls q server)) b) server = quic_tls q server"
proof -
  define s where "s = quic_tls q server"
  have items: "csv_items (tls_alpn s)" using splitCSV_items by (simp add: s_def quic_tls_def)
  have "qget (setQuicTLS k (Some s) b) ''sni'' = tls_sni s"
    using assms by (auto simp: setQuicTLS_def tls_keys_def)
  moreover have "splitCSV (qget (setQuicTLS k (Some s) b) ''alpn'') = tls_alpn s"
    using assms items by (auto simp: setQuicTLS_def tls_keys_def written_if_set)
  moreover have "insecureFromQuery (setQuicTLS k (Some s) b) = tls_insecure s"
    using assms by (auto simp: setQuicTLS_def tls_keys_def insecureFromQuery_def)
  moreover have "FirstNonEmpty [tls_sni s, server] = tls_sni s" by (simp add: s_def quic_tls_def)
  ultimately have "quic_tls (setQuicTLS k (Some s) b) server =
      no_tls\<lparr>tls_enabled := True, tls_type := ''tls'', tls_sni := tls_sni s, tls_insecure := tls_insecure s, tls_alpn := tls_alpn s\<rparr>"
    by (simp only: quic_tls_def)
  then show ?thesis by (simp add: s_def quic_tls_def)
qed

lemma qget_setQuicTLS_other: "k' \<notin> {''sni'', ''alpn'', k} \<Longrightarrow> qget (setQuicTLS k s b) k' = qget b k'"
  by (simp add: setQuicTLS_def split: option.split)

subsection \<open>Parameters\<close>

lemma str_param_simps [simp]:
  "str_param Map.empty k = []"
  "str_param (ps(k' \<mapsto> v)) k = (if k = k' then (case v of PStr s \<Rightarrow> s | _ \<Rightarrow> []) else str_param ps k)"
  "str_param (put_str k' s ps) k = (if k = k' \<and> s \<noteq> [] then s else str_param ps k)"
  "k \<noteq> k' \<Longrightarrow> str_param (put_true k' b ps) k = str_param ps k"
  by (simp_all add: str_param_def put_str_def put_true_def split: pval.split)

lemma bool_param_simps [simp]:
  "bool_param Map.empty k = False"
  "bool_param (ps(k' \<mapsto> v)) k = (if k = k' then (case v of PBool b \<Rightarrow> b | _ \<Rightarrow> False) else bool_param ps k)"
  "k \<noteq> k' \<Longrightarrow> bool_param (put_str k' s ps) k = bool_param ps k"
  "bool_param (put_true k' b ps) k = (if k = k' \<and> b then True else bool_param ps k)"
  by (simp_all add: bool_param_def put_str_def put_true_def split: pval.split)

subsection \<open>Parsing back\<close>

text \<open>The part of an endpoint that a URL determines.\<close>

lemma url_endpoint_back:
  assumes "reads_back u' e user pass q" and "0 \<le> ep_port e" and "ep_port e < 2 ^ 63"
  shows "url_endpoint prot d u' ps =
    new_endpoint EngineSingBox prot (ep_server e) (ep_port e) (ep_name e) ps"
  using assms atoiDefault_itoa by (simp add: reads_back_def url_endpoint_def)

lemma url_endpoint_fields:
  "ep_server (url_endpoint prot d u ps) = Hostname u" "ep_port (url_endpoint prot d u ps) = atoiDefault (Port u) d"
  "ep_params (url_endpoint prot d u ps) = ps" "ep_id (url_endpoint prot d u ps) = []"
  "ep_protocol (url_endpoint prot d u ps) = prot" "ep_engine (url_endpoint prot d u ps) = EngineSingBox"
  "ep_transport (url_endpoint prot d u ps) = None" "ep_tls (url_endpoint prot d u ps) = None"
  by (simp_all add: url_endpoint_def new_endpoint_def)

lemma reads_back_endpoint:
  assumes "reads_back u' e user pass q" and "e = b\<lparr>ep_id := i, ep_name := n, ep_enabled := True\<rparr>"
    and "b = (url_endpoint prot d u ps)\<lparr>ep_transport := t, ep_tls := s\<rparr>" and "0 \<le> ep_port e" and "d < 2 ^ 63"
  shows "(url_endpoint prot d' u' ps)\<lparr>ep_transport := t, ep_tls := s\<rparr> = b\<lparr>ep_name := n\<rparr>"
proof -
  have "ep_port e < 2 ^ 63" using assms(2,3,5) atoiDefault_bound by (simp add: url_endpoint_fields)
  then show ?thesis
    using url_endpoint_back [OF assms(1,4)] assms(2,3) by (simp add: url_endpoint_def new_endpoint_def)
qed

lemma vless_back:
  assumes b: "parseVLESS u = Inr b" and e: "e = b\<lparr>ep_id := i, ep_name := n, ep_enabled := True\<rparr>"
    and r: "reads_back u' e (str_param (ep_params e) ''uuid'') [] (vless_query e)" and port: "0 \<le> ep_port e"
  shows "parseVLESS u' = Inr (b\<lparr>ep_name := n\<rparr>)"
proof -
  let ?q = "Query u" and ?q' = "vless_query e"
  define base where "base = setIf ''packetEncoding'' (str_param (ep_params e) ''packet_encoding'')
    (setIf ''flow'' (str_param (ep_params e) ''flow'') (qset ''encryption'' ''none'' []))"
  define pe where "pe = FirstNonEmpty [qget ?q ''packetEncoding'', qget ?q ''packet_encoding'']"
  define ps where "ps = put_str ''packet_encoding'' pe (put_str ''flow'' (qget ?q ''flow'') [''uuid'' \<mapsto> PStr (Username u)])"
  have b': "b = (url_endpoint ProtoVLESS 443 u ps)\<lparr>ep_transport := transportFromQuery ?q, ep_tls := tlsFromQuery ?q False (Hostname u)\<rparr>"
    using b by (auto simp: parseVLESS_def Let_def ps_def pe_def url_endpoint_fields)
  have q': "?q' = setTLSQuery (ep_tls e) (setTransportQuery (ep_transport e) base)" by (simp add: vless_query_def base_def)
  have fields: "ep_transport e = transportFromQuery ?q" "ep_tls e = tlsFromQuery ?q False (Hostname u)" "ep_params e = ps" "ep_server e = Hostname u"
    by (simp_all add: e b' url_endpoint_fields)
  have unset: "unset transport_keys base" "unset tls_keys base"
    by (simp_all add: base_def transport_keys_def tls_keys_def)
  note stream = stream_back [OF unset fields(1,2), simplified, folded q']
  have cong: "qget (Query u') = qget ?q'" and user: "Username u' = Username u" and host: "Hostname u' = Hostname u"
    using r fields by (simp_all add: reads_back_def ps_def)
  have other: "qget ?q' k = qget base k" if "k \<notin> set tls_keys" "k \<notin> set transport_keys" for k
    using that by (simp add: q' qget_setTLSQuery_other qget_setTransportQuery_other)
  have "qget ?q' ''flow'' = qget ?q ''flow''" "qget ?q' ''packetEncoding'' = pe" "qget ?q' ''packet_encoding'' = []"
    by (simp_all add: other tls_keys_def transport_keys_def base_def fields ps_def)
  moreover have "transportFromQuery (Query u') = transportFromQuery ?q" using transport_cong [of "Query u'" ?q'] cong stream(1) fields by simp
  moreover have "tlsFromQuery (Query u') False (Hostname u) = tlsFromQuery ?q False (Hostname u)"
    using tls_cong [OF cong] stream(2) fields by simp
  ultimately have "parseVLESS u' = Inr ((url_endpoint ProtoVLESS 443 u' ps)\<lparr>ep_transport := transportFromQuery ?q, ep_tls := tlsFromQuery ?q False (Hostname u)\<rparr>)"
    by (simp add: parseVLESS_def Let_def cong user host url_endpoint_fields ps_def pe_def)
  then show ?thesis using reads_back_endpoint [OF r e b' port] by simp
qed

lemma trojan_back:
  assumes b: "parseTrojan u = Inr b" and e: "e = b\<lparr>ep_id := i, ep_name := n, ep_enabled := True\<rparr>"
    and r: "reads_back u' e (str_param (ep_params e) ''password'') [] (trojan_query e)" and port: "0 \<le> ep_port e"
    and on: "ep_tls e \<noteq> None"
  shows "parseTrojan u' = Inr (b\<lparr>ep_name := n\<rparr>)"
proof -
  let ?q = "Query u" and ?q' = "trojan_query e"
  define ps where "ps = [''password'' \<mapsto> PStr (Username u)]"
  have b': "b = (url_endpoint ProtoTrojan 443 u ps)\<lparr>ep_transport := transportFromQuery ?q, ep_tls := tlsFromQuery ?q True (Hostname u)\<rparr>"
    using b by (auto simp: parseTrojan_def Let_def ps_def url_endpoint_fields)
  have fields: "ep_transport e = transportFromQuery ?q" "ep_tls e = tlsFromQuery ?q True (Hostname u)" "ep_params e = ps" "ep_server e = Hostname u"
    by (simp_all add: e b' url_endpoint_fields)
  have unset: "unset transport_keys []" "unset tls_keys []" by (simp_all add: unset_def)
  note stream = stream_back [OF unset fields(1,2) on, folded trojan_query_def]
  have cong: "qget (Query u') = qget ?q'" and user: "Username u' = Username u" and host: "Hostname u' = Hostname u"
    using r fields by (simp_all add: reads_back_def ps_def)
  have "transportFromQuery (Query u') = transportFromQuery ?q" using transport_cong [of "Query u'" ?q'] cong stream(1) fields by simp
  moreover have "tlsFromQuery (Query u') True (Hostname u) = tlsFromQuery ?q True (Hostname u)"
    using tls_cong [OF cong] stream(2) fields by simp
  ultimately have "parseTrojan u' = Inr ((url_endpoint ProtoTrojan 443 u' ps)\<lparr>ep_transport := transportFromQuery ?q, ep_tls := tlsFromQuery ?q True (Hostname u)\<rparr>)"
    by (simp add: parseTrojan_def Let_def user host url_endpoint_fields ps_def)
  then show ?thesis using reads_back_endpoint [OF r e b' port] by simp
qed

lemma url_endpoint_no_transport: "(url_endpoint prot d u ps)\<lparr>ep_transport := None, ep_tls := s\<rparr> = (url_endpoint prot d u ps)\<lparr>ep_tls := s\<rparr>"
  by (simp add: url_endpoint_def new_endpoint_def)

lemma anytls_back:
  assumes b: "parseAnyTLS u = Inr b" and e: "e = b\<lparr>ep_id := i, ep_name := n, ep_enabled := True\<rparr>"
    and r: "reads_back u' e (str_param (ep_params e) ''password'') [] (setTLSQuery (ep_tls e) [])" and port: "0 \<le> ep_port e"
    and on: "ep_tls e \<noteq> None"
  shows "parseAnyTLS u' = Inr (b\<lparr>ep_name := n\<rparr>)"
proof -
  let ?q = "Query u" and ?q' = "setTLSQuery (ep_tls e) []"
  define ps where "ps = [''password'' \<mapsto> PStr (Username u)]"
  have b': "b = (url_endpoint ProtoAnyTLS 443 u ps)\<lparr>ep_transport := None, ep_tls := tlsFromQuery ?q True (Hostname u)\<rparr>"
    using b by (auto simp: parseAnyTLS_def Let_def ps_def url_endpoint_fields url_endpoint_no_transport)
  have fields: "ep_tls e = tlsFromQuery ?q True (Hostname u)" "ep_params e = ps" "ep_server e = Hostname u"
    by (simp_all add: e b' url_endpoint_fields)
  have unset: "unset tls_keys []" by (simp add: unset_def)
  obtain s where s: "ep_tls e = Some s" using on by blast
  have tls: "tlsFromQuery ?q' True (Hostname u) = ep_tls e"
    unfolding s by (rule tls_back [OF unset]) (use fields s in auto)
  have cong: "qget (Query u') = qget ?q'" and user: "Username u' = Username u" and host: "Hostname u' = Hostname u"
    using r fields by (simp_all add: reads_back_def ps_def)
  have "tlsFromQuery (Query u') True (Hostname u) = tlsFromQuery ?q True (Hostname u)" using tls_cong [OF cong] tls fields by simp
  then have "parseAnyTLS u' = Inr ((url_endpoint ProtoAnyTLS 443 u' ps)\<lparr>ep_transport := None, ep_tls := tlsFromQuery ?q True (Hostname u)\<rparr>)"
    by (simp add: parseAnyTLS_def Let_def user host url_endpoint_fields ps_def url_endpoint_no_transport)
  then show ?thesis using reads_back_endpoint [OF r e b' port] by simp
qed

lemma hysteria2_back:
  assumes b: "parseHysteria2 u = Inr b" and e: "e = b\<lparr>ep_id := i, ep_name := n, ep_enabled := True\<rparr>"
    and r: "reads_back u' e (str_param (ep_params e) ''password'') [] (hysteria2_query e)" and port: "0 \<le> ep_port e"
  shows "parseHysteria2 u' = Inr (b\<lparr>ep_name := n\<rparr>)"
proof -
  let ?q = "Query u" and ?q' = "hysteria2_query e"
  define auth where "auth = (case Password u of Some pw \<Rightarrow> if pw \<noteq> [] then Username u @ '':'' @ pw else Username u | None \<Rightarrow> Username u)"
  define hop where "hop = FirstNonEmpty [qget ?q ''mport'', qget ?q ''ports'']"
  define ps where "ps = put_str ''hop_ports'' hop
    (if qget ?q ''obfs'' \<noteq> []
     then put_str ''obfs_password'' (qget ?q ''obfs-password'') ([''password'' \<mapsto> PStr auth, ''obfs'' \<mapsto> PStr (qget ?q ''obfs'')])
     else [''password'' \<mapsto> PStr auth])"
  have b': "b = (url_endpoint ProtoHysteria2 443 u ps)\<lparr>ep_transport := None, ep_tls := Some (quic_tls ?q (Hostname u))\<rparr>"
    using b by (auto simp: parseHysteria2_def Let_def ps_def auth_def hop_def url_endpoint_fields url_endpoint_no_transport)
  have fields: "ep_tls e = Some (quic_tls ?q (Hostname u))" "ep_params e = ps" "ep_server e = Hostname u"
    by (simp_all add: e b' url_endpoint_fields)
  define base where "base = setQuicTLS ''insecure'' (ep_tls e) []"
  have q': "?q' = setIf ''mport'' (str_param ps ''hop_ports'')
      (if str_param ps ''obfs'' \<noteq> [] then setIf ''obfs-password'' (str_param ps ''obfs_password'') (qset ''obfs'' (str_param ps ''obfs'') base) else base)"
    by (simp add: hysteria2_query_def base_def fields Let_def)
  have base: "qget base k = []" if "k \<notin> {''sni'', ''alpn'', ''insecure''}" for k
    using that by (simp add: base_def qget_setQuicTLS_other)
  have str: "str_param ps ''hop_ports'' = hop" "str_param ps ''obfs'' = qget ?q ''obfs''" "str_param ps ''password'' = auth"
    "qget ?q ''obfs'' \<noteq> [] \<Longrightarrow> str_param ps ''obfs_password'' = qget ?q ''obfs-password''"
    by (simp_all add: ps_def)
  have quic: "quic_tls base (Hostname u) = quic_tls ?q (Hostname u)"
    unfolding base_def fields by (rule quic_back) (simp_all add: unset_def)
  have "quic_tls ?q' (Hostname u) = quic_tls base (Hostname u)"
    by (simp add: q' quic_tls_def insecureFromQuery_def)
  moreover have cong: "qget (Query u') = qget ?q'" and user: "Username u' = auth" "Password u' = None" and host: "Hostname u' = Hostname u"
    using r fields str by (simp_all add: reads_back_def)
  ultimately have tls: "quic_tls (Query u') (Hostname u) = quic_tls ?q (Hostname u)" using quic quic_cong [OF cong] by simp
  have keys: "qget ?q' ''mport'' = hop" "qget ?q' ''ports'' = []" "qget ?q' ''obfs'' = qget ?q ''obfs''"
    "qget ?q ''obfs'' \<noteq> [] \<Longrightarrow> qget ?q' ''obfs-password'' = qget ?q ''obfs-password''"
    by (simp_all add: q' str base)
  have "parseHysteria2 u' = Inr ((url_endpoint ProtoHysteria2 443 u' ps)\<lparr>ep_transport := None, ep_tls := Some (quic_tls ?q (Hostname u))\<rparr>)"
    by (simp add: parseHysteria2_def Let_def user host cong keys tls url_endpoint_fields ps_def hop_def url_endpoint_no_transport)
  then show ?thesis using reads_back_endpoint [OF r e b' port] by simp
qed

lemma tuic_back:
  assumes b: "parseTUIC u = Inr b" and e: "e = b\<lparr>ep_id := i, ep_name := n, ep_enabled := True\<rparr>"
    and r: "reads_back u' e (str_param (ep_params e) ''uuid'') (str_param (ep_params e) ''password'') (tuic_query e)" and port: "0 \<le> ep_port e"
  shows "parseTUIC u' = Inr (b\<lparr>ep_name := n\<rparr>)"
proof -
  let ?q = "Query u" and ?q' = "tuic_query e"
  define pw where "pw = (case Password u of Some pw \<Rightarrow> pw | None \<Rightarrow> [])"
  define opts where "opts = (\<lambda>q. put_true ''udp_over_stream'' (truthy (qget q ''udp_over_stream''))
                (put_true ''zero_rtt_handshake'' (truthy (qget q ''zero_rtt_handshake''))
                 (put_str ''heartbeat'' (qget q ''heartbeat'')
                  (put_str ''udp_relay_mode'' (qget q ''udp_relay_mode'')
                   (put_str ''congestion_control'' (qget q ''congestion_control'')
                    [''uuid'' \<mapsto> PStr (Username u), ''password'' \<mapsto> PStr pw])))))"
  define ps where "ps = opts ?q"
  have b': "b = (url_endpoint ProtoTUIC 443 u ps)\<lparr>ep_transport := None, ep_tls := Some (quic_tls ?q (Hostname u))\<rparr>"
    using b by (auto simp: parseTUIC_def Let_def ps_def opts_def pw_def url_endpoint_fields url_endpoint_no_transport)
  have fields: "ep_tls e = Some (quic_tls ?q (Hostname u))" "ep_params e = ps" "ep_server e = Hostname u"
    by (simp_all add: e b' url_endpoint_fields)
  define base where "base = setFlag ''udp_over_stream'' ''1'' (bool_param ps ''udp_over_stream'')
          (setFlag ''zero_rtt_handshake'' ''1'' (bool_param ps ''zero_rtt_handshake'')
            (setIf ''heartbeat'' (str_param ps ''heartbeat'')
              (setIf ''udp_relay_mode'' (str_param ps ''udp_relay_mode'')
                (setIf ''congestion_control'' (str_param ps ''congestion_control'') []))))"
  have q': "?q' = setQuicTLS ''allow_insecure'' (ep_tls e) base" by (simp add: tuic_query_def base_def fields Let_def)
  have str: "str_param ps ''uuid'' = Username u" "str_param ps ''password'' = pw" by (simp_all add: ps_def opts_def)
  have "unset tls_keys base" by (simp add: base_def tls_keys_def)
  then have "quic_tls ?q' (Hostname u) = quic_tls ?q (Hostname u)" unfolding q' fields by (rule quic_back) simp
  moreover have cong: "qget (Query u') = qget ?q'" and user: "Username u' = Username u" and host: "Hostname u' = Hostname u"
    and pass: "(case Password u' of Some pw \<Rightarrow> pw | None \<Rightarrow> []) = pw"
    using r fields str by (simp_all add: reads_back_def)
  ultimately have tls: "quic_tls (Query u') (Hostname u) = quic_tls ?q (Hostname u)" using quic_cong [OF cong] by simp
  have other: "qget ?q' k = qget base k" if "k \<notin> {''sni'', ''alpn'', ''allow_insecure''}" for k
    using that by (simp add: q' qget_setQuicTLS_other)
  have vals: "str_param ps ''heartbeat'' = qget ?q ''heartbeat''" "str_param ps ''udp_relay_mode'' = qget ?q ''udp_relay_mode''"
    "str_param ps ''congestion_control'' = qget ?q ''congestion_control''"
    "bool_param ps ''udp_over_stream'' = truthy (qget ?q ''udp_over_stream'')"
    "bool_param ps ''zero_rtt_handshake'' = truthy (qget ?q ''zero_rtt_handshake'')"
    by (simp_all add: ps_def opts_def)
  have "qget base ''heartbeat'' = qget ?q ''heartbeat''" "qget base ''udp_relay_mode'' = qget ?q ''udp_relay_mode''"
    "qget base ''congestion_control'' = qget ?q ''congestion_control''"
    "truthy (qget base ''udp_over_stream'') = truthy (qget ?q ''udp_over_stream'')"
    "truthy (qget base ''zero_rtt_handshake'') = truthy (qget ?q ''zero_rtt_handshake'')"
    by (simp_all add: base_def vals)
  then have "opts ?q' = ps" by (simp add: opts_def ps_def other)
  then have "opts (Query u') = ps" by (simp add: opts_def cong)
  then have "parseTUIC u' = Inr ((url_endpoint ProtoTUIC 443 u' ps)\<lparr>ep_transport := None, ep_tls := Some (quic_tls ?q (Hostname u))\<rparr>)"
    by (simp add: parseTUIC_def Let_def user host pass tls url_endpoint_fields opts_def url_endpoint_no_transport)
  then show ?thesis using reads_back_endpoint [OF r e b' port] by simp
qed

subsection \<open>Shadowsocks\<close>

lemma atoi_itoa_all: "- (2 ^ 63) \<le> n \<Longrightarrow> n < 2 ^ 63 \<Longrightarrow> atoi (itoa n) = Some n"
proof (cases "n < 0")
  case True
  have "list_all is_digit (dec_of_nat (nat (- n)))" using dec_of_nat_digits by (simp add: list_all_iff)
  moreover assume "- (2 ^ 63) \<le> n" "n < 2 ^ 63"
  ultimately show ?thesis using True by (simp add: atoi_def itoa_def Let_def)
next
  case False
  assume "n < 2 ^ 63"
  with False show ?thesis using atoi_dec_of_nat [of "nat n"] by (simp add: itoa_def nat_less_iff)
qed

lemma atoi_bounds: "atoi s = Some n \<Longrightarrow> - (2 ^ 63) \<le> n \<and> n < 2 ^ 63"
  by (auto simp: atoi_def Let_def split: if_splits)

lemma atoiDefault_bounds: "- (2 ^ 63) \<le> d \<Longrightarrow> d < 2 ^ 63 \<Longrightarrow> - (2 ^ 63) \<le> atoiDefault s d \<and> atoiDefault s d < 2 ^ 63"
  using atoi_bounds [of s] by (auto simp: atoiDefault_def split: option.split)

lemma itoa_chars: "c \<in> set (itoa n) \<Longrightarrow> is_digit c \<or> c = CHR ''-''"
  using dec_of_nat_digits by (auto simp: itoa_def split: if_splits)

lemma SplitHostPort_join:
  assumes "clean_host h"
  shows "SplitHostPort (JoinHostPort h (itoa n)) = Some (h, itoa n)"
proof -
  have h: "c \<notin> set ''[]''" if "c \<in> set h" for c
    using assms host_name_char_not [of c] that by (auto simp: clean_host_def list_all_iff)
  have p: "c \<notin> set '':[]''" if "c \<in> set (itoa n)" for c
    using itoa_chars [OF that] by (auto simp: is_digit_def less_eq_char_def)
  have no: "CHR '':'' \<notin> set (itoa n)" "CHR '']'' \<notin> set (itoa n)" "CHR ''['' \<notin> set (itoa n)" "CHR '']'' \<notin> set h" "CHR ''['' \<notin> set h"
    using p h by auto
  show ?thesis
  proof (cases "CHR '':'' \<in> set h")
    case True
    have "cut_last (CHR '':'') ((CHR ''['' # h @ '']'') @ CHR '':'' # itoa n) = Some (CHR ''['' # h @ '']'', itoa n)"
      by (rule cut_last_append) (use no in simp)
    moreover have "cut (CHR '']'') ((CHR ''['' # h) @ CHR '']'' # CHR '':'' # itoa n) = (CHR ''['' # h, CHR '':'' # itoa n)"
      by (rule cut_append) (use no in simp)
    ultimately show ?thesis using True no by (simp add: JoinHostPort_def SplitHostPort_def)
  next
    case False
    have "hd (h @ CHR '':'' # itoa n) \<noteq> CHR ''[''" using no by (cases h) auto
    then show ?thesis using False no cut_last_append [OF no(1), of h] by (simp add: JoinHostPort_def SplitHostPort_def)
  qed
qed

lemma hostPort_chars: "clean_host (ep_server e) \<Longrightarrow> c \<in> set (hostPort e) \<Longrightarrow> c \<notin> set ''#?@%'' \<and> plain_char c"
proof -
  assume "clean_host (ep_server e)" and c: "c \<in> set (hostPort e)"
  then have "host_name_char c \<or> c \<in> set ''[]''"
    using itoa_chars digit_common by (fastforce simp: hostPort_def JoinHostPort_def clean_host_def list_all_iff host_name_char_def split: if_splits)
  moreover have "\<forall>c \<in> set ''-._~:[]''. c \<notin> set ''#?@%'' \<and> plain_char c" by code_simp
  ultimately show ?thesis using host_name_char_not [of c] common_plain unfolding host_name_char_def by auto
qed

lemma hostPort_escape: "clean_host (ep_server e) \<Longrightarrow> escape UHost (hostPort e) = hostPort e"
proof -
  assume h: "clean_host (ep_server e)"
  have "\<forall>c \<in> set (hostPort e). host_name_char c \<or> c \<in> set ''[]''"
    using h itoa_chars digit_common by (fastforce simp: hostPort_def JoinHostPort_def clean_host_def list_all_iff host_name_char_def split: if_splits)
  then show ?thesis using unescape_host by blast
qed

lemma unescape_plain: "CHR ''%'' \<notin> set s \<Longrightarrow> unescape UPathSegment s = Some s"
  by (induction s) auto

lemma string_bytes [simp]: "string_of (bytes_of s) = s"
  by (simp add: string_of_def bytes_of_def map_idI)

lemma b64_out: "c \<in> set (b64_encode True False bs) \<Longrightarrow> list_all (\<lambda>b. b < 256) bs \<Longrightarrow> b64_url c"
proof -
  assume "c \<in> set (b64_encode True False bs)" and "list_all (\<lambda>b. b < 256) bs"
  then obtain d where "d < 64" "c = b64_char True d"
    using b64_digits_bound [of bs] by (auto simp: b64_encode_def list_all_iff)
  then show "b64_url c" using b64_chars [of d True] by (simp add: b64_alpha_def)
qed

lemma b64_encode_ne: "bs \<noteq> [] \<Longrightarrow> b64_encode True False bs \<noteq> []"
  by (cases bs rule: b64_digits.cases) (simp_all add: b64_encode_def)

lemma decode_userinfo:
  assumes "s \<noteq> []"
  shows "decodeB64 (b64_encode True False (bytes_of s)) = s"
    and "c \<in> set (b64_encode True False (bytes_of s)) \<Longrightarrow> c \<notin> set ''#?@'' \<and> plain_char c"
proof -
  let ?x = "b64_encode True False (bytes_of s)"
  have b: "list_all (\<lambda>b. b < 256) (bytes_of s)" by (simp add: bytes_of_def list_all_iff)
  have out: "c \<notin> set ''#?@'' \<and> plain_char c" if "c \<in> set ?x" for c
  proof -
    have "\<forall>c \<in> set ''-_''. c \<notin> set ''#?@'' \<and> plain_char c" by code_simp
    moreover have "\<forall>c \<in> set ''#?@''. \<not> b64_common c" by code_simp
    ultimately show ?thesis using b64_out [OF that b] common_plain by (auto simp: b64_url_def)
  qed
  then show "c \<in> set ?x \<Longrightarrow> c \<notin> set ''#?@'' \<and> plain_char c" by blast
  have "?x \<noteq> []" using assms by (intro b64_encode_ne) (simp add: bytes_of_def)
  then have "trim_space ?x = ?x" using out trim_space_plain by (metis hd_in_set last_in_set)
  then show "decodeB64 ?x = s" using b64_decode_encode [OF b, of True False] by (simp add: decodeB64_def)
qed

text \<open>The query of a Shadowsocks link, whose keys need no escaping.\<close>

lemma qget_fold_qset:
  "distinct (map fst ps) \<Longrightarrow> qget (foldl (\<lambda>m (k, v). qset k v m) m ps) k = (case map_of ps k of Some v \<Rightarrow> v | None \<Rightarrow> qget m k)"
proof (induction ps arbitrary: m)
  case (Cons p ps)
  then show ?case by (cases p) (auto simp: map_of_eq_None_iff image_iff split: option.split)
qed simp

lemma values_encode_Nil: "values_encode q = [] \<longleftrightarrow> q = []"
proof
  assume "values_encode q = []"
  then have "sort_key fst q = parse_query []" by (metis parse_values_encode)
  also have "parse_query [] = []" by code_simp
  finally show "q = []" by (metis length_0_conv length_sort)
qed (simp add: values_encode_def)

lemma parseSSQuery_encode:
  assumes "distinct (map fst q)" and "\<forall>k \<in> set (map fst q). QueryEscape k = k" and "q \<noteq> []"
  shows "qget (parseSSQuery (values_encode q)) k = qget q k"
proof -
  let ?enc = "\<lambda>(k, v). QueryEscape k @ ''='' @ QueryEscape v"
  let ?step = "\<lambda>m kv. if kv = [] then m else (case cut (CHR ''='') kv of (k, v) \<Rightarrow> qset k (urlDecode v) m)"
  have ne: "map ?enc (sort_key fst q) \<noteq> []" using assms(3) by (metis Nil_is_map_conv length_0_conv length_sort)
  moreover have "\<forall>w \<in> set (map ?enc (sort_key fst q)). CHR ''&'' \<notin> set w" by auto
  ultimately have split: "split_on (CHR ''&'') (values_encode q) = map ?enc (sort_key fst q)"
    unfolding values_encode_def by (rule split_join)
  have step: "?step m (?enc p) = (\<lambda>(k, v). qset k v m) p" if "QueryEscape (fst p) = fst p" for m p
  proof -
    obtain k v where p: "p = (k, v)" by (cases p)
    have "QueryEscape k = k" using that by (simp add: p)
    then have "CHR ''='' \<notin> set k" by (metis query_escape_no(2))
    then show ?thesis using that cut_append [of "CHR ''=''" k "QueryEscape v"] by (simp add: p urlDecode_def)
  qed
  have "foldl ?step m (map ?enc ps) = foldl (\<lambda>m (k, v). qset k v m) m ps" if "\<forall>p \<in> set ps. QueryEscape (fst p) = fst p" for m ps
    using that
  proof (induction ps arbitrary: m)
    case (Cons p ps)
    then have "?step m (?enc p) = (\<lambda>(k, v). qset k v m) p" by (intro step) simp
    with Cons show ?case by (simp only: list.map foldl_Cons list.set ball_simps split_beta) simp
  qed simp
  then have "parseSSQuery (values_encode q) = foldl (\<lambda>m (k, v). qset k v m) [] (sort_key fst q)"
    using assms(2) by (simp add: parseSSQuery_def split)
  moreover have "distinct (map fst (sort_key fst q))" using assms(1) by (metis distinct_map distinct_sort set_sort inj_on_def)
  ultimately have "qget (parseSSQuery (values_encode q)) k = (case map_of q k of Some v \<Rightarrow> v | None \<Rightarrow> qget [] k)"
    using map_of_sort_key [OF assms(1)] by (simp only: qget_fold_qset)
  then show ?thesis by (simp add: qget_def [of q] split: option.split)
qed

text \<open>The parameters of an imported endpoint, and the query that the exporter makes of them.\<close>

definition ss_base :: "string \<Rightarrow> string \<Rightarrow> params" where
  "ss_base meth password = [''method'' \<mapsto> PStr meth, ''password'' \<mapsto> PStr password]"

lemma ss_params_back:
  assumes ps: "ep_params e = ss_params qq (ss_base meth password)" and plugin: "ep_params e ''plugin'' \<noteq> Some (PStr [])"
    and q': "\<And>k. qget q' k = qget (ss_query e) k"
  shows "ss_params q' (ss_base meth password) = ep_params e"
proof -
  let ?udp = "list_ex (\<lambda>k. truthy (qget qq k)) [''udp-over-tcp'', ''udp_over_tcp'', ''uot'']"
  define pl where "pl = fst (cut (CHR '';'') (qget qq ''plugin''))"
  define opts where "opts = snd (cut (CHR '';'') (qget qq ''plugin''))"
  have cut: "cut (CHR '';'') (qget qq ''plugin'') = (pl, opts)" by (simp add: pl_def opts_def)
  have no: "CHR '';'' \<notin> set pl" by (auto simp: pl_def cut_def dest: set_takeWhileD)
  have udp: "bool_param (ep_params e) ''udp_over_tcp'' = ?udp"
    by (simp add: ps ss_params_def ss_base_def Let_def cut split: prod.split)
  show ?thesis
  proof (cases "qget qq ''plugin'' = []")
    case True
    then have "str_param (ep_params e) ''plugin'' = []" by (simp add: ps ss_params_def ss_base_def Let_def)
    then have "ss_query e = setFlag ''udp-over-tcp'' ''1'' ?udp []" using udp by (simp add: ss_query_def Let_def)
    then show ?thesis using True by (simp add: q' ps ss_params_def Let_def)
  next
    case False
    then have vals: "str_param (ep_params e) ''plugin'' = pl" "str_param (ep_params e) ''plugin_opts'' = opts"
      and pl: "pl \<noteq> []"
      using plugin by (simp_all add: ps ss_params_def ss_base_def Let_def cut put_str_def str_param_def put_true_def split: if_splits)
    define v where "v = (if opts \<noteq> [] then pl @ '';'' @ opts else pl)"
    have "ss_query e = qset ''plugin'' v (setFlag ''udp-over-tcp'' ''1'' ?udp [])"
      using pl by (simp add: ss_query_def Let_def vals udp v_def)
    then have q: "qget q' ''plugin'' = v" "list_ex (\<lambda>k. truthy (qget q' k)) [''udp-over-tcp'', ''udp_over_tcp'', ''uot''] = ?udp"
      by (simp_all add: q')
    have "cut (CHR '';'') v = (pl, opts)" using no cut_append [OF no, of opts] cut_absent [OF no] by (simp add: v_def)
    then have "ss_params q' (ss_base meth password) = put_str ''plugin_opts'' opts ((put_true ''udp_over_tcp'' ?udp (ss_base meth password))(''plugin'' \<mapsto> PStr pl))"
      using q pl by (simp add: ss_params_def Let_def v_def)
    also have "\<dots> = ep_params e" using False by (simp add: ps ss_params_def Let_def cut)
    finally show ?thesis .
  qed
qed

lemma ss_query_keys: "set (map fst (ss_query e)) \<subseteq> {''udp-over-tcp'', ''plugin''}"
proof -
  have "set (map fst (qset k v q)) = insert k (set (map fst q))" for k v q unfolding qset_def by (rule keys_upsert)
  then show ?thesis
    by (cases "bool_param (ep_params e) ''udp_over_tcp''"; cases "str_param (ep_params e) ''plugin'' = []")
      (simp_all add: ss_query_def setFlag_def Let_def)
qed

lemma ss_query_escape: "\<forall>k \<in> set (map fst (ss_query e)). QueryEscape k = k" "distinct (map fst (ss_query e))"
proof -
  have "\<forall>k \<in> {''udp-over-tcp'', ''plugin''}. QueryEscape k = k" by code_simp
  then show "\<forall>k \<in> set (map fst (ss_query e)). QueryEscape k = k" using ss_query_keys by blast
  show "distinct (map fst (ss_query e))" by (simp add: ss_query_def Let_def)
qed

text \<open>What a Shadowsocks parse gives.\<close>

lemma parseShadowsocks_form:
  assumes "parseShadowsocks raw = Inr b"
  obtains meth password host port name qq where
    "b = new_endpoint EngineSingBox ProtoShadowsocks host port name (ss_params qq (ss_base meth password))"
    and "CHR '':'' \<notin> set meth" and "host \<noteq> []" and "port \<noteq> 0" and "- (2 ^ 63) \<le> port" and "port < 2 ^ 63"
proof -
  obtain rest frag where r: "cut (CHR ''#'') (trim_prefix raw ''ss://'') = (rest, frag)" by fastforce
  obtain body query where bq: "cut (CHR ''?'') rest = (body, query)" by fastforce
  obtain meth password host port where a: "ss_address body = Inr ((meth, password), (host, port))"
    using assms by (auto simp: parseShadowsocks_def r bq split: sum.splits)
  have form: "host \<noteq> []" "port \<noteq> 0" "b = new_endpoint EngineSingBox ProtoShadowsocks host port (urlDecode frag)
      (if query \<noteq> [] then ss_params (parseSSQuery query) (ss_base meth password) else ss_base meth password)"
    using assms by (auto simp: parseShadowsocks_def r bq a ss_base_def Let_def split: if_splits)
  have empty: "ss_base meth password = ss_params [] (ss_base meth password)" by (simp add: ss_params_def put_true_def)
  have colon: "CHR '':'' \<notin> set (fst (splitColon s))" for s by (auto simp: splitColon_def cut_def dest: set_takeWhileD)
  have port: "- (2 ^ 63) \<le> snd (splitHostPort s) \<and> snd (splitHostPort s) < 2 ^ 63" for s
    using atoiDefault_bounds by (auto simp: splitHostPort_def split: option.split)
  have "\<exists>cr hp. splitColon cr = (meth, password) \<and> splitHostPort hp = (host, port)"
    using a unfolding ss_address_def by (cases "cut_last (CHR ''@'') body") (auto split: option.splits prod.splits)
  then obtain cr hp where "splitColon cr = (meth, password)" "splitHostPort hp = (host, port)" by blast
  then have "CHR '':'' \<notin> set meth" "- (2 ^ 63) \<le> port" "port < 2 ^ 63" using colon [of cr] port [of hp] by simp_all
  moreover define qq where "qq = (if query \<noteq> [] then parseSSQuery query else [])"
  have "b = new_endpoint EngineSingBox ProtoShadowsocks host port (urlDecode frag) (ss_params qq (ss_base meth password))"
    using form(3) by (cases "query = []") (simp_all add: qq_def empty [symmetric])
  ultimately show thesis using that form(1,2) by blast
qed

lemma ss_body:
  assumes creds: "creds \<noteq> []" "CHR '':'' \<notin> set meth" "creds = meth @ '':'' @ password" and host: "clean_host (ep_server e)"
  shows "ss_address (b64_encode True False (bytes_of creds) @ ''@'' @ hostPort e) =
    Inr ((meth, password), splitHostPort (hostPort e))"
proof -
  let ?ui = "b64_encode True False (bytes_of creds)"
  have hp: "CHR ''@'' \<notin> set (hostPort e)" "CHR ''%'' \<notin> set (hostPort e)" using hostPort_chars [OF host] by auto
  have "CHR '':'' \<in> set creds" using creds(3) by simp
  then have "ss_creds ?ui = creds" by (simp add: ss_creds_def decode_userinfo(1) [OF creds(1)])
  moreover have "splitColon creds = (meth, password)" using cut_append [OF creds(2), of password] creds(3) by (simp add: splitColon_def)
  ultimately show ?thesis
    using cut_last_append [OF hp(1), of ?ui] unescape_plain [OF hp(2)] by (simp add: ss_address_def)
qed

lemma ss_link_parses:
  assumes p: "str_param (ep_params e) ''method'' = meth" "str_param (ep_params e) ''password'' = password" "CHR '':'' \<notin> set meth"
    and host: "clean_host (ep_server e)" "ep_server e \<noteq> []" and port: "ep_port e \<noteq> 0" "- (2 ^ 63) \<le> ep_port e" "ep_port e < 2 ^ 63"
    and name: "ep_name e \<noteq> []"
  obtains q' where "\<And>k. qget q' k = qget (ss_query e) k"
    and "Parse J (ssLink e) = finalize (Inr (new_endpoint EngineSingBox ProtoShadowsocks (ep_server e) (ep_port e) (ep_name e)
      (ss_params q' (ss_base meth password))))"
proof -
  let ?creds = "meth @ '':'' @ password" and ?f = "fragmentEscape (ep_name e)" and ?enc = "values_encode (ss_query e)"
  let ?ui = "b64_encode True False (bytes_of ?creds)"
  define body where "body = ?ui @ ''@'' @ hostPort e"
  define rest where "rest = (if ?enc \<noteq> [] then body @ ''?'' @ ?enc else body)"
  define q' where "q' = (if ?enc \<noteq> [] then parseSSQuery ?enc else [])"
  have link: "ssLink e = ''ss://'' @ rest @ ''#'' @ ?f"
    using name p by (simp add: ssLink_def with_name_def rest_def body_def Let_def)
  have ui: "c \<notin> set ''#?@'' \<and> plain_char c" if "c \<in> set ?ui" for c using decode_userinfo(2) [of ?creds c] that by simp
  have no: "CHR ''#'' \<notin> set body" "CHR ''?'' \<notin> set body"
    using ui hostPort_chars [OF host(1)] by (auto simp: body_def)
  moreover have "CHR ''#'' \<notin> set ?enc" using values_encode_safe [of "CHR ''#''" "ss_query e"] by auto
  ultimately have hash: "cut (CHR ''#'') (rest @ CHR ''#'' # ?f) = (rest, ?f)" by (intro cut_append) (simp add: rest_def)
  have query: "cut (CHR ''?'') rest = (body, ?enc)"
    using cut_append [OF no(2), of ?enc] cut_absent [OF no(2)] by (simp add: rest_def)
  have q': "qget q' k = qget (ss_query e) k" for k
    using parseSSQuery_encode [OF ss_query_escape(2,1), of e k] values_encode_Nil [of "ss_query e"]
    by (cases "ss_query e = []") (simp_all add: q'_def)
  have hp: "splitHostPort (hostPort e) = (ep_server e, ep_port e)"
    using SplitHostPort_join [OF host(1), of "ep_port e"] atoi_itoa_all [OF port(2,3)]
    by (simp add: splitHostPort_def hostPort_def atoiDefault_def)
  have base: "ss_params [] (ss_base meth password) = ss_base meth password" by (simp add: ss_params_def put_true_def)
  have pre: "trim_prefix (''ss://'' @ s) ''ss://'' = s" for s by (simp add: trim_prefix_def)
  have address: "ss_address body = Inr ((meth, password), (ep_server e, ep_port e))"
    using ss_body [of ?creds meth password e] p(3) host(1) hp by (simp add: body_def)
  have parsed: "parseShadowsocks (ssLink e) = Inr (new_endpoint EngineSingBox ProtoShadowsocks (ep_server e) (ep_port e) (ep_name e)
      (ss_params q' (ss_base meth password)))"
    unfolding parseShadowsocks_def link pre
    using hash query address host(2) port(1) base name
    by (simp add: urlDecode_def q'_def ss_base_def)
  have f: "?f \<noteq> []" "\<forall>c \<in> set ?f. plain_char c" using name fragment_ne fragment_out by blast+
  have "last (ssLink e) = last ?f" unfolding link using f(1) by simp
  then have "plain_char (last (ssLink e))" using f by simp
  moreover have "b64_common (hd (ssLink e))" unfolding link by (simp, code_simp)
  ultimately have trim: "trim_space (ssLink e) = ssLink e" by (intro trim_space_url) (simp_all add: link)
  have "scheme_name ''ss''" by code_simp
  then have scheme: "link_scheme (ssLink e) = (''ss'', ssLink e)"
    using link_scheme_url [of "''ss''" "rest @ ''#'' @ ?f"] by (simp add: link)
  have "Parse J (ssLink e) = parse_link J ''ss'' (ssLink e)"
    using trim scheme by (simp add: Parse_def Let_def link)
  also have "\<dots> = finalize (parseShadowsocks (ssLink e))" by (simp add: parse_link_def)
  finally have "Parse J (ssLink e) = finalize (parseShadowsocks (ssLink e))" .
  then show thesis using that [OF q'] parsed by simp
qed

lemma ss_back:
  assumes b: "parseShadowsocks raw = Inr b" and fin: "finalize (Inr b) = Inr e"
    and host: "clean_host (ep_server e)" and plugin: "ep_params e ''plugin'' \<noteq> Some (PStr [])"
  shows "Parse J (ssLink e) = Inr e"
proof -
  obtain meth password srv port name qq where
    form: "b = new_endpoint EngineSingBox ProtoShadowsocks srv port name (ss_params qq (ss_base meth password))"
    and ok: "CHR '':'' \<notin> set meth" "srv \<noteq> []" "port \<noteq> 0" "- (2 ^ 63) \<le> port" "port < 2 ^ 63"
    by (rule parseShadowsocks_form [OF b])
  obtain i n where e: "e = b\<lparr>ep_id := i, ep_name := n, ep_enabled := True\<rparr>" and n: "n \<noteq> []"
    and again: "finalize (Inr (b\<lparr>ep_name := n\<rparr>)) = Inr e"
  proof -
    have "ep_id b = []" by (simp add: form new_endpoint_def)
    then show thesis using finalize_again [OF fin] that by blast
  qed
  have fields: "ep_params e = ss_params qq (ss_base meth password)" "ep_server e = srv" "ep_port e = port" "ep_name e = n"
    by (simp_all add: e form new_endpoint_def)
  have creds: "str_param (ep_params e) ''method'' = meth" "str_param (ep_params e) ''password'' = password"
    by (simp_all add: fields ss_params_def ss_base_def Let_def split: prod.split)
  obtain q' where q': "\<And>k. qget q' k = qget (ss_query e) k"
    and parsed: "Parse J (ssLink e) = finalize (Inr (new_endpoint EngineSingBox ProtoShadowsocks (ep_server e) (ep_port e) (ep_name e)
      (ss_params q' (ss_base meth password))))"
    using ss_link_parses [OF creds ok(1) host] ok n unfolding fields by metis
  have "ss_params q' (ss_base meth password) = ep_params e" by (rule ss_params_back [OF fields(1) plugin q'])
  then have "new_endpoint EngineSingBox ProtoShadowsocks (ep_server e) (ep_port e) (ep_name e) (ss_params q' (ss_base meth password)) = b\<lparr>ep_name := n\<rparr>"
    by (simp add: fields form new_endpoint_def)
  then show ?thesis using parsed again by simp
qed

subsection \<open>The round trip\<close>

definition link_protocols :: "protocol list" where
  "link_protocols = [ProtoVLESS, ProtoTrojan, ProtoAnyTLS, ProtoHysteria2, ProtoTUIC, ProtoShadowsocks]"

lemma scheme_names:
  "\<forall>sch \<in> {''vless'', ''trojan'', ''anytls'', ''hysteria2'', ''tuic''}.
    scheme_name sch \<and> sch \<notin> {''vmess'', ''ss'', ''wireguard'', ''wg''}"
  by code_simp

lemma query_distinct:
  "distinct (map fst (vless_query e))" "distinct (map fst (trojan_query e))" "distinct (map fst (setTLSQuery s []))"
  "distinct (map fst (hysteria2_query e))" "distinct (map fst (tuic_query e))"
  by (simp_all add: vless_query_def trojan_query_def hysteria2_query_def tuic_query_def Let_def)

lemma url_link_back:
  assumes "sch \<in> {''vless'', ''trojan'', ''anytls'', ''hysteria2'', ''tuic''}" and "distinct (map fst q)"
    and fin: "finalize (Inr b) = Inr e" and b: "ep_id b = []" "0 \<le> ep_port b" and host: "clean_host (ep_server e)"
    and again: "\<And>u i n. e = b\<lparr>ep_id := i, ep_name := n, ep_enabled := True\<rparr> \<Longrightarrow> reads_back u e user pass q \<Longrightarrow> 0 \<le> ep_port e \<Longrightarrow>
      parse_scheme sch u = finalize (Inr (b\<lparr>ep_name := n\<rparr>))"
  shows "Parse J (buildURI sch user pass e q) = Inr e"
proof -
  obtain i n where e: "e = b\<lparr>ep_id := i, ep_name := n, ep_enabled := True\<rparr>" and n: "n \<noteq> []"
    and fin2: "finalize (Inr (b\<lparr>ep_name := n\<rparr>)) = Inr e"
    by (rule finalize_again [OF fin b(1)])
  have port: "0 \<le> ep_port e" "ep_name e \<noteq> []" using b(2) n by (simp_all add: e)
  obtain u where "Parse J (buildURI sch user pass e q) = parse_scheme sch u" "reads_back u e user pass q"
    by (rule Parse_buildURI [of sch e q J user pass]) (use scheme_names assms(1,2) host port in auto)
  then show ?thesis using again [OF e _ port(1)] fin2 by simp
qed

lemma vless_again:
  assumes b: "parseVLESS u = Inr b" and fin: "finalize (Inr b) = Inr e" and host: "clean_host (ep_server e)"
  shows "Parse J (vlessLink e) = Inr e"
  unfolding vlessLink_def
proof (rule url_link_back [OF _ query_distinct(1) fin _ _ host])
  fix u' i n
  assume "e = b\<lparr>ep_id := i, ep_name := n, ep_enabled := True\<rparr>" and "0 \<le> ep_port e"
    and "reads_back u' e (str_param (ep_params e) ''uuid'') [] (vless_query e)"
  then show "parse_scheme ''vless'' u' = finalize (Inr (b\<lparr>ep_name := n\<rparr>))"
    using vless_back [OF b] by (simp add: parse_scheme_def)
qed (use url_kinds(1) [OF b] in simp_all)

lemma trojan_again:
  assumes b: "parseTrojan u = Inr b" and fin: "finalize (Inr b) = Inr e" and host: "clean_host (ep_server e)" and on: "ep_tls e \<noteq> None"
  shows "Parse J (trojanLink e) = Inr e"
  unfolding trojanLink_def
proof (rule url_link_back [OF _ query_distinct(2) fin _ _ host])
  fix u' i n
  assume "e = b\<lparr>ep_id := i, ep_name := n, ep_enabled := True\<rparr>" and "0 \<le> ep_port e"
    and "reads_back u' e (str_param (ep_params e) ''password'') [] (trojan_query e)"
  then show "parse_scheme ''trojan'' u' = finalize (Inr (b\<lparr>ep_name := n\<rparr>))"
    using trojan_back [OF b] on by (simp add: parse_scheme_def)
qed (use url_kinds(2) [OF b] in simp_all)

lemma anytls_again:
  assumes b: "parseAnyTLS u = Inr b" and fin: "finalize (Inr b) = Inr e" and host: "clean_host (ep_server e)" and on: "ep_tls e \<noteq> None"
  shows "Parse J (anytlsLink e) = Inr e"
  unfolding anytlsLink_def
proof (rule url_link_back [OF _ query_distinct(3) fin _ _ host])
  fix u' i n
  assume "e = b\<lparr>ep_id := i, ep_name := n, ep_enabled := True\<rparr>" and "0 \<le> ep_port e"
    and "reads_back u' e (str_param (ep_params e) ''password'') [] (setTLSQuery (ep_tls e) [])"
  then show "parse_scheme ''anytls'' u' = finalize (Inr (b\<lparr>ep_name := n\<rparr>))"
    using anytls_back [OF b] on by (simp add: parse_scheme_def)
qed (use url_kinds(3) [OF b] in simp_all)

lemma hysteria2_again:
  assumes b: "parseHysteria2 u = Inr b" and fin: "finalize (Inr b) = Inr e" and host: "clean_host (ep_server e)"
  shows "Parse J (hysteria2Link e) = Inr e"
  unfolding hysteria2Link_def
proof (rule url_link_back [OF _ query_distinct(4) fin _ _ host])
  fix u' i n
  assume "e = b\<lparr>ep_id := i, ep_name := n, ep_enabled := True\<rparr>" and "0 \<le> ep_port e"
    and "reads_back u' e (str_param (ep_params e) ''password'') [] (hysteria2_query e)"
  then show "parse_scheme ''hysteria2'' u' = finalize (Inr (b\<lparr>ep_name := n\<rparr>))"
    using hysteria2_back [OF b] by (simp add: parse_scheme_def)
qed (use url_kinds(4) [OF b] in simp_all)

lemma tuic_again:
  assumes b: "parseTUIC u = Inr b" and fin: "finalize (Inr b) = Inr e" and host: "clean_host (ep_server e)"
  shows "Parse J (tuicLink e) = Inr e"
  unfolding tuicLink_def
proof (rule url_link_back [OF _ query_distinct(5) fin _ _ host])
  fix u' i n
  assume "e = b\<lparr>ep_id := i, ep_name := n, ep_enabled := True\<rparr>" and "0 \<le> ep_port e"
    and "reads_back u' e (str_param (ep_params e) ''uuid'') (str_param (ep_params e) ''password'') (tuic_query e)"
  then show "parse_scheme ''tuic'' u' = finalize (Inr (b\<lparr>ep_name := n\<rparr>))"
    using tuic_back [OF b] by (simp add: parse_scheme_def)
qed (use url_kinds(5) [OF b] in simp_all)

lemma share_link_of:
  assumes "ep_engine e = EngineSingBox"
  shows "ep_protocol e = ProtoVLESS \<Longrightarrow> ShareLink marshal e = Some (vlessLink e)"
    "ep_protocol e = ProtoTrojan \<Longrightarrow> ShareLink marshal e = Some (trojanLink e)"
    "ep_protocol e = ProtoAnyTLS \<Longrightarrow> ShareLink marshal e = Some (anytlsLink e)"
    "ep_protocol e = ProtoHysteria2 \<Longrightarrow> ShareLink marshal e = Some (hysteria2Link e)"
    "ep_protocol e = ProtoTUIC \<Longrightarrow> ShareLink marshal e = Some (tuicLink e)"
    "ep_protocol e = ProtoShadowsocks \<Longrightarrow> ShareLink marshal e = Some (ssLink e)"
  using assms by (simp_all add: ShareLink_def Export_def link_result_def)

text \<open>The protocol tells which parser made the endpoint.\<close>

lemma source_of_protocol:
  assumes "parsed_by J (Inr b)"
  shows "ep_protocol b = ProtoVLESS \<Longrightarrow> \<exists>u. parseVLESS u = Inr b" "ep_protocol b = ProtoTrojan \<Longrightarrow> \<exists>u. parseTrojan u = Inr b"
    "ep_protocol b = ProtoAnyTLS \<Longrightarrow> \<exists>u. parseAnyTLS u = Inr b" "ep_protocol b = ProtoHysteria2 \<Longrightarrow> \<exists>u. parseHysteria2 u = Inr b"
    "ep_protocol b = ProtoTUIC \<Longrightarrow> \<exists>u. parseTUIC u = Inr b" "ep_protocol b = ProtoShadowsocks \<Longrightarrow> \<exists>s. parseShadowsocks s = Inr b"
proof -
  have d: "(\<exists>u. parseVLESS u = Inr b) \<or> (\<exists>u. parseTrojan u = Inr b) \<or> (\<exists>u. parseAnyTLS u = Inr b) \<or> (\<exists>u. parseHysteria2 u = Inr b) \<or>
      (\<exists>u. parseTUIC u = Inr b) \<or> (\<exists>u. parseWireGuardURL u = Inr b) \<or> (\<exists>s. parseShadowsocks s = Inr b) \<or>
      (\<exists>s. parseVMess J s = Inr b) \<or> (\<exists>s. parseConf s = Inr b) \<or> (\<exists>s. parseOlcRTC s = Inr b)"
    using assms unfolding parsed_by_def by (simp add: eq_commute [of "Inr b"]) blast
  show "ep_protocol b = ProtoVLESS \<Longrightarrow> \<exists>u. parseVLESS u = Inr b" "ep_protocol b = ProtoTrojan \<Longrightarrow> \<exists>u. parseTrojan u = Inr b"
    "ep_protocol b = ProtoAnyTLS \<Longrightarrow> \<exists>u. parseAnyTLS u = Inr b" "ep_protocol b = ProtoHysteria2 \<Longrightarrow> \<exists>u. parseHysteria2 u = Inr b"
    "ep_protocol b = ProtoTUIC \<Longrightarrow> \<exists>u. parseTUIC u = Inr b" "ep_protocol b = ProtoShadowsocks \<Longrightarrow> \<exists>s. parseShadowsocks s = Inr b"
    using d by (elim disjE exE; auto dest: url_kinds other_kinds)+
qed

lemma link_roundtrip:
  assumes "Parse J raw = Inr e" and "ep_protocol e \<in> set link_protocols" and "clean_host (ep_server e)"
    and "ep_protocol e \<in> {ProtoTrojan, ProtoAnyTLS} \<Longrightarrow> ep_tls e \<noteq> None" and "ep_params e ''plugin'' \<noteq> Some (PStr [])"
  shows "\<exists>link. ShareLink marshal e = Some link \<and> Parse J link = Inr e"
proof -
  obtain b where fin: "finalize (Inr b) = Inr e" and src: "parsed_by J (Inr b)" by (rule Parse_source [OF assms(1)])
  note source = source_of_protocol [OF src]
  have e: "ep_protocol e = ep_protocol b" "ep_engine e = ep_engine b"
    using fin by (auto simp: finalize_def Let_def split: if_splits)
  consider "ep_protocol b = ProtoVLESS" | "ep_protocol b = ProtoTrojan" | "ep_protocol b = ProtoAnyTLS"
    | "ep_protocol b = ProtoHysteria2" | "ep_protocol b = ProtoTUIC" | "ep_protocol b = ProtoShadowsocks"
    using assms(2) by (auto simp: link_protocols_def e)
  then show ?thesis
  proof cases
    case 1
    then obtain u where u: "parseVLESS u = Inr b" using source(1) by blast
    then show ?thesis using vless_again [OF u fin assms(3)] url_kinds(1) [OF u] 1 by (simp add: share_link_of e)
  next
    case 2
    then obtain u where u: "parseTrojan u = Inr b" using source(2) by blast
    then show ?thesis using trojan_again [OF u fin assms(3)] assms(4) url_kinds(2) [OF u] 2 by (simp add: share_link_of e)
  next
    case 3
    then obtain u where u: "parseAnyTLS u = Inr b" using source(3) by blast
    then show ?thesis using anytls_again [OF u fin assms(3)] assms(4) url_kinds(3) [OF u] 3 by (simp add: share_link_of e)
  next
    case 4
    then obtain u where u: "parseHysteria2 u = Inr b" using source(4) by blast
    then show ?thesis using hysteria2_again [OF u fin assms(3)] url_kinds(4) [OF u] 4 by (simp add: share_link_of e)
  next
    case 5
    then obtain u where u: "parseTUIC u = Inr b" using source(5) by blast
    then show ?thesis using tuic_again [OF u fin assms(3)] url_kinds(5) [OF u] 5 by (simp add: share_link_of e)
  next
    case 6
    then obtain s where s: "parseShadowsocks s = Inr b" using source(6) by blast
    then show ?thesis using ss_back [OF s fin assms(3,5)] other_kinds(1) [OF s] 6 by (simp add: share_link_of e)
  qed
qed

end
