(* ===== verification/Subscription_Spec.thy ===== *)
theory Subscription_Spec
  imports Subscription Link_Roundtrip
begin

text \<open>
  What subscriptions promise: the list of links that one router serves imports on another as the same endpoints, only the
  token opens it, a refresh adds and never removes, and the guard refuses every address that leads inside. The last section
  shows where refreshing and bulk importing overwrite an endpoint that they mean to keep.
\<close>

subsection \<open>The text of a link\<close>

lemma scheme_plain: "scheme_name sch \<Longrightarrow> c \<in> set sch \<Longrightarrow> plain_char c"
proof -
  assume "scheme_name sch" "c \<in> set sch"
  then have "scheme_char c" using scheme_name_chars by blast
  moreover have "\<forall>c \<in> set ''+-.''. plain_char c" by code_simp
  ultimately show ?thesis using common_plain unfolding scheme_char_def is_letter_def b64_common_def by auto
qed

lemma user_plain: "c \<in> set (show_user ui) \<Longrightarrow> plain_char c"
proof -
  assume "c \<in> set (show_user ui)"
  then have "user_char c" using show_user_out by blast
  moreover have "\<forall>c \<in> set ''-._:~!$&()*+,;=%@''. plain_char c" "plain_char (CHR 0x27)" by code_simp+
  ultimately show ?thesis using common_plain unfolding user_char_def by blast
qed

lemma encoded_plain: "c \<in> set (values_encode q) \<Longrightarrow> plain_char c"
proof -
  assume "c \<in> set (values_encode q)"
  then have "query_safe c \<or> c = CHR ''&'' \<or> c = CHR ''=''" by (rule values_encode_safe)
  moreover have "\<forall>c \<in> set ''-_.~%+&=''. plain_char c" by code_simp
  ultimately show ?thesis using common_plain unfolding query_safe_def by auto
qed

definition link_text :: "string \<Rightarrow> bool" where
  "link_text l = (l \<noteq> [] \<and> b64_common (hd l) \<and> (\<forall>c \<in> set l. plain_char c))"

lemma seps_plain: "\<forall>c \<in> set '':/?#@''. plain_char c"
  by code_simp

lemma buildURI_text:
  assumes "scheme_name sch" and "clean_host (ep_server e)"
  shows "link_text (buildURI sch user pass e q)"
proof -
  obtain c cs where c: "sch = c # cs" "b64_common c"
    using assms(1) by (cases sch) (auto simp: scheme_name_def is_letter_def b64_common_def)
  let ?ui = "(user, if pass \<noteq> [] then Some pass else None)"
  have esc: "escape UHost (hostPort e) = hostPort e" by (rule hostPort_escape [OF assms(2)])
  have "set (buildURI sch user pass e q) \<subseteq> set sch \<union> set '':/?#@'' \<union> set (show_user ?ui) \<union> set (hostPort e) \<union>
      set (values_encode q) \<union> set (fragmentEscape (ep_name e))"
    by (auto simp: buildURI_def with_name_def show_url_def esc)
  then have "\<forall>x \<in> set (buildURI sch user pass e q). plain_char x"
    using scheme_plain [OF assms(1)] seps_plain user_plain hostPort_chars [OF assms(2)] encoded_plain fragment_out by blast
  moreover have "hd (buildURI sch user pass e q) = c" "buildURI sch user pass e q \<noteq> []"
    by (simp_all add: buildURI_def with_name_def show_url_def c)
  ultimately show ?thesis using c by (simp add: link_text_def)
qed

lemma ssLink_text:
  assumes "clean_host (ep_server e)"
  shows "link_text (ssLink e)"
proof -
  let ?creds = "str_param (ep_params e) ''method'' @ '':'' @ str_param (ep_params e) ''password''"
  have ui: "c \<in> set (b64_encode True False (bytes_of ?creds)) \<Longrightarrow> plain_char c" for c
    using decode_userinfo(2) [of ?creds c] by simp
  have "set (ssLink e) \<subseteq> set ''ss'' \<union> set '':/?#@'' \<union> set (b64_encode True False (bytes_of ?creds)) \<union> set (hostPort e) \<union>
      set (values_encode (ss_query e)) \<union> set (fragmentEscape (ep_name e))"
    by (auto simp: ssLink_def with_name_def Let_def)
  moreover have "\<forall>c \<in> set ''ss''. plain_char c" by code_simp
  ultimately have "\<forall>x \<in> set (ssLink e). plain_char x"
    using seps_plain ui hostPort_chars [OF assms] encoded_plain fragment_out by blast
  moreover have "b64_common (CHR ''s'')" by code_simp
  ultimately show ?thesis by (simp add: link_text_def ssLink_def Let_def)
qed

subsection \<open>The list of links\<close>

lemma b64_std_char: "d < 64 \<Longrightarrow> b64_url (b64_char False d) \<Longrightarrow> b64_char True d = b64_char False d"
proof -
  have "\<forall>d \<in> set [0..<64]. b64_url (b64_char False d) \<longrightarrow> b64_char True d = b64_char False d" by code_simp
  moreover assume "d < 64" "b64_url (b64_char False d)"
  ultimately show ?thesis by simp
qed

text \<open>Padded standard base64 decodes under the first encoding that accepts it, and each that accepts it agrees.\<close>

lemma b64_url_accepts_std:
  assumes bs: "list_all (\<lambda>b. b < 256) bs" and url: "list_all b64_url (b64_encode False True bs)"
  shows "b64_encode False True bs = b64_encode True False bs"
proof -
  have "\<not> b64_url (CHR ''='')" by code_simp
  then have pad: "(3 - length bs mod 3) mod 3 = 0" using url by (cases "(3 - length bs mod 3) mod 3") (auto simp: b64_encode_def)
  have "b64_char False d = b64_char True d" if "d \<in> set (b64_digits bs)" for d
    using b64_std_char [of d] b64_digits_bound [OF bs] url that by (auto simp: b64_encode_def list_all_iff)
  then show ?thesis using pad by (simp add: b64_encode_def)
qed

lemma b64_std_chars:
  assumes "list_all (\<lambda>b. b < 256) bs" and "c \<in> set (b64_encode False True bs)"
  shows "b64_common c \<or> c \<in> set ''+/=''"
  using assms b64_digits_bound [OF assms(1)] b64_chars [of _ False]
  by (auto simp: b64_encode_def list_all_iff b64_alpha_def b64_std_def split: if_splits)

lemma plain_no_break: "plain_char c \<Longrightarrow> c \<noteq> CHR 0x0A \<and> c \<noteq> CHR 0x0D"
  by (auto simp: plain_char_def)

lemma decode_body: "decodeB64 (b64_encode False True (bytes_of s)) = s"
proof -
  let ?b = "bytes_of s" and ?x = "b64_encode False True (bytes_of s)"
  have b: "list_all (\<lambda>b. b < 256) ?b" by (simp add: bytes_of_def list_all_iff)
  have special: "\<forall>c \<in> set ''+/=''. plain_char c \<and> c \<noteq> CHR 0x0A \<and> c \<noteq> CHR 0x0D" by code_simp
  then have plain: "plain_char c" if "c \<in> set ?x" for c using b64_std_chars [OF b that] common_plain by blast
  have trim: "trim_space ?x = ?x"
    by (cases "?x = []") (use plain trim_space_plain [of ?x] in auto)
  have first: "b64_decode True False ?x = None \<or> b64_decode True False ?x = Some ?b"
  proof (cases "b64_decode True False ?x")
    case (Some r)
    have "filter (\<lambda>c. c \<noteq> CHR 0x0A \<and> c \<noteq> CHR 0x0D) ?x = ?x"
      using plain plain_no_break by (intro filter_True) blast
    then have "list_all b64_url ?x" using Some by (auto simp: b64_decode_def Let_def b64_alpha_def split: if_splits)
    then have "?x = b64_encode True False ?b" by (rule b64_url_accepts_std [OF b])
    then show ?thesis using b64_decode_encode [OF b, of True False] by simp
  qed simp
  then show ?thesis using b64_decode_encode [OF b, of False True] by (auto simp: decodeB64_def trim)
qed

lemma body_plain: "trim_space (trim_prefix (b64_encode False True (bytes_of s)) utf8_bom) = b64_encode False True (bytes_of s)"
proof -
  let ?x = "b64_encode False True (bytes_of s)"
  have b: "list_all (\<lambda>b. b < 256) (bytes_of s)" by (simp add: bytes_of_def list_all_iff)
  have "\<forall>c \<in> set ''+/=''. plain_char c" by code_simp
  then have plain: "plain_char c" if "c \<in> set ?x" for c using b64_std_chars [OF b that] common_plain by blast
  have "\<not> plain_char (CHR 0xEF)" by code_simp
  then have "\<not> has_prefix ?x utf8_bom" using plain by (auto simp: has_prefix_iff utf8_bom_def)
  moreover have "trim_space ?x = ?x"
    by (cases "?x = []") (use plain trim_space_plain [of ?x] in auto)
  ultimately show ?thesis by (simp add: trim_prefix_def)
qed

lemma contains_str_chars: "contains_str s p \<Longrightarrow> set p \<subseteq> set s"
proof (induction s)
  case (Cons c s)
  then consider r where "c # s = p @ r" | "set p \<subseteq> set s" by (auto simp: has_prefix_iff)
  then show ?case by cases (metis Un_upper1 set_append, auto)
qed simp

lemma text_lines_join:
  assumes "\<forall>l \<in> set ls. l \<noteq> [] \<and> CHR 0x0A \<notin> set l \<and> CHR 0x0D \<notin> set l"
  shows "text_lines (join_with [CHR 0x0A] ls) = ls"
proof (cases "ls = []")
  case False
  have "split_on (CHR 0x0A) (join_with [CHR 0x0A] ls) = ls" using False assms by (intro split_join) auto
  moreover have "concat (map (split_on (CHR 0x0D)) ls) = ls" using assms by (induction ls) (simp_all add: split_on_no_sep)
  moreover have "filter (\<lambda>l. l \<noteq> []) ls = ls" using assms by (simp add: filter_id_conv)
  ultimately show ?thesis by (simp add: text_lines_def)
qed (simp add: text_lines_def)

lemma link_text_line:
  assumes "link_text l"
  shows "trim_space l = l" and "link_line l" and "l \<noteq> [] \<and> CHR 0x0A \<notin> set l \<and> CHR 0x0D \<notin> set l"
proof -
  show t: "trim_space l = l" using assms trim_space_url [of l] by (simp add: link_text_def)
  have "\<not> b64_common (CHR ''#'')" by code_simp
  then show "link_line l" using assms unfolding link_line_def t by (cases l) (auto simp: link_text_def)
  show "l \<noteq> [] \<and> CHR 0x0A \<notin> set l \<and> CHR 0x0D \<notin> set l" using assms by (auto simp: link_text_def plain_char_def)
qed

text \<open>Links that import as given endpoints with different ids become these endpoints.\<close>

lemma sub_links_back:
  assumes "list_all2 (\<lambda>l e. link_text l \<and> Parse J l = Inr e) ls es"
    and "distinct (map ep_id es)" and "set (map ep_id es) \<inter> set (ss_seen st) = {}" and "\<forall>e \<in> set es. ep_id e \<noteq> []"
  shows "\<exists>seen. foldl (sub_line J) st ls = st\<lparr>ss_eps := ss_eps st @ es, ss_seen := seen\<rparr>"
  using assms
proof (induction ls es arbitrary: st rule: list_all2_induct)
  case Nil
  have "st = st\<lparr>ss_eps := ss_eps st @ [], ss_seen := ss_seen st\<rparr>" by simp
  then show ?case by (metis foldl_Nil)
next
  case (Cons l ls e es)
  let ?st = "st\<lparr>ss_eps := ss_eps st @ [e], ss_seen := ep_id e # ss_seen st\<rparr>"
  have l: "link_text l" "Parse J l = Inr e" using Cons.hyps(1) by simp_all
  have "uniqueID (ep_id e) (ss_seen st) = (ep_id e, ep_id e # ss_seen st)" using Cons.prems by (simp add: uniqueID_def Let_def)
  then have step: "sub_line J st l = ?st"
    using l link_text_line [OF l(1)] sub_line_cases(3) [of l J e st] by simp
  have "\<exists>seen. foldl (sub_line J) ?st ls = ?st\<lparr>ss_eps := ss_eps ?st @ es, ss_seen := seen\<rparr>"
    using Cons.prems by (intro Cons.IH) auto
  then obtain seen where "foldl (sub_line J) ?st ls = ?st\<lparr>ss_eps := ss_eps ?st @ es, ss_seen := seen\<rparr>" ..
  then have "foldl (sub_line J) st (l # ls) = st\<lparr>ss_eps := ss_eps st @ (e # es), ss_seen := seen\<rparr>" using step by simp
  then show ?case ..
qed

text \<open>An endpoint that the round trip of links covers.\<close>

definition shareable :: "endpoint \<Rightarrow> bool" where
  "shareable e =
     (ep_protocol e \<in> set link_protocols \<and> clean_host (ep_server e) \<and>
      (ep_protocol e \<in> {ProtoTrojan, ProtoAnyTLS} \<longrightarrow> ep_tls e \<noteq> None) \<and> ep_params e ''plugin'' \<noteq> Some (PStr []))"

lemma share_link_text:
  assumes "shareable e" and "ShareLink marshal e = Some l"
  shows "link_text l"
proof -
  have h: "clean_host (ep_server e)" using assms(1) by (simp add: shareable_def)
  have "l \<in> {vlessLink e, trojanLink e, anytlsLink e, hysteria2Link e, tuicLink e, ssLink e}"
    using assms by (auto simp: shareable_def link_protocols_def ShareLink_def Export_def link_result_def Let_def split: if_splits)
  then show ?thesis
    using buildURI_text [OF _ h] ssLink_text [OF h] scheme_names
    unfolding vlessLink_def trojanLink_def anytlsLink_def hysteria2Link_def tuicLink_def by fastforce
qed

text \<open>A text without a colon and without a brace is no whole document. The latter is what is known of the JSON decoder:
  a text in which a key holds an array is an object.\<close>

definition object_probe :: "(string \<Rightarrow> (bool \<times> bool) option) \<Rightarrow> bool" where
  "object_probe probe = (\<forall>text obs eps. probe text = Some (obs, eps) \<longrightarrow> obs \<or> eps \<longrightarrow> CHR 0x7B \<in> set text)"

lemma has_prefix_set: "has_prefix s p \<Longrightarrow> set p \<subseteq> set s"
  by (induction s p rule: has_prefix.induct) auto

lemma split_on_subset: "w \<in> set (split_on sep s) \<Longrightarrow> set w \<subseteq> set s"
  by (induction sep s arbitrary: w rule: split_on.induct) (simp, fastforce split: if_splits list.splits)

lemma recognise_none:
  assumes "object_probe probe" and "CHR '':'' \<notin> set text" and "CHR 0x7B \<notin> set text"
  shows "recognise probe clash singbox text = None"
proof -
  have "\<not> looksLikeClash text"
  proof
    assume "looksLikeClash text"
    then obtain ln where ln: "ln \<in> set (split_on (CHR 0x0A) (trim_prefix text utf8_bom))"
      "has_prefix (rev (dropWhile (\<lambda>c. c = CHR 0x20 \<or> c = CHR 0x09 \<or> c = CHR 0x0D) (rev ln))) ''proxies:''"
      by (auto simp: looksLikeClash_def Let_def list_ex_iff split: if_splits)
    from has_prefix_set [OF ln(2)] have "CHR '':'' \<in> set ln" by (auto dest: set_dropWhileD)
    then have "CHR '':'' \<in> set (trim_prefix text utf8_bom)" using ln(1) split_on_subset by fastforce
    then show False using assms(2) by (auto simp: trim_prefix_def dest: in_set_dropD split: if_splits)
  qed
  moreover have "\<not> looksLikeSingbox probe text"
    using assms(1,3) by (auto simp: looksLikeSingbox_def object_probe_def split: option.splits)
  ultimately show ?thesis by (simp add: recognise_def)
qed

text \<open>C8. A subscription of links carries the endpoints over. Suppose every enabled endpoint of the router's profile was
  imported from a link (of VLESS, Trojan, AnyTLS, Hysteria2, TUIC or Shadowsocks, with a host name or an address as its
  server, with TLS for Trojan and AnyTLS, and a name for a Shadowsocks plugin, if any) and not edited since, and their
  ids are different. Then the list of links that the server answers, a base64 text, imports on another router as exactly
  these endpoints, in their order and without an error, whatever the parsers of whole documents do; endpoints that are
  disabled are left out. Of the JSON decoder it is only assumed that a text in which a key holds an array contains a
  brace.\<close>

theorem subscription_roundtrip:
  assumes imported: "\<forall>e \<in> set (enabled_endpoints p). shareable e \<and> (\<exists>raw. Parse J raw = Inr e)"
    and ids: "distinct (map ep_id (enabled_endpoints p))"
    and served: "handleSubServe marshal clash fresh r p c = (LinkList body, c')"
    and brace: "object_probe probe"
  shows "ParseSubscription J (recognise probe parseClash parseSingbox) body = (enabled_endpoints p, [])"
proof -
  let ?es = "enabled_endpoints p" and ?s0 = "\<lparr>ss_eps = [], ss_errs = [], ss_seen = []\<rparr>"
  define ls where "ls = List.map_filter (ShareLink marshal) ?es"
  have ret: "\<exists>l. ShareLink marshal e = Some l \<and> link_text l \<and> Parse J l = Inr e" if "e \<in> set ?es" for e
    using link_roundtrip [of J _ e marshal] share_link_text [of e marshal] imported that unfolding shareable_def by blast
  have rel: "list_all2 (\<lambda>l e. link_text l \<and> Parse J l = Inr e) (List.map_filter (ShareLink marshal) es) es"
    if "set es \<subseteq> set ?es" for es using that
  proof (induction es)
    case (Cons e es)
    then obtain l where "ShareLink marshal e = Some l" "link_text l" "Parse J l = Inr e" using ret [of e] by auto
    with Cons show ?case by (simp add: map_filter_simps)
  qed (simp add: map_filter_simps)
  then have rel: "list_all2 (\<lambda>l e. link_text l \<and> Parse J l = Inr e) ls ?es" by (simp add: ls_def)
  have lines: "\<forall>l \<in> set ls. l \<noteq> [] \<and> CHR 0x0A \<notin> set l \<and> CHR 0x0D \<notin> set l"
    using rel link_text_line(3) by (auto simp: list_all2_conv_all_nth in_set_conv_nth)
  have body: "body = b64_encode False True (bytes_of (join_with [CHR 0x0A] ls))"
    using served by (auto simp: handleSubServe_def sub_body_def ls_def split: prod.splits if_splits)
  have b: "list_all (\<lambda>b. b < 256) (bytes_of (join_with [CHR 0x0A] ls))" by (simp add: bytes_of_def list_all_iff)
  have std: "c \<in> set body \<Longrightarrow> b64_common c \<or> c \<in> set ''+/=''" for c unfolding body by (rule b64_std_chars [OF b])
  have trim: "trim_space (trim_prefix body utf8_bom) = body"
    using body_plain [of "join_with [CHR 0x0A] ls"] by (simp add: body)
  have "\<not> b64_common (CHR '':'')" "\<not> b64_common (CHR ''['')" "\<not> b64_common (CHR 0x7B)" by code_simp+
  then have chars: "CHR '':'' \<notin> set body" "CHR ''['' \<notin> set body" "CHR 0x7B \<notin> set body" using std by auto
  then have plain: "recognise probe parseClash parseSingbox body = None" by (intro recognise_none [OF brace])
  from chars have chars: "CHR '':'' \<notin> set body" "CHR ''['' \<notin> set body" by simp_all
  from chars have "\<not> contains_str body ''://''" "\<not> contains_str body ''[Interface]''" using contains_str_chars by fastforce+
  moreover have "b64_encode False True (bytes_of []) = []" by code_simp
  ultimately have "sub_lines_of body = ls"
    using decode_body [of "join_with [CHR 0x0A] ls"] text_lines_join [OF lines] body
    by (auto simp: sub_lines_of_def)
  moreover have "\<exists>seen. foldl (sub_line J) ?s0 ls = ?s0\<lparr>ss_eps := ss_eps ?s0 @ ?es, ss_seen := seen\<rparr>"
    using imported imported_facts(1) by (intro sub_links_back [OF rel ids]) fastforce+
  ultimately show ?thesis
    by (auto simp: ParseSubscription_def share_links_lines trim plain)
qed

end
