(* ===== verification/Subscription_Guard.thy ===== *)
theory Subscription_Guard
  imports Subscription
begin

text \<open>
  The two gates of subscriptions: the token that opens the served list, and the guard that keeps the fetching of a
  subscription away from internal addresses, stated over the ranges of addresses and over every form that an address has.
\<close>

subsection \<open>The token\<close>

text \<open>C28. The served list opens to its token only, and a rotation closes it: a request that is not refused carries the
  token that is in the configuration, which is not empty and which answering it did not change unless it was made just then;
  after a rotation the same request is refused, even when the new token cannot be saved.\<close>

theorem subscription_token_gate:
  assumes "handleSubServe marshal clash fresh r p c = (reply, c')" and "reply \<noteq> Forbidden"
    and "t \<noteq> []" and "t \<noteq> rq_token r"
  shows "rq_token r \<noteq> [] \<and> rq_token r = sc_token c' \<and> (sc_token c = [] \<or> c' = c) \<and>
    fst (handleSubServe marshal clash fresh' r p (snd (handleSubRotate (Some t) save_ok c'))) = Forbidden"
  using assms by (auto simp: handleSubServe_def subToken_def handleSubRotate_def split: if_splits option.splits)

text \<open>A new token is random, and different from the one that the request carries.\<close>

definition example_config :: sub_config where
  "example_config = \<lparr>sc_url = [], sc_hours = 0, sc_token = ''t0''\<rparr>"

definition example_request :: sub_request where
  "example_request = \<lparr>rq_token = ''t0'', rq_query = [], rq_agent = ''v2rayNG/1.8'', rq_accept = ''*/*''\<rparr>"

lemma example_served:
  "handleSubServe (\<lambda>_. []) (\<lambda>_ _. []) None example_request empty_profile example_config = (LinkList [], example_config)"
  by code_simp

theorem subscription_token_gate_witness:
  "handleSubServe (\<lambda>_. []) (\<lambda>_ _. []) None example_request empty_profile example_config = (LinkList [], example_config) \<and>
   fst (handleSubServe (\<lambda>_. []) (\<lambda>_ _. []) None example_request empty_profile
     (snd (handleSubRotate (Some ''t1'') False example_config))) = Forbidden"
proof -
  have "''t1'' \<noteq> rq_token example_request" by (simp add: example_request_def)
  from subscription_token_gate [OF example_served _ _ this, of None False] example_served show ?thesis by simp
qed

subsection \<open>The guard of outgoing dials\<close>

text \<open>The ranges of internal addresses, each by its first and last address.\<close>

definition quad :: "nat \<Rightarrow> nat \<Rightarrow> nat \<Rightarrow> nat \<Rightarrow> nat" where
  "quad a b c d = ((a * 256 + b) * 256 + c) * 256 + d"

definition internal_ranges :: "(nat \<times> nat) list" where
  "internal_ranges =
     [(quad 0 0 0 0, quad 0 0 0 0),
      (quad 10 0 0 0, quad 10 255 255 255),
      (quad 100 64 0 0, quad 100 127 255 255),
      (quad 127 0 0 0, quad 127 255 255 255),
      (quad 169 254 0 0, quad 169 254 255 255),
      (quad 172 16 0 0, quad 172 31 255 255),
      (quad 192 168 0 0, quad 192 168 255 255),
      (quad 224 0 0 0, quad 224 0 0 255)]"

definition in_ranges :: "nat \<Rightarrow> (nat \<times> nat) list \<Rightarrow> bool" where
  "in_ranges n rs = list_ex (\<lambda>(lo, hi). lo \<le> n \<and> n \<le> hi) rs"

text \<open>An address that reaches the IPv4 host \<open>n\<close>: its own form, the mapped form, through NAT64, and through 6to4.\<close>

definition reaches :: "addr \<Rightarrow> nat \<Rightarrow> bool" where
  "reaches a n =
     (case a of
        V4 m \<Rightarrow> m = n
      | V6 m _ \<Rightarrow> m = 0xFFFF * 2 ^ 32 + n \<or> m = 0x64FF9B * 2 ^ 96 + n \<or> (\<exists>k < 2 ^ 80. m = (0x2002 * 2 ^ 32 + n) * 2 ^ 80 + k))"

definition internal_ranges6 :: "(nat \<times> nat) list" where
  "internal_ranges6 =
     [(0, 1), (0xFC * 2 ^ 120, 0xFE * 2 ^ 120 - 1), (0xFE80 * 2 ^ 112, 0xFEC0 * 2 ^ 112 - 1)]"

lemma div_range: "(n :: nat) div 2 ^ k = q \<longleftrightarrow> q * 2 ^ k \<le> n \<and> n < (q + 1) * 2 ^ k"
  by (metis Suc_eq_plus1 div_nat_eqI less_eq_div_iff_mult_less_eq mult.commute order_refl
      pos2 zero_less_power div_less_iff_less_mult le_antisym not_less_eq_eq less_Suc_eq_le)

lemma in_block_range: "in_block w bits (q * 2 ^ (w - bits)) n \<longleftrightarrow> q * 2 ^ (w - bits) \<le> n \<and> n < (q + 1) * 2 ^ (w - bits)"
  by (simp add: in_block_def div_range)

lemma split_number: "(n :: nat) < 2 ^ k \<Longrightarrow> (q * 2 ^ k + n) div 2 ^ k = q \<and> (q * 2 ^ k + n) mod 2 ^ k = n"
  by simp

lemma block_ranges:
  "in_block 32 8 0x7F000000 n \<longleftrightarrow> quad 127 0 0 0 \<le> n \<and> n \<le> quad 127 255 255 255"
  "in_block 32 8 0x0A000000 n \<longleftrightarrow> quad 10 0 0 0 \<le> n \<and> n \<le> quad 10 255 255 255"
  "in_block 32 12 0xAC100000 n \<longleftrightarrow> quad 172 16 0 0 \<le> n \<and> n \<le> quad 172 31 255 255"
  "in_block 32 16 0xC0A80000 n \<longleftrightarrow> quad 192 168 0 0 \<le> n \<and> n \<le> quad 192 168 255 255"
  "in_block 32 16 0xA9FE0000 n \<longleftrightarrow> quad 169 254 0 0 \<le> n \<and> n \<le> quad 169 254 255 255"
  "in_block 32 24 0xE0000000 n \<longleftrightarrow> quad 224 0 0 0 \<le> n \<and> n \<le> quad 224 0 0 255"
  "in_block 32 10 0x64400000 n \<longleftrightarrow> quad 100 64 0 0 \<le> n \<and> n \<le> quad 100 127 255 255"
  using in_block_range [of 32 8 "0x7F" n] in_block_range [of 32 8 10 n] in_block_range [of 32 12 "0xAC1" n]
    in_block_range [of 32 16 "0xC0A8" n] in_block_range [of 32 16 "0xA9FE" n] in_block_range [of 32 24 "0xE00000" n]
    in_block_range [of 32 10 "0x191" n]
  by (simp_all add: quad_def less_eq_Suc_le [symmetric] less_Suc_eq_le [symmetric])

lemma internal_v4_ranges: "internal_v4 n \<longleftrightarrow> in_ranges n internal_ranges"
proof -
  have "n = 0 \<longleftrightarrow> quad 0 0 0 0 \<le> n \<and> n \<le> quad 0 0 0 0" by (simp add: quad_def)
  then show ?thesis unfolding internal_v4_def block_ranges in_ranges_def internal_ranges_def by (simp only: list_ex_Nil_iff list_ex_Cons_iff prod.case) blast
qed

lemma internal_v6_ranges: "in_ranges n internal_ranges6 \<Longrightarrow> internal_v6 n"
proof -
  have "in_block 128 7 (0xFC * 2 ^ 120) n \<longleftrightarrow> 0xFC * 2 ^ 120 \<le> n \<and> n < 0xFE * 2 ^ 120"
    using in_block_range [of 128 7 "0x7E" n] by simp
  moreover have "in_block 128 10 (0xFE80 * 2 ^ 112) n \<longleftrightarrow> 0xFE80 * 2 ^ 112 \<le> n \<and> n < 0xFEC0 * 2 ^ 112"
    using in_block_range [of 128 10 "0x3FA" n] by simp
  moreover assume "in_ranges n internal_ranges6"
  then have "n = 0 \<or> n = 1 \<or> 0xFC * 2 ^ 120 \<le> n \<and> n < 0xFE * 2 ^ 120 \<or> 0xFE80 * 2 ^ 112 \<le> n \<and> n < 0xFEC0 * 2 ^ 112"
    unfolding in_ranges_def internal_ranges6_def by auto
  ultimately show ?thesis unfolding internal_v6_def by blast
qed

lemma reaches_internal:
  assumes "reaches a n" and n: "n < 2 ^ 32" and "internal_v4 n"
  shows "isInternalDialIP a"
proof -
  consider "a = V4 n" | m z where "a = V6 m z" "m = 0xFFFF * 2 ^ 32 + n" | m z where "a = V6 m z" "m = 0x64FF9B * 2 ^ 96 + n"
    | m z k where "a = V6 m z" "m = (0x2002 * 2 ^ 32 + n) * 2 ^ 80 + k" "k < 2 ^ 80"
    using assms(1) by (auto simp: reaches_def split: addr.splits)
  then show ?thesis
  proof cases
    case (2 m z)
    have "m div 2 ^ 32 = 0xFFFF" "m mod 2 ^ 32 = n" using split_number [OF n] unfolding 2(2) by blast+
    then show ?thesis using assms(3) 2(1) by (simp add: isInternalDialIP_def mapped_v4_def)
  next
    case (3 m z)
    have "m = (0x64FF9B * 2 ^ 64) * 2 ^ 32 + n" using 3(2) by simp
    then have "m div 2 ^ 32 = 0x64FF9B * 2 ^ 64" "m mod 2 ^ 32 = n" using split_number [OF n] by blast+
    then show ?thesis using assms(3) 3(1) by (simp add: isInternalDialIP_def mapped_v4_def embedded_v4_def in_block_def)
  next
    case (4 m z k)
    have "m div 2 ^ 80 = 0x2002 * 2 ^ 32 + n" "m mod 2 ^ 80 = k" using split_number [OF 4(3)] unfolding 4(2) by blast+
    moreover have "(0x2002 * 2 ^ 32 + n) div 2 ^ 32 = 0x2002" "(0x2002 * 2 ^ 32 + n) mod 2 ^ 32 = n"
      using split_number [OF n] by blast+
    moreover have "m div 2 ^ 112 = m div 2 ^ 80 div 2 ^ 32" by (simp add: div_mult2_eq [symmetric])
    moreover have "m div 2 ^ 32 \<noteq> 0xFFFF" "m div 2 ^ 32 \<noteq> 0x64FF9B * 2 ^ 64"
    proof -
      have "0x2002 * 2 ^ 112 \<le> m" unfolding 4(2) by simp
      then show "m div 2 ^ 32 \<noteq> 0xFFFF" "m div 2 ^ 32 \<noteq> 0x64FF9B * 2 ^ 64" unfolding div_range by auto
    qed
    ultimately show ?thesis using assms(3) 4(1) by (simp add: isInternalDialIP_def mapped_v4_def embedded_v4_def in_block_def)
  qed (use assms(3) in \<open>simp add: isInternalDialIP_def mapped_v4_def\<close>)
qed

text \<open>C12. No form of an internal address gets through the guard, and an external IPv4 address does: when a dial is allowed,
  its host is an address literal without a zone, whichever IPv4 host it reaches (directly, mapped, by NAT64 or by 6to4) is in
  no internal range, and it is in none of the internal IPv6 ranges; and a literal IPv4 address outside the ranges is allowed.\<close>

theorem dial_guard_covers_every_form:
  assumes "SplitHostPort address = Some (host, port)" and "parse_addr host = Some a"
  shows "(blockInternalDial address \<and> reaches a n \<longrightarrow> \<not> in_ranges n internal_ranges) \<and>
    (blockInternalDial address \<and> a = V6 m z \<longrightarrow> z = [] \<and> \<not> in_ranges m internal_ranges6) \<and>
    (a = V4 m \<and> \<not> in_ranges m internal_ranges \<longrightarrow> blockInternalDial address)"
proof -
  have dial: "blockInternalDial address \<longleftrightarrow> zone a = [] \<and> \<not> isInternalDialIP a" using assms by (simp add: blockInternalDial_def)
  have "\<not> in_ranges n internal_ranges" if "blockInternalDial address" "reaches a n"
  proof
    assume r: "in_ranges n internal_ranges"
    then have "n < 2 ^ 32" by (auto simp: in_ranges_def internal_ranges_def quad_def)
    then show False using reaches_internal [OF that(2)] r that(1) by (simp add: dial internal_v4_ranges)
  qed
  moreover have "z = [] \<and> \<not> in_ranges m internal_ranges6" if "blockInternalDial address" "a = V6 m z"
    proof -
    have "m div 2 ^ 32 \<noteq> 0xFFFF" if "in_ranges m internal_ranges6"
    proof -
      have "m \<le> 1 \<or> 0x10000 * 2 ^ 32 \<le> m"
        using that unfolding in_ranges_def internal_ranges6_def by auto
      then show ?thesis unfolding div_range by auto
    qed
    then show ?thesis using that internal_v6_ranges [of m] by (auto simp: dial isInternalDialIP_def mapped_v4_def)
  qed
  moreover have "blockInternalDial address" if "a = V4 m" "\<not> in_ranges m internal_ranges"
    using that by (simp add: dial isInternalDialIP_def mapped_v4_def internal_v4_ranges)
  ultimately show ?thesis by blast
qed

lemma nat64_loopback:
  "SplitHostPort ''[64:ff9b::7f00:1]:80'' = Some (''64:ff9b::7f00:1'', ''80'')"
  "parse_addr ''64:ff9b::7f00:1'' = Some (V6 (0x64FF9B * 2 ^ 96 + quad 127 0 0 1) [])"
  by code_simp+

theorem dial_guard_covers_every_form_witness: "\<not> blockInternalDial ''[64:ff9b::7f00:1]:80''"
proof -
  let ?a = "V6 (0x64FF9B * 2 ^ 96 + quad 127 0 0 1) []"
  have "reaches ?a (quad 127 0 0 1)" by (simp add: reaches_def)
  moreover have "in_ranges (quad 127 0 0 1) internal_ranges" by code_simp
  ultimately show ?thesis
    using dial_guard_covers_every_form [OF nat64_loopback, of "quad 127 0 0 1"] by blast
qed

end
