(* ===== verification/Subscription_Examples.thy ===== *)
theory Subscription_Examples
  imports Subscription_Refresh Subscription_Guard
begin

text \<open>
  The importer, the exporter and the subscriptions on concrete links: the round trip of a single link, what the properties of
  the other theories say of a small subscription, and the places where the code overwrites or changes what it means to keep.
\<close>

subsection \<open>One link\<close>

text \<open>Links carry no JSON, and nothing here prints a value that is not a string.\<close>

definition no_json :: json_lib where
  "no_json = \<lparr>json = (\<lambda>_. None), fmtv = (\<lambda>_. []), sprintv = (\<lambda>_. [])\<rparr>"

definition home_link :: string where
  "home_link = ''trojan://p%40ss@h.example:443?sni=front.example#Home''"

definition home :: endpoint where
  "home = (case Parse no_json home_link of Inr e \<Rightarrow> e)"

lemma home_parsed: "Parse no_json home_link = Inr home"
proof -
  have "(case Parse no_json home_link of Inr _ \<Rightarrow> True | Inl _ \<Rightarrow> False)" by code_simp
  then show ?thesis by (auto simp: home_def split: sum.splits)
qed

lemma home_facts:
  "ep_protocol home = ProtoTrojan" "clean_host (ep_server home)" "ep_tls home \<noteq> None"
  "ep_params home ''plugin'' = None" "ep_id home = ''trojan-h-example-443''"
  by code_simp+

theorem imported_well_formed_witness:
  "Parse no_json home_link = Inr home \<and> hd (ep_id home) \<noteq> CHR ''-'' \<and> (ep_engine home, ep_protocol home) \<in> set importable"
  using home_parsed imported_well_formed [OF home_parsed] by blast

text \<open>C7. The exporter inverts the importer on share links of six protocols: take any text that imports as a VLESS,
  Trojan, AnyTLS, Hysteria2, TUIC or Shadowsocks endpoint whose server is a host name or an address. A Trojan or
  AnyTLS endpoint must have TLS (without it the round trip fails: \<^verbatim>\<open>trojan_without_tls_gains_it\<close>), and a Shadowsocks
  plugin, if any, a name. Then the link that \<^verbatim>\<open>ShareLink\<close> makes of the endpoint imports as exactly the same endpoint: id,
  name, server and port, credentials, protocol options, transport and TLS settings.\<close>

theorem share_link_roundtrip:
  assumes "Parse J raw = Inr e" and "ep_protocol e \<in> set link_protocols" and "clean_host (ep_server e)"
    and "ep_protocol e \<in> {ProtoTrojan, ProtoAnyTLS} \<Longrightarrow> ep_tls e \<noteq> None" and "ep_params e ''plugin'' \<noteq> Some (PStr [])"
  shows "\<exists>link. ShareLink marshal e = Some link \<and> Parse J link = Inr e"
  using assms by (rule link_roundtrip)

theorem share_link_roundtrip_witness:
  "\<exists>link. ShareLink (\<lambda>_. []) home = Some link \<and> Parse no_json link = Inr home"
proof -
  have "ep_protocol home \<in> set link_protocols" by (simp add: home_facts link_protocols_def)
  then show ?thesis by (rule share_link_roundtrip [OF home_parsed]) (simp_all add: home_facts)
qed

text \<open>The condition on TLS is needed: a Trojan link that turns TLS off exports as a link that does not say so, and
  the exported link imports with TLS on.\<close>

lemma trojan_without_tls_gains_it:
  "\<exists>raw e link e'. Parse no_json raw = Inr e \<and> ep_protocol e = ProtoTrojan \<and> clean_host (ep_server e) \<and> ep_tls e = None \<and>
     ShareLink (\<lambda>_. []) e = Some link \<and> Parse no_json link = Inr e' \<and> ep_tls e' \<noteq> None"
proof -
  let ?raw = "''trojan://pw@h.example:443?security=none#T''" and ?link = "''trojan://pw@h.example:443#T''"
  have "(case Parse no_json ?raw of Inl _ \<Rightarrow> False
      | Inr e \<Rightarrow> ep_protocol e = ProtoTrojan \<and> clean_host (ep_server e) \<and> ep_tls e = None \<and> ShareLink (\<lambda>_. []) e = Some ?link)"
    by code_simp
  moreover have "(case Parse no_json ?link of Inl _ \<Rightarrow> False | Inr e \<Rightarrow> ep_tls e \<noteq> None)" by code_simp
  ultimately show ?thesis by (fastforce split: sum.splits)
qed

subsection \<open>A small subscription\<close>

definition home_text :: string where
  "home_text = home_link @ [CHR 0x0A, CHR ''#'', CHR 0x0A] @ ''nonsense''"

definition whole :: "string \<Rightarrow> (endpoint list \<times> (string \<times> import_error) list) option" where
  "whole text = None"

lemma home_text_imports:
  "(case ParseSubscription no_json whole home_text of (eps, errs) \<Rightarrow> map ep_id eps = [''trojan-h-example-443''] \<and> length errs = 1)"
  by code_simp

theorem subscription_accounts_for_every_line_witness:
  "length (filter link_line (sub_lines_of (trim_space (trim_prefix home_text utf8_bom)))) = 2"
proof -
  obtain eps errs where p: "ParseSubscription no_json whole home_text = (eps, errs)" by fastforce
  have "whole (trim_space (trim_prefix home_text utf8_bom)) = None" by (simp add: whole_def)
  from subscription_accounts_for_every_line [OF this p] home_text_imports show ?thesis by (auto simp: p)
qed

theorem DedupeNew_keeps_new_contents_witness:
  "\<exists>unique dupes. DedupeNew no_json [home] [home\<lparr>ep_id := ''other''\<rparr>, home] = (unique, dupes) \<and> length unique + dupes = 2"
proof -
  obtain unique dupes where d: "DedupeNew no_json [home] [home\<lparr>ep_id := ''other''\<rparr>, home] = (unique, dupes)" by fastforce
  from d DedupeNew_keeps_new_contents [OF d] show ?thesis by simp
qed

definition home_profile :: profile where
  "home_profile = empty_profile\<lparr>endpoints := [home, home\<lparr>ep_id := ''off'', ep_enabled := False\<rparr>]\<rparr>"

lemma home_enabled: "ep_enabled home"
  by code_simp

lemma home_served:
  "handleSubServe (\<lambda>_. []) (\<lambda>_ _. []) None example_request home_profile example_config =
     (LinkList (sub_body (\<lambda>_. []) [home]), example_config)"
proof -
  have "\<not> wantsHTML example_request" "\<not> wantsClash example_request" by code_simp+
  moreover have "enabled_endpoints home_profile = [home]"
    by (simp add: home_profile_def enabled_endpoints_def home_enabled)
  ultimately show ?thesis
    by (simp add: handleSubServe_def subToken_def example_config_def example_request_def)
qed

definition brace_probe :: "string \<Rightarrow> (bool \<times> bool) option" where
  "brace_probe text = (if CHR 0x7B \<in> set text then Some (True, False) else None)"

theorem subscription_roundtrip_witness:
  "object_probe brace_probe \<and>
   ParseSubscription no_json (recognise brace_probe (\<lambda>_. ([], [])) (\<lambda>_. ([], []))) (sub_body (\<lambda>_. []) [home]) = ([home], [])"
proof -
  have e: "enabled_endpoints home_profile = [home]"
    by (simp add: home_profile_def enabled_endpoints_def home_enabled)
  have "shareable home" using home_facts by (simp add: shareable_def link_protocols_def)
  then have "\<forall>e \<in> set (enabled_endpoints home_profile). shareable e \<and> (\<exists>raw. Parse no_json raw = Inr e)"
    using home_parsed by (auto simp: e)
  moreover have "object_probe brace_probe" by (simp add: object_probe_def brace_probe_def)
  ultimately show ?thesis using subscription_roundtrip [OF _ _ home_served] by (simp add: e)
qed

subsection \<open>Refreshing it\<close>

text \<open>The subscription answers the same text at every fetch, and the disk works.\<close>

definition home_env :: sub_env where
  "home_env = \<lparr>se_json = no_json, se_document = whole, se_fetch = (\<lambda>_. Inr home_text), se_faults = (\<lambda>_. no_faults)\<rparr>"

definition home_url :: string where
  "home_url = ''https://sub.example/list''"

lemma home_fetched: "fetch_body home_env home_url = Inr home_text"
proof -
  have "web_url home_url" by code_simp
  moreover have "length home_text \<le> body_limit" by (simp add: home_text_def home_link_def body_limit_def)
  ultimately show ?thesis by (simp add: fetch_body_def home_env_def)
qed

definition kept_store :: "endpoint list \<Rightarrow> store" where
  "kept_store es =
     \<lparr>st_path = ''p'', prof = empty_profile\<lparr>endpoints := es\<rparr>,
      disk = \<lparr>cur = [''p'' \<mapsto> \<lparr>contents = Doc (empty_profile\<lparr>endpoints := es\<rparr>), synced = True\<rparr>], dur = (\<lambda>_. None)\<rparr>\<rparr>"

lemma kept_in_sync: "in_sync (kept_store es)"
  by (simp add: in_sync_def kept_store_def read_file_def)

theorem refresh_only_adds_witness:
  "in_sync (kept_store [home]) \<and> in_sync (snd (refreshSubscriptionOnce home_env home_url (kept_store [home])))"
proof -
  obtain r s' where r: "refreshSubscriptionOnce home_env home_url (kept_store [home]) = (r, s')" by fastforce
  from kept_in_sync refresh_only_adds [OF kept_in_sync r] show ?thesis by (simp add: r)
qed

theorem refresh_is_idempotent_witness:
  "\<exists>s'. refreshSubscriptionOnce home_env home_url (kept_store []) = (Inr 1, s') \<and>
     refreshSubscriptionOnce home_env home_url s' = (Inr 0, s')"
proof -
  obtain parsed errs where p: "ParseSubscription no_json whole home_text = (parsed, errs)" by fastforce
  have E: "se_json home_env = no_json" "se_document home_env = whole" "\<forall>i. se_faults home_env i = no_faults"
    by (simp_all add: home_env_def)
  have "distinct (map ep_id parsed)" using home_text_imports by (simp add: p)
  then have n: "no_collision no_json (endpoints (prof (kept_store []))) parsed"
    by (simp add: no_collision_def kept_store_def list_all_iff)
  obtain r s' where r: "refreshSubscriptionOnce home_env home_url (kept_store []) = (r, s')" by fastforce
  have "fst (refreshSubscriptionOnce home_env home_url (kept_store [])) = Inr 1" by code_simp
  then have "r = Inr 1" by (simp add: r)
  moreover have "home_url \<noteq> []" by (simp add: home_url_def)
  from refresh_is_idempotent [OF this home_fetched _ _ E(3) r] E p n have "refreshSubscriptionOnce home_env home_url s' = (Inr 0, s')"
    by simp
  ultimately show ?thesis using r by blast
qed

definition edited :: endpoint where
  "edited = home\<lparr>ep_params := (ep_params home)(''password'' \<mapsto> PStr ''mine'')\<rparr>"

text \<open>A refresh can overwrite what the user has edited: an endpoint keeps its id when its password is edited, the
  subscription still lists the old password, which is content that no endpoint has any more, and the refresh stores it
  under the id of the edited endpoint.\<close>

lemma refresh_overwrites_an_edit:
  "\<exists>s'. refreshSubscriptionOnce home_env home_url (kept_store [edited]) = (Inr 1, s') \<and>
     in_sync (kept_store [edited]) \<and> edited \<in> set (endpoints (prof (kept_store [edited]))) \<and> edited \<notin> set (endpoints (prof s'))"
proof -
  let ?r = "refreshSubscriptionOnce home_env home_url (kept_store [edited])"
  have "fst ?r = Inr 1 \<and> map (\<lambda>e. ep_params e ''password'') (endpoints (prof (snd ?r))) = [Some (PStr ''p@ss'')]"
    by code_simp
  moreover have "ep_params edited ''password'' = Some (PStr ''mine'')" by (simp add: edited_def)
  ultimately have "fst ?r = Inr 1 \<and> edited \<notin> set (endpoints (prof (snd ?r)))" by auto
  moreover have "edited \<in> set (endpoints (prof (kept_store [edited])))" by (simp add: kept_store_def)
  ultimately show ?thesis using kept_in_sync by (metis prod.collapse)
qed

text \<open>So can a bulk import: an imported endpoint with new content and the id of another endpoint is kept under this
  id, and saving it replaces the other one.\<close>

lemma bulk_import_overwrites_another_endpoint:
  "\<exists>incoming st dupes. handleBulkEndpoints home_env incoming (kept_store [edited]) = (st, dupes) \<and> dupes = 0 \<and>
     bk_errs st = [] \<and> edited \<in> set (endpoints (prof (kept_store [edited]))) \<and> edited \<notin> set (endpoints (prof (bk_store st)))"
proof -
  let ?r = "handleBulkEndpoints home_env [home] (kept_store [edited])"
  have "snd ?r = 0 \<and> bk_errs (fst ?r) = [] \<and>
      map (\<lambda>e. ep_params e ''password'') (endpoints (prof (bk_store (fst ?r)))) = [Some (PStr ''p@ss'')]"
    by code_simp
  moreover have "ep_params edited ''password'' = Some (PStr ''mine'')" by (simp add: edited_def)
  ultimately have "snd ?r = 0 \<and> bk_errs (fst ?r) = [] \<and> edited \<notin> set (endpoints (prof (bk_store (fst ?r))))" by auto
  moreover have "edited \<in> set (endpoints (prof (kept_store [edited])))" by (simp add: kept_store_def)
  ultimately show ?thesis by (metis prod.collapse)
qed

text \<open>What exchanging endpoints gets wrong, on concrete data: a refresh overwrites an endpoint whose password the user
  has edited; a bulk import, which means to leave an endpoint alone whose id an imported one only happens to have, overwrites
  it and reports no duplicate and no error; and a Trojan link that turns TLS off is exported without saying so, so that the
  exported link imports with TLS on.\<close>

theorem exchange_gaps:
  "(\<exists>s'. refreshSubscriptionOnce home_env home_url (kept_store [edited]) = (Inr 1, s') \<and>
      edited \<in> set (endpoints (prof (kept_store [edited]))) \<and> edited \<notin> set (endpoints (prof s'))) \<and>
   (\<exists>incoming st. handleBulkEndpoints home_env incoming (kept_store [edited]) = (st, 0) \<and>
      bk_errs st = [] \<and> edited \<notin> set (endpoints (prof (bk_store st)))) \<and>
   (\<exists>raw e link e'. Parse no_json raw = Inr e \<and> ep_protocol e = ProtoTrojan \<and> ep_tls e = None \<and>
      ShareLink (\<lambda>_. []) e = Some link \<and> Parse no_json link = Inr e' \<and> ep_tls e' \<noteq> None)"
  using refresh_overwrites_an_edit bulk_import_overwrites_another_endpoint trojan_without_tls_gains_it by blast

end
