(* ===== verification/Spec2Isabelle.thy ===== *)
theory Spec2Isabelle
  imports Validate_Spec Store_Spec Failsafe_Run Watchdog Server_Apply_Examples Subscription_Examples
begin

text \<open>
  A verification library for Velinx, the VPN and routing panel of a home router.

  \<^bold>\<open>The program.\<close> The daemon (\<^verbatim>\<open>cmd/velinx\<close>) keeps one \<^emph>\<open>profile\<close>: tunnel endpoints, groups of
  endpoints, routing lists and rules. The web interface edits it through the store; pressing Apply
  validates the profile, writes the configuration of the sing-box core, restarts it, compiles the profile
  into a kernel policy-routing plan (nftables sets and marks, \<^verbatim>\<open>ip rule\<close>, \<^verbatim>\<open>ip route\<close>) and installs the plan. An
  Apply is provisional: the fail-safe watches the router's connectivity and returns to the previous state, and
  finally reboots, unless the new state is confirmed. A watchdog restarts a core that crashes.

  \<^bold>\<open>The theories\<close>, in the order in which they build on each other. Source files are given below \<^verbatim>\<open>src/internal\<close>.

  \<^item> \<^verbatim>\<open>Prelude\<close>, \<^verbatim>\<open>Go_Strings\<close>, \<^verbatim>\<open>Netip\<close>: the shared vocabulary. Go strings are byte lists; the parts of \<^verbatim>\<open>strings\<close>,
    \<^verbatim>\<open>strconv\<close>, \<^verbatim>\<open>fmt\<close>, \<^verbatim>\<open>hash/fnv\<close>, \<^verbatim>\<open>encoding/base64\<close> and \<^verbatim>\<open>net/netip\<close> that the modelled code calls are executable
    functions, with the round trips of printing and parsing that the later theories use.
  \<^item> \<^verbatim>\<open>Model_Types\<close>: \<^verbatim>\<open>model/model.go\<close> and \<^verbatim>\<open>util\<close>. Structs are records with the source's field names; engines and
    protocols are open string types as in the code.
  \<^item> \<^verbatim>\<open>Group_Cycle\<close>, \<^verbatim>\<open>Validate\<close>, \<^verbatim>\<open>Validate_Spec\<close>: \<^verbatim>\<open>model/validate.go\<close>. The validator keeps the order of the source's
    loops and returns the first error as a value. The depth-first cycle search is a function with a termination
    proof (no fuel). It accepts exactly the acyclic graphs, the validator accepts exactly the profiles that
    satisfy the declarative \<^verbatim>\<open>profile_ok\<close>, and in an accepted profile every group can reach an endpoint.
  \<^item> \<^verbatim>\<open>Atomicfile\<close>: \<^verbatim>\<open>atomicfile/atomicfile.go\<close> over an explicit file system in which every system call may fail and
    every intermediate state may be the last one before a power loss. A write is atomic; a completed write is
    what a reader sees. The locale \<^verbatim>\<open>durable_cell\<close> is what clients need of it.
  \<^item> \<^verbatim>\<open>Store\<close>, \<^verbatim>\<open>Store_Spec\<close>: every operation of \<^verbatim>\<open>store/store.go\<close>. Each is a pure edit of the profile that takes effect in
    memory only when it has reached the disk (locale \<^verbatim>\<open>persist_then_commit\<close>); file and memory agree after every
    history of operations and failures, power loss included; deletions keep a valid profile valid.
  \<^item> \<^verbatim>\<open>Failsafe\<close>: \<^verbatim>\<open>failsafe/failsafe.go\<close>, one function per critical section of the manager. A sustained outage is rolled
    back, a healthy window is left alone, and no window acts without an outage of the configured length.
    \<^verbatim>\<open>Failsafe_Run\<close> adds the goroutines and the closures of \<^verbatim>\<open>server/failsafe.go\<close> as an inductive step relation with all
    interleavings: a rollback fires at most once per window and never undoes a newer Apply.
  \<^item> \<^verbatim>\<open>Core\<close>: \<^verbatim>\<open>core/singbox.go\<close>, the supervisor of the sing-box process with its log ring, its life cycle and the
    configuration snapshots. \<^verbatim>\<open>Watchdog\<close>: \<^verbatim>\<open>watchdog/watchdog.go\<close> on the interface \<^verbatim>\<open>supervisor\<close> (a locale), which the
    supervisor of \<^verbatim>\<open>Core\<close> implements: exponential backoff up to a bound, whenever the checks come, and a stopped core is
    never brought back. \<^verbatim>\<open>Stop\<close> releases its lock while it waits for the process, so it is two steps of a history: a start
    in between runs a second process, and every process beyond the supervised one belongs to a stop in progress.
  \<^item> \<^verbatim>\<open>Pbr_Prefix\<close>, \<^verbatim>\<open>Pbr\<close>, \<^verbatim>\<open>Pbr_Spec\<close>: \<^verbatim>\<open>pbr/pbr.go\<close>, from list entries to the routing plan. Marks are 32-bit words. The locale
    \<^verbatim>\<open>zone_invariant\<close> carries an invariant through the compiler's passes and is interpreted once for each invariant.
  \<^item> \<^verbatim>\<open>Pbr_Render\<close>: the text that \<^verbatim>\<open>pbr/render.go\<close> writes, byte for byte, and the sequence of commands of \<^verbatim>\<open>pbr/apply.go\<close> with
    the command runner as an argument. \<^verbatim>\<open>Pbr_Nft\<close> gives the marking chain as statements, shows that the text is
    their rendering, and runs them on packets; \<^verbatim>\<open>Ip_Cmd\<close> and \<^verbatim>\<open>Pbr_Kernel\<close> do the same for the \<^verbatim>\<open>ip\<close> commands over a model
    of the kernel's rules and routing tables.
  \<^item> \<^verbatim>\<open>Pbr_Path\<close>: the plane as a whole. A packet leaves through the egress of the last zone that captures it, a
    connection keeps its egress, installing is idempotent and tearing down restores what was there.
  \<^item> \<^verbatim>\<open>Go_Encoding\<close>: base64, \<^verbatim>\<open>strconv.Atoi\<close> and \<^verbatim>\<open>time.ParseDuration\<close> (with exact fractions), and that decoding inverts encoding.
  \<^item> \<^verbatim>\<open>Gen_Outbound\<close>: the part of \<^verbatim>\<open>generator/singbox.go\<close> that turns one endpoint or group into a JSON object. A Go
    map is an association list in which a key is put once; a parameter of an endpoint is a value of \<^verbatim>\<open>pval\<close>.
    \<^verbatim>\<open>Gen_Outbound_Spec\<close> states, as \<^verbatim>\<open>outbound_accepted\<close>, what the guards of that file promise of the optional parts of an
    outbound, and proves it for every endpoint; keys survive their normalisation.
  \<^item> \<^verbatim>\<open>Generator\<close>: the rest of \<^verbatim>\<open>generator/singbox.go\<close> (route, rule sets, inbounds, the hybrid partition) and
    \<^verbatim>\<open>generator/native_only.go\<close>. \<^verbatim>\<open>Generator_Spec\<close>: the reachability search, whose termination needs no fuel, is exact.
    \<^verbatim>\<open>Generator_Refs\<close>: the undeclared references of a configuration are exactly two kinds (downloads over block, and in
    hybrid mode kernel tunnels that no part of the core reaches), and no tag is declared twice. \<^verbatim>\<open>Generator_Policy\<close>: running
    the emitted rules gives the decision the profile asks for, where what a matcher matches is an arbitrary
    predicate; no rule falls between the core and the kernel plane, and when the core may be skipped nothing is
    lost, both for IPv4 destinations.
    \<^verbatim>\<open>Generator_Examples\<close> holds concrete profiles: the witnesses, and the configurations for which a condition of the
    theorems fails.
  \<^item> \<^verbatim>\<open>Pbr_Server\<close>: \<^verbatim>\<open>server/profile.go\<close> and \<^verbatim>\<open>server/pbr.go\<close> as far as they drive the plane. What they need of the runner is
    the locale \<^verbatim>\<open>plane_runner\<close>, discharged by the kernel model. A teardown request takes the plan out
    under the lock and runs its commands after releasing it, so it is two steps of a history: what is on the kernel
    belongs to the recorded plan or to a pending teardown, and a rollback returns to the baseline.
  \<^item> \<^verbatim>\<open>Plugin\<close>, \<^verbatim>\<open>Plugin_Spec\<close>: \<^verbatim>\<open>plugin/plugin.go\<close> and \<^verbatim>\<open>plugin/nfqws.go\<close>, the engines beside sing-box. The host (files,
    interfaces, processes) is a record and every command may fail. Bringing an interface up is all or nothing, after any
    history of synchronisations, supervision ticks, shutdowns and process exits the manager accounts for every process and
    interface, one synchronisation brings up what is asked for, and one tick brings back what died.
  \<^item> \<^verbatim>\<open>Server_Apply\<close>, \<^verbatim>\<open>Server_Apply_Spec\<close>, \<^verbatim>\<open>Server_Apply_Examples\<close>: Apply in \<^verbatim>\<open>server/profile.go\<close> and the rollback of
    \<^verbatim>\<open>server/failsafe.go\<close>, which drive all the components above. An Apply is all or nothing for what is live; a rollback undoes a
    whole window of Applies (relation \<^verbatim>\<open>in_window\<close>, invariant \<^verbatim>\<open>rollback_targets\<close>); two theorems state where it does not.
  \<^item> \<^verbatim>\<open>Go_Url\<close>, \<^verbatim>\<open>Go_Url_Parse\<close>: what the program uses of Go's \<^verbatim>\<open>net/url\<close> and \<^verbatim>\<open>net\<close> (escaping, query strings, parsing and
    printing of URLs, host and port), with the lemma that parsing inverts printing.
  \<^item> \<^verbatim>\<open>Importer\<close>, \<^verbatim>\<open>Importer_Parse\<close>: \<^verbatim>\<open>importer/importer.go\<close>, \<^verbatim>\<open>conf.go\<close>, \<^verbatim>\<open>olcrtc.go\<close>, \<^verbatim>\<open>subscription.go\<close> and \<^verbatim>\<open>dedupe.go\<close>, from
    the text of a link, a WireGuard file or a list of links to endpoints. \<^verbatim>\<open>Exporter\<close>: \<^verbatim>\<open>exporter/exporter.go\<close>, the other way.
    Whole Clash and sing-box documents are recognised as in \<^verbatim>\<open>clash.go\<close> and \<^verbatim>\<open>singbox_config.go\<close>; their parsers, and
    JSON decoding and printing (\<^verbatim>\<open>json_lib\<close>), are arguments. \<^verbatim>\<open>Importer_Spec\<close>: what every imported endpoint satisfies, and that a
    subscription accounts for each of its lines. \<^verbatim>\<open>Link_Roundtrip\<close>: for the six link protocols the exported link imports as
    the same endpoint, each field by a lemma on the query of the link (\<^verbatim>\<open>link_roundtrip\<close>).
  \<^item> \<^verbatim>\<open>Subscription\<close>: \<^verbatim>\<open>server/subscription.go\<close>, \<^verbatim>\<open>server/subrefresh.go\<close> and the handlers of \<^verbatim>\<open>server/profile.go\<close> that import. The
    network is an argument. \<^verbatim>\<open>Subscription_Spec\<close>: a served list imports on another router as the same endpoints.
    \<^verbatim>\<open>Subscription_Refresh\<close>: a refresh only adds and is idempotent. \<^verbatim>\<open>Subscription_Guard\<close>: the token, and the guard of outgoing
    dials against every form of an internal address. \<^verbatim>\<open>Subscription_Examples\<close>: the witnesses, and where a refresh or a bulk
    import overwrites an endpoint it means to keep.

  \<^bold>\<open>Assumptions.\<close> sing-box, nftables, \<^verbatim>\<open>iproute2\<close> and the kernel are not part of the program. Their behaviour enters as
  arguments: the fault record of a write, the verdicts of the fail-safe's checks, the answers of process
  creation, and the command runner. The kernel model \<^verbatim>\<open>kernel_run\<close> is the runner on which the routing theorems are
  stated; it fixes the documented meaning of the few commands the program issues (rules are walked by
  priority, a rule whose table has no usable route is skipped, \<^verbatim>\<open>nft -f\<close> is one transaction) and reads commands from
  their words. What sing-box accepts is stated as far as the comments of the generator document it; the supervisor
  handles a configuration as an opaque string.

  \<^bold>\<open>Bounds.\<close> There is no fuel in the model: every function terminates, and the goroutines are steps of a
  relation. With the default layout, firewall marks are distinct for at most 255 egresses (the range of the mark
  mask) and routing tables for at most 104 (the next one is the main table), so the theorems on the routing
  plane carry the bound of 104; beyond it the numbering overflows (\<^verbatim>\<open>egress_numbering_overflows\<close>). Times are
  integers and durations nanoseconds, as in Go.

  \<^bold>\<open>Not modelled.\<close> The parsers of whole Clash and sing-box documents (arguments of \<^verbatim>\<open>ParseSubscription\<close>) and the Clash
  exporter, the title of a subscription, the updater, server provisioning over SSH, the Keenetic adapter, the health
  monitor, the HTTP layer with its JSON encoding, diagnostics and the web interface. Most of them are calls of external
  services and programs.
\<close>

end
